(* ===== verification/Prelude.thy ===== *)
theory Prelude
  imports Main "HOL-Library.Word" "HOL-Library.Sublist"
begin

text \<open>
  Shared vocabulary of the development: the parts of the Rust standard library the server uses
  (\<open>Result\<close>, byte strings, integer parsing and printing), the \<open>serde_json\<close> value type, and the
  generic lemmas the component theories rest on.

  A Rust \<open>str\<close> or \<open>String\<close> is its UTF-8 byte sequence, so it is modelled as a HOL \<open>string\<close>, whose
  characters are 8-bit values, and \<open>len()\<close> is \<open>length\<close>. The operations that Rust defines on Unicode
  scalar values (\<open>trim\<close>, \<open>char::is_control\<close>, \<open>char::is_whitespace\<close>) work on the groups of bytes
  that encode one scalar value.
\<close>

named_theorems result_elims
named_theorems ascii_defs
named_theorems str_facts


section \<open>Result\<close>

text \<open>\<open>Result<T, E>\<close> is \<open>E + T\<close>: \<open>Inl\<close> carries the error. \<open>result_bind\<close> is the \<open>?\<close> operator.\<close>

definition result_bind :: "'e + 'a \<Rightarrow> ('a \<Rightarrow> 'e + 'b) \<Rightarrow> 'e + 'b" where
  "result_bind m f = (case m of Inl e \<Rightarrow> Inl e | Inr x \<Rightarrow> f x)"

definition ok_or :: "'a option \<Rightarrow> 'e \<Rightarrow> 'e + 'a" where
  "ok_or x e = (case x of None \<Rightarrow> Inl e | Some y \<Rightarrow> Inr y)"

definition map_err :: "('e \<Rightarrow> 'f) \<Rightarrow> 'e + 'a \<Rightarrow> 'f + 'a" where
  "map_err f m = (case m of Inl e \<Rightarrow> Inl (f e) | Inr x \<Rightarrow> Inr x)"

definition check :: "bool \<Rightarrow> 'e \<Rightarrow> 'e + unit" where
  "check b e = (if b then Inr () else Inl e)"

definition result_ok :: "'e + 'a \<Rightarrow> 'a option" where
  "result_ok m = (case m of Inl _ \<Rightarrow> None | Inr x \<Rightarrow> Some x)"

text \<open>\<open>Option<T>.map(f).transpose()\<close> and \<open>iter.map(f).collect::<Result<Vec<_>, _>>()\<close>.\<close>

definition option_try :: "('a \<Rightarrow> 'e + 'b) \<Rightarrow> 'a option \<Rightarrow> 'e + 'b option" where
  "option_try f x = (case x of None \<Rightarrow> Inr None | Some y \<Rightarrow> result_bind (f y) (\<lambda>z. Inr (Some z)))"

fun list_try :: "('a \<Rightarrow> 'e + 'b) \<Rightarrow> 'a list \<Rightarrow> 'e + 'b list" where
  "list_try f [] = Inr []"
| "list_try f (x # xs) = result_bind (f x) (\<lambda>y. result_bind (list_try f xs) (\<lambda>ys. Inr (y # ys)))"

lemma result_bind_simps [simp]:
  "result_bind (Inl e) f = Inl e"
  "result_bind (Inr x) f = f x"
  by (simp_all add: result_bind_def)

lemma result_bind_Inr_iff [result_elims]:
  "result_bind m f = Inr y \<longleftrightarrow> (\<exists>x. m = Inr x \<and> f x = Inr y)"
  by (cases m) auto

lemma result_bind_Inl_iff [result_elims]:
  "result_bind m f = Inl e \<longleftrightarrow> m = Inl e \<or> (\<exists>x. m = Inr x \<and> f x = Inl e)"
  by (cases m) auto

lemma result_bind_split:
  "P (result_bind m f) \<longleftrightarrow> (\<forall>e. m = Inl e \<longrightarrow> P (Inl e)) \<and> (\<forall>x. m = Inr x \<longrightarrow> P (f x))"
  by (cases m) auto

lemma ok_or_simps [simp]:
  "ok_or None e = Inl e"
  "ok_or (Some x) e = Inr x"
  by (simp_all add: ok_or_def)

lemma ok_or_iff [result_elims]:
  "ok_or x e = Inr y \<longleftrightarrow> x = Some y"
  "ok_or x e = Inl e' \<longleftrightarrow> x = None \<and> e' = e"
  by (cases x; auto)+

lemma check_simps [simp]:
  "check True e = Inr ()"
  "check False e = Inl e"
  by (simp_all add: check_def)

lemma check_iff [result_elims]:
  "check b e = Inr u \<longleftrightarrow> b"
  "check b e = Inl e' \<longleftrightarrow> \<not> b \<and> e' = e"
  by (cases b; auto)+

lemma map_err_simps [simp]:
  "map_err f (Inl e) = Inl (f e)"
  "map_err f (Inr x) = Inr x"
  by (simp_all add: map_err_def)

lemma map_err_iff [result_elims]:
  "map_err f m = Inr y \<longleftrightarrow> m = Inr y"
  "map_err f m = Inl e' \<longleftrightarrow> (\<exists>e. m = Inl e \<and> e' = f e)"
  by (cases m; auto)+

lemma result_ok_simps [simp]:
  "result_ok (Inl e) = None"
  "result_ok (Inr x) = Some x"
  by (simp_all add: result_ok_def)

lemma if_Inl_Inr_iff [result_elims]: "(if b then Inl e else x) = Inr y \<longleftrightarrow> \<not> b \<and> x = Inr y"
  by simp

lemma option_try_simps [simp]:
  "option_try f None = Inr None"
  "option_try f (Some x) = result_bind (f x) (\<lambda>z. Inr (Some z))"
  by (simp_all add: option_try_def)

lemma option_try_iff [result_elims]:
  "option_try f x = Inr y \<longleftrightarrow>
     (x = None \<and> y = None) \<or> (\<exists>a b. x = Some a \<and> y = Some b \<and> f a = Inr b)"
  by (cases x) (auto simp: result_bind_Inr_iff)

lemma list_try_iff [result_elims]:
  "list_try f xs = Inr ys \<longleftrightarrow> list_all2 (\<lambda>x y. f x = Inr y) xs ys"
  by (induction xs arbitrary: ys) (auto simp: result_bind_Inr_iff list_all2_Cons1)

lemma list_try_length: "list_try f xs = Inr ys \<Longrightarrow> length ys = length xs"
  by (auto simp: list_try_iff dest: list_all2_lengthD)

lemma list_try_total: "(\<And>x. x \<in> set xs \<Longrightarrow> f x = Inr (g x)) \<Longrightarrow> list_try f xs = Inr (map g xs)"
  by (induction xs) auto

lemma list_try_error: "list_try f xs = Inl e \<Longrightarrow> \<exists>x\<in>set xs. f x = Inl e"
  by (induction xs) (auto simp: result_bind_Inl_iff)


section \<open>Bytes and ASCII classes\<close>

abbreviation byte :: "char \<Rightarrow> nat" where
  "byte c \<equiv> of_char c"

definition is_ascii_digit :: "char \<Rightarrow> bool" where
  [ascii_defs]: "is_ascii_digit c \<longleftrightarrow> 48 \<le> byte c \<and> byte c \<le> 57"

definition is_ascii_upper :: "char \<Rightarrow> bool" where
  [ascii_defs]: "is_ascii_upper c \<longleftrightarrow> 65 \<le> byte c \<and> byte c \<le> 90"

definition is_ascii_lower :: "char \<Rightarrow> bool" where
  [ascii_defs]: "is_ascii_lower c \<longleftrightarrow> 97 \<le> byte c \<and> byte c \<le> 122"

definition is_ascii_alphabetic :: "char \<Rightarrow> bool" where
  [ascii_defs]: "is_ascii_alphabetic c \<longleftrightarrow> is_ascii_upper c \<or> is_ascii_lower c"

definition is_ascii_alphanumeric :: "char \<Rightarrow> bool" where
  [ascii_defs]: "is_ascii_alphanumeric c \<longleftrightarrow> is_ascii_alphabetic c \<or> is_ascii_digit c"

text \<open>\<open>u8::is_ascii_whitespace\<close> (tab, line feed, form feed, carriage return, space),
  \<open>u8::is_ascii_control\<close> and \<open>u8::is_ascii_graphic\<close>.\<close>

definition is_ascii_whitespace :: "char \<Rightarrow> bool" where
  [ascii_defs]: "is_ascii_whitespace c \<longleftrightarrow> byte c \<in> {9, 10, 12, 13, 32}"

definition is_ascii_control :: "char \<Rightarrow> bool" where
  [ascii_defs]: "is_ascii_control c \<longleftrightarrow> byte c < 32 \<or> byte c = 127"

definition is_ascii_graphic :: "char \<Rightarrow> bool" where
  [ascii_defs]: "is_ascii_graphic c \<longleftrightarrow> 33 \<le> byte c \<and> byte c \<le> 126"

definition is_ascii :: "string \<Rightarrow> bool" where
  "is_ascii s \<longleftrightarrow> list_all (\<lambda>c. byte c < 128) s"

definition ascii_lower :: "char \<Rightarrow> char" where
  "ascii_lower c = (if is_ascii_upper c then char_of (byte c + 32) else c)"

definition to_ascii_lowercase :: "string \<Rightarrow> string" where
  "to_ascii_lowercase s = map ascii_lower s"

definition eq_ignore_ascii_case :: "string \<Rightarrow> string \<Rightarrow> bool" where
  "eq_ignore_ascii_case a b \<longleftrightarrow> to_ascii_lowercase a = to_ascii_lowercase b"

lemma length_to_ascii_lowercase [simp]: "length (to_ascii_lowercase s) = length s"
  by (simp add: to_ascii_lowercase_def)

lemma is_ascii_append [simp]: "is_ascii (a @ b) \<longleftrightarrow> is_ascii a \<and> is_ascii b"
  by (simp add: is_ascii_def)


section \<open>Unicode scalar values inside a UTF-8 string\<close>

text \<open>A continuation byte is \<open>10xxxxxx\<close>; \<open>chars\<close> groups every other byte with the continuation
  bytes that follow it. On well-formed UTF-8, which every Rust \<open>str\<close> is, the groups are exactly the
  encoded scalar values in order.\<close>

definition is_continuation :: "char \<Rightarrow> bool" where
  "is_continuation c \<longleftrightarrow> 128 \<le> byte c \<and> byte c < 192"

function chars :: "string \<Rightarrow> string list" where
  "chars [] = []"
| "chars (c # cs) = (c # takeWhile is_continuation cs) # chars (dropWhile is_continuation cs)"
  by pat_completeness auto
termination
  by (relation "measure length") (simp_all add: le_imp_less_Suc length_dropWhile_le)

text \<open>\<open>char::is_whitespace\<close>: the Unicode \<open>White_Space\<close> property; \<open>char::is_control\<close>: category Cc,
  that is U+0000..U+001F and U+007F..U+009F.\<close>

fun is_whitespace :: "string \<Rightarrow> bool" where
  "is_whitespace [c] = (9 \<le> byte c \<and> byte c \<le> 13 \<or> byte c = 32)"
| "is_whitespace [c, d] = (byte c = 194 \<and> (byte d = 133 \<or> byte d = 160))"
| "is_whitespace [c, d, e] =
     ((byte c = 225 \<and> byte d = 154 \<and> byte e = 128) \<or>
      (byte c = 226 \<and> byte d = 128 \<and>
         (128 \<le> byte e \<and> byte e \<le> 138 \<or> byte e = 168 \<or> byte e = 169 \<or> byte e = 175)) \<or>
      (byte c = 226 \<and> byte d = 129 \<and> byte e = 159) \<or>
      (byte c = 227 \<and> byte d = 128 \<and> byte e = 128))"
| "is_whitespace _ = False"

fun is_control :: "string \<Rightarrow> bool" where
  "is_control [c] = (byte c < 32 \<or> byte c = 127)"
| "is_control [c, d] = (byte c = 194 \<and> 128 \<le> byte d \<and> byte d \<le> 159)"
| "is_control _ = False"

definition trim :: "string \<Rightarrow> string" where
  "trim s = concat (rev (dropWhile is_whitespace (rev (dropWhile is_whitespace (chars s)))))"

definition split_whitespace :: "string \<Rightarrow> string list" where
  "split_whitespace s =
     (let f = (\<lambda>g (cur, acc). if is_whitespace g
                 then ([], if cur = [] then acc else cur # acc) else (g @ cur, acc));
          (cur, acc) = foldr f (chars s) ([], [])
      in if cur = [] then acc else cur # acc)"

lemma concat_chars [simp]: "concat (chars s) = s"
  by (induction s rule: chars.induct) auto

lemma chars_nonempty: "g \<in> set (chars s) \<Longrightarrow> g \<noteq> []"
  by (induction s rule: chars.induct) auto

lemma chars_eq_Nil [simp]: "chars s = [] \<longleftrightarrow> s = []"
  by (cases s) auto

lemma length_chars_le: "length (chars s) \<le> length s"
proof (induction s rule: chars.induct)
  case (2 c cs)
  have "length (dropWhile is_continuation cs) \<le> length cs" by (rule length_dropWhile_le)
  with 2 show ?case by simp
qed simp

lemma chars_ascii: "is_ascii s \<Longrightarrow> chars s = map (\<lambda>c. [c]) s"
proof (induction s)
  case (Cons c cs)
  then have "takeWhile is_continuation cs = []"
    by (cases cs) (auto simp: is_ascii_def is_continuation_def)
  moreover from this have "dropWhile is_continuation cs = cs"
    by (metis append_Nil takeWhile_dropWhile_id)
  ultimately show ?case using Cons by (simp add: is_ascii_def)
qed simp

lemma set_trim_subset: "set (trim s) \<subseteq> set s"
proof -
  have "set (trim s) \<subseteq> set (concat (chars s))"
    by (auto simp: trim_def simp del: concat_chars dest!: set_dropWhileD)
  then show ?thesis by simp
qed

lemma length_trim_le: "length (trim s) \<le> length s"
proof -
  obtain a where a: "chars s = a @ dropWhile is_whitespace (chars s)"
    by (metis takeWhile_dropWhile_id)
  let ?m = "dropWhile is_whitespace (chars s)"
  obtain b where "rev ?m = b @ dropWhile is_whitespace (rev ?m)"
    by (metis takeWhile_dropWhile_id)
  then have b: "?m = rev (dropWhile is_whitespace (rev ?m)) @ rev b"
    by (metis rev_append rev_rev_ident)
  have "length s = length (concat a) + length (concat ?m)"
    using arg_cong [OF a, of "\<lambda>x. length (concat x)"] by simp
  also have "length (concat ?m) = length (trim s) + length (concat (rev b))"
    using arg_cong [OF b, of "\<lambda>x. length (concat x)"] by (simp add: trim_def)
  finally show ?thesis by simp
qed

lemma chars_concat_drop: "chars (concat (drop n (chars s))) = drop n (chars s)"
proof (induction n arbitrary: s)
  case (Suc n)
  then show ?case by (cases s) auto
qed simp

lemma chars_Cons_append:
  assumes "list_all is_continuation cs" and "xs = [] \<or> \<not> is_continuation (hd xs)"
  shows "chars (c # cs @ xs) = (c # cs) # chars xs"
proof -
  have "takeWhile is_continuation (cs @ xs) = cs" and "dropWhile is_continuation (cs @ xs) = xs"
    using assms by (cases xs; simp add: list_all_iff takeWhile_append dropWhile_append)+
  then show ?thesis by simp
qed

lemma concat_take_chars_start:
  assumes "s = [] \<or> \<not> is_continuation (hd s)"
  shows "concat (take n (chars s)) = [] \<or> \<not> is_continuation (hd (concat (take n (chars s))))"
  using assms by (cases n; cases s) auto

lemma chars_concat_take: "chars (concat (take n (chars s))) = take n (chars s)"
proof (induction n arbitrary: s)
  case (Suc n)
  show ?case
  proof (cases s)
    case (Cons c cs)
    let ?tw = "takeWhile is_continuation cs" and ?rest = "dropWhile is_continuation cs"
    have start: "?rest = [] \<or> \<not> is_continuation (hd ?rest)"
      using hd_dropWhile [of is_continuation cs] by blast
    have tw: "list_all is_continuation ?tw"
      by (auto simp: list_all_iff dest: set_takeWhileD)
    have "concat (take (Suc n) (chars s)) = c # ?tw @ concat (take n (chars ?rest))"
      by (simp add: Cons)
    also have "chars \<dots> = (c # ?tw) # chars (concat (take n (chars ?rest)))"
      by (rule chars_Cons_append [OF tw concat_take_chars_start [OF start]])
    also have "\<dots> = take (Suc n) (chars s)" by (simp add: Cons Suc)
    finally show ?thesis .
  qed simp
qed simp

lemma rev_dropWhile_rev_take: "\<exists>k. rev (dropWhile P (rev xs)) = take k xs"
proof -
  have "xs = rev (dropWhile P (rev xs)) @ rev (takeWhile P (rev xs))"
    by (metis rev_append rev_rev_ident takeWhile_dropWhile_id)
  then show ?thesis by (metis append_eq_conv_conj)
qed

lemma chars_trim: "chars (trim s) = rev (dropWhile is_whitespace (rev (dropWhile is_whitespace (chars s))))"
proof -
  let ?m = "dropWhile is_whitespace (chars s)"
  have "chars (concat ?m) = ?m"
    using chars_concat_drop [of "length (takeWhile is_whitespace (chars s))" s]
    by (simp add: dropWhile_eq_drop)
  moreover obtain k where "rev (dropWhile is_whitespace (rev ?m)) = take k ?m"
    using rev_dropWhile_rev_take by blast
  ultimately show ?thesis
    using chars_concat_take [of k "concat ?m"] by (simp add: trim_def)
qed

lemma dropWhile_rev_dropWhile:
  "dropWhile P (rev (dropWhile P (rev (dropWhile P xs)))) = rev (dropWhile P (rev (dropWhile P xs)))"
proof -
  let ?m = "dropWhile P xs"
  obtain k where k: "rev (dropWhile P (rev ?m)) = take k ?m"
    using rev_dropWhile_rev_take by blast
  have "dropWhile P (take k ?m) = take k ?m"
  proof (cases ?m)
    case (Cons y ys)
    then have "\<not> P y" using hd_dropWhile [of P xs] by simp
    then show ?thesis by (cases k) (simp_all add: Cons)
  next
    case Nil
    then show ?thesis by (simp only: take_Nil dropWhile.simps)
  qed
  then show ?thesis by (simp only: k)
qed

lemma trim_trim [simp]: "trim (trim s) = trim s"
proof -
  have "trim (trim s) = concat (rev (dropWhile is_whitespace (rev (dropWhile is_whitespace (chars (trim s))))))"
    by (rule trim_def)
  also have "\<dots> = concat (rev (dropWhile is_whitespace (rev (dropWhile is_whitespace (chars s)))))"
    by (simp only: chars_trim dropWhile_rev_dropWhile rev_rev_ident dropWhile_idem)
  also have "\<dots> = trim s" by (rule trim_def [symmetric])
  finally show ?thesis .
qed


text \<open>Strings of printable ASCII bytes are their own trimmed form and hold no control character.\<close>

lemma graphic_ascii: "list_all is_ascii_graphic s \<Longrightarrow> is_ascii s"
  by (auto simp: is_ascii_def is_ascii_graphic_def list_all_iff)

lemma graphic_groups:
  assumes "list_all is_ascii_graphic s" and "g \<in> set (chars s)"
  shows "\<not> is_whitespace g" "\<not> is_control g"
  using assms by (auto simp: chars_ascii [OF graphic_ascii] list_all_iff is_ascii_graphic_def)

lemma trim_graphic: "list_all is_ascii_graphic s \<Longrightarrow> trim s = s"
proof -
  assume s: "list_all is_ascii_graphic s"
  have "dropWhile is_whitespace xs = xs" if "set xs \<subseteq> set (chars s)" for xs
    using that graphic_groups(1) [OF s] by (cases xs) auto
  then show ?thesis by (simp add: trim_def)
qed

lemma no_control_graphic: "list_all is_ascii_graphic s \<Longrightarrow> list_all (\<lambda>g. \<not> is_control g) (chars s)"
  using graphic_groups(2) by (auto simp: list_all_iff)


section \<open>String operations\<close>

definition starts_with :: "string \<Rightarrow> string \<Rightarrow> bool" where
  "starts_with s p \<longleftrightarrow> prefix p s"

definition ends_with :: "string \<Rightarrow> string \<Rightarrow> bool" where
  "ends_with s p \<longleftrightarrow> suffix p s"

definition strip_prefix :: "string \<Rightarrow> string \<Rightarrow> string option" where
  "strip_prefix s p = (if prefix p s then Some (drop (length p) s) else None)"

definition strip_suffix :: "string \<Rightarrow> string \<Rightarrow> string option" where
  "strip_suffix s p = (if suffix p s then Some (take (length s - length p) s) else None)"

fun contains_sub :: "string \<Rightarrow> string \<Rightarrow> bool" where
  "contains_sub [] p = (p = [])"
| "contains_sub (c # cs) p = (prefix p (c # cs) \<or> contains_sub cs p)"

text \<open>\<open>str::split(c)\<close> for a one-byte separator: never empty, a separator more gives a piece more.\<close>

fun split_on :: "char \<Rightarrow> string \<Rightarrow> string list" where
  "split_on d [] = [[]]"
| "split_on d (c # cs) =
     (if c = d then [] # split_on d cs
      else (case split_on d cs of [] \<Rightarrow> [[c]] | w # ws \<Rightarrow> (c # w) # ws))"

fun split_once :: "char \<Rightarrow> string \<Rightarrow> (string \<times> string) option" where
  "split_once d [] = None"
| "split_once d (c # cs) =
     (if c = d then Some ([], cs)
      else (case split_once d cs of None \<Rightarrow> None | Some (a, b) \<Rightarrow> Some (c # a, b)))"

definition rsplit_once :: "char \<Rightarrow> string \<Rightarrow> (string \<times> string) option" where
  "rsplit_once d s = (case split_once d (rev s) of None \<Rightarrow> None | Some (a, b) \<Rightarrow> Some (rev b, rev a))"

fun join :: "string \<Rightarrow> string list \<Rightarrow> string" where
  "join sep [] = []"
| "join sep [w] = w"
| "join sep (w # ws) = w @ sep @ join sep ws"

lemma split_on_nonempty [simp]: "split_on d s \<noteq> []"
  by (induction s) (auto split: list.splits)

lemma split_on_no_sep: "w \<in> set (split_on d s) \<Longrightarrow> d \<notin> set w"
  by (induction s arbitrary: w) (auto split: if_splits list.splits)

lemma join_split_on: "join [d] (split_on d s) = s"
proof (induction s)
  case (Cons c cs)
  obtain w ws where w: "split_on d cs = w # ws" by (cases "split_on d cs") auto
  with Cons show ?case by (cases ws) (auto simp: w)
qed simp

lemma split_once_Some: "split_once d s = Some (a, b) \<Longrightarrow> s = a @ d # b \<and> d \<notin> set a"
  by (induction s arbitrary: a) (auto split: if_splits option.splits)

lemma split_once_None: "split_once d s = None \<longleftrightarrow> d \<notin> set s"
  by (induction s) (auto split: option.splits)

lemma split_once_append: "d \<notin> set a \<Longrightarrow> split_once d (a @ d # b) = Some (a, b)"
  by (induction a) auto

lemma append_sep_inject:
  fixes d :: char
  assumes "d \<notin> set a" and "d \<notin> set a'"
  shows "a @ d # b = a' @ d # b' \<longleftrightarrow> a = a' \<and> b = b'"
proof
  assume "a @ d # b = a' @ d # b'"
  then have "split_once d (a @ d # b) = split_once d (a' @ d # b')" by simp
  then show "a = a' \<and> b = b'" using assms by (simp add: split_once_append)
qed simp

lemma strip_prefix_Some: "strip_prefix s p = Some r \<longleftrightarrow> s = p @ r"
  by (auto simp: strip_prefix_def prefix_def)

lemma strip_prefix_append [simp]: "strip_prefix (p @ r) p = Some r"
  by (simp add: strip_prefix_Some)


section \<open>Printing and parsing of integers\<close>

abbreviation u64_max :: nat where "u64_max \<equiv> 18446744073709551615"
abbreviation i64_max :: int where "i64_max \<equiv> 9223372036854775807"
abbreviation i64_min :: int where "i64_min \<equiv> - 9223372036854775808"

definition digit_char :: "nat \<Rightarrow> char" where
  "digit_char d = char_of (48 + d)"

fun nat_to_string :: "nat \<Rightarrow> string" where
  "nat_to_string n = (if n < 10 then [digit_char n] else nat_to_string (n div 10) @ [digit_char (n mod 10)])"

declare nat_to_string.simps [simp del]

definition int_to_string :: "int \<Rightarrow> string" where
  "int_to_string i = (if i < 0 then CHR ''-'' # nat_to_string (nat (- i)) else nat_to_string (nat i))"

definition digits_value :: "string \<Rightarrow> nat" where
  "digits_value s = fold (\<lambda>c n. 10 * n + (byte c - 48)) s 0"

definition parse_digits :: "string \<Rightarrow> nat option" where
  "parse_digits s = (if s \<noteq> [] \<and> list_all is_ascii_digit s then Some (digits_value s) else None)"

text \<open>\<open>str::parse::<u64>()\<close> and \<open>str::parse::<i64>()\<close>: an optional sign (\<open>-\<close> for signed types only),
  at least one digit, no overflow.\<close>

definition parse_unsigned :: "nat \<Rightarrow> string \<Rightarrow> nat option" where
  "parse_unsigned bound s =
     (case parse_digits (case s of [] \<Rightarrow> [] | c # cs \<Rightarrow> if c = CHR ''+'' then cs else c # cs) of
        None \<Rightarrow> None | Some n \<Rightarrow> if n \<le> bound then Some n else None)"

definition parse_i64 :: "string \<Rightarrow> int option" where
  "parse_i64 s =
     (case s of [] \<Rightarrow> None
      | c # cs \<Rightarrow>
          (let v = (if c = CHR ''-'' then map_option (\<lambda>n. - int n) (parse_digits cs)
                    else if c = CHR ''+'' then map_option int (parse_digits cs)
                    else map_option int (parse_digits (c # cs)))
           in case v of None \<Rightarrow> None | Some i \<Rightarrow> if i64_min \<le> i \<and> i \<le> i64_max then Some i else None))"

lemma byte_digit_char [simp]: "d < 10 \<Longrightarrow> byte (digit_char d) = 48 + d"
  by (simp add: digit_char_def)

lemma digits_value_snoc: "digits_value (s @ [c]) = 10 * digits_value s + (byte c - 48)"
  by (simp add: digits_value_def)

lemma digits_value_nat_to_string [simp]: "digits_value (nat_to_string n) = n"
proof (induction n rule: nat_to_string.induct)
  case (1 n)
  show ?case
  proof (cases "n < 10")
    case True
    then show ?thesis by (simp add: nat_to_string.simps [of n] digits_value_def)
  next
    case False
    with 1 show ?thesis by (simp add: nat_to_string.simps [of n] digits_value_snoc)
  qed
qed

lemma nat_to_string_digits: "list_all is_ascii_digit (nat_to_string n) \<and> nat_to_string n \<noteq> []"
proof (induction n rule: nat_to_string.induct)
  case (1 n)
  then show ?case by (cases "n < 10") (simp_all add: nat_to_string.simps [of n] is_ascii_digit_def)
qed

lemma nat_to_string_inject [simp]: "nat_to_string m = nat_to_string n \<longleftrightarrow> m = n"
  by (metis digits_value_nat_to_string)

lemma parse_digits_nat_to_string [simp]: "parse_digits (nat_to_string n) = Some n"
  using nat_to_string_digits [of n] by (simp add: parse_digits_def)

lemma parse_i64_int_to_string:
  assumes "i64_min \<le> i" and "i \<le> i64_max"
  shows "parse_i64 (int_to_string i) = Some i"
proof (cases "i < 0")
  case True
  with assms show ?thesis by (simp add: int_to_string_def parse_i64_def)
next
  case False
  obtain c cs where s: "nat_to_string (nat i) = c # cs" and d: "is_ascii_digit c"
    using nat_to_string_digits [of "nat i"] by (cases "nat_to_string (nat i)") auto
  from d have "c \<noteq> CHR ''-''" and "c \<noteq> CHR ''+''" by (auto simp: is_ascii_digit_def)
  moreover have "parse_digits (c # cs) = Some (nat i)"
    by (metis s parse_digits_nat_to_string)
  ultimately show ?thesis using False assms by (simp add: int_to_string_def parse_i64_def s)
qed


section \<open>Hexadecimal\<close>

definition hex_digit :: "nat \<Rightarrow> char" where
  "hex_digit d = char_of (if d < 10 then 48 + d else 87 + d)"

text \<open>Every byte as two lower-case digits, as \<open>{byte:02x}\<close> prints it.\<close>

definition hex_lower :: "string \<Rightarrow> string" where
  "hex_lower bs = concat (map (\<lambda>c. [hex_digit (byte c div 16), hex_digit (byte c mod 16)]) bs)"

lemma byte_less_256: "byte c < 256"
  by (simp add: of_char_def)

lemma byte_hex_digit: "d < 16 \<Longrightarrow> byte (hex_digit d) = (if d < 10 then 48 + d else 87 + d)"
  by (simp add: hex_digit_def)

lemma length_hex_lower [simp]: "length (hex_lower bs) = 2 * length bs"
  by (induction bs) (simp_all add: hex_lower_def)

lemma hex_lower_simps [simp]:
  "hex_lower [] = []"
  "hex_lower (c # cs) = hex_digit (byte c div 16) # hex_digit (byte c mod 16) # hex_lower cs"
  by (simp_all add: hex_lower_def)

lemma hex_digit_inject: "a < 16 \<Longrightarrow> b < 16 \<Longrightarrow> hex_digit a = hex_digit b \<longleftrightarrow> a = b"
proof -
  assume ab: "a < 16" "b < 16"
  have "a = b" if "hex_digit a = hex_digit b"
    using arg_cong [OF that, of byte] ab by (auto simp: byte_hex_digit split: if_splits)
  then show ?thesis by auto
qed

lemma hex_lower_inject: "hex_lower xs = hex_lower ys \<longleftrightarrow> xs = ys"
proof (induction xs arbitrary: ys)
  case Nil
  then show ?case by (cases ys) auto
next
  case (Cons x xs)
  show ?case
  proof (cases ys)
    case (Cons y ys')
    have "byte x div 16 < 16" "byte y div 16 < 16" "byte x mod 16 < 16" "byte y mod 16 < 16"
      using byte_less_256 [of x] byte_less_256 [of y] by (simp_all add: less_mult_imp_div_less)
    moreover have "byte x div 16 = byte y div 16 \<and> byte x mod 16 = byte y mod 16 \<longleftrightarrow> x = y"
      by (metis char_of_char div_mult_mod_eq)
    ultimately show ?thesis by (simp add: Cons Cons.IH hex_digit_inject) blast
  qed simp
qed

end
