(* ===== verification/Machine.thy ===== *)
theory Machine
  imports Prelude
begin

text \<open>
  Deterministic state machines driven by a list of inputs: the interface that the shutdown reducer,
  the submission window, the circuit breaker and the ingest stores share. A component states its step
  function and its invariant once, by an interpretation, and the facts about whole runs come from
  here.
\<close>

fun run :: "('s \<Rightarrow> 'i \<Rightarrow> 's) \<Rightarrow> 's \<Rightarrow> 'i list \<Rightarrow> 's" where
  "run step s [] = s"
| "run step s (x # xs) = run step (step s x) xs"

lemma run_append [simp]: "run step s (xs @ ys) = run step (run step s xs) ys"
  by (induction xs arbitrary: s) auto

text \<open>Steps that also produce a result: the state after a run and the results in order.\<close>

fun run_out :: "('s \<Rightarrow> 'i \<Rightarrow> 'o \<times> 's) \<Rightarrow> 's \<Rightarrow> 'i list \<Rightarrow> 'o list \<times> 's" where
  "run_out f s [] = ([], s)"
| "run_out f s (x # xs) =
     (let (o1, s1) = f s x; (os, s2) = run_out f s1 xs in (o1 # os, s2))"

lemma length_fst_run_out [simp]: "length (fst (run_out f s xs)) = length xs"
  by (induction xs arbitrary: s) (simp_all add: Let_def case_prod_beta)

lemma snd_run_out: "snd (run_out f s xs) = run (\<lambda>s x. snd (f s x)) s xs"
  by (induction xs arbitrary: s) (simp_all add: Let_def case_prod_beta)

lemma run_out_append:
  "run_out f s (xs @ ys) =
     (fst (run_out f s xs) @ fst (run_out f (snd (run_out f s xs)) ys),
      snd (run_out f (snd (run_out f s xs)) ys))"
  by (induction xs arbitrary: s) (simp_all add: Let_def case_prod_beta)


section \<open>Machines with an invariant\<close>

locale machine =
  fixes step :: "'s \<Rightarrow> 'i \<Rightarrow> 's"
    and inv :: "'s \<Rightarrow> bool"
  assumes inv_step: "inv s \<Longrightarrow> inv (step s i)"
begin

lemma inv_run: "inv s \<Longrightarrow> inv (run step s is)"
  by (induction "is" arbitrary: s) (auto intro: inv_step)

text \<open>A relation between consecutive states that is reflexive and transitive holds across a run.\<close>

lemma run_related:
  assumes inv: "inv s"
    and one: "\<And>s i. inv s \<Longrightarrow> R s (step s i)"
    and refl: "\<And>s. R s s"
    and trans: "\<And>s t u. R s t \<Longrightarrow> R t u \<Longrightarrow> R s u"
  shows "R s (run step s is)"
  using inv
proof (induction "is" arbitrary: s)
  case Nil
  show ?case by (simp add: refl)
next
  case (Cons i is')
  have "R (step s i) (run step (step s i) is')" using Cons inv_step by blast
  with one [OF Cons.prems] show ?case by (auto intro: trans)
qed

end


section \<open>Machines that come to rest\<close>

text \<open>A machine whose state carries a rank that no step raises, and that changes only when the rank
  drops: it takes at most \<open>rank s\<close> effective steps, whatever inputs arrive.\<close>

fun effective :: "('s \<Rightarrow> 'i \<Rightarrow> 's) \<Rightarrow> 's \<Rightarrow> 'i list \<Rightarrow> nat" where
  "effective step s [] = 0"
| "effective step s (x # xs) = (if step s x = s then 0 else 1) + effective step (step s x) xs"

locale settling_machine = machine +
  fixes rank :: "'s \<Rightarrow> nat"
  assumes rank_step: "inv s \<Longrightarrow> step s i = s \<or> rank (step s i) < rank s"
begin

lemma rank_run_le: "inv s \<Longrightarrow> rank (run step s is) \<le> rank s"
proof (rule run_related [where R = "\<lambda>s t. rank t \<le> rank s"])
  fix s i assume "inv s"
  then show "rank (step s i) \<le> rank s" using rank_step [of s i] by auto
qed auto

lemma rank_zero_fixed: "inv s \<Longrightarrow> rank s = 0 \<Longrightarrow> run step s is = s"
proof (induction "is" arbitrary: s)
  case (Cons i is')
  then have "step s i = s" using rank_step [of s i] by auto
  with Cons show ?case by simp
qed simp

lemma effective_bound: "inv s \<Longrightarrow> effective step s is + rank (run step s is) \<le> rank s"
proof (induction "is" arbitrary: s)
  case (Cons i is')
  have "inv (step s i)" by (rule inv_step [OF Cons.prems])
  then have IH: "effective step (step s i) is' + rank (run step (step s i) is') \<le> rank (step s i)"
    by (rule Cons.IH)
  show ?case
  proof (cases "step s i = s")
    case True
    with IH show ?thesis by simp
  next
    case False
    with rank_step [OF Cons.prems, of i] have "rank (step s i) < rank s" by blast
    with IH False show ?thesis by simp
  qed
qed simp

end


section \<open>Refinement of machines with results\<close>

text \<open>The precondition \<open>ok\<close> is one on the abstract state, so that it can be discharged along the abstract run.\<close>

fun ok_run :: "('s \<Rightarrow> 'i \<Rightarrow> 'o \<times> 's) \<Rightarrow> ('s \<Rightarrow> 'i \<Rightarrow> bool) \<Rightarrow> 's \<Rightarrow> 'i list \<Rightarrow> bool" where
  "ok_run g ok t [] = True"
| "ok_run g ok t (x # xs) = (ok t x \<and> ok_run g ok (snd (g t x)) xs)"

locale refinement =
  fixes f :: "'s \<Rightarrow> 'i \<Rightarrow> 'o \<times> 's"
    and g :: "'t \<Rightarrow> 'i \<Rightarrow> 'o \<times> 't"
    and sim :: "'s \<Rightarrow> 't \<Rightarrow> bool"
    and ok :: "'t \<Rightarrow> 'i \<Rightarrow> bool"
  assumes simulates: "sim s t \<Longrightarrow> ok t i \<Longrightarrow> fst (f s i) = fst (g t i) \<and> sim (snd (f s i)) (snd (g t i))"
begin

lemma run_simulates:
  "sim s t \<Longrightarrow> ok_run g ok t is \<Longrightarrow>
    fst (run_out f s is) = fst (run_out g t is) \<and> sim (snd (run_out f s is)) (snd (run_out g t is))"
proof (induction "is" arbitrary: s t)
  case (Cons i is')
  then have "fst (f s i) = fst (g t i)" "sim (snd (f s i)) (snd (g t i))" using simulates by simp_all
  with Cons.IH [OF this(2)] Cons.prems(2) show ?case by (simp add: Let_def case_prod_beta)
qed simp

end

end
