(* ===== verification/Shutdown.thy ===== *)
theory Shutdown
  imports Machine
begin

text \<open>
  The shutdown controller of \<open>src/shutdown.rs\<close>: the pure reducer \<open>reduce\<close>, the body of the
  \<open>tokio::select!\<close> loop of \<open>serve_with_events\<close>, and the processes around the loop (signal streams, the
  deadline task, the stdin watcher, the HTTP server) as a step relation over a shared event channel.
  Clocks count nanoseconds.
\<close>

section \<open>The reducer\<close>

datatype phase = Running | Draining | Forcing | Stopped

datatype event = SigInt | SigTerm | Eof | Deadline | DrainFailed

definition is_signal :: "event \<Rightarrow> bool" where
  "is_signal e \<longleftrightarrow> e = SigInt \<or> e = SigTerm"

datatype action = NoAction | StartGraceful | Force

record shutdown_state =
  phase :: phase
  tty :: bool
  trigger :: "event option"
  signal_count :: nat
  forced_by :: "event option"

definition state_new :: "bool \<Rightarrow> shutdown_state" where
  "state_new t = \<lparr>phase = Running, tty = t, trigger = None, signal_count = 0, forced_by = None\<rparr>"

text \<open>\<open>u32::saturating_add(1)\<close>.\<close>

definition count_signal :: "nat \<Rightarrow> nat" where
  "count_signal n = min (n + 1) 4294967295"

definition reduce :: "shutdown_state \<Rightarrow> event \<Rightarrow> shutdown_state \<times> action" where
  "reduce state event =
     (case phase state of
        Stopped \<Rightarrow> (state, NoAction)
      | Forcing \<Rightarrow> (state, NoAction)
      | Running \<Rightarrow>
          if event = Eof then (state, NoAction)
          else if is_signal event then
            (state\<lparr>phase := Draining, trigger := Some event,
                   signal_count := count_signal (signal_count state)\<rparr>, StartGraceful)
          else if event = DrainFailed then
            (state\<lparr>phase := Forcing, trigger := Some event, forced_by := Some event\<rparr>, Force)
          else (state, NoAction)
      | Draining \<Rightarrow>
          let force = (event \<in> {Deadline, DrainFailed, SigInt, SigTerm}) \<or>
                      (event = Eof \<and> tty state \<and> trigger state = Some SigInt)
          in if \<not> force then (state, NoAction)
             else (state\<lparr>phase := Forcing, forced_by := Some event,
                         signal_count := (if is_signal event then count_signal (signal_count state)
                                          else signal_count state)\<rparr>, Force))"

definition wf_state :: "shutdown_state \<Rightarrow> bool" where
  "wf_state s \<longleftrightarrow>
     (case phase s of
        Running \<Rightarrow> trigger s = None \<and> signal_count s = 0 \<and> forced_by s = None
      | Draining \<Rightarrow> trigger s \<in> {Some SigInt, Some SigTerm} \<and> signal_count s = 1 \<and> forced_by s = None
      | _ \<Rightarrow>
          (case forced_by s of
             None \<Rightarrow> phase s = Stopped
           | Some e \<Rightarrow>
               (e = DrainFailed \<and> trigger s = Some DrainFailed \<and> signal_count s = 0) \<or>
               (trigger s \<in> {Some SigInt, Some SigTerm} \<and>
                signal_count s = (if is_signal e then 2 else 1) \<and>
                (e = Eof \<longrightarrow> tty s \<and> trigger s = Some SigInt))))"

definition phase_rank :: "shutdown_state \<Rightarrow> nat" where
  "phase_rank s = (case phase s of Running \<Rightarrow> 2 | Draining \<Rightarrow> 1 | _ \<Rightarrow> 0)"

lemmas reduce_defs = reduce_def is_signal_def count_signal_def wf_state_def phase_rank_def Let_def

lemma wf_state_new [simp]: "wf_state (state_new t)"
  by (simp add: wf_state_def state_new_def)

lemma reduce_wf: "wf_state s \<Longrightarrow> wf_state (fst (reduce s e))"
  by (cases "phase s"; cases e) (auto simp: reduce_defs)

lemma reduce_tty [simp]: "tty (fst (reduce s e)) = tty s"
  by (cases "phase s"; cases e) (auto simp: reduce_defs)

lemma reduce_rank: "fst (reduce s e) = s \<or> phase_rank (fst (reduce s e)) < phase_rank s"
  by (cases "phase s"; cases e) (auto simp: reduce_defs)

lemma reduce_not_stopped: "phase s \<noteq> Stopped \<Longrightarrow> phase (fst (reduce s e)) \<noteq> Stopped"
  by (cases "phase s"; cases e) (auto simp: reduce_defs)

lemma reduce_terminal [simp]:
  "phase s = Forcing \<Longrightarrow> reduce s e = (s, NoAction)"
  "phase s = Stopped \<Longrightarrow> reduce s e = (s, NoAction)"
  by (simp_all add: reduce_def)

lemma reduce_forces: "phase s = Draining \<Longrightarrow> e \<noteq> Eof \<Longrightarrow> phase (fst (reduce s e)) = Forcing"
  by (cases e) (auto simp: reduce_defs)

interpretation reducer: settling_machine "\<lambda>s e. fst (reduce s e)" wf_state phase_rank
  by unfold_locales (simp_all add: reduce_wf reduce_rank)

definition actions :: "shutdown_state \<Rightarrow> event list \<Rightarrow> action list" where
  "actions s es = filter (\<lambda>a. a \<noteq> NoAction) (fst (run_out (\<lambda>s e. prod.swap (reduce s e)) s es))"

lemma actions_simps [simp]:
  "actions s [] = []"
  "actions s (e # es) =
     (if snd (reduce s e) = NoAction then [] else [snd (reduce s e)]) @ actions (fst (reduce s e)) es"
  by (simp_all add: actions_def Let_def case_prod_beta)

lemma actions_terminal: "phase s = Forcing \<or> phase s = Stopped \<Longrightarrow> actions s es = []"
  by (induction es) auto

text \<open>What one step does, by the phase it starts in.\<close>

lemma reduce_draining_cases:
  assumes "phase s = Draining"
  obtains (ignore) "e = Eof" "reduce s e = (s, NoAction)"
  | (force) "phase (fst (reduce s e)) = Forcing" "snd (reduce s e) = Force"
      "forced_by (fst (reduce s e)) = Some e" "trigger (fst (reduce s e)) = trigger s"
  using assms by (cases "snd (reduce s e) = Force"; cases e)
    (auto simp: reduce_def Let_def split: if_splits)

lemma reduce_running_cases:
  assumes "phase s = Running"
  obtains (ignore) "e = Eof \<or> e = Deadline" "reduce s e = (s, NoAction)"
  | (drain) "is_signal e" "phase (fst (reduce s e)) = Draining" "snd (reduce s e) = StartGraceful"
      "forced_by (fst (reduce s e)) = forced_by s" "trigger (fst (reduce s e)) = Some e"
  | (force) "e = DrainFailed" "phase (fst (reduce s e)) = Forcing" "snd (reduce s e) = Force"
      "forced_by (fst (reduce s e)) = Some e" "trigger (fst (reduce s e)) = Some e"
  using assms by (cases e) (auto simp: reduce_def is_signal_def)

lemma actions_draining: "phase s = Draining \<Longrightarrow> actions s es \<in> {[], [Force]}"
proof (induction es)
  case (Cons e es)
  show ?case
    by (rule reduce_draining_cases [OF Cons.prems, of e]) (use Cons in \<open>auto simp: actions_terminal\<close>)
qed simp

lemma actions_running:
  "phase s = Running \<Longrightarrow> actions s es \<in> {[], [StartGraceful], [StartGraceful, Force], [Force]}"
proof (induction es)
  case (Cons e es)
  show ?case
  proof (rule reduce_running_cases [OF Cons.prems, of e])
    assume "phase (fst (reduce s e)) = Draining" "snd (reduce s e) = StartGraceful"
    then show ?thesis using actions_draining [of "fst (reduce s e)" es] by auto
  qed (use Cons in \<open>auto simp: actions_terminal\<close>)
qed simp

text \<open>Whatever sequence of lifecycle events arrives, the server starts at most one graceful drain
  and forces at most once, the drain coming first; the state changes at most twice, stays well formed
  (Ctrl-D forces only an interactive drain begun by SIGINT), and at most two operating-system signals
  are ever counted.\<close>

theorem shutdown_actions_bounded:
  "let step = (\<lambda>s e. fst (reduce s e)); final = run step (state_new t) es
   in actions (state_new t) es \<in> {[], [StartGraceful], [StartGraceful, Force], [Force]} \<and>
      effective step (state_new t) es \<le> 2 \<and> wf_state final \<and> signal_count final \<le> 2"
proof -
  let ?final = "run (\<lambda>s e. fst (reduce s e)) (state_new t) es"
  have wf: "wf_state ?final" by (rule reducer.inv_run) simp
  have "phase ?final \<noteq> Stopped"
    by (rule reducer.run_related [of "state_new t" "\<lambda>s u. phase s \<noteq> Stopped \<longrightarrow> phase u \<noteq> Stopped", THEN mp])
      (auto simp: reduce_not_stopped state_new_def wf_state_def)
  with wf have "signal_count ?final \<le> 2"
    by (cases "phase ?final") (auto simp: wf_state_def split: option.splits if_splits)
  moreover have "phase_rank (state_new t) = 2" by (simp add: phase_rank_def state_new_def)
  then have "effective (\<lambda>s e. fst (reduce s e)) (state_new t) es \<le> 2"
    using reducer.effective_bound [of "state_new t" es] by simp
  ultimately show ?thesis
    using wf actions_running [of "state_new t" es] by (simp add: Let_def state_new_def)
qed


section \<open>The serve loop\<close>

text \<open>The locals of \<open>serve_with_events\<close> that the loop changes. \<open>deadline_task\<close> records only whether the
  \<open>Option<JoinHandle>\<close> is \<open>Some\<close>. An iteration of the loop returns the calls it makes on the server
  handle and on the runtime, in order.\<close>

record serve_config =
  grace :: nat
  config_tty :: bool
  watch_stdin_eof :: bool

datatype outcome = Graceful | Forced event

record serve_locals =
  sl_state :: shutdown_state
  deadline_task :: bool
  eof_watcher_armed :: bool
  events_open :: bool

datatype effect = HandleGraceful | HandleShutdown | SpawnEofWatcher | SpawnDeadline nat | AbortDeadline

definition serve_init :: "serve_config \<Rightarrow> serve_locals" where
  "serve_init config =
     \<lparr>sl_state = state_new (config_tty config), deadline_task = False, eof_watcher_armed = False,
      events_open = True\<rparr>"

definition abort_deadline :: "serve_locals \<Rightarrow> effect list" where
  "abort_deadline l = (if deadline_task l then [AbortDeadline] else [])"

text \<open>The branch \<open>event = events_rx.recv(), if events_open\<close>.\<close>

definition serve_recv :: "serve_config \<Rightarrow> serve_locals \<Rightarrow> event option \<Rightarrow> serve_locals \<times> effect list" where
  "serve_recv config l received =
     (let l = (if received = None then l\<lparr>events_open := False\<rparr> else l);
          event = (case received of Some e \<Rightarrow> e | None \<Rightarrow> DrainFailed);
          (next, action) = reduce (sl_state l) event;
          l = l\<lparr>sl_state := next\<rparr>
      in case action of
           NoAction \<Rightarrow> (l, [])
         | StartGraceful \<Rightarrow>
             let arm = tty next \<and> event = SigInt \<and> watch_stdin_eof config \<and> \<not> eof_watcher_armed l
             in (l\<lparr>eof_watcher_armed := eof_watcher_armed l \<or> arm, deadline_task := True\<rparr>,
                 (if arm then [SpawnEofWatcher] else []) @ [HandleGraceful, SpawnDeadline (grace config)])
         | Force \<Rightarrow> (l\<lparr>deadline_task := False\<rparr>, abort_deadline l @ [HandleShutdown]))"

text \<open>The branch \<open>result = &mut server\<close>, which returns from the loop.\<close>

definition serve_done ::
    "serve_locals \<Rightarrow> 'err + unit \<Rightarrow> serve_locals \<times> effect list \<times> ('err + outcome)" where
  "serve_done l result =
     (case result of
        Inr _ \<Rightarrow>
          let state = (sl_state l)\<lparr>phase := Stopped\<rparr>
          in (l\<lparr>sl_state := state, deadline_task := False\<rparr>, abort_deadline l,
              Inr (case forced_by state of Some e \<Rightarrow> Forced e | None \<Rightarrow> Graceful))
      | Inl error \<Rightarrow>
          let (next, action) = reduce (sl_state l) DrainFailed
          in (l\<lparr>sl_state := next, deadline_task := False\<rparr>,
              abort_deadline l @ (if action = Force then [HandleShutdown] else []), Inl error))"


section \<open>The processes around the loop\<close>

text \<open>The world holds the loop, the unbounded channel, the clock, the sleeping deadline task (its wake
  time), the running stdin watcher, the result once the loop has returned, the calls made so far, and
  the time the drain began, which only the statements use. The signal streams send at any time; the
  deadline task sends once, at its wake time or later; the watcher sends once. The channel is never closed:
  \<open>serve_with_events\<close> keeps a sender.\<close>

record 'err world =
  w_loop :: serve_locals
  w_queue :: "event list"
  w_clock :: nat
  w_timer :: "nat option"
  w_watcher :: bool
  w_result :: "('err + outcome) option"
  w_calls :: "effect list"
  w_drain_at :: nat

definition world_init :: "serve_config \<Rightarrow> 'err world" where
  "world_init config =
     \<lparr>w_loop = serve_init config, w_queue = [], w_clock = 0, w_timer = None, w_watcher = False,
      w_result = None, w_calls = [], w_drain_at = 0\<rparr>"

fun perform :: "'err world \<Rightarrow> effect \<Rightarrow> 'err world" where
  "perform w HandleGraceful = w\<lparr>w_calls := w_calls w @ [HandleGraceful], w_drain_at := w_clock w\<rparr>"
| "perform w HandleShutdown = w\<lparr>w_calls := w_calls w @ [HandleShutdown]\<rparr>"
| "perform w SpawnEofWatcher = w\<lparr>w_calls := w_calls w @ [SpawnEofWatcher], w_watcher := True\<rparr>"
| "perform w (SpawnDeadline d) =
     w\<lparr>w_calls := w_calls w @ [SpawnDeadline d], w_timer := Some (w_clock w + d)\<rparr>"
| "perform w AbortDeadline = w\<lparr>w_calls := w_calls w @ [AbortDeadline], w_timer := None\<rparr>"

definition receive :: "serve_config \<Rightarrow> 'err world \<Rightarrow> event option \<Rightarrow> 'err world" where
  "receive config w received =
     (let (l, effects) = serve_recv config (w_loop w) received in fold (\<lambda>e w. perform w e) effects (w\<lparr>w_loop := l\<rparr>))"

definition finish :: "'err world \<Rightarrow> 'err + unit \<Rightarrow> 'err world" where
  "finish w result =
     (let (l, effects, r) = serve_done (w_loop w) result
      in (fold (\<lambda>e w. perform w e) effects (w\<lparr>w_loop := l\<rparr>))\<lparr>w_result := Some r\<rparr>)"

inductive world_step :: "serve_config \<Rightarrow> 'err world \<Rightarrow> 'err world \<Rightarrow> bool" for config where
  signal: "is_signal e \<Longrightarrow> world_step config w (w\<lparr>w_queue := w_queue w @ [e]\<rparr>)"
| tick: "world_step config w (w\<lparr>w_clock := w_clock w + d\<rparr>)"
| deadline: "w_timer w = Some t \<Longrightarrow> t \<le> w_clock w \<Longrightarrow>
    world_step config w (w\<lparr>w_queue := w_queue w @ [Deadline], w_timer := None\<rparr>)"
| eof: "w_watcher w \<Longrightarrow> world_step config w (w\<lparr>w_queue := w_queue w @ [Eof], w_watcher := False\<rparr>)"
| watcher_error: "w_watcher w \<Longrightarrow> world_step config w (w\<lparr>w_watcher := False\<rparr>)"
| recv: "w_result w = None \<Longrightarrow> events_open (w_loop w) \<Longrightarrow> w_queue w = e # q \<Longrightarrow>
    world_step config w (receive config (w\<lparr>w_queue := q\<rparr>) (Some e))"
| server: "w_result w = None \<Longrightarrow> world_step config w (finish w result)"

inductive_cases world_stepE: "world_step config w w'"

inductive world_reachable :: "serve_config \<Rightarrow> 'err world \<Rightarrow> bool" for config where
  init: "world_reachable config (world_init config)"
| step: "world_reachable config w \<Longrightarrow> world_step config w w' \<Longrightarrow> world_reachable config w'"


section \<open>What every reachable world satisfies\<close>

abbreviation w_state :: "'err world \<Rightarrow> shutdown_state" where
  "w_state w \<equiv> sl_state (w_loop w)"

abbreviation signalled :: "'err world \<Rightarrow> bool" where
  "signalled w \<equiv> trigger (w_state w) = Some SigInt \<or> trigger (w_state w) = Some SigTerm"

definition calls_ok :: "'err world \<Rightarrow> bool" where
  "calls_ok w \<longleftrightarrow>
     count_list (w_calls w) HandleGraceful = (if signalled w then 1 else 0) \<and>
     count_list (w_calls w) HandleShutdown = (if forced_by (w_state w) = None then 0 else 1)"

definition eof_ok :: "serve_config \<Rightarrow> 'err world \<Rightarrow> bool" where
  "eof_ok config w \<longleftrightarrow>
     (w_watcher w \<or> Eof \<in> set (w_queue w) \<longrightarrow> eof_watcher_armed (w_loop w)) \<and>
     (eof_watcher_armed (w_loop w) \<longrightarrow>
        config_tty config \<and> watch_stdin_eof config \<and> trigger (w_state w) = Some SigInt) \<and>
     (forced_by (w_state w) = Some Eof \<longrightarrow> eof_watcher_armed (w_loop w))"

definition deadline_ok :: "serve_config \<Rightarrow> 'err world \<Rightarrow> bool" where
  "deadline_ok config w \<longleftrightarrow>
     (w_timer w = None \<or> w_timer w = Some (w_drain_at w + grace config)) \<and>
     (w_timer w \<noteq> None \<or> Deadline \<in> set (w_queue w) \<longrightarrow> signalled w) \<and>
     (Deadline \<in> set (w_queue w) \<or> forced_by (w_state w) = Some Deadline \<longrightarrow>
        w_drain_at w + grace config \<le> w_clock w) \<and>
     (phase (w_state w) = Draining \<longrightarrow> w_timer w \<noteq> None \<or> Deadline \<in> set (w_queue w))"

fun result_matches :: "shutdown_state \<Rightarrow> ('err + outcome) option \<Rightarrow> bool" where
  "result_matches s None \<longleftrightarrow> phase s \<noteq> Stopped"
| "result_matches s (Some (Inl _)) \<longleftrightarrow> phase s = Forcing"
| "result_matches s (Some (Inr r)) \<longleftrightarrow> phase s = Stopped \<and>
     r = (case forced_by s of None \<Rightarrow> Graceful | Some e \<Rightarrow> Forced e)"

definition world_inv :: "serve_config \<Rightarrow> 'err world \<Rightarrow> bool" where
  "world_inv config w \<longleftrightarrow>
     wf_state (w_state w) \<and> tty (w_state w) = config_tty config \<and> calls_ok w \<and> eof_ok config w \<and>
     deadline_ok config w \<and> result_matches (w_state w) (w_result w)"

lemmas world_inv_defs =
  world_inv_def calls_ok_def eof_ok_def deadline_ok_def


lemma world_inv_init: "world_inv config (world_init config)"
  by (simp add: world_inv_defs world_init_def serve_init_def state_new_def wf_state_def)

lemma world_inv_queue:
  assumes "world_inv config w" and "set q \<subseteq> set (w_queue w) \<union> {SigInt, SigTerm}"
    and "Deadline \<in> set (w_queue w) \<Longrightarrow> Deadline \<in> set q"
  shows "world_inv config (w\<lparr>w_queue := q\<rparr>)"
proof -
  have "Eof \<in> set q \<Longrightarrow> Eof \<in> set (w_queue w)" using assms(2) by auto
  moreover have "Deadline \<in> set q \<longleftrightarrow> Deadline \<in> set (w_queue w)" using assms(2,3) by auto
  ultimately show ?thesis using assms(1) by (simp add: world_inv_defs)
qed

lemma world_inv_signal:
  "world_inv config w \<Longrightarrow> is_signal e \<Longrightarrow> world_inv config (w\<lparr>w_queue := w_queue w @ [e]\<rparr>)"
  by (rule world_inv_queue) (auto simp: is_signal_def)

lemma world_inv_tick: "world_inv config w \<Longrightarrow> world_inv config (w\<lparr>w_clock := w_clock w + d\<rparr>)"
  by (simp add: world_inv_def calls_ok_def eof_ok_def) (simp add: deadline_ok_def trans_le_add1)

lemma world_inv_deadline:
  "world_inv config w \<Longrightarrow> w_timer w = Some t \<Longrightarrow> t \<le> w_clock w \<Longrightarrow>
   world_inv config (w\<lparr>w_queue := w_queue w @ [Deadline], w_timer := None\<rparr>)"
  by (simp add: world_inv_def calls_ok_def eof_ok_def) (simp add: deadline_ok_def)

lemma world_inv_eof:
  "world_inv config w \<Longrightarrow> w_watcher w \<Longrightarrow>
   world_inv config (w\<lparr>w_queue := w_queue w @ [Eof], w_watcher := False\<rparr>)"
  by (simp add: world_inv_def calls_ok_def deadline_ok_def) (simp add: eof_ok_def)

lemma world_inv_watcher: "world_inv config w \<Longrightarrow> world_inv config (w\<lparr>w_watcher := False\<rparr>)"
  by (simp add: world_inv_def calls_ok_def deadline_ok_def) (simp add: eof_ok_def)

text \<open>One received event, by what the reducer answers.\<close>

abbreviation received_event :: "event option \<Rightarrow> event" where
  "received_event r \<equiv> (case r of Some e \<Rightarrow> e | None \<Rightarrow> DrainFailed)"

lemma receive_ignore:
  assumes "reduce (w_state w) (received_event r) = (w_state w, NoAction)"
  shows "receive config w r =
    w\<lparr>w_loop := (w_loop w)\<lparr>events_open := (r \<noteq> None \<and> events_open (w_loop w))\<rparr>\<rparr>"
  using assms by (cases r) (simp_all add: receive_def serve_recv_def Let_def)

lemma receive_drain:
  assumes "reduce (w_state w) (received_event r) = (s', StartGraceful)"
  shows "w_state (receive config w r) = s'"
    and "w_queue (receive config w r) = w_queue w"
    and "w_clock (receive config w r) = w_clock w"
    and "w_result (receive config w r) = w_result w"
    and "w_timer (receive config w r) = Some (w_clock w + grace config)"
    and "w_drain_at (receive config w r) = w_clock w"
    and "count_list (w_calls (receive config w r)) HandleGraceful = count_list (w_calls w) HandleGraceful + 1"
    and "count_list (w_calls (receive config w r)) HandleShutdown = count_list (w_calls w) HandleShutdown"
    and "w_watcher (receive config w r) \<longleftrightarrow> w_watcher w \<or>
           (tty s' \<and> received_event r = SigInt \<and> watch_stdin_eof config \<and> \<not> eof_watcher_armed (w_loop w))"
    and "eof_watcher_armed (w_loop (receive config w r)) \<longleftrightarrow> eof_watcher_armed (w_loop w) \<or>
           (tty s' \<and> received_event r = SigInt \<and> watch_stdin_eof config)"
  using assms by (cases r; auto simp: receive_def serve_recv_def Let_def)+

lemma receive_force:
  assumes "reduce (w_state w) (received_event r) = (s', Force)"
  shows "w_state (receive config w r) = s'"
    and "w_queue (receive config w r) = w_queue w"
    and "w_clock (receive config w r) = w_clock w"
    and "w_result (receive config w r) = w_result w"
    and "w_timer (receive config w r) = None \<or> w_timer (receive config w r) = w_timer w"
    and "w_drain_at (receive config w r) = w_drain_at w"
    and "count_list (w_calls (receive config w r)) HandleGraceful = count_list (w_calls w) HandleGraceful"
    and "count_list (w_calls (receive config w r)) HandleShutdown = count_list (w_calls w) HandleShutdown + 1"
    and "w_watcher (receive config w r) = w_watcher w"
    and "eof_watcher_armed (w_loop (receive config w r)) = eof_watcher_armed (w_loop w)"
  using assms by (cases r; auto simp: receive_def serve_recv_def abort_deadline_def Let_def)+

text \<open>The loop takes the head of the channel, or finds every sender gone.\<close>

abbreviation taken :: "event option \<Rightarrow> event list \<Rightarrow> event list" where
  "taken r q \<equiv> (case r of Some e \<Rightarrow> e # q | None \<Rightarrow> q)"

text \<open>The three answers of the reducer on a well-formed state, and what each leaves behind.\<close>

lemma reduce_cases:
  assumes "wf_state s"
  obtains (ignore) "reduce s e = (s, NoAction)" "phase s = Draining \<longrightarrow> e = Eof"
  | (drain) s' where "reduce s e = (s', StartGraceful)" "phase s' = Draining" "trigger s' = Some e"
      "is_signal e" "forced_by s' = None" "trigger s = None" "forced_by s = None"
  | (force) s' where "reduce s e = (s', Force)" "phase s' = Forcing" "forced_by s' = Some e"
      "trigger s' = trigger s \<or> trigger s = None \<and> trigger s' = Some DrainFailed" "forced_by s = None"
proof (cases "phase s")
  case Running
  then have none: "trigger s = None" "forced_by s = None" using assms by (simp_all add: wf_state_def)
  from Running show ?thesis
  proof (cases rule: reduce_running_cases [of _ e])
    case ignore
    with Running show ?thesis by (intro that(1)) auto
  next
    case drain
    then show ?thesis by (intro that(2) [of "fst (reduce s e)"]) (simp_all add: none prod_eq_iff)
  next
    case force
    then show ?thesis by (intro that(3) [of "fst (reduce s e)"]) (simp_all add: none prod_eq_iff)
  qed
next
  case Draining
  then have none: "forced_by s = None" using assms by (simp add: wf_state_def)
  from Draining show ?thesis
  proof (cases rule: reduce_draining_cases [of _ e])
    case ignore
    then show ?thesis by (intro that(1)) auto
  next
    case force
    then show ?thesis by (intro that(3) [of "fst (reduce s e)"]) (simp_all add: none prod_eq_iff)
  qed
qed (use that(1) in auto)

lemma eof_ok_receive:
  assumes "eof_ok config w" and "w_queue w = taken r q" and wf: "wf_state (w_state w)"
    and "tty (w_state w) = config_tty config"
  shows "eof_ok config (receive config (w\<lparr>w_queue := q\<rparr>) r)"
proof -
  let ?v = "w\<lparr>w_queue := q\<rparr>" and ?e = "received_event r"
  have v: "eof_ok config ?v" and pend: "?e = Eof \<Longrightarrow> eof_watcher_armed (w_loop w)"
    using assms(1,2) by (cases r; auto simp: eof_ok_def)+
  from wf show ?thesis
  proof (cases rule: reduce_cases [of _ ?e])
    case ignore
    then show ?thesis using v by (simp add: receive_ignore eof_ok_def)
  next
    case (drain s')
    have "tty s' = config_tty config" using drain(1) reduce_tty [of "w_state ?v" ?e] assms(4) by simp
    then show ?thesis using v drain by (auto simp: eof_ok_def receive_drain)
  next
    case (force s')
    then show ?thesis using v pend by (auto simp: eof_ok_def receive_force)
  qed
qed

text \<open>Leaving the drain keeps the deadline bookkeeping: only the obligation of a drain goes away.\<close>

lemma deadline_ok_after:
  assumes "deadline_ok config w" and "w_clock w' = w_clock w" and "w_drain_at w' = w_drain_at w"
    and "w_timer w' = None \<or> w_timer w' = w_timer w" and "Deadline \<in> set (w_queue w') \<Longrightarrow> Deadline \<in> set (w_queue w)"
    and "phase (w_state w') \<noteq> Draining" and "signalled w \<Longrightarrow> trigger (w_state w') = trigger (w_state w)"
    and "forced_by (w_state w') = Some Deadline \<Longrightarrow>
           forced_by (w_state w) = Some Deadline \<or> Deadline \<in> set (w_queue w)"
  shows "deadline_ok config w'"
  using assms(4)
proof
  assume "w_timer w' = None"
  with assms(1-3,5-8) show ?thesis by (simp add: deadline_ok_def) metis
next
  assume "w_timer w' = w_timer w"
  with assms(1-3,5-8) show ?thesis by (simp add: deadline_ok_def) metis
qed

lemma deadline_ok_receive:
  assumes ok: "deadline_ok config w" and q: "w_queue w = taken r q" and wf: "wf_state (w_state w)"
  shows "deadline_ok config (receive config (w\<lparr>w_queue := q\<rparr>) r)"
proof -
  let ?v = "w\<lparr>w_queue := q\<rparr>" and ?e = "received_event r"
  have sub: "Deadline \<in> set q \<Longrightarrow> Deadline \<in> set (w_queue w)"
    and pend: "?e = Deadline \<longleftrightarrow> r = Some Deadline" and only: "?e \<noteq> Deadline \<Longrightarrow> Deadline \<in> set (w_queue w) \<longleftrightarrow> Deadline \<in> set q"
    using q by (auto split: option.splits)
  from wf show ?thesis
  proof (cases rule: reduce_cases [of _ ?e])
    case ignore
    then show ?thesis using ok sub only by (auto simp: receive_ignore deadline_ok_def)
  next
    case (drain s')
    then have "Deadline \<notin> set q" "w_timer w = None" using ok sub by (auto simp: deadline_ok_def)
    then show ?thesis using drain by (simp add: deadline_ok_def receive_drain is_signal_def)
  next
    case (force s')
    have "?e = Deadline \<Longrightarrow> Deadline \<in> set (w_queue w)" using pend q by simp
    then show ?thesis
      by (intro deadline_ok_after [OF ok]; use force receive_force [of ?v r s' config] sub in auto)
  qed
qed

lemma calls_ok_receive:
  assumes "calls_ok w" and wf: "wf_state (w_state w)"
  shows "calls_ok (receive config (w\<lparr>w_queue := q\<rparr>) r)"
  using wf
proof (cases rule: reduce_cases [of _ "received_event r"])
  case ignore
  then show ?thesis using assms(1) by (simp add: receive_ignore calls_ok_def)
next
  case (drain s')
  then show ?thesis using assms(1) by (simp add: receive_drain calls_ok_def is_signal_def)
next
  case (force s')
  then show ?thesis using assms(1) by (auto simp: receive_force calls_ok_def)
qed

lemma receive_frame:
  "w_state (receive config w r) = fst (reduce (w_state w) (received_event r))"
  "w_result (receive config w r) = w_result w"
  by (cases r; simp add: receive_def serve_recv_def abort_deadline_def Let_def case_prod_beta split: action.split)+

lemma world_inv_receive:
  assumes "world_inv config w" and "w_queue w = taken r q" and "w_result w = None"
  shows "world_inv config (receive config (w\<lparr>w_queue := q\<rparr>) r)"
  using assms eof_ok_receive [of config w q r] deadline_ok_receive [of config w q r]
    calls_ok_receive [of w config q r]
  by (simp add: world_inv_def receive_frame reduce_wf reduce_not_stopped)

lemma finish_fields:
  "w_queue (finish w result) = w_queue w" "w_clock (finish w result) = w_clock w"
  "w_drain_at (finish w result) = w_drain_at w" "w_watcher (finish w result) = w_watcher w"
  "w_timer (finish w result) = None \<or> w_timer (finish w result) = w_timer w"
  "eof_watcher_armed (w_loop (finish w result)) = eof_watcher_armed (w_loop w)"
  "count_list (w_calls (finish w result)) HandleGraceful = count_list (w_calls w) HandleGraceful"
  by (cases result; simp add: finish_def serve_done_def abort_deadline_def Let_def case_prod_beta)+

lemma finish_ok:
  "w_state (finish w (Inr u)) = (w_state w)\<lparr>phase := Stopped\<rparr>"
  "w_result (finish w (Inr u)) =
     Some (Inr (case forced_by (w_state w) of Some e \<Rightarrow> Forced e | None \<Rightarrow> Graceful))"
  "count_list (w_calls (finish w (Inr u))) HandleShutdown = count_list (w_calls w) HandleShutdown"
  by (simp_all add: finish_def serve_done_def abort_deadline_def Let_def)

lemma finish_error:
  "w_state (finish w (Inl err)) = fst (reduce (w_state w) DrainFailed)"
  "w_result (finish w (Inl err)) = Some (Inl err)"
  "count_list (w_calls (finish w (Inl err))) HandleShutdown =
     count_list (w_calls w) HandleShutdown + (if snd (reduce (w_state w) DrainFailed) = Force then 1 else 0)"
  by (simp_all add: finish_def serve_done_def abort_deadline_def Let_def case_prod_beta)

lemma world_inv_finish_ok:
  assumes "world_inv config w" and "w_result w = None"
  shows "world_inv config (finish w (Inr u))"
proof -
  have "wf_state ((w_state w)\<lparr>phase := Stopped\<rparr>)"
    using assms by (cases "phase (w_state w)") (auto simp: world_inv_def wf_state_def split: option.splits)
  moreover have "deadline_ok config (finish w (Inr u))"
    using assms finish_fields(5) [of w "Inr u"]
    by (auto simp: world_inv_def deadline_ok_def finish_fields(1-4) finish_ok(1))
  ultimately show ?thesis
    using assms by (simp add: world_inv_def calls_ok_def eof_ok_def finish_fields finish_ok)
qed

lemma world_inv_finish_error:
  assumes inv: "world_inv config w" and "w_result w = None"
  shows "world_inv config (finish w (Inl err))"
proof -
  let ?s = "fst (reduce (w_state w) DrainFailed)" and ?w = "finish w (Inl err)"
  have wf: "wf_state (w_state w)" and ph: "phase (w_state w) \<noteq> Stopped"
    using assms by (simp_all add: world_inv_def)
  have forcing: "phase ?s = Forcing"
    using ph by (cases "phase (w_state w)") (simp_all add: reduce_def is_signal_def)
  have "calls_ok ?w \<and> eof_ok config ?w \<and> deadline_ok config ?w"
    using wf
  proof (cases rule: reduce_cases [of _ DrainFailed])
    case ignore
    moreover have "deadline_ok config ?w"
      by (rule deadline_ok_after [of config w]; use inv ignore forcing in \<open>simp add: world_inv_def finish_fields finish_error\<close>)
    ultimately show ?thesis using inv by (simp add: world_inv_def calls_ok_def eof_ok_def finish_fields finish_error)
  next
    case (drain s')
    then show ?thesis by (simp add: is_signal_def)
  next
    case (force s')
    have "deadline_ok config ?w"
    proof (rule deadline_ok_after)
      show "deadline_ok config w" using inv by (simp add: world_inv_def)
    qed (use force in \<open>auto simp: finish_fields finish_error\<close>)
    moreover have "calls_ok ?w"
      using inv force by (auto simp: world_inv_def calls_ok_def finish_fields finish_error)
    moreover have "eof_ok config ?w"
      using inv force by (auto simp: world_inv_def eof_ok_def finish_fields finish_error)
    ultimately show ?thesis by blast
  qed
  then show ?thesis
    using inv forcing by (simp add: world_inv_def finish_error reduce_wf [OF wf])
qed

lemma world_inv_step: "world_step config w w' \<Longrightarrow> world_inv config w \<Longrightarrow> world_inv config w'"
proof (induction rule: world_step.induct)
  case (recv w e q)
  then show ?case using world_inv_receive [of config w q "Some e"] by simp
next
  case (server w result)
  then show ?case by (cases result) (simp_all add: world_inv_finish_ok world_inv_finish_error)
qed (simp_all add: world_inv_signal world_inv_tick world_inv_deadline world_inv_eof world_inv_watcher)

lemma world_reachable_inv: "world_reachable config w \<Longrightarrow> world_inv config w"
  by (induction rule: world_reachable.induct) (auto intro: world_inv_init world_inv_step)

text \<open>The loop goes on receiving as long as it runs or drains.\<close>

definition open_ok :: "'err world \<Rightarrow> bool" where
  "open_ok w \<longleftrightarrow> phase (w_state w) \<in> {Running, Draining} \<longrightarrow> events_open (w_loop w)"

lemma receive_events_open: "events_open (w_loop (receive config w (Some e))) = events_open (w_loop w)"
  by (simp add: receive_def serve_recv_def abort_deadline_def Let_def case_prod_beta split: action.split)

lemma reduce_failed_forces: "phase (fst (reduce s DrainFailed)) \<in> {Forcing, Stopped}"
  by (cases "phase s") (auto simp: reduce_def is_signal_def)

lemma reduce_active: "phase (fst (reduce s e)) \<in> {Running, Draining} \<Longrightarrow> phase s \<in> {Running, Draining}"
  by (cases "phase s") auto

lemma open_ok_step: "world_step config w w' \<Longrightarrow> open_ok w \<Longrightarrow> open_ok w'"
proof (induction rule: world_step.induct)
  case (recv w e q)
  then show ?case using reduce_active [of "w_state w" e]
    by (auto simp: open_ok_def receive_frame receive_events_open)
next
  case (server w result)
  then show ?case using reduce_failed_forces [of "w_state w"]
    by (cases result) (auto simp: open_ok_def finish_ok finish_error)
qed (simp_all add: open_ok_def)

lemma world_reachable_open: "world_reachable config w \<Longrightarrow> open_ok w"
proof (induction rule: world_reachable.induct)
  case init
  show ?case by (simp add: open_ok_def world_init_def serve_init_def)
qed (rule open_ok_step)

section \<open>Time\<close>

text \<open>When every process that can act does so before time goes on: the clock stands still while the running loop has
  something to receive, and never passes the moment the deadline task wakes. Signals, the end of the input and the end of
  the server may come at any moment.\<close>

inductive timed_step :: "serve_config \<Rightarrow> 'err world \<Rightarrow> 'err world \<Rightarrow> bool" for config where
  act: "world_step config w w' \<Longrightarrow> w_clock w' = w_clock w \<Longrightarrow> timed_step config w w'"
| pass: "w_result w \<noteq> None \<or> w_queue w = [] \<Longrightarrow> pred_option (\<lambda>t. w_clock w + d \<le> t) (w_timer w) \<Longrightarrow>
    timed_step config w (w\<lparr>w_clock := w_clock w + d\<rparr>)"

inductive timed_reachable :: "serve_config \<Rightarrow> 'err world \<Rightarrow> bool" for config where
  init: "timed_reachable config (world_init config)"
| step: "timed_reachable config w \<Longrightarrow> timed_step config w w' \<Longrightarrow> timed_reachable config w'"

text \<open>What goes on by itself: the loop, the deadline task and the clock, without a signal, the terminal or the server.\<close>

inductive quiet_step :: "serve_config \<Rightarrow> 'err world \<Rightarrow> 'err world \<Rightarrow> bool" for config where
  receives: "w_result w = None \<Longrightarrow> events_open (w_loop w) \<Longrightarrow> w_queue w = e # q \<Longrightarrow>
    quiet_step config w (receive config (w\<lparr>w_queue := q\<rparr>) (Some e))"
| fires: "w_timer w = Some t \<Longrightarrow> t \<le> w_clock w \<Longrightarrow>
    quiet_step config w (w\<lparr>w_queue := w_queue w @ [Deadline], w_timer := None\<rparr>)"
| passes: "w_queue w = [] \<Longrightarrow> w_timer w = Some t \<Longrightarrow> w_clock w + d \<le> t \<Longrightarrow>
    quiet_step config w (w\<lparr>w_clock := w_clock w + d\<rparr>)"

lemma receive_clock: "w_clock (receive config w (Some e)) = w_clock w"
  by (simp add: receive_def serve_recv_def abort_deadline_def Let_def case_prod_beta split: action.split)

lemma quiet_timed: "quiet_step config w w' \<Longrightarrow> timed_step config w w'"
proof (induction rule: quiet_step.induct)
  case (receives w e q)
  then show ?case by (intro timed_step.act world_step.recv) (simp_all add: receive_clock)
next
  case (fires w t)
  then show ?case by (intro timed_step.act world_step.deadline) simp_all
next
  case (passes w t d)
  then show ?case by (intro timed_step.pass) simp_all
qed

lemma timed_step_world: "timed_step config w w' \<Longrightarrow> world_step config w w'"
  by (cases rule: timed_step.cases) (auto intro: world_step.tick)

lemma timed_reachable_world: "timed_reachable config w \<Longrightarrow> world_reachable config w"
  by (induction rule: timed_reachable.induct) (auto intro: world_reachable.intros timed_step_world)

definition timely :: "serve_config \<Rightarrow> 'err world \<Rightarrow> bool" where
  "timely config w \<longleftrightarrow> (phase (w_state w) = Draining \<longrightarrow> w_clock w \<le> w_drain_at w + grace config)"

lemma timely_act:
  assumes "world_step config w w'" and "world_inv config w" and "timely config w" and "w_clock w' = w_clock w"
  shows "timely config w'"
  using assms
proof (cases rule: world_step.cases)
  case (recv e q)
  let ?v = "w\<lparr>w_queue := q\<rparr>"
  have "wf_state (w_state ?v)" using assms(2) by (simp add: world_inv_def)
  then show ?thesis
  proof (cases rule: reduce_cases [of _ e])
    case ignore
    then show ?thesis using recv assms(3) by (simp add: timely_def receive_ignore)
  next
    case (drain s')
    then show ?thesis using recv receive_drain(3,6) [of ?v "Some e" s' config] by (simp add: timely_def)
  next
    case (force s')
    then show ?thesis using recv receive_force(1) [of ?v "Some e" s' config] by (simp add: timely_def)
  qed
next
  case (server result)
  then show ?thesis using reduce_failed_forces [of "w_state w"]
    by (cases result) (auto simp: timely_def finish_ok finish_error)
qed (simp_all add: timely_def)

lemma draining_runs: "world_inv config w \<Longrightarrow> phase (w_state w) = Draining \<Longrightarrow> w_result w = None"
  by (cases "(w_state w, w_result w)" rule: result_matches.cases) (simp_all add: world_inv_def)

lemma timed_reachable_timely: "timed_reachable config w \<Longrightarrow> timely config w"
proof (induction rule: timed_reachable.induct)
  case init
  show ?case by (simp add: timely_def world_init_def serve_init_def state_new_def)
next
  case (step w w')
  have inv: "world_inv config w" using step.hyps(1) by (intro world_reachable_inv timed_reachable_world)
  from step.hyps(2) show ?case
  proof cases
    case act
    then show ?thesis using timely_act inv step.IH by blast
  next
    case (pass d)
    show ?thesis
    proof (cases "phase (w_state w) = Draining")
      case True
      have "deadline_ok config w" using inv by (simp add: world_inv_def)
      then have "w_timer w = Some (w_drain_at w + grace config)"
        using pass(2) draining_runs [OF inv True] True by (auto simp: deadline_ok_def)
      then show ?thesis using pass(1,3) by (simp add: timely_def)
    qed (use pass in \<open>simp add: timely_def\<close>)
  qed
qed

text \<open>Receiving what is queued forces a drain as soon as the deadline event is among it; by the deadline, when it is
  alone.\<close>

lemma drain_queue:
  assumes "w_result w = None" and "events_open (w_loop w)" and "phase (w_state w) = Draining"
    and "Deadline \<in> set (w_queue w)"
  shows "\<exists>w'. (quiet_step config)\<^sup>*\<^sup>* w w' \<and> phase (w_state w') = Forcing \<and> w_clock w' = w_clock w \<and>
    (w_queue w = [Deadline] \<longrightarrow> forced_by (w_state w') = Some Deadline)"
  using assms
proof (induction "w_queue w" arbitrary: w)
  case (Cons e q)
  let ?v = "w\<lparr>w_queue := q\<rparr>" and ?w = "receive config (w\<lparr>w_queue := q\<rparr>) (Some e)"
  have step: "quiet_step config w ?w"
    by (rule quiet_step.receives) (use Cons.prems Cons.hyps(2) in simp_all)
  from Cons.prems(3) show ?case
  proof (cases rule: reduce_draining_cases [of _ e])
    case ignore
    then have w: "?w = ?v\<lparr>w_loop := (w_loop w)\<lparr>events_open := events_open (w_loop w)\<rparr>\<rparr>"
      by (simp add: receive_ignore)
    have "Deadline \<in> set q" using ignore(1) Cons.prems(4) Cons.hyps(2) [symmetric] by simp
    then have "\<exists>w'. (quiet_step config)\<^sup>*\<^sup>* ?w w' \<and> phase (w_state w') = Forcing \<and> w_clock w' = w_clock ?w \<and>
        (w_queue ?w = [Deadline] \<longrightarrow> forced_by (w_state w') = Some Deadline)"
      by (intro Cons.hyps(1)) (use Cons.prems w in simp_all)
    moreover have "w_queue w \<noteq> [Deadline]" using ignore(1) Cons.hyps(2) [symmetric] by simp
    ultimately show ?thesis using w step converse_rtranclp_into_rtranclp [of "quiet_step config" w ?w] by auto
  next
    case force
    have "e = Deadline \<Longrightarrow> forced_by (w_state ?w) = Some Deadline"
      using force by (simp add: receive_frame)
    then show ?thesis using step force Cons.hyps(2) [symmetric] by (intro exI [of _ ?w]) (auto simp: receive_frame receive_clock)
  qed
qed simp

text \<open>Otherwise the queue runs empty while the drain goes on, and then the deadline task ends it.\<close>

lemma drain_backlog:
  assumes "w_result w = None" and "events_open (w_loop w)" and "phase (w_state w) = Draining"
  shows "\<exists>w'. (quiet_step config)\<^sup>*\<^sup>* w w' \<and> w_clock w' = w_clock w \<and>
    (phase (w_state w') = Forcing \<or> w_queue w' = [] \<and> phase (w_state w') = Draining \<and> w_result w' = None \<and>
       events_open (w_loop w') \<and> w_timer w' = w_timer w)"
  using assms
proof (induction "w_queue w" arbitrary: w)
  case Nil
  then show ?case by (intro exI [of _ w]) simp
next
  case (Cons e q)
  let ?v = "w\<lparr>w_queue := q\<rparr>" and ?w = "receive config (w\<lparr>w_queue := q\<rparr>) (Some e)"
  have step: "quiet_step config w ?w"
    by (rule quiet_step.receives) (use Cons.prems Cons.hyps(2) in simp_all)
  from Cons.prems(3) show ?case
  proof (cases rule: reduce_draining_cases [of _ e])
    case ignore
    then have w: "?w = ?v\<lparr>w_loop := (w_loop w)\<lparr>events_open := events_open (w_loop w)\<rparr>\<rparr>"
      by (simp add: receive_ignore)
    have "\<exists>w'. (quiet_step config)\<^sup>*\<^sup>* ?w w' \<and> w_clock w' = w_clock ?w \<and>
        (phase (w_state w') = Forcing \<or> w_queue w' = [] \<and> phase (w_state w') = Draining \<and> w_result w' = None \<and>
           events_open (w_loop w') \<and> w_timer w' = w_timer ?w)"
      by (intro Cons.hyps(1)) (use Cons.prems w in simp_all)
    then show ?thesis using w step converse_rtranclp_into_rtranclp [of "quiet_step config" w ?w] by auto
  next
    case force
    then show ?thesis using step by (intro exI [of _ ?w]) (simp add: receive_frame receive_clock)
  qed
qed

lemma drain_runs_out:
  assumes "w_result w = None" and "events_open (w_loop w)" and "phase (w_state w) = Draining" and "w_queue w = []"
    and timer: "w_timer w = Some due" and now: "w_clock w \<le> due"
  shows "\<exists>w'. (quiet_step config)\<^sup>*\<^sup>* w w' \<and> phase (w_state w') = Forcing \<and> forced_by (w_state w') = Some Deadline \<and> w_clock w' = due"
proof -
  let ?t = "w\<lparr>w_clock := w_clock w + (due - w_clock w)\<rparr>"
  let ?f = "?t\<lparr>w_queue := w_queue ?t @ [Deadline], w_timer := None\<rparr>"
  have "quiet_step config w ?t" by (rule quiet_step.passes [of _ due]) (use assms in simp_all)
  moreover have "quiet_step config ?t ?f" by (rule quiet_step.fires [of _ due]) (use timer now in simp_all)
  moreover obtain w' where "(quiet_step config)\<^sup>*\<^sup>* ?f w'" "phase (w_state w') = Forcing" "w_clock w' = w_clock ?f"
      "forced_by (w_state w') = Some Deadline"
    using drain_queue [of ?f config] assms by auto
  ultimately have "(quiet_step config)\<^sup>*\<^sup>* w w' \<and> phase (w_state w') = Forcing \<and> forced_by (w_state w') = Some Deadline \<and> w_clock w' = due"
    using now by (auto intro: converse_rtranclp_into_rtranclp)
  then show ?thesis by blast
qed

text \<open>An interactive server that has received SIGINT, for the concrete instances below.\<close>

definition example_config :: serve_config where
  "example_config = \<lparr>grace = 30, config_tty = True, watch_stdin_eof = True\<rparr>"

definition example_draining :: "'err world" where
  "example_draining = receive example_config (world_init example_config) (Some SigInt)"

lemma example_draining_fields:
  "w_result example_draining = None" "phase (w_state example_draining) = Draining"
  "forced_by (w_state example_draining) = None" "w_clock example_draining = 0" "w_drain_at example_draining = 0"
  by (simp_all add: example_draining_def example_config_def receive_def serve_recv_def world_init_def serve_init_def
      state_new_def reduce_def is_signal_def Let_def)

lemma example_reachable:
  "world_reachable example_config (example_draining :: 'err world)"
  "world_reachable example_config (finish (example_draining :: 'err world) (Inr ()))"
proof -
  let ?w0 = "world_init example_config :: 'err world" and ?w1 = "(world_init example_config :: 'err world)\<lparr>w_queue := [SigInt]\<rparr>"
  have w0: "?w0\<lparr>w_queue := []\<rparr> = ?w0" by (simp add: world_init_def)
  have "world_step example_config ?w0 (?w0\<lparr>w_queue := w_queue ?w0 @ [SigInt]\<rparr>)"
    by (rule world_step.signal) (simp add: is_signal_def)
  then have "world_step example_config ?w0 ?w1" by (simp add: world_init_def)
  moreover have "world_step example_config ?w1 (receive example_config (?w1\<lparr>w_queue := []\<rparr>) (Some SigInt))"
    by (rule world_step.recv) (simp_all add: world_init_def serve_init_def)
  then have "world_step example_config ?w1 example_draining" using w0 by (simp add: example_draining_def)
  ultimately show r: "world_reachable example_config (example_draining :: 'err world)"
    by (blast intro: world_reachable.intros)
  show "world_reachable example_config (finish (example_draining :: 'err world) (Inr ()))"
    by (rule world_reachable.step [OF r world_step.server]) (simp add: example_draining_fields)
qed

text \<open>C30: in every world the running server can reach, a forced shutdown is justified: by Ctrl-D only in an
  interactive drain begun by SIGINT with the stdin watcher enabled, by the deadline only once the full
  grace period has passed since the drain began; and the handle is told to shut down exactly once if the
  shutdown is forced and never otherwise, and to drain at most once.\<close>

theorem shutdown_force_justified:
  fixes w :: "'err world"
  assumes "world_reachable config w"
  shows "(forced_by (w_state w) = Some Eof \<longrightarrow>
            config_tty config \<and> watch_stdin_eof config \<and> trigger (w_state w) = Some SigInt) \<and>
    (forced_by (w_state w) = Some Deadline \<longrightarrow> w_drain_at w + grace config \<le> w_clock w) \<and>
    count_list (w_calls w) HandleShutdown = (if forced_by (w_state w) = None then 0 else 1) \<and>
    count_list (w_calls w) HandleGraceful \<le> 1"
  using world_reachable_inv [OF assms] by (simp add: world_inv_defs)

theorem shutdown_force_justified_witness:
  "count_list (w_calls (example_draining :: string world)) HandleGraceful \<le> 1 \<and>
   HandleShutdown \<notin> set (w_calls (example_draining :: string world))"
  using shutdown_force_justified [OF example_reachable(1) [where 'err = string]]
    count_list_0_iff [of "w_calls (example_draining :: string world)" HandleShutdown]
  by (simp add: example_draining_fields)

text \<open>When the server loop returns normally, the outcome reports how it ended: \<open>Graceful\<close> exactly if the
  handle was never told to shut down, \<open>Forced e\<close> exactly for the event \<open>e\<close> that forced it.\<close>

theorem shutdown_outcome_exact:
  fixes w :: "'err world"
  assumes "world_reachable config w" and "w_result w = Some (Inr r)"
  shows "phase (w_state w) = Stopped \<and>
    (r = Graceful \<longleftrightarrow> HandleShutdown \<notin> set (w_calls w)) \<and>
    (\<forall>e. r = Forced e \<longleftrightarrow> forced_by (w_state w) = Some e)"
proof -
  have "HandleShutdown \<in> set (w_calls w) \<longleftrightarrow> forced_by (w_state w) \<noteq> None"
    using world_reachable_inv [OF assms(1)] count_list_0_iff [of "w_calls w" HandleShutdown]
    by (auto simp: world_inv_def calls_ok_def split: if_splits)
  then show ?thesis
    using world_reachable_inv [OF assms(1)] assms(2) by (auto simp: world_inv_def split: option.splits)
qed

theorem shutdown_outcome_exact_witness:
  "phase (w_state (finish (example_draining :: string world) (Inr ()))) = Stopped \<and>
   HandleShutdown \<notin> set (w_calls (finish (example_draining :: string world) (Inr ())))"
  using shutdown_outcome_exact [OF example_reachable(2) [where 'err = string] finish_ok(2)]
  by (simp add: example_draining_fields)

text \<open>C31: a drain ends by its deadline: with processes that act before time goes on, no reachable draining world is past the
  moment the drain began plus the grace period; and from every one the loop, the deadline task and the clock alone,
  without any further signal, lead to a forced shutdown by then - by the deadline itself, at that moment, when nothing
  else was queued.\<close>

theorem drain_ends_by_deadline:
  fixes w :: "'err world"
  assumes reach: "timed_reachable config w" and drain: "phase (w_state w) = Draining"
  shows "w_clock w \<le> w_drain_at w + grace config \<and>
    (\<exists>w'. (quiet_step config)\<^sup>*\<^sup>* w w' \<and> phase (w_state w') = Forcing \<and> w_clock w' \<le> w_drain_at w + grace config \<and>
       (w_queue w = [] \<longrightarrow> forced_by (w_state w') = Some Deadline \<and> w_clock w' = w_drain_at w + grace config))"
proof -
  have inv: "world_inv config w" using reach by (intro world_reachable_inv timed_reachable_world)
  then have ok: "deadline_ok config w" by (simp add: world_inv_def)
  have run: "w_result w = None" by (rule draining_runs [OF inv drain])
  have op: "events_open (w_loop w)"
    using world_reachable_open [OF timed_reachable_world [OF reach]] drain by (simp add: open_ok_def)
  have now: "w_clock w \<le> w_drain_at w + grace config"
    using timed_reachable_timely [OF reach] drain by (simp add: timely_def)
  let ?due = "w_drain_at w + grace config"
  consider (timer) "w_timer w = Some ?due" | (queued) "w_timer w = None" "Deadline \<in> set (w_queue w)"
    using ok drain by (auto simp: deadline_ok_def)
  then show ?thesis
  proof cases
    case timer
    show ?thesis
    proof (cases "w_queue w = []")
      case True
      then show ?thesis using drain_runs_out [OF run op drain True timer now, of config] now by auto
    next
      case False
      obtain v where v: "(quiet_step config)\<^sup>*\<^sup>* w v" "w_clock v = w_clock w" "phase (w_state v) = Forcing \<or>
          w_queue v = [] \<and> phase (w_state v) = Draining \<and> w_result v = None \<and> events_open (w_loop v) \<and> w_timer v = w_timer w"
        using drain_backlog [OF run op drain] by blast
      show ?thesis
      proof (cases "phase (w_state v) = Forcing")
        case True
        then show ?thesis using v False now by auto
      next
        case draining: False
        obtain w' where "(quiet_step config)\<^sup>*\<^sup>* v w'" "phase (w_state w') = Forcing" "w_clock w' = ?due"
          using drain_runs_out [of v ?due config] v draining timer now by auto
        then have "(quiet_step config)\<^sup>*\<^sup>* w w' \<and> phase (w_state w') = Forcing \<and> w_clock w' \<le> ?due" using v(1) by simp
        then show ?thesis using False now by blast
      qed
    qed
  next
    case queued
    then show ?thesis using drain_queue [OF run op drain queued(2), of config] now by fastforce
  qed
qed

lemma example_timed: "timed_reachable example_config (example_draining :: 'err world)"
proof -
  let ?w0 = "world_init example_config :: 'err world" and ?w1 = "(world_init example_config :: 'err world)\<lparr>w_queue := [SigInt]\<rparr>"
  have w0: "?w0\<lparr>w_queue := []\<rparr> = ?w0" by (simp add: world_init_def)
  have "world_step example_config ?w0 (?w0\<lparr>w_queue := w_queue ?w0 @ [SigInt]\<rparr>)"
    by (rule world_step.signal) (simp add: is_signal_def)
  then have s1: "timed_step example_config ?w0 ?w1" by (intro timed_step.act) (simp_all add: world_init_def)
  have "quiet_step example_config ?w1 (receive example_config (?w1\<lparr>w_queue := []\<rparr>) (Some SigInt))"
    by (rule quiet_step.receives) (simp_all add: world_init_def serve_init_def)
  then have "timed_step example_config ?w1 example_draining" using w0 by (simp add: example_draining_def quiet_timed)
  with s1 show ?thesis by (blast intro: timed_reachable.intros)
qed

theorem drain_ends_by_deadline_witness:
  "\<exists>w'. (quiet_step example_config)\<^sup>*\<^sup>* (example_draining :: string world) w' \<and>
     forced_by (w_state w') = Some Deadline \<and> w_clock w' = 30"
proof -
  have "w_queue (example_draining :: string world) = []"
    by (simp add: example_draining_def example_config_def receive_def serve_recv_def world_init_def serve_init_def
        state_new_def reduce_def is_signal_def Let_def)
  then show ?thesis
    using drain_ends_by_deadline [OF example_timed [where 'err = string] example_draining_fields(2)]
    by (auto simp: example_draining_fields example_config_def)
qed

end
