(* ===== verification/Wire.thy ===== *)
theory Wire
  imports Prelude
begin

text \<open>
  Data that crosses the HTTP boundary: JSON values, request headers and the problem responses of
  \<open>src/lib.rs\<close>.

  \<open>serde_json::Value\<close> is a public enumeration and is modelled by its constructors. An object is an
  association list in the key order of \<open>serde_json::Map\<close>, with distinct keys. A number keeps the
  integer representations \<open>as_u64\<close> and \<open>as_i64\<close> distinguish; a float keeps only its text.

  A header map is the list of its (lower-case name, value) entries in iteration order. A header value
  carries its bytes and the result of \<open>HeaderValue::to_str\<close>, which the \<open>http\<close> crate computes.
\<close>

section \<open>JSON values\<close>

datatype json_number = PosInt "64 word" | NegInt int | FloatNum string

datatype json =
    JNull
  | JBool bool
  | JNumber json_number
  | JString string
  | JArray "json list"
  | JObject "(string \<times> json) list"

fun as_object :: "json \<Rightarrow> (string \<times> json) list option" where
  "as_object (JObject kvs) = Some kvs"
| "as_object _ = None"

fun as_array :: "json \<Rightarrow> json list option" where
  "as_array (JArray xs) = Some xs"
| "as_array _ = None"

fun as_str :: "json \<Rightarrow> string option" where
  "as_str (JString s) = Some s"
| "as_str _ = None"

fun as_bool :: "json \<Rightarrow> bool option" where
  "as_bool (JBool b) = Some b"
| "as_bool _ = None"

fun as_u64 :: "json \<Rightarrow> 64 word option" where
  "as_u64 (JNumber (PosInt w)) = Some w"
| "as_u64 _ = None"

text \<open>\<open>Map::get\<close>, and \<open>Value::get\<close>, which is \<open>None\<close> on anything but an object.\<close>

definition obj_get :: "(string \<times> json) list \<Rightarrow> string \<Rightarrow> json option" where
  "obj_get obj k = map_of obj k"

definition json_get :: "json \<Rightarrow> string \<Rightarrow> json option" where
  "json_get v k = Option.bind (as_object v) (\<lambda>obj. obj_get obj k)"

lemma obj_get_simps [simp]:
  "obj_get [] k = None"
  "obj_get ((k', v) # kvs) k = (if k' = k then Some v else obj_get kvs k)"
  by (simp_all add: obj_get_def)

lemma as_object_Some [simp]: "as_object v = Some kvs \<longleftrightarrow> v = JObject kvs"
  by (cases v) auto

lemma as_array_Some [simp]: "as_array v = Some xs \<longleftrightarrow> v = JArray xs"
  by (cases v) auto

lemma as_str_Some [simp]: "as_str v = Some s \<longleftrightarrow> v = JString s"
  by (cases v) auto

lemma as_u64_Some [simp]: "as_u64 v = Some w \<longleftrightarrow> v = JNumber (PosInt w)"
  by (cases v rule: as_u64.cases) auto


section \<open>Request headers\<close>

record header_value =
  hv_bytes :: string
  hv_str :: "string option"

type_synonym header_map = "(string \<times> header_value) list"

text \<open>\<open>HeaderMap::get\<close> is the first value of a name, \<open>get_all\<close> every value in order.\<close>

definition header_get :: "header_map \<Rightarrow> string \<Rightarrow> header_value option" where
  "header_get hs name = map_of hs name"

definition header_get_all :: "header_map \<Rightarrow> string \<Rightarrow> header_value list" where
  "header_get_all hs name = map snd (filter (\<lambda>h. fst h = name) hs)"

text \<open>The recurring \<open>headers.get(name).and_then(|value| value.to_str().ok())\<close>.\<close>

definition header_str :: "header_map \<Rightarrow> string \<Rightarrow> string option" where
  "header_str hs name = Option.bind (header_get hs name) hv_str"

definition ascii_header :: "string \<Rightarrow> string \<Rightarrow> string \<times> header_value" where
  "ascii_header name v = (name, \<lparr>hv_bytes = v, hv_str = Some v\<rparr>)"


section \<open>Parsed URLs\<close>

text \<open>What the server reads of a \<open>reqwest::Url\<close>. \<open>Url::parse\<close> belongs to the \<open>url\<close> crate: every
  definition that calls it takes the parser as an argument.\<close>

record url =
  url_scheme :: string
  url_username :: string
  url_password :: "string option"
  url_host :: "string option"
  url_query :: "string option"
  url_fragment :: "string option"

type_synonym url_parser = "string \<Rightarrow> url option"


section \<open>Problem responses\<close>

text \<open>\<open>ApiError\<close>: the status, the code and message of the \<open>QuoteProblem\<close> body, and the
  \<open>Retry-After\<close> seconds. The body's \<open>requestId\<close> is a fresh random identifier with no other use and
  is left out.\<close>

record api_error =
  err_status :: nat
  err_code :: string
  err_message :: string
  err_retry_after :: "nat option"

definition api_error_new :: "nat \<Rightarrow> string \<Rightarrow> string \<Rightarrow> api_error" where
  "api_error_new status code message =
     \<lparr>err_status = status, err_code = code, err_message = message, err_retry_after = None\<rparr>"

definition bad_request :: "string \<Rightarrow> string \<Rightarrow> api_error" where
  "bad_request = api_error_new 400"

definition unauthorized_error :: "string \<Rightarrow> string \<Rightarrow> api_error" where
  "unauthorized_error = api_error_new 401"

definition not_found :: "string \<Rightarrow> string \<Rightarrow> api_error" where
  "not_found = api_error_new 404"

definition conflict :: "string \<Rightarrow> string \<Rightarrow> api_error" where
  "conflict = api_error_new 409"

definition service_unavailable :: "string \<Rightarrow> string \<Rightarrow> api_error" where
  "service_unavailable = api_error_new 503"

definition rate_limited :: "nat \<Rightarrow> api_error" where
  "rate_limited retry_after_seconds =
     \<lparr>err_status = 429, err_code = ''rate_limited'',
      err_message = ''quote submissions are temporarily rate limited'',
      err_retry_after = Some retry_after_seconds\<rparr>"

text \<open>\<open>IntoResponse for ApiError\<close>: the status line, the problem body and the headers set here.
  \<open>HeaderValue::from_str\<close> accepts every decimal number.\<close>

record problem_response =
  resp_status :: nat
  resp_code :: string
  resp_message :: string
  resp_headers :: "(string \<times> string) list"

definition into_response :: "api_error \<Rightarrow> problem_response" where
  "into_response e =
     \<lparr>resp_status = err_status e, resp_code = err_code e, resp_message = err_message e,
      resp_headers = (case err_retry_after e of None \<Rightarrow> []
                      | Some n \<Rightarrow> [(''retry-after'', nat_to_string n)])\<rparr>"

lemmas api_error_defs =
  api_error_new_def bad_request_def unauthorized_error_def not_found_def conflict_def
  service_unavailable_def rate_limited_def

end
