(* ===== verification/Data_Plane.thy ===== *)
theory Data_Plane
  imports Wire Machine
begin

text \<open>
  The web-to-API data paths of \<open>src/web_data_plane.rs\<close>: request and response envelopes, the four
  transport policies, the receipt state machine of the asynchronous path, and the length-prefixed
  frames of the TCP path. \<open>serde_json::to_vec\<close> is a parameter (\<open>None\<close> is its error).
\<close>

section \<open>Envelopes\<close>

abbreviation MAX_REQUEST_BYTES :: nat where "MAX_REQUEST_BYTES \<equiv> 65536"
abbreviation MAX_RESPONSE_BYTES :: nat where "MAX_RESPONSE_BYTES \<equiv> 262144"
abbreviation MAX_FRAME_BYTES :: nat where "MAX_FRAME_BYTES \<equiv> 262144"
abbreviation MAX_DEDUPE_KEY_BYTES :: nat where "MAX_DEDUPE_KEY_BYTES \<equiv> 128"

definition WEB_API_CONTRACT :: string where "WEB_API_CONTRACT = ''canonical-cloud/web-api/v1''"
definition API_AUDIENCE :: string where "API_AUDIENCE = ''canonical-plus-api''"
definition DIRECT_DATABASE_ROLE :: string where "DIRECT_DATABASE_ROLE = ''canonical_cloud__quote__web_ro''"

datatype web_api_mode = DirectReadOnlyDatabase | StatelessHttp | StatefulMtlsTcp | JetStreamAsync

datatype data_operation = Read | Write

record web_api_request =
  rq_contract :: string
  rq_request_id :: string
  rq_tenant_id :: string
  rq_subject :: string
  rq_audience :: string
  rq_operation :: data_operation
  rq_resource :: string
  rq_payload :: json
  rq_dedupe_key :: "string option"

record web_api_response =
  rs_contract :: string
  rs_request_id :: string
  rs_status :: nat
  rs_payload :: json

datatype async_status = Pending | Published | Processing | Succeeded | Failed | DeadLetter

datatype data_plane_error =
    Contract | Audience | InvalidIdentifier string | InvalidResource | DirectDatabaseWrite
  | MissingDedupeKey | RequestTooLarge nat nat | ResponseTooLarge nat nat | Serialization
  | UnsafeDirectDatabasePolicy | UnsafeHttpPolicy | UnsafeMtlsPolicy | UnsafeJetStreamPolicy
  | FrameSize | InvalidStatusTransition async_status async_status

definition validate_identifier :: "string \<Rightarrow> string \<Rightarrow> nat \<Rightarrow> data_plane_error + unit" where
  "validate_identifier field value maximum =
     (if value = [] \<or> maximum < length value \<or> trim value \<noteq> value \<or> list_ex is_control (chars value)
      then Inl (InvalidIdentifier field) else Inr ())"

definition validate_resource :: "string \<Rightarrow> data_plane_error + unit" where
  "validate_resource value =
     (if value = [] \<or> 256 < length value \<or> \<not> starts_with value ''/'' \<or> contains_sub value ''..'' \<or>
         list_ex (\<lambda>c. c = CHR ''?'' \<or> c = CHR ''#'') value \<or> list_ex is_control (chars value)
      then Inl InvalidResource else Inr ())"

definition validate_dedupe_key :: "string option \<Rightarrow> data_plane_error + unit" where
  "validate_dedupe_key value =
     (case value of None \<Rightarrow> Inl MissingDedupeKey
      | Some v \<Rightarrow> validate_identifier ''dedupe_key'' v MAX_DEDUPE_KEY_BYTES)"

definition validate_for ::
    "(web_api_request \<Rightarrow> string option) \<Rightarrow> web_api_request \<Rightarrow> web_api_mode \<Rightarrow> data_plane_error + unit" where
  "validate_for to_vec r mode =
     result_bind (check (rq_contract r = WEB_API_CONTRACT) Contract) (\<lambda>_.
     result_bind (validate_identifier ''request_id'' (rq_request_id r) 128) (\<lambda>_.
     result_bind (validate_identifier ''tenant_id'' (rq_tenant_id r) 128) (\<lambda>_.
     result_bind (validate_identifier ''subject'' (rq_subject r) 255) (\<lambda>_.
     result_bind (check (rq_audience r = API_AUDIENCE) Audience) (\<lambda>_.
     result_bind (validate_resource (rq_resource r)) (\<lambda>_.
     if mode = DirectReadOnlyDatabase \<and> rq_operation r \<noteq> Read then Inl DirectDatabaseWrite
     else result_bind (if mode = JetStreamAsync then validate_dedupe_key (rq_dedupe_key r) else Inr ()) (\<lambda>_.
     result_bind (ok_or (to_vec r) Serialization) (\<lambda>encoded.
     if MAX_REQUEST_BYTES < length encoded then Inl (RequestTooLarge (length encoded) MAX_REQUEST_BYTES)
     else Inr ()))))))))"

definition encode_bounded ::
    "(web_api_response \<Rightarrow> string option) \<Rightarrow> web_api_response \<Rightarrow> data_plane_error + string" where
  "encode_bounded to_vec r =
     result_bind (check (rs_contract r = WEB_API_CONTRACT) Contract) (\<lambda>_.
     result_bind (validate_identifier ''request_id'' (rs_request_id r) 128) (\<lambda>_.
     result_bind (ok_or (to_vec r) Serialization) (\<lambda>encoded.
     if MAX_RESPONSE_BYTES < length encoded then Inl (ResponseTooLarge (length encoded) MAX_RESPONSE_BYTES)
     else Inr encoded)))"


section \<open>Transport policies\<close>

definition safe_service_url :: "url_parser \<Rightarrow> string \<Rightarrow> bool" where
  "safe_service_url url_parse value =
     (case url_parse value of
        None \<Rightarrow> False
      | Some u \<Rightarrow>
          if url_username u \<noteq> [] \<or> url_password u \<noteq> None \<or> url_query u \<noteq> None \<or> url_fragment u \<noteq> None
          then False
          else let host = (case url_host u of None \<Rightarrow> [] | Some h \<Rightarrow> h)
               in url_scheme u = ''https'' \<or>
                  (url_scheme u = ''http'' \<and>
                     (host \<in> {''localhost'', ''127.0.0.1'', ''::1''} \<or> ends_with host ''.svc.cluster.local'')))"

definition safe_secret_reference :: "string \<Rightarrow> bool" where
  "safe_secret_reference value \<longleftrightarrow>
     value \<noteq> [] \<and> length value \<le> 256 \<and>
     list_all (\<lambda>c. is_ascii_alphanumeric c \<or> c \<in> {CHR ''/'', CHR ''.'', CHR ''_'', CHR ''-''}) value"

definition valid_dns_name :: "string \<Rightarrow> bool" where
  "valid_dns_name value \<longleftrightarrow>
     value \<noteq> [] \<and> length value \<le> 253 \<and>
     list_all (\<lambda>c. is_ascii_alphanumeric c \<or> c \<in> {CHR ''.'', CHR ''-''}) value"

definition valid_socket_address :: "string \<Rightarrow> bool" where
  "valid_socket_address value \<longleftrightarrow>
     length value \<le> 255 \<and>
     (case rsplit_once CHR '':'' value of
        None \<Rightarrow> False
      | Some (host, port) \<Rightarrow> valid_dns_name host \<and> parse_unsigned 65535 port \<noteq> None)"

definition valid_route_name :: "string \<Rightarrow> bool" where
  "valid_route_name value \<longleftrightarrow>
     value \<noteq> [] \<and> length value \<le> 128 \<and>
     list_all (\<lambda>c. is_ascii_alphanumeric c \<or> c \<in> {CHR ''.'', CHR ''_'', CHR ''-''}) value"

record direct_database_policy =
  role_name :: string
  transaction_read_only :: bool
  forced_row_level_security :: bool
  statement_timeout_ms :: nat
  lock_timeout_ms :: nat
  row_limit :: nat

definition direct_database_validate :: "direct_database_policy \<Rightarrow> data_plane_error + unit" where
  "direct_database_validate p =
     (if role_name p \<noteq> DIRECT_DATABASE_ROLE \<or> \<not> transaction_read_only p \<or> \<not> forced_row_level_security p \<or>
         statement_timeout_ms p \<notin> {1..5000} \<or> lock_timeout_ms p \<notin> {1..1000} \<or> row_limit p \<notin> {1..1000}
      then Inl UnsafeDirectDatabasePolicy else Inr ())"

record stateless_http_policy =
  base_url :: string
  service_credential_ref :: string
  connect_timeout_ms :: nat
  request_timeout_ms :: nat
  max_request_bytes :: nat
  max_response_bytes :: nat
  redirects_enabled :: bool

definition stateless_http_validate :: "url_parser \<Rightarrow> stateless_http_policy \<Rightarrow> data_plane_error + unit" where
  "stateless_http_validate url_parse p =
     (if \<not> safe_service_url url_parse (base_url p) \<or> \<not> safe_secret_reference (service_credential_ref p) \<or>
         redirects_enabled p \<or> connect_timeout_ms p \<notin> {1..2000} \<or> request_timeout_ms p \<notin> {1..10000} \<or>
         max_request_bytes p \<notin> {1..MAX_REQUEST_BYTES} \<or> max_response_bytes p \<notin> {1..MAX_RESPONSE_BYTES}
      then Inl UnsafeHttpPolicy else Inr ())"

record stateful_mtls_tcp_policy =
  address :: string
  server_name :: string
  ca_bundle_ref :: string
  client_certificate_ref :: string
  client_private_key_ref :: string
  tls_minimum_version :: string
  tcp_connect_timeout_ms :: nat
  io_timeout_ms :: nat
  max_frame_bytes :: nat

definition stateful_mtls_validate :: "stateful_mtls_tcp_policy \<Rightarrow> data_plane_error + unit" where
  "stateful_mtls_validate p =
     (let references = [ca_bundle_ref p, client_certificate_ref p, client_private_key_ref p]
      in if \<not> valid_socket_address (address p) \<or> \<not> valid_dns_name (server_name p) \<or>
            list_ex (\<lambda>v. \<not> safe_secret_reference v) references \<or> tls_minimum_version p \<noteq> ''1.3'' \<or>
            tcp_connect_timeout_ms p \<notin> {1..2000} \<or> io_timeout_ms p \<notin> {1..10000} \<or>
            max_frame_bytes p \<notin> {1..MAX_FRAME_BYTES}
         then Inl UnsafeMtlsPolicy else Inr ())"

record jet_stream_policy =
  js_stream :: string
  request_subject :: string
  status_subject :: string
  durable_consumer :: string
  outbox_table :: string
  inbox_table :: string
  status_table :: string
  ack_timeout_ms :: nat
  dedupe_window_seconds :: nat
  max_message_bytes :: nat
  max_deliveries :: nat

definition jet_stream_validate :: "jet_stream_policy \<Rightarrow> data_plane_error + unit" where
  "jet_stream_validate p =
     (let names = [js_stream p, request_subject p, status_subject p, durable_consumer p, outbox_table p,
                   inbox_table p, status_table p]
      in if list_ex (\<lambda>v. \<not> valid_route_name v) names \<or> request_subject p = status_subject p \<or>
            ack_timeout_ms p \<notin> {1000..120000} \<or> dedupe_window_seconds p \<notin> {60..604800} \<or>
            max_message_bytes p \<notin> {1..MAX_REQUEST_BYTES} \<or> max_deliveries p \<notin> {1..25}
         then Inl UnsafeJetStreamPolicy else Inr ())"


section \<open>Receipts of the asynchronous path\<close>

fun can_transition_to :: "async_status \<Rightarrow> async_status \<Rightarrow> bool" where
  "can_transition_to Pending Published = True"
| "can_transition_to Published Processing = True"
| "can_transition_to Processing Succeeded = True"
| "can_transition_to Processing Failed = True"
| "can_transition_to Failed Published = True"
| "can_transition_to Failed DeadLetter = True"
| "can_transition_to _ _ = False"

record async_receipt =
  operation_id :: string
  receipt_dedupe_key :: string
  status :: async_status
  attempt :: nat
  metadata :: "(string \<times> string) list"

text \<open>\<open>attempt\<close> is a \<open>u16\<close>; \<open>saturating_add\<close> stops at 65535.\<close>

definition transition :: "async_receipt \<Rightarrow> async_status \<Rightarrow> data_plane_error + async_receipt" where
  "transition r next =
     (if \<not> can_transition_to (status r) next then Inl (InvalidStatusTransition (status r) next)
      else Inr (r\<lparr>status := next, attempt := min 65535 (attempt r + (if next = Processing then 1 else 0))\<rparr>))"

fun transitions :: "async_receipt \<Rightarrow> async_status list \<Rightarrow> data_plane_error + async_receipt" where
  "transitions r [] = Inr r"
| "transitions r (s # ss) = result_bind (transition r s) (\<lambda>r'. transitions r' ss)"


section \<open>Frames\<close>

text \<open>\<open>u32::to_be_bytes\<close> and \<open>u32::from_be_bytes\<close>.\<close>

definition to_be_bytes :: "32 word \<Rightarrow> string" where
  "to_be_bytes w = map (\<lambda>k. char_of (unat (drop_bit k w) mod 256)) [24, 16, 8, 0]"

definition from_be_bytes :: "string \<Rightarrow> 32 word" where
  "from_be_bytes bs = fold (\<lambda>c w. push_bit 8 w + of_nat (byte c)) bs 0"

definition encode_frame :: "string \<Rightarrow> nat \<Rightarrow> data_plane_error + string" where
  "encode_frame payload maximum =
     (let maximum = min maximum MAX_FRAME_BYTES
      in if payload = [] \<or> maximum < length payload \<or> 4294967295 < length payload then Inl FrameSize
         else Inr (to_be_bytes (of_nat (length payload)) @ payload))"

definition decode_frame :: "string \<Rightarrow> nat \<Rightarrow> data_plane_error + string" where
  "decode_frame frame maximum =
     result_bind (ok_or (if 4 \<le> length frame then Some (from_be_bytes (take 4 frame)) else None) FrameSize) (\<lambda>word.
     let len = unat word; maximum = min maximum MAX_FRAME_BYTES
     in if len = 0 \<or> maximum < len \<or> length frame \<noteq> 4 + len then Inl FrameSize
        else Inr (drop 4 frame))"


section \<open>Frames decode to exactly what was encoded\<close>

lemma byte_less [simp]: "byte c < 256"
  by (simp add: of_char_def)

lemma horner_div:
  fixes a b :: nat
  assumes "b < 256"
  shows "(a * 256 + b) div 256 = a" "(a * 256 + b) mod 256 = b"
  using assms by simp_all

lemma horner_bound: "a < m \<Longrightarrow> b < 256 \<Longrightarrow> a * 256 + b < m * 256" for a b m :: nat
  by linarith

lemma from_be_bytes_value:
  "unat (from_be_bytes [a, b, c, d]) = ((byte a * 256 + byte b) * 256 + byte c) * 256 + byte d"
proof -
  let ?n = "((byte a * 256 + byte b) * 256 + byte c) * 256 + byte d"
  have "?n < ((256 * 256) * 256) * 256" by (intro horner_bound byte_less)
  then have "?n < 4294967296" by simp
  moreover have "from_be_bytes [a, b, c, d] = of_nat ?n"
    by (simp add: from_be_bytes_def push_bit_eq_mult algebra_simps)
  then have "unat (from_be_bytes [a, b, c, d]) = ?n mod 4294967296" by (simp only: unat_of_nat) simp
  ultimately show ?thesis by simp
qed

lemma to_be_bytes_value:
  "to_be_bytes w = (let n = unat w in
     map (\<lambda>b. char_of (b mod 256)) [n div 256 div 256 div 256, n div 256 div 256, n div 256, n])"
proof -
  have "unat w < 2 ^ 32" using unsigned_less [of w] by simp
  then have "unat (drop_bit k w) = unat w div 2 ^ k" for k
    by (simp only: unsigned_drop_bit_eq) (simp add: drop_bit_eq_div take_bit_nat_eq_self)
  then show ?thesis by (simp only: to_be_bytes_def list.map Let_def) (simp add: div_mult2_eq [symmetric])
qed

lemma length_to_be_bytes [simp]: "length (to_be_bytes w) = 4"
  by (simp add: to_be_bytes_def)

lemma from_to_be_bytes [simp]: "from_be_bytes (to_be_bytes w) = w"
proof -
  let ?n = "unat w"
  have "?n < 4294967296" using unsigned_less [of w] by simp
  then have "?n div 256 div 256 div 256 mod 256 = ?n div 256 div 256 div 256"
    by (simp add: div_mult2_eq [symmetric] less_mult_imp_div_less)
  then have "unat (from_be_bytes (to_be_bytes w)) = ?n"
    by (simp only: to_be_bytes_value Let_def list.map from_be_bytes_value of_char_of mod_mod_trivial div_mult_mod_eq)
  then show ?thesis by (rule unsigned_word_eqI)
qed

lemma to_from_be_bytes: "length bs = 4 \<Longrightarrow> to_be_bytes (from_be_bytes bs) = bs"
proof -
  assume "length bs = 4"
  then obtain a b c d where bs: "bs = [a, b, c, d]" by (auto simp: numeral_eq_Suc length_Suc_conv)
  show ?thesis
    by (simp only: bs to_be_bytes_value Let_def from_be_bytes_value list.map horner_div [OF byte_less] mod_less [OF byte_less] char_of_char)
qed

text \<open>C32: the frame codec of the TCP path: a frame decodes to a payload under a limit exactly when that
  payload encodes to that frame under the same limit. So decoding inverts encoding, no two frames carry the
  same payload, and a truncated, padded, empty or oversized frame is refused.\<close>

theorem frame_round_trip: "decode_frame frame maximum = Inr payload \<longleftrightarrow> encode_frame payload maximum = Inr frame"
proof
  assume dec: "decode_frame frame maximum = Inr payload"
  then have len: "4 \<le> length frame" and payload: "payload = drop 4 frame"
    and n: "unat (from_be_bytes (take 4 frame)) = length payload" "payload \<noteq> []"
      "length payload \<le> min maximum MAX_FRAME_BYTES"
    by (auto simp: decode_frame_def Let_def result_elims split: if_splits)
  from n(1) [symmetric] have "of_nat (length payload) = from_be_bytes (take 4 frame)" by simp
  then show "encode_frame payload maximum = Inr frame"
    using n len payload to_from_be_bytes [of "take 4 frame"]
    by (simp add: encode_frame_def Let_def not_less)
next
  assume enc: "encode_frame payload maximum = Inr frame"
  then have frame: "frame = to_be_bytes (of_nat (length payload)) @ payload" and p: "payload \<noteq> []"
    "length payload \<le> min maximum MAX_FRAME_BYTES"
    by (auto simp: encode_frame_def Let_def split: if_splits)
  from p(2) have "unat (of_nat (length payload) :: 32 word) = length payload"
    by (simp add: unat_of_nat)
  then show "decode_frame frame maximum = Inr payload"
    using frame p by (simp add: decode_frame_def Let_def not_less)
qed


section \<open>Receipts\<close>

lemma transition_Inr:
  "transition r s = Inr r' \<longleftrightarrow> can_transition_to (status r) s \<and>
     r' = r\<lparr>status := s, attempt := min 65535 (attempt r + (if s = Processing then 1 else 0))\<rparr>"
  by (auto simp: transition_def)

lemma transitions_identity:
  "transitions r ss = Inr r' \<Longrightarrow>
   operation_id r' = operation_id r \<and> receipt_dedupe_key r' = receipt_dedupe_key r \<and> metadata r' = metadata r"
  by (induction ss arbitrary: r) (auto simp: result_elims transition_Inr)

lemma transitions_attempt:
  assumes "transitions r ss = Inr r'" and "attempt r \<le> 65535"
  shows "attempt r' = min 65535 (attempt r + count_list ss Processing)"
  using assms
proof (induction ss arbitrary: r)
  case (Cons s ss)
  then obtain r1 where r1: "transition r s = Inr r1" "transitions r1 ss = Inr r'" by (auto simp: result_elims)
  then have a: "attempt r1 = min 65535 (attempt r + (if s = Processing then 1 else 0))"
    by (simp add: transition_Inr)
  then have "attempt r' = min 65535 (attempt r1 + count_list ss Processing)"
    by (intro Cons.IH) (use r1 in auto)
  with a show ?case by (simp add: min_def)
qed simp

text \<open>Between two publications there is exactly one attempt, and it must have failed.\<close>

definition in_flight :: "async_status \<Rightarrow> nat" where
  "in_flight s = (if s = Published then 1 else 0)"

lemma transitions_published:
  assumes "transitions r ss = Inr r'"
  shows "count_list ss Published + in_flight (status r) = count_list ss Processing + in_flight (status r')"
  using assms
proof (induction ss arbitrary: r)
  case (Cons s ss)
  then obtain r1 where r1: "transition r s = Inr r1" "transitions r1 ss = Inr r'" by (auto simp: result_elims)
  then have "can_transition_to (status r) s" "status r1 = s" by (auto simp: transition_Inr)
  then show ?case using Cons.IH [OF r1(2)]
    by (cases "status r"; cases s) (simp_all add: in_flight_def)
qed simp

lemma transitions_final: "status r \<in> {Succeeded, DeadLetter} \<Longrightarrow> transitions r (s # ss) \<noteq> Inr r'"
  by (auto simp: result_elims transition_Inr)

text \<open>The asynchronous receipt keeps its identity and counts attempts: after any accepted sequence of
  status changes from a fresh pending receipt, the operation and its dedupe key are unchanged, the attempt
  counter is the number of times processing began (saturating at \<open>u16::MAX\<close>), every attempt was preceded by its
  own publication, and success or the dead letter accept no further change.\<close>

theorem async_receipt_history:
  assumes "transitions r ss = Inr r'" and "status r = Pending" and "attempt r = 0"
  shows "operation_id r' = operation_id r \<and> receipt_dedupe_key r' = receipt_dedupe_key r \<and>
    attempt r' = min 65535 (count_list ss Processing) \<and>
    count_list ss Processing \<le> count_list ss Published \<and>
    (status r' \<in> {Succeeded, DeadLetter} \<longrightarrow>
       count_list ss Published = count_list ss Processing \<and> (\<forall>s. transition r' s = Inl (InvalidStatusTransition (status r') s)))"
proof -
  have "count_list ss Published = count_list ss Processing + in_flight (status r')"
    using transitions_published [OF assms(1)] assms(2) by (simp add: in_flight_def)
  moreover have "\<not> can_transition_to (status r') s" if "status r' \<in> {Succeeded, DeadLetter}" for s
    using that by auto
  ultimately show ?thesis
    using transitions_identity [OF assms(1)] transitions_attempt [OF assms(1)] assms(3)
    by (auto simp: in_flight_def transition_def)
qed

theorem async_receipt_history_witness:
  "let r = \<lparr>operation_id = ''op'', receipt_dedupe_key = ''k'', status = Pending, attempt = 0, metadata = []\<rparr>
   in \<exists>r'. transitions r [Published, Processing, Failed, Published, Processing, Succeeded] = Inr r' \<and> attempt r' = 2"
proof -
  let ?r = "\<lparr>operation_id = ''op'', receipt_dedupe_key = ''k'', status = Pending, attempt = 0, metadata = []\<rparr>"
  let ?ss = "[Published, Processing, Failed, Published, Processing, Succeeded]"
  have run: "transitions ?r ?ss = Inr (?r\<lparr>status := Succeeded, attempt := 2\<rparr>)" by (simp add: transition_def)
  from async_receipt_history [OF run] show ?thesis using run by simp
qed


section \<open>What validation guarantees\<close>

lemma validate_identifier_ok [simp]:
  "validate_identifier f v n = Inr u \<longleftrightarrow>
     v \<noteq> [] \<and> length v \<le> n \<and> trim v = v \<and> list_all (\<lambda>g. \<not> is_control g) (chars v)"
  by (auto simp: validate_identifier_def list_all_iff list_ex_iff)

lemma validate_for_iff:
  "validate_for to_vec r mode = Inr () \<longleftrightarrow>
     rq_contract r = WEB_API_CONTRACT \<and> rq_audience r = API_AUDIENCE \<and>
     validate_identifier ''request_id'' (rq_request_id r) 128 = Inr () \<and>
     validate_identifier ''tenant_id'' (rq_tenant_id r) 128 = Inr () \<and>
     validate_identifier ''subject'' (rq_subject r) 255 = Inr () \<and>
     validate_resource (rq_resource r) = Inr () \<and>
     (mode = DirectReadOnlyDatabase \<longrightarrow> rq_operation r = Read) \<and>
     (mode = JetStreamAsync \<longrightarrow> validate_dedupe_key (rq_dedupe_key r) = Inr ()) \<and>
     (\<exists>bytes. to_vec r = Some bytes \<and> length bytes \<le> MAX_REQUEST_BYTES)"
  unfolding validate_for_def
  by (cases "to_vec r"; cases mode; cases "rq_operation r")
    (simp_all add: result_elims not_less del: validate_identifier_ok, blast+)

text \<open>A request envelope that passes validation is bounded and attributable in every mode: contract and
  audience are this API's, tenant and subject are non-empty, trimmed and free of control characters, the
  encoding fits in 64 KiB; the direct database mode admits reads only and the asynchronous mode admits only
  requests with a dedupe key; and what a stricter mode admits the plain HTTP mode admits too.\<close>

theorem validate_for_safe:
  assumes "validate_for to_vec r mode = Inr u"
  shows "rq_contract r = WEB_API_CONTRACT \<and> rq_audience r = API_AUDIENCE \<and>
    (\<forall>v \<in> {rq_request_id r, rq_tenant_id r, rq_subject r}. v \<noteq> [] \<and> trim v = v \<and> length v \<le> 255 \<and>
        list_all (\<lambda>g. \<not> is_control g) (chars v)) \<and>
    (\<exists>bytes. to_vec r = Some bytes \<and> length bytes \<le> MAX_REQUEST_BYTES) \<and>
    (mode = DirectReadOnlyDatabase \<longrightarrow> rq_operation r = Read) \<and>
    (mode = JetStreamAsync \<longrightarrow> (\<exists>k. rq_dedupe_key r = Some k \<and> k \<noteq> [] \<and> length k \<le> 128)) \<and>
    validate_for to_vec r StatelessHttp = Inr ()"
proof -
  have "\<exists>k. rq_dedupe_key r = Some k \<and> k \<noteq> [] \<and> length k \<le> 128" if "validate_dedupe_key (rq_dedupe_key r) = Inr ()"
    using that by (cases "rq_dedupe_key r") (simp_all add: validate_dedupe_key_def)
  then show ?thesis using assms by (simp add: validate_for_iff)
qed

theorem validate_for_safe_witness:
  "let r = \<lparr>rq_contract = WEB_API_CONTRACT, rq_request_id = ''r1'', rq_tenant_id = ''t1'', rq_subject = ''alice'',
        rq_audience = API_AUDIENCE, rq_operation = Read, rq_resource = ''/v1/quotes'', rq_payload = JNull,
        rq_dedupe_key = Some ''k''\<rparr>
   in validate_for (\<lambda>_. Some ''{}'') r DirectReadOnlyDatabase = Inr () \<and>
      validate_for (\<lambda>_. Some ''{}'') r StatelessHttp = Inr ()"
proof -
  let ?r = "\<lparr>rq_contract = WEB_API_CONTRACT, rq_request_id = ''r1'', rq_tenant_id = ''t1'', rq_subject = ''alice'',
        rq_audience = API_AUDIENCE, rq_operation = Read, rq_resource = ''/v1/quotes'', rq_payload = JNull,
        rq_dedupe_key = Some ''k''\<rparr>"
  have ok: "validate_for (\<lambda>_. Some ''{}'') ?r DirectReadOnlyDatabase = Inr ()"
    by (simp add: validate_for_iff trim_graphic no_control_graphic is_ascii_graphic_def validate_resource_def
        chars_ascii is_ascii_def starts_with_def)
  with validate_for_safe [OF this] show ?thesis by simp
qed

end
