(* ===== verification/Records.thy ===== *)
theory Records
  imports Wire
begin

text \<open>
  The records of \<open>src/lib.rs\<close> that several components exchange. A \<open>Uuid\<close> is a 128-bit word; its text form
  belongs to the \<open>uuid\<close> crate and is an argument wherever it is used. \<open>QuoteRequest\<close> belongs to
  \<open>canonical_lib\<close>: the record has the fields the server reads and, in \<open>qr_other\<close>, everything it only
  passes on. Timestamps are the strings the server stores.
\<close>

type_synonym uuid = "128 word"

record quote_request =
  context_key :: "string option"
  organization_name :: string
  qr_frameworks :: "string list"
  qr_other :: json

record quote_record =
  analysis :: "json option"
  context_record_id :: uuid
  error_code :: "string option"
  gemini_model :: string
  owner_subject :: string
  persistence :: string
  quote_id :: uuid
  request :: quote_request
  qstatus :: string
  created_at :: string
  updated_at :: string

record quote_event_record =
  ev_owner_subject :: string
  ev_quote_id :: uuid
  ev_sequence :: "64 word"
  ev_status :: string
  ev_occurred_at :: string

record assessment_record =
  framework_ids :: "string list"
  as_id :: uuid
  as_idempotency_key :: string
  as_notes :: "string option"
  organization :: string
  received_at :: string
  as_status :: string
  as_subject :: string

record assessment_event_record =
  ae_assessment_id :: uuid
  ae_framework_ids :: "string list"
  ae_occurred_at :: string
  ae_status :: string

record canonical_context =
  context_json :: json
  context_markdown :: string
  cc_id :: uuid
  cc_name :: string

abbreviation MAX_MARKDOWN_CONTEXT_BYTES :: nat where "MAX_MARKDOWN_CONTEXT_BYTES \<equiv> 262144"
abbreviation MAX_CONTEXT_RECORD_BYTES :: nat where "MAX_CONTEXT_RECORD_BYTES \<equiv> 262144"

definition request_only :: canonical_context where
  "request_only = \<lparr>context_json = JObject [], context_markdown = [], cc_id = 0, cc_name = ''request-only context''\<rparr>"

text \<open>\<open>CanonicalContext::validate\<close>; \<open>to_vec\<close> is \<open>serde_json::to_vec\<close>.\<close>

definition context_validate :: "(json \<Rightarrow> string option) \<Rightarrow> canonical_context \<Rightarrow> string + unit" where
  "context_validate to_vec c =
     (if cc_name c = [] \<or> 200 < length (cc_name c) then Inl ''canonical_context.name is invalid''
      else if MAX_CONTEXT_RECORD_BYTES < length (context_markdown c)
      then Inl ''canonical_context.context_markdown is too large''
      else case to_vec (context_json c) of
             None \<Rightarrow> Inl ''canonical_context.context_json is invalid''
           | Some bytes \<Rightarrow>
               if MAX_CONTEXT_RECORD_BYTES < length bytes then Inl ''canonical_context.context_json is too large''
               else Inr ())"

text \<open>\<open>persistence::StoreError\<close> and its mapping to a problem response.\<close>

datatype store_error =
    ContextNotFound | IdempotencyKeyReused | InvalidTransition | QuoteNotFound | Database | InvalidRecord string

definition idempotency_reused :: api_error where
  "idempotency_reused =
     conflict ''idempotency_key_reused'' ''Idempotency-Key was already used for another operation or payload''"

definition storage_unavailable :: api_error where
  "storage_unavailable = service_unavailable ''storage_unavailable'' ''quote storage is temporarily unavailable''"

fun map_store_error :: "store_error \<Rightarrow> api_error" where
  "map_store_error ContextNotFound =
     service_unavailable ''context_unavailable'' ''an active canonical context record was not found for this account''"
| "map_store_error IdempotencyKeyReused = idempotency_reused"
| "map_store_error InvalidTransition = conflict ''conflict'' ''the requested quote transition is not allowed''"
| "map_store_error QuoteNotFound = not_found ''not_found'' ''quote was not found''"
| "map_store_error Database = storage_unavailable"
| "map_store_error (InvalidRecord _) = storage_unavailable"

end
