(* ===== verification/Envelope.thy ===== *)
theory Envelope
  imports Records
begin

text \<open>
  The middleware around every route of \<open>src/lib.rs\<close>: the header budget, the refusal of encoded bodies, the
  request deadline, the security headers, and the routing table of \<open>build_router\<close>. Durations count
  milliseconds. The inner service is an argument: it receives the deadline and yields the moment it finishes
  and its response.
\<close>

section \<open>Admission of a request\<close>

abbreviation MAX_REQUEST_HEADER_BYTES :: nat where "MAX_REQUEST_HEADER_BYTES \<equiv> 32768"
abbreviation MAX_REQUEST_HEADER_COUNT :: nat where "MAX_REQUEST_HEADER_COUNT \<equiv> 100"
abbreviation MAX_REQUEST_DURATION :: nat where "MAX_REQUEST_DURATION \<equiv> 90000"

definition request_duration :: "header_map \<Rightarrow> nat + nat" where
  "request_duration headers =
     (case header_get headers ''x-ores-deadline-ms'' of
        None \<Rightarrow> Inr MAX_REQUEST_DURATION
      | Some v \<Rightarrow>
          result_bind (ok_or (hv_str v) 400) (\<lambda>text.
          result_bind (ok_or (parse_unsigned u64_max text) 400) (\<lambda>milliseconds.
          if milliseconds = 0 then Inl 408 else Inr (min milliseconds MAX_REQUEST_DURATION))))"

text \<open>The loop over the headers, with the running acc; \<open>saturating_add\<close> stops at \<open>usize::MAX\<close>.\<close>

fun header_bytes_within :: "nat \<Rightarrow> header_map \<Rightarrow> bool" where
  "header_bytes_within acc [] = True"
| "header_bytes_within acc ((name, v) # hs) =
     (let acc = min u64_max (min u64_max (acc + length name) + length (hv_bytes v))
      in if MAX_REQUEST_HEADER_BYTES < acc then False else header_bytes_within acc hs)"

definition request_headers_within_budget :: "header_map \<Rightarrow> bool" where
  "request_headers_within_budget headers =
     (if MAX_REQUEST_HEADER_COUNT < length headers then False else header_bytes_within 0 headers)"

definition request_encoding_supported :: "header_map \<Rightarrow> bool" where
  "request_encoding_supported headers =
     list_all (\<lambda>v. case hv_str v of None \<Rightarrow> False | Some s \<Rightarrow> eq_ignore_ascii_case s ''identity'')
       (header_get_all headers ''content-encoding'')"

record response =
  rsp_status :: nat
  rsp_headers :: "(string \<times> string) list"

definition status_response :: "nat \<Rightarrow> response" where
  "status_response status = \<lparr>rsp_status = status, rsp_headers = []\<rparr>"

text \<open>\<open>next\<close> runs the rest of the stack from \<open>now\<close> under a deadline: \<open>timeout_at\<close> yields the response if it is
  ready by then. The result is the response and the moment it is available.\<close>

definition enforce_request_envelope ::
    "(nat \<Rightarrow> nat \<times> response) \<Rightarrow> nat \<Rightarrow> header_map \<Rightarrow> nat \<times> response" where
  "enforce_request_envelope next now headers =
     (if \<not> request_headers_within_budget headers then (now, status_response 431)
      else if \<not> request_encoding_supported headers then (now, status_response 415)
      else case request_duration headers of
             Inl status \<Rightarrow> (now, status_response status)
           | Inr duration \<Rightarrow>
               (let expires_at = now + duration; (finished, response) = next expires_at
                in if finished \<le> expires_at then (finished, response) else (expires_at, status_response 408)))"


section \<open>Response headers\<close>

text \<open>\<open>HeaderMap::insert\<close> replaces every value of the name.\<close>

definition header_insert :: "(string \<times> string) list \<Rightarrow> string \<times> string \<Rightarrow> (string \<times> string) list" where
  "header_insert hs h = filter (\<lambda>x. fst x \<noteq> fst h) hs @ [h]"

definition SECURITY_HEADERS :: "(string \<times> string) list" where
  "SECURITY_HEADERS =
     (let none = [CHR 0x27] @ ''none'' @ [CHR 0x27] in
     [(''cache-control'', ''no-store''),
      (''content-security-policy'', ''default-src '' @ none @ ''; base-uri '' @ none @ ''; frame-ancestors '' @ none),
      (''referrer-policy'', ''no-referrer''),
      (''permissions-policy'', ''camera=(), geolocation=(), microphone=()''),
      (''strict-transport-security'', ''max-age=31536000; includeSubDomains''),
      (''x-content-type-options'', ''nosniff''),
      (''x-frame-options'', ''DENY'')])"

definition security_headers :: "response \<Rightarrow> response" where
  "security_headers r = r\<lparr>rsp_headers := foldl header_insert (rsp_headers r) SECURITY_HEADERS\<rparr>"


section \<open>The routing table\<close>

datatype http_method = GET | HEAD | POST | PUT | DELETE | CONNECT | OPTIONS | TRACE | PATCH | Extension string

datatype handler =
    Health | Capabilities | ListQuotes | CreateQuote | GetQuote string | RetryQuote string | QuoteEvents string
  | ListFrameworks | GetFramework string | ListAssessments | CreateAssessment | GetAssessment string | ListWorkItems

datatype route_answer = Handle handler | MethodNotAllowed | NotFound

text \<open>Paths are given as their segments. A quote or assessment identifier that is not a UUID is refused by the
  extractor of its handler. \<open>axum\<close>'s \<open>get\<close> answers \<open>HEAD\<close> as well; every other method of a known path is not allowed.\<close>

definition methods :: "(http_method \<times> handler) list \<Rightarrow> http_method \<Rightarrow> route_answer" where
  "methods table m = (case map_of table (if m = HEAD then GET else m) of None \<Rightarrow> MethodNotAllowed | Some h \<Rightarrow> Handle h)"

fun v1_route :: "string list \<Rightarrow> http_method \<Rightarrow> route_answer" where
  "v1_route [a] m = (if a = ''quotes'' then methods [(GET, ListQuotes), (POST, CreateQuote)] m else NotFound)"
| "v1_route [a, b] m =
     (if a = ''quotes'' \<and> b \<noteq> [] then methods [(GET, GetQuote b)] m
      else if a = ''readiness'' \<and> b = ''frameworks'' then methods [(GET, ListFrameworks)] m
      else if a = ''readiness'' \<and> b = ''assessments'' then methods [(GET, ListAssessments), (POST, CreateAssessment)] m
      else if a = ''grc'' \<and> b = ''work-items'' then methods [(GET, ListWorkItems)] m
      else NotFound)"
| "v1_route [a, b, c] m =
     (if a = ''quotes'' \<and> b \<noteq> [] \<and> c = ''retry'' then methods [(POST, RetryQuote b)] m
      else if a = ''quotes'' \<and> b \<noteq> [] \<and> c = ''events'' then methods [(GET, QuoteEvents b)] m
      else if a = ''readiness'' \<and> b = ''frameworks'' \<and> c \<noteq> [] then methods [(GET, GetFramework c)] m
      else if a = ''readiness'' \<and> b = ''assessments'' \<and> c \<noteq> [] then methods [(GET, GetAssessment c)] m
      else NotFound)"
| "v1_route _ m = NotFound"

definition build_router :: "string list \<Rightarrow> http_method \<Rightarrow> route_answer" where
  "build_router path m =
     (if path = [''healthz''] then methods [(GET, Health)] m
      else if path = [''v1'', ''data-plane'', ''capabilities''] then methods [(GET, Capabilities)] m
      else case path of
             a # rest \<Rightarrow>
               if a = ''v1'' then v1_route rest m
               else if a = ''api'' then (case rest of b # rest' \<Rightarrow> if b = ''v1'' then v1_route rest' m else NotFound | [] \<Rightarrow> NotFound)
               else NotFound
           | [] \<Rightarrow> NotFound)"


section \<open>What the middleware guarantees\<close>

lemma header_bytes_within_iff:
  assumes "acc \<le> MAX_REQUEST_HEADER_BYTES"
  shows "header_bytes_within acc hs \<longleftrightarrow>
    acc + (\<Sum>(name, v)\<leftarrow>hs. length name + length (hv_bytes v)) \<le> MAX_REQUEST_HEADER_BYTES"
  using assms
proof (induction hs arbitrary: acc)
  case (Cons h hs)
  obtain name v where h: "h = (name, v)" by (cases h)
  let ?n = "acc + length name + length (hv_bytes v)"
  have cap: "MAX_REQUEST_HEADER_BYTES < min u64_max (min u64_max (acc + length name) + length (hv_bytes v)) \<longleftrightarrow>
      MAX_REQUEST_HEADER_BYTES < ?n"
    by (auto simp: min_def)
  show ?case
  proof (cases "MAX_REQUEST_HEADER_BYTES < ?n")
    case False
    then have "min u64_max (min u64_max (acc + length name) + length (hv_bytes v)) = ?n" by simp
    with False Cons.IH [of ?n] show ?thesis by (simp add: h Let_def add.assoc)
  qed (use cap h in \<open>simp add: Let_def\<close>)
qed simp

lemma request_duration_bounds: "request_duration headers = Inr d \<Longrightarrow> 0 < d \<and> d \<le> MAX_REQUEST_DURATION"
  by (auto simp: request_duration_def result_bind_Inr_iff split: option.splits if_splits)

text \<open>No request outlives its envelope: the caller has an answer at most 90 seconds after admission, and after at
  most the milliseconds it announced; the inner service runs only if the headers are at most 100 and at most
  32 KiB in all and every content encoding is \<open>identity\<close>, and its response is delivered exactly when it was
  ready in time; every other answer is 431, 415, 400 or 408.\<close>

theorem envelope_bounds_request:
  fixes now :: nat
  assumes "enforce_request_envelope next now headers = (finished, response)" and "\<And>t. now \<le> fst (next t)"
  shows "now \<le> finished \<and> finished \<le> now + MAX_REQUEST_DURATION \<and>
    (if length headers \<le> MAX_REQUEST_HEADER_COUNT \<and>
        (\<Sum>(name, v)\<leftarrow>headers. length name + length (hv_bytes v)) \<le> MAX_REQUEST_HEADER_BYTES \<and>
        request_encoding_supported headers
     then case request_duration headers of
            Inl status \<Rightarrow> response = status_response status \<and> status \<in> {400, 408}
          | Inr d \<Rightarrow> finished \<le> now + d \<and>
              (if fst (next (now + d)) \<le> now + d then response = snd (next (now + d)) else response = status_response 408)
     else response = status_response 431 \<or> response = status_response 415)"
proof -
  have budget: "request_headers_within_budget headers \<longleftrightarrow> length headers \<le> MAX_REQUEST_HEADER_COUNT \<and>
      (\<Sum>(name, v)\<leftarrow>headers. length name + length (hv_bytes v)) \<le> MAX_REQUEST_HEADER_BYTES"
    by (simp add: request_headers_within_budget_def header_bytes_within_iff [of 0, simplified])
  have err: "request_duration headers = Inl status \<Longrightarrow> status \<in> {400, 408}" for status
    by (auto simp: request_duration_def result_bind_Inl_iff ok_or_iff split: option.splits if_splits)
  show ?thesis
  proof (cases "request_duration headers")
    case (Inl status)
    then show ?thesis using assms budget err by (auto simp: enforce_request_envelope_def split: if_splits)
  next
    case (Inr d)
    have "now \<le> fst (next (now + d))" by (rule assms(2))
    then show ?thesis using assms(1) Inr budget request_duration_bounds [OF Inr]
      by (auto simp: enforce_request_envelope_def Let_def split: if_splits prod.splits)
  qed
qed

theorem envelope_bounds_request_witness:
  "let headers = [ascii_header ''x-ores-deadline-ms'' ''5'']
   in enforce_request_envelope (\<lambda>_. (20, status_response 200)) 10 headers = (15, status_response 408) \<and> 15 \<le> 10 + MAX_REQUEST_DURATION"
proof -
  let ?headers = "[ascii_header ''x-ores-deadline-ms'' ''5'']"
  have run: "enforce_request_envelope (\<lambda>_. (20, status_response 200)) 10 ?headers = (15, status_response 408)"
    by (simp add: enforce_request_envelope_def request_headers_within_budget_def request_encoding_supported_def
        header_get_all_def request_duration_def header_get_def ascii_header_def parse_unsigned_def parse_digits_def
        digits_value_def is_ascii_digit_def)
  from envelope_bounds_request [OF run] run show ?thesis by simp
qed

lemma header_insert_values:
  "map snd (filter (\<lambda>h. fst h = n) (header_insert hs (k, v))) =
     (if n = k then [v] else map snd (filter (\<lambda>h. fst h = n) hs))"
  by (auto simp: header_insert_def intro!: arg_cong [where f = "map snd"] filter_cong)

lemma foldl_header_insert_values:
  assumes "distinct (map fst kvs)"
  shows "map snd (filter (\<lambda>h. fst h = n) (foldl header_insert hs kvs)) =
    (case map_of kvs n of Some v \<Rightarrow> [v] | None \<Rightarrow> map snd (filter (\<lambda>h. fst h = n) hs))"
  using assms
proof (induction kvs arbitrary: hs)
  case (Cons kv kvs)
  obtain k v where kv: "kv = (k, v)" by (cases kv)
  show ?case
  proof (cases "n = k")
    case True
    then have "map_of kvs n = None" using Cons.prems kv by (simp add: map_of_eq_None_iff)
    then show ?thesis using Cons True kv by (simp add: header_insert_values)
  next
    case False
    then show ?thesis using Cons kv header_insert_values [of n hs k v] by (simp split: option.split)
  qed
qed simp

text \<open>Every response carries the security policy: whatever headers a handler set, each of the seven security
  headers occurs exactly once with the fixed value, and every other header keeps its values.\<close>

theorem security_headers_enforced:
  "map snd (filter (\<lambda>h. fst h = name) (rsp_headers (security_headers r))) =
     (case map_of SECURITY_HEADERS name of
        Some v \<Rightarrow> [v] | None \<Rightarrow> map snd (filter (\<lambda>h. fst h = name) (rsp_headers r))) \<and>
   rsp_status (security_headers r) = rsp_status r \<and> length SECURITY_HEADERS = 7"
proof -
  have "distinct (map fst SECURITY_HEADERS)" by (simp add: SECURITY_HEADERS_def)
  then show ?thesis using foldl_header_insert_values [of SECURITY_HEADERS name "rsp_headers r"]
    by (simp add: security_headers_def) (simp add: SECURITY_HEADERS_def)
qed

text \<open>The two published prefixes are one API: a path under \<open>/api/v1\<close> is answered exactly as the same path under
  \<open>/v1\<close>, the capability document apart, and no other path but the health check reaches a handler.\<close>

theorem router_prefixes_agree:
  "(rest \<noteq> [''data-plane'', ''capabilities''] \<longrightarrow>
      build_router (''api'' # ''v1'' # rest) m = build_router (''v1'' # rest) m) \<and>
   (build_router path m = Handle h \<longrightarrow>
      path = [''healthz''] \<or> hd path = ''v1'' \<or> (hd path = ''api'' \<and> hd (tl path) = ''v1''))"
  by (auto simp: build_router_def split: list.splits if_splits)

theorem router_prefixes_agree_witness:
  "build_router [''api'', ''v1'', ''quotes''] POST = Handle CreateQuote \<and> build_router [''v1'', ''quotes''] POST = Handle CreateQuote"
  using router_prefixes_agree [of "[''quotes'']" POST] by (simp add: build_router_def methods_def)

end
