(* ===== verification/Auth.thy ===== *)
theory Auth
  imports Records
begin

text \<open>
  Caller authentication of \<open>src/lib.rs\<close> and \<open>src/grc_work_queue.rs\<close>: the trusted-proxy headers, bearer tokens
  introspected by the shared authority, subjects, tenants and idempotency keys. The authority's answer to an
  introspection is an argument (\<open>None\<close> is a transport or requirement failure), as are the \<open>uuid\<close> crate's
  parser and printer. The comparison of tokens is constant-time in the code and plain equality here.
\<close>

section \<open>Identifiers\<close>

definition valid_subject :: "string \<Rightarrow> string option" where
  "valid_subject value =
     (let v = trim value
      in if v \<noteq> [] \<and> length v \<le> 255 \<and>
            list_all (\<lambda>c. is_ascii_alphanumeric c \<or> c \<in> {CHR ''-'', CHR ''_'', CHR '':''}) v
         then Some v else None)"

definition valid_shared_auth_identifier :: "string \<Rightarrow> bool" where
  "valid_shared_auth_identifier value \<longleftrightarrow>
     value \<noteq> [] \<and> length value \<le> 128 \<and>
     list_all (\<lambda>c. is_ascii_alphanumeric c \<or> c \<in> {CHR ''.'', CHR ''_'', CHR '':'', CHR ''/'', CHR ''-''}) value"

definition valid_idempotency_key :: "string \<Rightarrow> bool" where
  "valid_idempotency_key value \<longleftrightarrow>
     8 \<le> length value \<and> length value \<le> 128 \<and>
     list_all (\<lambda>c. is_ascii_alphanumeric c \<or> c \<in> {CHR ''.'', CHR ''_'', CHR '':'', CHR ''/'', CHR ''-''}) value"

definition required_idempotency_key :: "header_map \<Rightarrow> api_error + string" where
  "required_idempotency_key headers =
     (let candidate = map_option trim (header_str headers ''idempotency-key'')
      in case candidate of
           Some v \<Rightarrow> if valid_idempotency_key v then Inr v
                     else Inl (bad_request ''invalid_request'' ''Idempotency-Key must contain 8 to 128 allowed ASCII characters'')
         | None \<Rightarrow> Inl (bad_request ''invalid_request'' ''Idempotency-Key must contain 8 to 128 allowed ASCII characters''))"


section \<open>Subjects\<close>

record introspection =
  active :: bool
  sub :: "string option"
  rest :: "(string \<times> json) list"

type_synonym introspector = "string \<Rightarrow> string \<Rightarrow> string list \<Rightarrow> introspection option"

text \<open>The part of \<open>AppState\<close> authentication reads; \<open>shared_audience\<close> is \<open>None\<close> when no authority is configured.\<close>

record auth_state =
  internal_auth_token :: string
  shared_audience :: "string option"

definition unauthorized :: api_error where
  "unauthorized = unauthorized_error ''unauthorized'' ''authentication failed''"

text \<open>The bearer token both paths read from the \<open>Authorization\<close> header.\<close>

definition bearer_token :: "header_map \<Rightarrow> string option" where
  "bearer_token headers =
     (case map_option trim (Option.bind (header_str headers ''authorization'') (\<lambda>v. strip_prefix v ''Bearer '')) of
        Some v \<Rightarrow> if v \<noteq> [] \<and> length v \<le> 16384 then Some v else None
      | None \<Rightarrow> None)"

definition authenticate_bearer ::
    "introspector \<Rightarrow> header_map \<Rightarrow> auth_state \<Rightarrow> string list \<Rightarrow> api_error + string" where
  "authenticate_bearer introspect headers st scopes =
     result_bind (ok_or (bearer_token headers) unauthorized) (\<lambda>bearer.
     result_bind (ok_or (shared_audience st) unauthorized) (\<lambda>audience.
     result_bind (ok_or (introspect bearer audience scopes) unauthorized) (\<lambda>i.
     if \<not> active i then Inl unauthorized
     else ok_or (Option.bind (sub i) valid_subject) unauthorized)))"

definition authenticate ::
    "introspector \<Rightarrow> header_map \<Rightarrow> auth_state \<Rightarrow> string list \<Rightarrow> api_error + string" where
  "authenticate introspect headers st scopes =
     (let supplied_token = header_str headers ''x-canonical-internal-token'';
          supplied_subject = header_get headers ''x-canonical-subject''
      in if supplied_token = None \<and> supplied_subject = None then authenticate_bearer introspect headers st scopes
         else if supplied_token \<noteq> Some (internal_auth_token st)
         then Inl (unauthorized_error ''unauthorized'' ''trusted proxy authentication failed'')
         else ok_or (Option.bind (header_str headers ''x-canonical-subject'') valid_subject)
                (unauthorized_error ''unauthorized'' ''authenticated subject is required''))"


section \<open>Tenants\<close>

definition tenant_unauthorized :: api_error where
  "tenant_unauthorized = unauthorized_error ''unauthorized'' ''tenant-scoped GRC authentication failed''"

definition parse_tenant_id :: "(string \<Rightarrow> uuid option) \<Rightarrow> (uuid \<Rightarrow> string) \<Rightarrow> string \<Rightarrow> uuid option" where
  "parse_tenant_id uuid_parse uuid_str value =
     (let v = trim value
      in Option.bind (uuid_parse v) (\<lambda>parsed. if uuid_str parsed = v then Some parsed else None))"

definition authenticate_tenant ::
    "introspector \<Rightarrow> (string \<Rightarrow> uuid option) \<Rightarrow> (uuid \<Rightarrow> string) \<Rightarrow> header_map \<Rightarrow> auth_state \<Rightarrow> string list
     \<Rightarrow> api_error + uuid" where
  "authenticate_tenant introspect uuid_parse uuid_str headers st scopes =
     (let supplied_token = header_str headers ''x-canonical-internal-token'';
          supplied_subject = header_get headers ''x-canonical-subject'';
          supplied_tenant = header_get headers ''x-canonical-tenant-id''
      in if supplied_token \<noteq> None \<or> supplied_subject \<noteq> None \<or> supplied_tenant \<noteq> None
         then
           if supplied_token \<noteq> Some (internal_auth_token st) then Inl tenant_unauthorized
           else result_bind (ok_or (Option.bind (Option.bind supplied_subject hv_str) valid_subject) tenant_unauthorized) (\<lambda>_.
                ok_or (Option.bind (Option.bind supplied_tenant hv_str) (parse_tenant_id uuid_parse uuid_str)) tenant_unauthorized)
         else
           result_bind (ok_or (bearer_token headers) tenant_unauthorized) (\<lambda>bearer.
           result_bind (ok_or (shared_audience st) tenant_unauthorized) (\<lambda>audience.
           result_bind (ok_or (introspect bearer audience scopes) tenant_unauthorized) (\<lambda>i.
           if \<not> active i then Inl tenant_unauthorized
           else result_bind (ok_or (Option.bind (sub i) valid_subject) tenant_unauthorized) (\<lambda>_.
                ok_or (Option.bind (Option.bind
                        (case obj_get (rest i) ''tenant_id'' of Some v \<Rightarrow> Some v | None \<Rightarrow> obj_get (rest i) ''tenantId'')
                        as_str) (parse_tenant_id uuid_parse uuid_str)) tenant_unauthorized)))))"


section \<open>What authentication guarantees\<close>

lemma valid_subject_Some:
  "valid_subject v = Some s \<Longrightarrow> valid_subject s = Some s \<and> s \<noteq> [] \<and> length s \<le> 255 \<and>
     list_all (\<lambda>c. is_ascii_alphanumeric c \<or> c \<in> {CHR ''-'', CHR ''_'', CHR '':''}) s"
  by (auto simp: valid_subject_def Let_def split: if_splits)

definition proxied :: "header_map \<Rightarrow> auth_state \<Rightarrow> bool" where
  "proxied headers st \<longleftrightarrow> header_str headers ''x-canonical-internal-token'' = Some (internal_auth_token st)"

definition proxy_headers :: "header_map \<Rightarrow> bool" where
  "proxy_headers headers \<longleftrightarrow>
     header_str headers ''x-canonical-internal-token'' \<noteq> None \<or> header_get headers ''x-canonical-subject'' \<noteq> None"

text \<open>C33: an accepted caller is who the trusted proxy or the shared authority says: the subject is a bounded portable
  identifier; a request that carries any proxy header is accepted only with the exact internal token and is
  then the subject of its header; any other request only if a configured authority reports an active token,
  introspected for this audience and the required scopes, and is then that token's subject. Every refusal is 401.\<close>

theorem authenticate_sound:
  "case authenticate introspect headers st scopes of
     Inl e \<Rightarrow> err_status e = 401
   | Inr subject \<Rightarrow>
       valid_subject subject = Some subject \<and> length subject \<le> 255 \<and>
       (if proxy_headers headers
        then proxied headers st \<and> (\<exists>v. header_str headers ''x-canonical-subject'' = Some v \<and> valid_subject v = Some subject)
        else (\<exists>bearer audience i v. bearer_token headers = Some bearer \<and> shared_audience st = Some audience \<and>
               introspect bearer audience scopes = Some i \<and> active i \<and> sub i = Some v \<and> valid_subject v = Some subject))"
proof (cases "authenticate introspect headers st scopes")
  case (Inl e)
  then show ?thesis
    by (auto simp: authenticate_def authenticate_bearer_def Let_def result_bind_Inl_iff ok_or_iff unauthorized_def
        api_error_defs split: if_splits)
next
  case (Inr subject)
  then show ?thesis
    by (auto simp: authenticate_def authenticate_bearer_def Let_def result_bind_Inr_iff ok_or_iff proxy_headers_def proxied_def
        bind_eq_Some_conv split: if_splits dest: valid_subject_Some)
qed

text \<open>A tenant is never taken from an unauthenticated header: tenant authentication succeeds only with the exact
  internal token together with a valid subject, or, when no proxy header at all is present, from the claims of
  an active introspected token; and the accepted identifier is the canonical spelling of the tenant.\<close>

theorem authenticate_tenant_sound:
  assumes "authenticate_tenant introspect uuid_parse uuid_str headers st scopes = Inr tenant"
  shows "uuid_parse (uuid_str tenant) = Some tenant \<and>
    (if proxy_headers headers \<or> header_get headers ''x-canonical-tenant-id'' \<noteq> None
     then proxied headers st \<and>
       (\<exists>v. header_str headers ''x-canonical-tenant-id'' = Some v \<and> trim v = uuid_str tenant) \<and>
       (\<exists>v s. header_str headers ''x-canonical-subject'' = Some v \<and> valid_subject v = Some s)
     else (\<exists>bearer audience i. bearer_token headers = Some bearer \<and> shared_audience st = Some audience \<and>
            introspect bearer audience scopes = Some i \<and> active i \<and>
            (\<exists>v. (obj_get (rest i) ''tenant_id'' = Some (JString v) \<or> obj_get (rest i) ''tenantId'' = Some (JString v)) \<and>
                 trim v = uuid_str tenant)))"
proof -
  have tid: "parse_tenant_id uuid_parse uuid_str v = Some t \<Longrightarrow> uuid_parse (uuid_str t) = Some t \<and> trim v = uuid_str t" for v t
    by (auto simp: parse_tenant_id_def Let_def bind_eq_Some_conv split: if_splits)
  show ?thesis
  proof (cases "proxy_headers headers \<or> header_get headers ''x-canonical-tenant-id'' \<noteq> None")
    case True
    with assms show ?thesis
      by (auto simp: authenticate_tenant_def Let_def result_bind_Inr_iff ok_or_iff proxy_headers_def proxied_def
          bind_eq_Some_conv header_str_def split: if_splits dest!: tid)
  next
    case False
    with assms show ?thesis
      by (auto simp: authenticate_tenant_def Let_def result_bind_Inr_iff ok_or_iff proxy_headers_def
          bind_eq_Some_conv split: if_splits option.splits dest!: tid)
  qed
qed

theorem authenticate_tenant_sound_witness:
  "let headers = [ascii_header ''x-canonical-internal-token'' ''tok'', ascii_header ''x-canonical-subject'' ''alice'',
                  ascii_header ''x-canonical-tenant-id'' ''t'']
   in authenticate_tenant (\<lambda>_ _ _. None) (\<lambda>_. Some 5) (\<lambda>_. ''t'') headers \<lparr>internal_auth_token = ''tok'', shared_audience = None\<rparr> []
        = Inr 5 \<and> proxied headers \<lparr>internal_auth_token = ''tok'', shared_audience = None\<rparr>"
proof -
  let ?headers = "[ascii_header ''x-canonical-internal-token'' ''tok'', ascii_header ''x-canonical-subject'' ''alice'',
                  ascii_header ''x-canonical-tenant-id'' ''t'']"
  let ?st = "\<lparr>internal_auth_token = ''tok'', shared_audience = None\<rparr>"
  have t: "trim ''alice'' = ''alice''" "trim ''t'' = ''t''" by (rule trim_graphic; simp add: is_ascii_graphic_def)+
  have ok: "authenticate_tenant (\<lambda>_ _ _. None) (\<lambda>_. Some 5) (\<lambda>_. ''t'') ?headers ?st [] = Inr 5"
    by (simp add: authenticate_tenant_def header_str_def header_get_def ascii_header_def valid_subject_def
        parse_tenant_id_def t ascii_defs)
  have "proxy_headers ?headers" by (simp add: proxy_headers_def header_str_def header_get_def ascii_header_def)
  with authenticate_tenant_sound [OF ok] ok show ?thesis by simp
qed

end
