(* ===== verification/Admission.thy ===== *)
theory Admission
  imports Machine
begin

text \<open>
  Quote admission of \<open>src/lib.rs\<close> (\<open>QuoteAdmission\<close>): the sliding windows of accepted submissions, per
  subject and global, and the two semaphores. Instants count nanoseconds, so the saturating duration
  between two instants is subtraction of natural numbers. \<open>by_subject\<close> is an association list in the
  iteration order of the \<open>HashMap\<close>, which the code never depends on except in the eviction branch.

  The specification is a plain log of accepted submissions; the theorems show that the windows implement
  it when the clock readings do not go backwards, that the eviction branch cannot run, and what the log
  promises: the limits per window, and when a refused caller may return.
\<close>

section \<open>The submission windows\<close>

abbreviation nanos :: nat where "nanos \<equiv> 1000000000"

definition QUOTE_SUBMISSION_WINDOW :: nat where "QUOTE_SUBMISSION_WINDOW = 600 * nanos"

abbreviation QUOTE_SUBMISSIONS_PER_WINDOW :: nat where "QUOTE_SUBMISSIONS_PER_WINDOW \<equiv> 5"
abbreviation QUOTE_SUBMISSIONS_GLOBAL_PER_WINDOW :: nat where "QUOTE_SUBMISSIONS_GLOBAL_PER_WINDOW \<equiv> 500"
abbreviation QUOTE_SUBMISSION_MAX_SUBJECTS :: nat where "QUOTE_SUBMISSION_MAX_SUBJECTS \<equiv> 4096"

record submission_windows =
  all_subjects :: "nat list"
  by_subject :: "(string \<times> nat list) list"

definition submission_windows_default :: submission_windows where
  "submission_windows_default = \<lparr>all_subjects = [], by_subject = []\<rparr>"

definition expired :: "nat \<Rightarrow> nat \<Rightarrow> bool" where
  "expired now timestamp \<longleftrightarrow> QUOTE_SUBMISSION_WINDOW \<le> now - timestamp"

definition discard_expired :: "nat list \<Rightarrow> nat \<Rightarrow> nat list" where
  "discard_expired timestamps now = dropWhile (expired now) timestamps"

definition retry_after_seconds :: "nat \<Rightarrow> nat \<Rightarrow> nat" where
  "retry_after_seconds earliest now = (QUOTE_SUBMISSION_WINDOW - (now - earliest)) div nanos + 1"

text \<open>\<open>iter().min_by_key(|(_, timestamps)| timestamps.front())\<close>: the first entry with the least front,
  where an empty queue (\<open>None\<close>) is least.\<close>

definition front_less :: "nat list \<Rightarrow> nat list \<Rightarrow> bool" where
  "front_less a b = (case (a, b) of (_, []) \<Rightarrow> False | ([], _) \<Rightarrow> True | (x # _, y # _) \<Rightarrow> x < y)"

fun min_by_front :: "(string \<times> nat list) list \<Rightarrow> (string \<times> nat list) option" where
  "min_by_front [] = None"
| "min_by_front (e # es) =
     (case min_by_front es of None \<Rightarrow> Some e
      | Some m \<Rightarrow> if front_less (snd m) (snd e) then Some m else Some e)"

definition remove_subject :: "string \<Rightarrow> (string \<times> nat list) list \<Rightarrow> (string \<times> nat list) list" where
  "remove_subject s m = filter (\<lambda>e. fst e \<noteq> s) m"

definition put_subject :: "string \<Rightarrow> nat list \<Rightarrow> (string \<times> nat list) list \<Rightarrow> (string \<times> nat list) list" where
  "put_subject s ts m =
     (if map_of m s = None then m @ [(s, ts)] else map (\<lambda>e. if fst e = s then (s, ts) else e) m)"

definition retain_live :: "nat \<Rightarrow> submission_windows \<Rightarrow> submission_windows" where
  "retain_live now w =
     \<lparr>all_subjects = discard_expired (all_subjects w) now,
      by_subject = filter (\<lambda>e. snd e \<noteq> []) (map (\<lambda>(s, ts). (s, discard_expired ts now)) (by_subject w))\<rparr>"

definition evict_oldest :: "string \<Rightarrow> (string \<times> nat list) list \<Rightarrow> (string \<times> nat list) list" where
  "evict_oldest subject m =
     (if map_of m subject = None \<and> QUOTE_SUBMISSION_MAX_SUBJECTS \<le> length m
      then case min_by_front m of None \<Rightarrow> m | Some (evicted, _) \<Rightarrow> remove_subject evicted m
      else m)"

text \<open>\<open>check_submission\<close> at the clock reading \<open>now\<close>; \<open>Inl\<close> carries \<open>retry_after_seconds\<close>.\<close>

definition check_submission ::
    "submission_windows \<Rightarrow> nat \<times> string \<Rightarrow> (nat + unit) \<times> submission_windows" where
  "check_submission w req =
     (let (now, subject) = req;
          w = retain_live now w
      in if all_subjects w \<noteq> [] \<and> QUOTE_SUBMISSIONS_GLOBAL_PER_WINDOW \<le> length (all_subjects w)
         then (Inl (retry_after_seconds (hd (all_subjects w)) now), w)
         else let m = evict_oldest subject (by_subject w);
                  timestamps = (case map_of m subject of None \<Rightarrow> [] | Some ts \<Rightarrow> ts)
              in if timestamps \<noteq> [] \<and> QUOTE_SUBMISSIONS_PER_WINDOW \<le> length timestamps
                 then (Inl (retry_after_seconds (hd timestamps) now), w\<lparr>by_subject := put_subject subject timestamps m\<rparr>)
                 else (Inr (), \<lparr>all_subjects = all_subjects w @ [now],
                                by_subject = put_subject subject (timestamps @ [now]) m\<rparr>))"


section \<open>The bookkeeping invariant\<close>

text \<open>The accepted submissions still held, each with its subject, in order of acceptance. Every queue is
  a suffix of its subject's share of the global queue: a queue may forget an expired entry that the
  global queue still holds behind a younger one, never the reverse. No assumption on the clock.\<close>

abbreviation share :: "string \<Rightarrow> (string \<times> nat) list \<Rightarrow> nat list" where
  "share s q \<equiv> map snd (filter (\<lambda>e. fst e = s) q)"

definition tracks :: "(string \<times> nat) list \<Rightarrow> submission_windows \<Rightarrow> bool" where
  "tracks q w \<longleftrightarrow>
     all_subjects w = map snd q \<and> length q \<le> QUOTE_SUBMISSIONS_GLOBAL_PER_WINDOW \<and>
     distinct (map fst (by_subject w)) \<and>
     (\<forall>(s, ts) \<in> set (by_subject w). suffix ts (share s q) \<and> ts \<noteq> [] \<and> length ts \<le> QUOTE_SUBMISSIONS_PER_WINDOW)"

lemma map_snd_dropWhile: "map snd (dropWhile (\<lambda>e. P (snd e)) q) = dropWhile P (map snd q)"
  by (induction q) auto

lemma suffix_dropWhile_share:
  assumes "suffix ts (share s q)"
  shows "suffix (dropWhile P ts) (share s (dropWhile (\<lambda>e. P (snd e)) q))"
  using assms
proof (induction q arbitrary: ts)
  case (Cons e q)
  show ?case
  proof (cases "P (snd e)")
    case False
    then show ?thesis using Cons.prems suffix_dropWhile [of P ts] by (auto intro: suffix_order.trans)
  next
    case True
    show ?thesis
    proof (cases "fst e = s \<and> ts = share s (e # q)")
      case True
      then show ?thesis using Cons.IH [of "share s q"] \<open>P (snd e)\<close> by simp
    next
      case False
      then have "suffix ts (share s q)" using Cons.prems by (auto simp: suffix_Cons split: if_splits)
      then show ?thesis using Cons.IH \<open>P (snd e)\<close> by simp
    qed
  qed
qed simp

lemma length_share_sum:
  assumes "distinct ss"
  shows "(\<Sum>s\<leftarrow>ss. length (share s q)) \<le> length q"
  using assms
proof (induction ss arbitrary: q)
  case (Cons s ss)
  have "filter (\<lambda>e. fst e = t) q = filter (\<lambda>e. fst e = t) (filter (\<lambda>e. fst e \<noteq> s) q)" if "t \<in> set ss" for t
    using that Cons.prems by (auto intro!: filter_cong)
  then have "(\<Sum>t\<leftarrow>ss. length (share t q)) = (\<Sum>t\<leftarrow>ss. length (share t (filter (\<lambda>e. fst e \<noteq> s) q)))"
    by (intro arg_cong [where f = sum_list] map_cong) simp_all
  also have "\<dots> \<le> length (filter (\<lambda>e. fst e \<noteq> s) q)" using Cons by (intro Cons.IH) simp
  finally show ?case using sum_length_filter_compl [of "\<lambda>e. fst e = s" q] by simp
qed simp

text \<open>So there are never more tracked subjects than held submissions.\<close>

lemma tracks_subjects: "tracks q w \<Longrightarrow> length (by_subject w) \<le> length q"
proof -
  assume t: "tracks q w"
  let ?ss = "map fst (by_subject w)"
  have "length (by_subject w) = (\<Sum>s\<leftarrow>?ss. 1)" by (simp add: comp_def sum_list_triv)
  also have "\<dots> \<le> (\<Sum>s\<leftarrow>?ss. length (share s q))"
  proof (rule sum_list_mono)
    fix s assume "s \<in> set ?ss"
    then obtain ts where "suffix ts (share s q)" "ts \<noteq> []" using t by (fastforce simp: tracks_def)
    then show "1 \<le> length (share s q)" by (cases "share s q") auto
  qed
  also have "\<dots> \<le> length q" using t by (intro length_share_sum) (simp add: tracks_def)
  finally show ?thesis .
qed

lemma tracks_retain: "tracks q w \<Longrightarrow> tracks (dropWhile (\<lambda>e. expired now (snd e)) q) (retain_live now w)"
proof -
  assume t: "tracks q w"
  have "length (dropWhile (\<lambda>e. expired now (snd e)) q) \<le> length q" by (rule length_dropWhile_le)
  moreover have "suffix (dropWhile (expired now) ts) (share s (dropWhile (\<lambda>e. expired now (snd e)) q))
      \<and> length (dropWhile (expired now) ts) \<le> 5" if "(s, ts) \<in> set (by_subject w)" for s ts
    using that t suffix_dropWhile_share [of ts s q "expired now"] length_dropWhile_le [of "expired now" ts]
    by (fastforce simp: tracks_def)
  moreover have "distinct (map fst (filter (\<lambda>e. snd e \<noteq> []) (map (\<lambda>(s, ts). (s, dropWhile (expired now) ts)) (by_subject w))))"
    using t by (intro distinct_map_filter) (simp add: tracks_def case_prod_beta comp_def)
  ultimately show ?thesis
    using t by (auto simp: tracks_def retain_live_def discard_expired_def map_snd_dropWhile)
qed


lemma put_subject_keys:
  "distinct (map fst m) \<Longrightarrow> distinct (map fst (put_subject s ts m))"
  "e \<in> set (put_subject s ts m) \<Longrightarrow> e = (s, ts) \<or> e \<in> set m \<and> fst e \<noteq> s"
proof -
  have "map fst (map (\<lambda>e. if fst e = s then (s, ts) else e) m) = map fst m" by (induction m) auto
  then show "distinct (map fst m) \<Longrightarrow> distinct (map fst (put_subject s ts m))"
    unfolding put_subject_def by (simp only: if_distrib [of "map fst"]) (simp add: map_of_eq_None_iff)
  show "e \<in> set (put_subject s ts m) \<Longrightarrow> e = (s, ts) \<or> e \<in> set m \<and> fst e \<noteq> s"
    by (cases e) (auto simp: put_subject_def map_of_eq_None_iff rev_image_eqI split: if_splits)
qed

lemma map_of_put_subject: "map_of (put_subject s ts m) = (map_of m)(s \<mapsto> ts)"
proof -
  have upd: "map_of (map (\<lambda>e. if fst e = s then (s, ts) else e) m) t =
      (if t = s then (if map_of m s = None then None else Some ts) else map_of m t)" for t
    by (induction m) auto
  show ?thesis by (auto simp: put_subject_def map_add_def upd split: option.splits)
qed

lemma put_subject_same: "map_of m s = Some ts \<Longrightarrow> distinct (map fst m) \<Longrightarrow> put_subject s ts m = m"
  by (auto simp: put_subject_def map_of_eq_Some_iff intro!: map_idI) (metis eq_key_imp_eq_value map_of_eq_Some_iff prod.collapse)

text \<open>\<open>check_submission\<close> without the eviction branch.\<close>

definition check_submission_plain ::
    "submission_windows \<Rightarrow> nat \<times> string \<Rightarrow> (nat + unit) \<times> submission_windows" where
  "check_submission_plain w req =
     (let (now, subject) = req;
          w = retain_live now w;
          timestamps = (case map_of (by_subject w) subject of None \<Rightarrow> [] | Some ts \<Rightarrow> ts)
      in if QUOTE_SUBMISSIONS_GLOBAL_PER_WINDOW \<le> length (all_subjects w)
         then (Inl (retry_after_seconds (hd (all_subjects w)) now), w)
         else if QUOTE_SUBMISSIONS_PER_WINDOW \<le> length timestamps
         then (Inl (retry_after_seconds (hd timestamps) now), w)
         else (Inr (), \<lparr>all_subjects = all_subjects w @ [now],
                        by_subject = put_subject subject (timestamps @ [now]) (by_subject w)\<rparr>))"

lemma tracks_plain:
  assumes t: "tracks q w"
  shows "check_submission w req = check_submission_plain w req"
    and "\<exists>q'. tracks q' (snd (check_submission_plain w req))"
proof -
  obtain now subject where req: "req = (now, subject)" by (cases req)
  let ?w = "retain_live now w" and ?q = "dropWhile (\<lambda>e. expired now (snd e)) q"
  have r: "tracks ?q ?w" using t by (rule tracks_retain)
  let ?ts = "case map_of (by_subject ?w) subject of None \<Rightarrow> [] | Some ts \<Rightarrow> ts"
  have dist: "distinct (map fst (by_subject ?w))" and all: "all_subjects ?w = map snd ?q"
    using r by (simp_all add: tracks_def)
  have evict: "evict_oldest subject (by_subject ?w) = by_subject ?w" if "length (all_subjects ?w) < 500"
    using tracks_subjects [OF r] that all by (simp add: evict_oldest_def)
  have same: "put_subject subject ?ts (by_subject ?w) = by_subject ?w" if "?ts \<noteq> []"
    using that put_subject_same [OF _ dist] by (auto split: option.splits)
  show "check_submission w req = check_submission_plain w req"
    using evict same by (cases "all_subjects ?w = []"; cases "?ts = []")
      (auto simp: check_submission_def check_submission_plain_def req Let_def not_le)
  have ts: "suffix ?ts (share subject ?q)"
  proof (cases "map_of (by_subject ?w) subject")
    case (Some ts)
    then have "(subject, ts) \<in> set (by_subject ?w)" by (rule map_of_SomeD)
    then show ?thesis using r Some by (auto simp: tracks_def)
  qed simp
  have "tracks (?q @ [(subject, now)])
      \<lparr>all_subjects = all_subjects ?w @ [now], by_subject = put_subject subject (?ts @ [now]) (by_subject ?w)\<rparr>"
    if "length (all_subjects ?w) < 500" "length ?ts < 5"
    using that r ts put_subject_keys(1) [OF dist]
    by (auto simp: tracks_def dest!: put_subject_keys(2) split: if_splits)
  then show "\<exists>q'. tracks q' (snd (check_submission_plain w req))"
    using r by (auto simp: check_submission_plain_def req Let_def not_le)
qed

interpretation windows: machine "\<lambda>w req. snd (check_submission w req)" "\<lambda>w. \<exists>q. tracks q w"
proof
  fix w req assume "\<exists>q. tracks q w"
  then show "\<exists>q. tracks q (snd (check_submission w req))" using tracks_plain by metis
qed

lemma tracks_default: "tracks [] submission_windows_default"
  by (simp add: tracks_def submission_windows_default_def)

text \<open>C40: whatever submissions arrive at whatever clock readings, the tracked subjects stay at most as many
  as the global limit of 500, so the branch that evicts a subject at 4096 tracked subjects never runs: the
  limiter always behaves as the one without it, and no subject's history is dropped early.\<close>

theorem eviction_unreachable:
  "let w = run (\<lambda>w req. snd (check_submission w req)) submission_windows_default reqs
   in length (by_subject w) \<le> QUOTE_SUBMISSIONS_GLOBAL_PER_WINDOW \<and> check_submission w req = check_submission_plain w req"
proof -
  let ?w = "run (\<lambda>w req. snd (check_submission w req)) submission_windows_default reqs"
  obtain q where q: "tracks q ?w" using windows.inv_run [of submission_windows_default reqs] tracks_default by blast
  then have "length (by_subject ?w) \<le> 500" using tracks_subjects [OF q] by (auto simp: tracks_def)
  then show ?thesis using tracks_plain(1) [OF q] by simp
qed


section \<open>The log of accepted submissions\<close>

text \<open>The specification: the log of every accepted submission, never trimmed. A submission is accepted
  when fewer than 500 log entries, and fewer than 5 of its subject, are younger than the window.\<close>

abbreviation live :: "nat \<Rightarrow> nat list \<Rightarrow> nat list" where
  "live now ts \<equiv> filter (\<lambda>t. \<not> expired now t) ts"

definition spec_check ::
    "(string \<times> nat) list \<Rightarrow> nat \<times> string \<Rightarrow> (nat + unit) \<times> (string \<times> nat) list" where
  "spec_check lg req =
     (let (now, subject) = req; everyone = live now (map snd lg); own = live now (share subject lg)
      in if 500 \<le> length everyone then (Inl (retry_after_seconds (hd everyone) now), lg)
         else if 5 \<le> length own then (Inl (retry_after_seconds (hd own) now), lg)
         else (Inr (), lg @ [(subject, now)]))"

definition some_list :: "'a list \<Rightarrow> 'a list option" where
  "some_list xs = (if xs = [] then None else Some xs)"

definition implements :: "nat \<Rightarrow> (string \<times> nat) list \<Rightarrow> submission_windows \<Rightarrow> bool" where
  "implements clock lg w \<longleftrightarrow>
     sorted (map snd lg) \<and> list_all (\<lambda>e. snd e \<le> clock) lg \<and>
     all_subjects w = live clock (map snd lg) \<and>
     (\<forall>s. map_of (by_subject w) s = some_list (live clock (share s lg))) \<and>
     (\<exists>q. tracks q w)"

lemma expired_mono: "expired now t \<Longrightarrow> now \<le> now' \<Longrightarrow> t' \<le> t \<Longrightarrow> expired now' t'"
  by (simp add: expired_def)

lemma dropWhile_expired: "sorted ts \<Longrightarrow> dropWhile (expired now) ts = live now ts"
proof (induction ts)
  case (Cons t ts)
  have "live now ts = ts" if "\<not> expired now t"
    using Cons.prems that expired_mono [of now _ now t] by (auto simp: filter_id_conv)
  with Cons show ?case by auto
qed simp

lemma live_live: "now \<le> now' \<Longrightarrow> live now' (live now ts) = live now' ts"
  by (auto simp: filter_filter intro!: filter_cong dest: expired_mono [of now _ now'])

lemma dropWhile_live: "sorted ts \<Longrightarrow> now \<le> now' \<Longrightarrow> dropWhile (expired now') (live now ts) = live now' ts"
  by (simp only: dropWhile_expired [OF sorted_wrt_filter] live_live)

lemma sorted_share: "sorted (map snd lg) \<Longrightarrow> sorted (share s lg)"
  by (rule sorted_filter)

lemma map_of_filter_nonempty:
  "distinct (map fst m) \<Longrightarrow>
   map_of (filter (\<lambda>e. snd e \<noteq> []) (map (\<lambda>(s, ts). (s, f ts)) m)) s = Option.bind (map_of m s) (\<lambda>ts. some_list (f ts))"
  by (induction m) (auto simp: some_list_def map_of_eq_None_iff image_iff split: option.splits)

lemma implements_retain:
  assumes i: "implements clock lg w" and "clock \<le> now"
  shows "implements now lg (retain_live now w)"
proof -
  have s: "sorted (map snd lg)" "distinct (map fst (by_subject w))"
    using i by (auto simp: implements_def tracks_def)
  have drop: "dropWhile (expired now) (live clock (map snd lg)) = live now (map snd lg)"
    using s(1) assms(2) by (rule dropWhile_live)
  have "Option.bind (some_list xs) (\<lambda>ts. some_list (dropWhile P ts)) = some_list (dropWhile P xs)" for P and xs :: "nat list"
    by (simp add: some_list_def)
  then have "Option.bind (some_list (live clock (share u lg))) (\<lambda>ts. some_list (dropWhile (expired now) ts)) =
      some_list (live now (share u lg))" for u
    using dropWhile_live [OF sorted_share [OF s(1)] assms(2), of u] by simp
  then have "map_of (by_subject (retain_live now w)) u = some_list (live now (share u lg))" for u
    using i by (simp only: retain_live_def discard_expired_def map_of_filter_nonempty [OF s(2)] implements_def
        submission_windows.select_convs)
  moreover have "\<exists>q. tracks q (retain_live now w)" using i tracks_retain by (auto simp: implements_def)
  moreover have "all_subjects (retain_live now w) = live now (map snd lg)"
    using i drop by (simp add: implements_def retain_live_def discard_expired_def)
  moreover have "list_all (\<lambda>e. snd e \<le> now) lg"
    using i assms(2) by (auto simp: implements_def list_all_iff)
  ultimately show ?thesis using s(1) by (simp add: implements_def)
qed

lemma implements_check:
  assumes i: "implements clock lg w" and "clock \<le> now"
  shows "fst (check_submission w (now, s)) = fst (spec_check lg (now, s)) \<and>
         implements now (snd (spec_check lg (now, s))) (snd (check_submission w (now, s)))"
proof -
  let ?w = "retain_live now w"
  have r: "implements now lg ?w" using assms by (rule implements_retain)
  obtain q where q: "tracks q w" using i by (auto simp: implements_def)
  have check: "check_submission w (now, s) = check_submission_plain w (now, s)" by (rule tracks_plain(1) [OF q])
  have ts: "(case map_of (by_subject ?w) s of None \<Rightarrow> [] | Some ts \<Rightarrow> ts) = live now (share s lg)"
    using r by (simp add: implements_def some_list_def)
  have now: "\<not> expired now now" by (simp add: expired_def QUOTE_SUBMISSION_WINDOW_def)
  have "implements now (lg @ [(s, now)]) \<lparr>all_subjects = all_subjects ?w @ [now],
      by_subject = put_subject s (live now (share s lg) @ [now]) (by_subject ?w)\<rparr>"
    if acc: "length (all_subjects ?w) < 500" "length (live now (share s lg)) < 5"
  proof -
    have "\<exists>q'. tracks q' \<lparr>all_subjects = all_subjects ?w @ [now],
        by_subject = put_subject s (live now (share s lg) @ [now]) (by_subject ?w)\<rparr>"
      using tracks_plain(2) [OF q, of "(now, s)"] acc by (simp add: check_submission_plain_def ts Let_def)
    then show ?thesis
      using r now by (auto simp: implements_def sorted_append map_of_put_subject some_list_def list_all_iff)
  qed
  moreover have "all_subjects ?w = live now (map snd lg)" using r by (simp add: implements_def)
  ultimately show ?thesis
    using r by (simp add: check check_submission_plain_def spec_check_def ts Let_def)
qed

lemma run_implements:
  assumes "implements clock lg w" and "sorted (clock # map fst reqs)"
  shows "fst (run_out check_submission w reqs) = fst (run_out spec_check lg reqs) \<and>
         (\<exists>clock'. implements clock' (snd (run_out spec_check lg reqs)) (snd (run_out check_submission w reqs)))"
  using assms
proof (induction reqs arbitrary: clock lg w)
  case (Cons req reqs)
  obtain now s where req: "req = (now, s)" by (cases req)
  have step: "fst (check_submission w req) = fst (spec_check lg req)"
    "implements now (snd (spec_check lg req)) (snd (check_submission w req))"
    using implements_check [OF Cons.prems(1), of now s] Cons.prems(2) req by simp_all
  show ?case using Cons.IH [OF step(2)] Cons.prems(2) req step(1) by (simp add: Let_def case_prod_beta)
qed auto

lemma implements_default: "implements 0 [] submission_windows_default"
  using tracks_default by (auto simp: implements_def submission_windows_default_def some_list_def)

text \<open>C19: the submission limiter implements its specification: for any sequence of submissions whose clock
  readings do not go backwards, the trimmed queues give the same answer to every submission, retry times
  included, as the untrimmed log of accepted submissions.\<close>

theorem admission_refines_log:
  assumes "sorted (map fst reqs)"
  shows "fst (run_out check_submission submission_windows_default reqs) = fst (run_out spec_check [] reqs)"
  using run_implements [OF implements_default, of reqs] assms by simp

theorem admission_refines_log_witness:
  "fst (run_out check_submission submission_windows_default [(0, ''a''), (1, ''a''), (1, ''b'')]) =
   [Inr (), Inr (), Inr ()]"
proof -
  have "fst (run_out spec_check [] [(0, ''a''), (1, ''a''), (1, ''b'')]) = [Inr (), Inr (), Inr ()]"
    by (simp add: spec_check_def expired_def QUOTE_SUBMISSION_WINDOW_def)
  then show ?thesis using admission_refines_log [of "[(0, ''a''), (1, ''a''), (1, ''b'')]"] by simp
qed


section \<open>What the limiter promises\<close>

definition accepted :: "(nat \<times> string) list \<Rightarrow> (nat + unit) list \<Rightarrow> (string \<times> nat) list" where
  "accepted reqs answers = map (\<lambda>(req, _). prod.swap req) (filter (\<lambda>(_, a). a = Inr ()) (zip reqs answers))"

text \<open>The clock is read before the lock is taken, so that the readings, in the order in which the submissions are checked,
  may go back by the time a request waits for the lock. \<open>lag\<close> bounds that: no reading is more than \<open>lag\<close> after one
  checked later. An interval shorter than the window by the lag is limited.\<close>

definition in_window :: "nat \<Rightarrow> nat \<Rightarrow> nat \<Rightarrow> bool" where
  "in_window lag t x \<longleftrightarrow> t \<le> x \<and> x + lag < t + QUOTE_SUBMISSION_WINDOW"

definition within_limits :: "nat \<Rightarrow> (string \<times> nat) list \<Rightarrow> bool" where
  "within_limits lag lg \<longleftrightarrow>
     (\<forall>t. length (filter (in_window lag t) (map snd lg)) \<le> 500 \<and>
          (\<forall>s. length (filter (in_window lag t) (share s lg)) \<le> 5))"

text \<open>What a queue has forgotten of its log was expired at a reading \<open>us\<close> checked before.\<close>

definition remembers :: "nat list \<Rightarrow> nat list \<Rightarrow> nat list \<Rightarrow> bool" where
  "remembers us ts q \<longleftrightarrow> (\<exists>p. ts = p @ q \<and> (\<forall>x \<in> set p. \<exists>u \<in> set us. expired u x))"

abbreviation queue_of :: "string \<Rightarrow> submission_windows \<Rightarrow> nat list" where
  "queue_of s w \<equiv> case map_of (by_subject w) s of None \<Rightarrow> [] | Some ts \<Rightarrow> ts"

definition faithful :: "nat list \<Rightarrow> (string \<times> nat) list \<Rightarrow> submission_windows \<Rightarrow> bool" where
  "faithful us lg w \<longleftrightarrow>
     (\<exists>q. tracks q w) \<and> remembers us (map snd lg) (all_subjects w) \<and> (\<forall>s. remembers us (share s lg) (queue_of s w))"

lemma remembers_discard:
  assumes "remembers us ts q"
  shows "remembers (now # us) ts (discard_expired q now)"
proof -
  obtain p where p: "ts = p @ q" "\<forall>x \<in> set p. \<exists>u \<in> set us. expired u x" using assms by (auto simp: remembers_def)
  let ?d = "takeWhile (expired now) q"
  have "\<forall>x \<in> set (p @ ?d). \<exists>u \<in> set (now # us). expired u x" using p(2) by (auto dest: set_takeWhileD)
  moreover have "ts = (p @ ?d) @ discard_expired q now" by (simp add: p(1) discard_expired_def)
  ultimately show ?thesis unfolding remembers_def by blast
qed

lemma remembers_append: "remembers us ts q \<Longrightarrow> remembers us (ts @ xs) (q @ xs)"
  by (auto simp: remembers_def)

lemma queue_of_retain: "distinct (map fst (by_subject w)) \<Longrightarrow> queue_of s (retain_live now w) = discard_expired (queue_of s w) now"
  by (cases "map_of (by_subject w) s")
    (simp_all add: retain_live_def discard_expired_def map_of_filter_nonempty some_list_def, metis dropWhile_eq_Nil_conv)

lemma faithful_retain:
  assumes "faithful us lg w"
  shows "faithful (now # us) lg (retain_live now w)"
proof -
  obtain q where q: "tracks q w" using assms by (auto simp: faithful_def)
  then have "distinct (map fst (by_subject w))" by (simp add: tracks_def)
  then have "remembers (now # us) (share s lg) (queue_of s (retain_live now w))" for s
    using assms remembers_discard by (simp add: queue_of_retain faithful_def)
  moreover have "remembers (now # us) (map snd lg) (all_subjects (retain_live now w))"
    using assms remembers_discard by (simp add: faithful_def retain_live_def)
  ultimately show ?thesis using tracks_retain [OF q] by (auto simp: faithful_def)
qed

text \<open>An interval that holds a reading holds nothing forgotten.\<close>

lemma remembers_window:
  assumes "remembers us ts q" and "\<forall>u \<in> set us. u \<le> now + lag" and "in_window lag t now"
  shows "length (filter (in_window lag t) ts) \<le> length q"
proof -
  obtain p where p: "ts = p @ q" "\<forall>x \<in> set p. \<exists>u \<in> set us. expired u x" using assms(1) by (auto simp: remembers_def)
  have "\<not> in_window lag t x" if x: "x \<in> set p" for x
  proof
    assume w: "in_window lag t x"
    obtain u where u: "u \<in> set us" "expired u x" using p(2) x by blast
    have "u \<le> now + lag" using assms(2) u(1) by blast
    moreover have "QUOTE_SUBMISSION_WINDOW \<le> u - x" using u(2) by (simp add: expired_def)
    moreover have "0 < QUOTE_SUBMISSION_WINDOW" by (simp add: QUOTE_SUBMISSION_WINDOW_def)
    ultimately show False using w assms(3) unfolding in_window_def by linarith
  qed
  then have "filter (in_window lag t) p = []" by (simp add: filter_empty_conv)
  then show ?thesis using p(1) by simp
qed

lemma faithful_check:
  assumes f: "faithful us lg w" and l: "within_limits lag lg" and u: "\<forall>u \<in> set us. u \<le> now + lag"
    and c: "check_submission w (now, s) = (answer, w')"
  shows "faithful (now # us) (lg @ (if answer = Inr () then [(s, now)] else [])) w' \<and>
     within_limits lag (lg @ (if answer = Inr () then [(s, now)] else []))"
proof -
  let ?w = "retain_live now w"
  have r: "faithful (now # us) lg ?w" using f by (rule faithful_retain)
  have all: "remembers (now # us) (map snd lg) (all_subjects ?w)" and own: "remembers (now # us) (share x lg) (queue_of x ?w)" for x
    using r by (simp_all add: faithful_def)
  obtain q where q: "tracks q w" using f by (auto simp: faithful_def)
  have plain: "check_submission_plain w (now, s) = (answer, w')" using c tracks_plain(1) [OF q] by simp
  have u': "\<forall>u \<in> set (now # us). u \<le> now + lag" using u by simp
  show ?thesis
  proof (cases "answer = Inr ()")
    case True
    then have room: "length (all_subjects ?w) < 500" "length (queue_of s ?w) < 5"
      and w': "w' = \<lparr>all_subjects = all_subjects ?w @ [now], by_subject = put_subject s (queue_of s ?w @ [now]) (by_subject ?w)\<rparr>"
      using plain by (simp_all add: check_submission_plain_def Let_def split: if_splits)
    have "\<exists>q'. tracks q' w'" using tracks_plain(2) [OF q, of "(now, s)"] plain by simp
    then have "faithful (now # us) (lg @ [(s, now)]) w'"
      using remembers_append [OF all, of "[now]"] remembers_append [OF own [of s], of "[now]"] own
      by (auto simp: faithful_def w' map_of_put_subject)
    moreover have "within_limits lag (lg @ [(s, now)])"
      using l room remembers_window [OF all u'] remembers_window [OF own [of s] u']
      by (fastforce simp: within_limits_def intro: le_less_trans)
    ultimately show ?thesis using True by simp
  next
    case False
    then have "w' = ?w" using plain by (auto simp: check_submission_plain_def Let_def split: if_splits)
    then show ?thesis using False r l by simp
  qed
qed

lemma faithful_run:
  assumes "faithful us lg w" and "within_limits lag lg" and "sorted_wrt (\<lambda>t u. t \<le> u + lag) (map fst reqs)"
    and "\<forall>u \<in> set us. \<forall>v \<in> set (map fst reqs). u \<le> v + lag"
  shows "within_limits lag (lg @ accepted reqs (fst (run_out check_submission w reqs)))"
  using assms
proof (induction reqs arbitrary: us lg w)
  case (Cons req reqs)
  obtain now s where req: "req = (now, s)" by (cases req)
  obtain answer w' where c: "check_submission w (now, s) = (answer, w')" by (metis surj_pair)
  let ?lg = "lg @ (if answer = Inr () then [(s, now)] else [])"
  have "faithful (now # us) ?lg w' \<and> within_limits lag ?lg"
    using Cons.prems req by (intro faithful_check [OF _ _ _ c]) auto
  then have "within_limits lag (?lg @ accepted reqs (fst (run_out check_submission w' reqs)))"
    using Cons.prems(3,4) req by (intro Cons.IH [of "now # us"]) auto
  moreover have "?lg @ accepted reqs (fst (run_out check_submission w' reqs)) =
      lg @ accepted (req # reqs) (fst (run_out check_submission w (req # reqs)))"
    by (simp add: req c accepted_def Let_def case_prod_beta)
  ultimately show ?case by simp
qed (simp add: accepted_def)

text \<open>C20: the admission limits hold however the requests overtake each other between reading the clock and taking the lock:
  if no submission's reading is more than \<open>lag\<close> after the reading of one checked later, every interval shorter than the
  window by \<open>lag\<close> contains at most 500 accepted submissions in all and at most 5 of any one subject. For readings that do
  not go back, \<open>lag\<close> is zero and the interval is the whole window.\<close>

theorem admission_limits:
  assumes "sorted_wrt (\<lambda>t u. t \<le> u + lag) (map fst reqs)"
  shows "within_limits lag (accepted reqs (fst (run_out check_submission submission_windows_default reqs)))"
proof -
  have "faithful [] [] submission_windows_default"
    using tracks_default by (auto simp: faithful_def remembers_def submission_windows_default_def)
  then show ?thesis using faithful_run [of "[]" "[]" submission_windows_default lag reqs] assms by (simp add: within_limits_def)
qed

text \<open>Three submissions of one subject, the last two checked in the order opposite to their readings.\<close>

theorem admission_limits_witness:
  "within_limits 1 (accepted [(0, ''a''), (8, ''a''), (7, ''a'')]
     (fst (run_out check_submission submission_windows_default [(0, ''a''), (8, ''a''), (7, ''a'')])))"
  using admission_limits [of 1 "[(0, ''a''), (8, ''a''), (7, ''a'')]"] by simp

text \<open>A refusal is temporary and its \<open>Retry-After\<close> is right: it is between 1 and 601 seconds, and a caller
  refused only by its own limit is accepted after waiting that long, if no one else submits meanwhile.\<close>

theorem retry_after_sufficient:
  assumes "implements clock lg w" and "clock \<le> now" and "check_submission w (now, s) = (Inl r, w')"
    and "length (all_subjects (retain_live now w)) < 500" and "now + r * nanos \<le> later"
  shows "1 \<le> r \<and> r \<le> 601 \<and> fst (check_submission w' (later, s)) = Inr ()"
proof -
  let ?own = "live now (share s lg)"
  have w': "implements now lg w'" and spec: "fst (spec_check lg (now, s)) = Inl r"
    using implements_check [OF assms(1,2), of s] assms(3)
    by (auto simp: spec_check_def Let_def split: if_splits)
  have few: "length (live now (map snd lg)) < 500"
    using implements_retain [OF assms(1,2)] assms(4) by (simp add: implements_def)
  with spec have own: "5 \<le> length ?own" and r: "r = retry_after_seconds (hd ?own) now"
    by (auto simp: spec_check_def Let_def split: if_splits)
  obtain t ts where t: "?own = t # ts" using own by (cases ?own) auto
  have five: "length ?own \<le> 5"
  proof -
    obtain q where q: "tracks q (retain_live now w)" using implements_retain [OF assms(1,2)] by (auto simp: implements_def)
    have "map_of (by_subject (retain_live now w)) s = Some ?own"
      using implements_retain [OF assms(1,2)] t by (simp add: implements_def some_list_def)
    then show ?thesis using q map_of_SomeD by (fastforce simp: tracks_def)
  qed
  have r_eq: "r = (QUOTE_SUBMISSION_WINDOW - (now - t)) div nanos + 1" by (simp add: r t retry_after_seconds_def)
  then have "QUOTE_SUBMISSION_WINDOW - (now - t) < r * nanos"
    by (simp add: dividend_less_div_times)
  moreover have "t \<in> set ?own" by (simp only: t list.set_intros)
  then have "t \<le> now" using w' by (auto simp: implements_def list_all_iff)
  ultimately have old: "expired later t" using assms(5) by (simp add: expired_def)
  have le: "now \<le> later" using assms(5) by simp
  have "live later (share s lg) = live later ?own" by (rule live_live [OF le, symmetric])
  then have "length (live later (share s lg)) < 5"
    using t old five by (simp add: le_less_trans [OF length_filter_le])
  moreover have "length (live later (map snd lg)) < 500"
    using few live_live [OF le, of "map snd lg"] length_filter_le [of "\<lambda>t. \<not> expired later t" "live now (map snd lg)"] by simp
  ultimately have "fst (check_submission w' (later, s)) = Inr ()"
    using implements_check [OF w' le, of s] by (simp add: spec_check_def Let_def)
  moreover have "r \<le> 601" using r_eq div_le_mono [of "QUOTE_SUBMISSION_WINDOW - (now - t)" "600 * nanos" nanos]
    by (simp add: QUOTE_SUBMISSION_WINDOW_def)
  ultimately show ?thesis using r_eq by simp
qed

theorem retry_after_sufficient_witness:
  "let w = \<lparr>all_subjects = [0, 0, 0, 0, 0], by_subject = [(''a'', [0, 0, 0, 0, 0])]\<rparr>
   in check_submission w (0, ''a'') = (Inl 601, w) \<and> fst (check_submission w (601 * nanos, ''a'')) = Inr ()"
proof -
  let ?w = "\<lparr>all_subjects = [0, 0, 0, 0, 0], by_subject = [(''a'', [0, 0, 0, 0, 0])]\<rparr>"
  let ?lg = "[(''a'', 0), (''a'', 0), (''a'', 0), (''a'', 0), (''a'', 0)] :: (string \<times> nat) list"
  have "tracks ?lg ?w" by (simp add: tracks_def)
  then have i: "implements 0 ?lg ?w"
    by (auto simp: implements_def expired_def QUOTE_SUBMISSION_WINDOW_def some_list_def)
  have c: "check_submission ?w (0, ''a'') = (Inl 601, ?w)" and "length (all_subjects (retain_live 0 ?w)) < 500"
    by (simp_all add: check_submission_def retain_live_def discard_expired_def expired_def QUOTE_SUBMISSION_WINDOW_def
        evict_oldest_def put_subject_def retry_after_seconds_def Let_def)
  from retry_after_sufficient [OF i _ c this(2), of "601 * nanos"] c show ?thesis by simp
qed

end
