(* ===== verification/Contract.thy ===== *)
theory Contract
  imports Records
begin

text \<open>
  The wire projections of \<open>src/contract.rs\<close>: parsing of a quote request, and the responses built from a
  stored record. \<open>canonical_lib\<close>'s deserialiser and validator, the embedded context document and the
  printing of UUIDs are arguments. The random \<open>request_id\<close> of a failure problem is left out.
\<close>

section \<open>Requests\<close>

definition REQUEST_FIELDS :: "string list" where
  "REQUEST_FIELDS =
     [''organizationName'', ''contactName'', ''contactEmail'', ''website'', ''employeeCount'', ''annualRevenueBand'',
      ''frameworks'', ''currentStage'', ''infrastructure'', ''dataSensitivity'', ''targetDate'', ''hasSecurityProgram'',
      ''hasPolicies'', ''hasRiskAssessment'', ''hasIncidentResponsePlan'', ''hasVendorManagement'', ''notes'',
      ''contextKey'', ''answersVersion'']"

record accepted_quote_request =
  application_markdown :: string
  wire :: quote_request

definition parse_quote_request ::
    "(json \<Rightarrow> quote_request option) \<Rightarrow> (quote_request \<Rightarrow> bool) \<Rightarrow> string \<Rightarrow> json
     \<Rightarrow> api_error + accepted_quote_request" where
  "parse_quote_request from_value is_accepted markdown payload =
     result_bind (ok_or (as_object payload) (bad_request ''invalid_request'' ''quote request must be a JSON object'')) (\<lambda>object.
     if list_ex (\<lambda>(field, _). field \<notin> set REQUEST_FIELDS) object
     then Inl (bad_request ''invalid_request'' ''quote request contains an unknown field'')
     else result_bind (ok_or (from_value payload)
            (bad_request ''invalid_request'' ''quote request does not match the canonical v1 wire contract'')) (\<lambda>w.
     if \<not> is_accepted w
     then Inl (bad_request ''invalid_request'' ''quote request failed canonical v1 field validation'')
     else let w = (if context_key w = None then w\<lparr>context_key := Some ''quote-analysis''\<rparr> else w);
              application = trim markdown
          in if application = [] \<or> MAX_MARKDOWN_CONTEXT_BYTES < length application
             then Inl (service_unavailable ''context_unavailable'' ''quote analysis context is unavailable'')
             else Inr \<lparr>application_markdown = application, wire = w\<rparr>))"


section \<open>Statuses\<close>

datatype quote_status = Queued | Analyzing | Ready | FailedStatus

datatype EventStage = StageQueued | LoadingContext | StageAnalyzing | Validating | StageReady | StageFailed

definition invalid_stored_status :: api_error where
  "invalid_stored_status = service_unavailable ''storage_unavailable'' ''quote storage contains an invalid status''"

definition invalid_analysis :: api_error where
  "invalid_analysis = service_unavailable ''storage_unavailable'' ''a ready quote contains an invalid estimate''"

definition submission_status :: "string \<Rightarrow> quote_status" where
  "submission_status s =
     (if s = ''analyzing'' then Analyzing
      else if s = ''completed'' \<or> s = ''ready'' then Ready
      else if s = ''failed'' then FailedStatus
      else Queued)"

text \<open>\<open>detail_status\<close>; \<open>quote_summary\<close> has the same match inline.\<close>

definition detail_status :: "string \<Rightarrow> api_error + quote_status" where
  "detail_status s =
     (if s = ''queued'' then Inr Queued
      else if s = ''analyzing'' then Inr Analyzing
      else if s = ''completed'' \<or> s = ''ready'' then Inr Ready
      else if s = ''failed'' then Inr FailedStatus
      else Inl invalid_stored_status)"

definition event_stage :: "string \<Rightarrow> api_error + EventStage" where
  "event_stage s =
     (if s = ''queued'' then Inr StageQueued
      else if s = ''loading_context'' then Inr LoadingContext
      else if s = ''analyzing'' then Inr StageAnalyzing
      else if s = ''validating'' then Inr Validating
      else if s = ''completed'' \<or> s = ''ready'' then Inr StageReady
      else if s = ''failed'' then Inr StageFailed
      else Inl invalid_stored_status)"

section \<open>The estimate of a ready quote\<close>

definition required_u64 :: "(string \<times> json) list \<Rightarrow> string \<Rightarrow> api_error + 64 word" where
  "required_u64 object field = ok_or (Option.bind (obj_get object field) as_u64) invalid_analysis"

definition required_string :: "(string \<times> json) list \<Rightarrow> string \<Rightarrow> api_error + string" where
  "required_string object field =
     (case Option.bind (obj_get object field) as_str of
        Some v \<Rightarrow> if v \<noteq> [] then Inr v else Inl invalid_analysis
      | None \<Rightarrow> Inl invalid_analysis)"

text \<open>\<open>value.checked_mul(100)\<close> on \<open>u64\<close>, then \<open>i64::try_from\<close>.\<close>

definition cents :: "64 word \<Rightarrow> api_error + int" where
  "cents value =
     (if u64_max < unat value * 100 then Inl invalid_analysis
      else if i64_max < int (unat (value * 100)) then Inl invalid_analysis
      else Inr (int (unat (value * 100))))"

definition integer_field :: "(string \<times> json) list \<Rightarrow> string \<Rightarrow> api_error + int" where
  "integer_field object field =
     result_bind (required_u64 object field) (\<lambda>v.
     if i64_max < int (unat v) then Inl invalid_analysis else Inr (int (unat v)))"

definition strings_item :: "json \<Rightarrow> api_error + string" where
  "strings_item item =
     (case as_str item of Some v \<Rightarrow> if v \<noteq> [] then Inr v else Inl invalid_analysis | None \<Rightarrow> Inl invalid_analysis)"

definition strings :: "json option \<Rightarrow> api_error + string list" where
  "strings value = result_bind (ok_or (Option.bind value as_array) invalid_analysis) (list_try strings_item)"

definition aggregate_confidence :: "json list \<Rightarrow> string" where
  "aggregate_confidence services =
     (let confidence = List.map_filter (\<lambda>s. Option.bind (json_get s ''confidence'') as_str) services
      in if ''low'' \<in> set confidence then ''low''
         else if confidence \<noteq> [] \<and> list_all (\<lambda>v. v = ''high'') confidence then ''high''
         else ''medium'')"

text \<open>The closure of the \<open>filter_map\<close> over the recommended services.\<close>

definition next_step :: "json \<Rightarrow> string option" where
  "next_step service =
     Option.bind (as_object service) (\<lambda>obj.
     Option.bind (Option.bind (obj_get obj ''phase'') as_str) (\<lambda>phase.
     Option.bind (Option.bind (obj_get obj ''scope'') as_str) (\<lambda>scope.
     let phase = trim phase; scope = trim scope
     in if phase \<noteq> [] \<and> scope \<noteq> [] then Some (phase @ '': '' @ scope) else None)))"

definition next_steps :: "json list \<Rightarrow> string list" where
  "next_steps services =
     (let steps = take 25 (List.map_filter next_step services)
      in if steps = [] then [''Review the preliminary estimate with Canonical.''] else steps)"

record QuoteEstimate =
  es_quote_id :: string
  es_status :: string
  es_currency :: string
  lower_bound_cents :: int
  upper_bound_cents :: int
  duration_weeks_low :: int
  duration_weeks_high :: int
  es_confidence :: string
  es_summary :: string
  es_assumptions :: "string list"
  es_gaps :: "string list"
  es_next_steps :: "string list"
  es_frameworks :: "string list"
  es_model :: string
  es_context_version :: string
  es_created_at :: string

definition quote_estimate :: "(uuid \<Rightarrow> string) \<Rightarrow> quote_record \<Rightarrow> api_error + QuoteEstimate option" where
  "quote_estimate uuid_str record =
     (if qstatus record \<noteq> ''completed'' \<and> qstatus record \<noteq> ''ready'' then Inr None
      else
        result_bind (ok_or (Option.bind (analysis record) as_object) invalid_analysis) (\<lambda>object.
        result_bind (required_u64 object ''estimated_total_fee_low'') (\<lambda>fee_low.
        result_bind (required_u64 object ''estimated_total_fee_high'') (\<lambda>fee_high.
        result_bind (cents fee_low) (\<lambda>lower.
        result_bind (cents fee_high) (\<lambda>upper.
        result_bind (integer_field object ''estimated_total_weeks_low'') (\<lambda>weeks_low.
        result_bind (integer_field object ''estimated_total_weeks_high'') (\<lambda>weeks_high.
        if upper < lower \<or> weeks_low < 1 \<or> weeks_high < weeks_low then Inl invalid_analysis
        else
        result_bind (ok_or (Option.bind (obj_get object ''recommended_services'') as_array) invalid_analysis) (\<lambda>services.
        result_bind (strings (obj_get object ''risks'')) (\<lambda>risks.
        result_bind (strings (obj_get object ''missing_information'')) (\<lambda>missing.
        result_bind (required_string object ''currency'') (\<lambda>currency.
        result_bind (required_string object ''summary'') (\<lambda>summary.
        result_bind (strings (obj_get object ''assumptions'')) (\<lambda>assumptions.
        Inr (Some \<lparr>
          es_quote_id = uuid_str (quote_id record), es_status = ''ready'', es_currency = currency,
          lower_bound_cents = lower, upper_bound_cents = upper,
          duration_weeks_low = weeks_low, duration_weeks_high = weeks_high,
          es_confidence = aggregate_confidence services, es_summary = summary, es_assumptions = assumptions,
          es_gaps = take 50 (risks @ missing), es_next_steps = next_steps services,
          es_frameworks = qr_frameworks (request record), es_model = gemini_model record,
          es_context_version = ''context-record:'' @ uuid_str (context_record_id record) @ ''@'' @ created_at record,
          es_created_at = updated_at record\<rparr>)))))))))))))))"


section \<open>Responses\<close>

definition events_url :: "(uuid \<Rightarrow> string) \<Rightarrow> uuid \<Rightarrow> string" where
  "events_url uuid_str qid = ''/api/v1/quotes/'' @ uuid_str qid @ ''/events''"

definition quote_failure_problem :: "quote_record \<Rightarrow> (string \<times> string) option" where
  "quote_failure_problem record =
     (if qstatus record = ''failed''
      then Some (''analysis_failed'', ''Quote analysis failed; the request may be retried.'') else None)"

record QuoteSubmissionResponse =
  sub_quote_id :: string
  sub_status :: quote_status
  sub_stream_url :: string
  sub_created_at :: string

definition quote_submission_response :: "(uuid \<Rightarrow> string) \<Rightarrow> quote_record \<Rightarrow> QuoteSubmissionResponse" where
  "quote_submission_response uuid_str record =
     \<lparr>sub_quote_id = uuid_str (quote_id record), sub_status = submission_status (qstatus record),
      sub_stream_url = events_url uuid_str (quote_id record), sub_created_at = created_at record\<rparr>"

record QuoteRetryResponse =
  rt_quote_id :: string
  rt_status :: quote_status
  rt_stream_url :: string
  rt_updated_at :: string

definition quote_retry_response :: "(uuid \<Rightarrow> string) \<Rightarrow> quote_record \<Rightarrow> QuoteRetryResponse" where
  "quote_retry_response uuid_str record =
     \<lparr>rt_quote_id = uuid_str (quote_id record), rt_status = Queued,
      rt_stream_url = events_url uuid_str (quote_id record), rt_updated_at = updated_at record\<rparr>"

record QuoteDetail =
  qd_quote_id :: string
  qd_status :: quote_status
  qd_request :: quote_request
  qd_events_url :: string
  qd_created_at :: string
  qd_updated_at :: string
  qd_estimate :: "QuoteEstimate option"
  qd_problem :: "(string \<times> string) option"

definition quote_detail :: "(uuid \<Rightarrow> string) \<Rightarrow> quote_record \<Rightarrow> api_error + QuoteDetail" where
  "quote_detail uuid_str record =
     result_bind (detail_status (qstatus record)) (\<lambda>status.
     result_bind (quote_estimate uuid_str record) (\<lambda>estimate.
     Inr \<lparr>qd_quote_id = uuid_str (quote_id record), qd_status = status, qd_request = request record,
          qd_events_url = events_url uuid_str (quote_id record), qd_created_at = created_at record,
          qd_updated_at = updated_at record, qd_estimate = estimate, qd_problem = quote_failure_problem record\<rparr>))"

record QuoteSummary =
  qs_quote_id :: string
  qs_status :: quote_status
  qs_organization_name :: string
  qs_frameworks :: "string list"
  qs_created_at :: string
  qs_updated_at :: string
  qs_estimate :: "QuoteEstimate option"

definition quote_summary :: "(uuid \<Rightarrow> string) \<Rightarrow> quote_record \<Rightarrow> api_error + QuoteSummary" where
  "quote_summary uuid_str record =
     result_bind (detail_status (qstatus record)) (\<lambda>status.
     result_bind (quote_estimate uuid_str record) (\<lambda>estimate.
     Inr \<lparr>qs_quote_id = uuid_str (quote_id record), qs_status = status,
          qs_organization_name = organization_name (request record), qs_frameworks = qr_frameworks (request record),
          qs_created_at = created_at record, qs_updated_at = updated_at record, qs_estimate = estimate\<rparr>))"

record QuoteListResponse =
  ql_quotes :: "QuoteSummary list"
  ql_next_cursor :: "string option"

definition quote_list_response ::
    "(uuid \<Rightarrow> string) \<Rightarrow> quote_record list \<Rightarrow> nat \<Rightarrow> api_error + QuoteListResponse" where
  "quote_list_response uuid_str records limit =
     (let shown = (if limit < length records then take limit records else records);
          next_cursor = (if limit < length records
                         then (if shown = [] then None else Some (uuid_str (quote_id (last shown)))) else None)
      in result_bind (list_try (quote_summary uuid_str) shown) (\<lambda>quotes.
         Inr \<lparr>ql_quotes = quotes, ql_next_cursor = next_cursor\<rparr>))"

record QuoteStatusEvent =
  se_quote_id :: string
  se_sequence :: string
  se_stage :: EventStage
  se_message :: string
  se_terminal :: bool
  se_estimate :: "QuoteEstimate option"
  se_occurred_at :: string
  se_problem :: "(string \<times> string) option"

fun stage_message :: "EventStage \<Rightarrow> string" where
  "stage_message StageQueued = ''Quote accepted and queued for analysis.''"
| "stage_message LoadingContext = ''Loading the selected Canonical context.''"
| "stage_message StageAnalyzing = ''Analyzing the bounded quote request.''"
| "stage_message Validating = ''Validating the bounded estimate response.''"
| "stage_message StageReady = ''The preliminary quote is ready for review.''"
| "stage_message StageFailed = ''Quote analysis did not complete successfully.''"

definition quote_status_event ::
    "(uuid \<Rightarrow> string) \<Rightarrow> quote_event_record \<Rightarrow> quote_record \<Rightarrow> api_error + QuoteStatusEvent" where
  "quote_status_event uuid_str event record =
     result_bind (event_stage (ev_status event)) (\<lambda>stage.
     result_bind (quote_estimate uuid_str record) (\<lambda>estimate.
     Inr \<lparr>se_quote_id = uuid_str (quote_id record), se_sequence = nat_to_string (unat (ev_sequence event)),
          se_stage = stage, se_message = stage_message stage, se_terminal = (stage \<in> {StageReady, StageFailed}),
          se_estimate = estimate, se_occurred_at = ev_occurred_at event, se_problem = quote_failure_problem record\<rparr>))"


section \<open>What the projections guarantee\<close>

lemma required_u64_Inr: "required_u64 obj f = Inr w \<longleftrightarrow> obj_get obj f = Some (JNumber (PosInt w))"
  by (auto simp: required_u64_def result_elims bind_eq_Some_conv)

lemma required_string_Inr: "required_string obj f = Inr s \<longleftrightarrow> obj_get obj f = Some (JString s) \<and> s \<noteq> []"
  by (auto simp: required_string_def bind_eq_Some_conv split: option.splits)

lemma cents_Inr: "cents w = Inr c \<longleftrightarrow> uint w * 100 \<le> i64_max \<and> c = uint w * 100"
proof (cases "unat w * 100 \<le> u64_max")
  case True
  then have "unat (w * 100) = unat w * 100" by (simp add: unat_mult_lem [THEN iffD1])
  with True show ?thesis by (auto simp: cents_def)
next
  case False
  then have "\<not> int (unat w) * 100 \<le> i64_max" by linarith
  with False show ?thesis by (simp add: cents_def)
qed

lemma integer_field_Inr:
  "integer_field obj f = Inr i \<longleftrightarrow>
     (\<exists>w. obj_get obj f = Some (JNumber (PosInt w)) \<and> uint w \<le> i64_max \<and> i = uint w)"
  by (auto simp: integer_field_def result_elims required_u64_Inr not_less)

lemma strings_item_Inr: "strings_item v = Inr s \<longleftrightarrow> v = JString s \<and> s \<noteq> []"
  by (auto simp: strings_item_def split: option.splits)

lemma strings_Inr:
  "strings v = Inr ss \<longleftrightarrow> v = Some (JArray (map JString ss)) \<and> [] \<notin> set ss"
proof -
  have all: "list_all2 (\<lambda>x y. strings_item x = Inr y) xs ss \<longleftrightarrow> xs = map JString ss \<and> [] \<notin> set ss" for xs
  proof (induction xs arbitrary: ss)
    case (Cons x xs)
    then show ?case by (cases ss) (simp_all add: strings_item_Inr, blast)
  next
    case Nil
    then show ?case by auto
  qed
  show ?thesis
    by (simp add: strings_def result_bind_Inr_iff ok_or_iff list_try_iff all bind_eq_Some_conv)
qed

lemma quote_estimate_pending: "qstatus r \<noteq> ''completed'' \<Longrightarrow> qstatus r \<noteq> ''ready'' \<Longrightarrow> quote_estimate u r = Inr None"
  by (simp add: quote_estimate_def)

text \<open>When a completed record yields an estimate, and which one.\<close>

lemma quote_estimate_SomeE:
  assumes "quote_estimate u r = Inr (Some e)"
  obtains obj l h a b services risks missing assumptions where
    "analysis r = Some (JObject obj)"
    "obj_get obj ''estimated_total_fee_low'' = Some (JNumber (PosInt l))"
    "obj_get obj ''estimated_total_fee_high'' = Some (JNumber (PosInt h))"
    "obj_get obj ''estimated_total_weeks_low'' = Some (JNumber (PosInt a))"
    "obj_get obj ''estimated_total_weeks_high'' = Some (JNumber (PosInt b))"
    "lower_bound_cents e = uint l * 100" "upper_bound_cents e = uint h * 100"
    "duration_weeks_low e = uint a" "duration_weeks_high e = uint b"
    "lower_bound_cents e \<le> upper_bound_cents e" "upper_bound_cents e \<le> i64_max"
    "1 \<le> duration_weeks_low e" "duration_weeks_low e \<le> duration_weeks_high e" "duration_weeks_high e \<le> i64_max"
    "obj_get obj ''recommended_services'' = Some (JArray services)"
    "obj_get obj ''risks'' = Some (JArray (map JString risks))" "[] \<notin> set risks"
    "obj_get obj ''missing_information'' = Some (JArray (map JString missing))" "[] \<notin> set missing"
    "obj_get obj ''assumptions'' = Some (JArray (map JString assumptions))" "[] \<notin> set assumptions"
    "es_gaps e = take 50 (risks @ missing)" "es_assumptions e = assumptions"
    "es_confidence e = aggregate_confidence services" "es_currency e \<noteq> []" "es_summary e \<noteq> []"
    "es_next_steps e = next_steps services"
    "qstatus r = ''completed'' \<or> qstatus r = ''ready''"
proof -
  obtain obj l h lo up wl wh services risks missing currency summary assumptions where
    st: "qstatus r = ''completed'' \<or> qstatus r = ''ready''" and obj: "analysis r = Some (JObject obj)"
    and fees: "required_u64 obj ''estimated_total_fee_low'' = Inr l" "required_u64 obj ''estimated_total_fee_high'' = Inr h"
      "cents l = Inr lo" "cents h = Inr up"
    and weeks: "integer_field obj ''estimated_total_weeks_low'' = Inr wl" "integer_field obj ''estimated_total_weeks_high'' = Inr wh"
    and order: "lo \<le> up" "1 \<le> wl" "wl \<le> wh"
    and arrays: "obj_get obj ''recommended_services'' = Some (JArray services)" "strings (obj_get obj ''risks'') = Inr risks"
      "strings (obj_get obj ''missing_information'') = Inr missing" "strings (obj_get obj ''assumptions'') = Inr assumptions"
    and texts: "required_string obj ''currency'' = Inr currency" "required_string obj ''summary'' = Inr summary"
    and e: "lower_bound_cents e = lo" "upper_bound_cents e = up" "duration_weeks_low e = wl" "duration_weeks_high e = wh"
      "es_gaps e = take 50 (risks @ missing)" "es_assumptions e = assumptions"
      "es_confidence e = aggregate_confidence services" "es_currency e = currency" "es_summary e = summary"
      "es_next_steps e = next_steps services"
    using assms unfolding quote_estimate_def
    by (auto simp: result_bind_Inr_iff ok_or_iff bind_eq_Some_conv split: if_splits)
  from weeks obtain a b where
    w: "obj_get obj ''estimated_total_weeks_low'' = Some (JNumber (PosInt a))" "wl = uint a"
      "obj_get obj ''estimated_total_weeks_high'' = Some (JNumber (PosInt b))" "wh = uint b" "uint b \<le> i64_max"
    by (auto simp: integer_field_Inr)
  show ?thesis
    by (rule that [OF obj _ _ w(1,3) _ _ _ _ _ _ _ _ _ arrays(1), of l h risks missing assumptions])
      (use st fees w order arrays texts e in \<open>simp_all add: required_u64_Inr required_string_Inr cents_Inr strings_Inr\<close>)
qed

lemma next_steps_bounds: "next_steps services \<noteq> [] \<and> length (next_steps services) \<le> 25"
  by (simp add: next_steps_def Let_def)

lemma quote_estimate_total:
  assumes "qstatus r = ''completed'' \<or> qstatus r = ''ready''" and "analysis r = Some (JObject obj)"
    and "obj_get obj ''estimated_total_fee_low'' = Some (JNumber (PosInt l))"
    and "obj_get obj ''estimated_total_fee_high'' = Some (JNumber (PosInt h))"
    and "obj_get obj ''estimated_total_weeks_low'' = Some (JNumber (PosInt a))"
    and "obj_get obj ''estimated_total_weeks_high'' = Some (JNumber (PosInt b))"
    and "l \<le> h" "uint h * 100 \<le> i64_max" "0 < a" "a \<le> b" "uint b \<le> i64_max"
    and "obj_get obj ''recommended_services'' = Some (JArray services)"
    and "obj_get obj ''risks'' = Some (JArray (map JString risks))" "[] \<notin> set risks"
    and "obj_get obj ''missing_information'' = Some (JArray (map JString missing))" "[] \<notin> set missing"
    and "obj_get obj ''assumptions'' = Some (JArray (map JString assumptions))" "[] \<notin> set assumptions"
    and "obj_get obj ''currency'' = Some (JString currency)" "currency \<noteq> []"
    and "obj_get obj ''summary'' = Some (JString summary)" "summary \<noteq> []"
  shows "\<exists>e. quote_estimate u r = Inr (Some e)"
proof -
  have "uint l \<le> uint h" "uint a \<le> uint b" "0 < uint a"
    using assms(7,9,10) by (simp_all add: word_le_def word_less_def)
  then have "cents l = Inr (uint l * 100)" "cents h = Inr (uint h * 100)"
    "integer_field obj ''estimated_total_weeks_low'' = Inr (uint a)"
    "integer_field obj ''estimated_total_weeks_high'' = Inr (uint b)"
    "\<not> uint h * 100 < uint l * 100" "\<not> uint a < 1" "\<not> uint b < uint a"
    using assms(5,6,8,11) by (auto simp: cents_Inr integer_field_Inr)
  moreover have "required_u64 obj ''estimated_total_fee_low'' = Inr l" "required_u64 obj ''estimated_total_fee_high'' = Inr h"
    "strings (obj_get obj ''risks'') = Inr risks" "strings (obj_get obj ''missing_information'') = Inr missing"
    "strings (obj_get obj ''assumptions'') = Inr assumptions" "required_string obj ''currency'' = Inr currency"
    "required_string obj ''summary'' = Inr summary"
    using assms by (simp_all add: required_u64_Inr strings_Inr required_string_Inr)
  ultimately show ?thesis using assms(1,2,12) by (auto simp: quote_estimate_def)
qed

text \<open>An estimate shown to a caller is bounded and consistent: its cents fit a signed 64-bit integer and are
  a hundred times the fees of the stored analysis, lower bound not above upper, weeks from 1 upwards in order;
  there are 1 to 25 next steps, at most 50 gaps, none empty, and the confidence is one of three values.\<close>

theorem quote_estimate_bounds:
  assumes "quote_estimate u r = Inr (Some e)"
  shows "0 \<le> lower_bound_cents e \<and> lower_bound_cents e \<le> upper_bound_cents e \<and> upper_bound_cents e \<le> i64_max \<and>
    100 dvd lower_bound_cents e \<and> 100 dvd upper_bound_cents e \<and>
    1 \<le> duration_weeks_low e \<and> duration_weeks_low e \<le> duration_weeks_high e \<and> duration_weeks_high e \<le> i64_max \<and>
    1 \<le> length (es_next_steps e) \<and> length (es_next_steps e) \<le> 25 \<and>
    length (es_gaps e) \<le> 50 \<and> [] \<notin> set (es_gaps e) \<and> es_currency e \<noteq> [] \<and> es_summary e \<noteq> [] \<and>
    es_confidence e \<in> {''low'', ''medium'', ''high''}"
  using assms
proof (cases rule: quote_estimate_SomeE)
  case q: (1 obj l h a b services risks missing assumptions)
  have "[] \<notin> set (es_gaps e)" using q(17,19,22) by (auto dest: in_set_takeD)
  moreover have "1 \<le> length (es_next_steps e)" "length (es_next_steps e) \<le> 25"
    using next_steps_bounds [of services] q(27) by (cases "next_steps services"; simp)+
  moreover have "es_confidence e \<in> {''low'', ''medium'', ''high''}"
    by (simp add: q(24) aggregate_confidence_def Let_def)
  moreover have "length (es_gaps e) \<le> 50" by (simp add: q(22))
  moreover have "0 \<le> lower_bound_cents e" "100 dvd lower_bound_cents e" "100 dvd upper_bound_cents e"
    by (simp_all add: q(6,7))
  ultimately show ?thesis using q(10-14,25,26) by blast
qed

definition example_object :: "(string \<times> json) list" where
  "example_object =
     [(''summary'', JString ''s''), (''currency'', JString ''USD''), (''disclaimer'', JString ''d''),
      (''estimated_total_fee_low'', JNumber (PosInt 100)), (''estimated_total_fee_high'', JNumber (PosInt 250)),
      (''estimated_total_weeks_low'', JNumber (PosInt 2)), (''estimated_total_weeks_high'', JNumber (PosInt 4)),
      (''recommended_services'', JArray []), (''assumptions'', JArray []), (''risks'', JArray [JString ''r'']),
      (''missing_information'', JArray [])]"

definition example_record :: quote_record where
  "example_record =
     \<lparr>analysis = Some (JObject example_object), context_record_id = 0, error_code = None, gemini_model = ''m'',
      owner_subject = ''alice'', persistence = ''memory'', quote_id = 1,
      request = \<lparr>context_key = None, organization_name = ''o'', qr_frameworks = [], qr_other = JNull\<rparr>,
      qstatus = ''completed'', created_at = ''t0'', updated_at = ''t1''\<rparr>"

lemma example_estimate: "\<exists>e. quote_estimate (\<lambda>_. ''id'') example_record = Inr (Some e)"
  by (rule quote_estimate_total [where obj = example_object and l = 100 and h = 250 and a = 2 and b = 4 and services = "[]" and risks = "[''r'']"
        and missing = "[]" and assumptions = "[]" and currency = "''USD''" and summary = "''s''"])
    (simp_all add: example_record_def example_object_def)

theorem quote_estimate_bounds_witness:
  "\<exists>e. quote_estimate (\<lambda>_. ''id'') example_record = Inr (Some e) \<and> upper_bound_cents e \<le> i64_max"
  using example_estimate quote_estimate_bounds by blast

lemma quote_estimate_presence:
  assumes "quote_estimate u r = Inr est"
  shows "est \<noteq> None \<longleftrightarrow> qstatus r = ''completed'' \<or> qstatus r = ''ready''"
  using assms by (auto simp: quote_estimate_def result_bind_Inr_iff split: if_splits)

text \<open>The detail and the summary of a quote agree with its stored status and with each other: the estimate is
  present exactly when the status is shown as ready, a problem exactly when it is shown as failed, and the
  summary succeeds exactly when the detail does, with the same status and estimate.\<close>

theorem quote_projections_agree:
  "(case quote_detail u r of
      Inl err \<Rightarrow> quote_summary u r = Inl err
    | Inr d \<Rightarrow> (qd_estimate d \<noteq> None \<longleftrightarrow> qd_status d = Ready) \<and> (qd_problem d \<noteq> None \<longleftrightarrow> qd_status d = FailedStatus) \<and>
        (\<exists>s. quote_summary u r = Inr s \<and> qs_status s = qd_status d \<and> qs_estimate s = qd_estimate d \<and>
             qs_quote_id s = qd_quote_id d))"
proof (cases "quote_estimate u r")
  case (Inr est)
  show ?thesis
    using quote_estimate_presence [OF Inr]
    by (auto simp: quote_detail_def quote_summary_def Inr detail_status_def quote_failure_problem_def)
qed (simp add: quote_detail_def quote_summary_def result_bind_def split: sum.splits)

text \<open>A page of quotes is exact: it shows the first \<open>limit\<close> records in order, or all if there are no more, and
  the next cursor is the identifier of the last one shown exactly when records remain. (One unreadable
  record makes the whole page fail.)\<close>

theorem quote_list_page:
  assumes "quote_list_response u records limit = Inr page" and "0 < limit"
  shows "map qs_quote_id (ql_quotes page) = map (u \<circ> quote_id) (take limit records) \<and>
    ql_next_cursor page = (if limit < length records then Some (u (quote_id (records ! (limit - 1)))) else None)"
proof -
  let ?shown = "take limit records"
  have shown: "(if limit < length records then take limit records else records) = ?shown" by simp
  have all: "list_all2 (\<lambda>r s. quote_summary u r = Inr s) ?shown (ql_quotes page)"
    and cursor: "ql_next_cursor page = (if limit < length records then
        (if ?shown = [] then None else Some (u (quote_id (last ?shown)))) else None)"
    using assms(1) unfolding quote_list_response_def Let_def shown
    by (auto simp: result_bind_Inr_iff list_try_iff)
  have id: "quote_summary u r = Inr s \<Longrightarrow> qs_quote_id s = u (quote_id r)" for r s
    by (auto simp: quote_summary_def result_bind_Inr_iff)
  from all have "map qs_quote_id (ql_quotes page) = map (u \<circ> quote_id) ?shown"
    by (induction rule: list_all2_induct) (simp_all add: id)
  moreover have "last ?shown = records ! (limit - 1)" "?shown \<noteq> []" if more: "limit < length records"
  proof -
    show ne: "?shown \<noteq> []" using more assms(2) by auto
    show "last ?shown = records ! (limit - 1)" using last_conv_nth [OF ne] more assms(2) by simp
  qed
  ultimately show ?thesis using cursor assms(2) by auto
qed

theorem quote_list_page_witness:
  "\<exists>page. quote_list_response (\<lambda>_. ''id'') [example_record, example_record] 1 = Inr page \<and>
     map qs_quote_id (ql_quotes page) = [''id''] \<and> ql_next_cursor page = Some ''id''"
proof -
  obtain e where "quote_estimate (\<lambda>_. ''id'') example_record = Inr (Some e)" using example_estimate by blast
  then obtain page where page: "quote_list_response (\<lambda>_. ''id'') [example_record, example_record] 1 = Inr page"
    by (auto simp: quote_list_response_def quote_summary_def detail_status_def example_record_def)
  from quote_list_page [OF this] page show ?thesis by simp
qed

end
