(* ===== verification/Gemini.thy ===== *)
theory Gemini
  imports Contract Machine
begin

text \<open>
  The analysis client of \<open>src/gemini.rs\<close>: prompt assembly, the bounded retry loop, response extraction and
  validation, and the circuit breaker. The HTTP exchange is an argument giving, for every attempt, what the
  transport returned; \<open>serde_json\<close>'s parsers and printers are arguments. Instants count nanoseconds.
\<close>

section \<open>Errors\<close>

datatype gemini_error =
    CircuitOpen | InvalidAnalysis | InvalidResponse | PromptTooLarge | Rejected nat | ResponseTooLarge | Transport

fun gemini_error_code :: "gemini_error \<Rightarrow> string" where
  "gemini_error_code CircuitOpen = ''gemini_circuit_open''"
| "gemini_error_code InvalidAnalysis = ''gemini_analysis_invalid''"
| "gemini_error_code InvalidResponse = ''gemini_response_invalid''"
| "gemini_error_code PromptTooLarge = ''gemini_prompt_too_large''"
| "gemini_error_code (Rejected _) = ''gemini_request_rejected''"
| "gemini_error_code ResponseTooLarge = ''gemini_response_too_large''"
| "gemini_error_code Transport = ''gemini_transport_error''"

fun is_operational_failure :: "gemini_error \<Rightarrow> bool" where
  "is_operational_failure CircuitOpen = True"
| "is_operational_failure Transport = True"
| "is_operational_failure (Rejected status) = (status = 429 \<or> 500 \<le> status \<and> status \<le> 599)"
| "is_operational_failure _ = False"


section \<open>The prompt\<close>

abbreviation MAX_PROMPT_BYTES :: nat where "MAX_PROMPT_BYTES \<equiv> 800000"

abbreviation newline :: string where "newline \<equiv> [CHR 0x0A]"

definition build_prompt ::
    "(json \<Rightarrow> string option) \<Rightarrow> (json \<Rightarrow> string option) \<Rightarrow> (quote_request \<Rightarrow> string option) \<Rightarrow> (uuid \<Rightarrow> string)
     \<Rightarrow> accepted_quote_request \<Rightarrow> canonical_context \<Rightarrow> gemini_error + string" where
  "build_prompt to_vec json_pretty request_pretty uuid_str req ctx =
     result_bind (map_err (\<lambda>_. PromptTooLarge) (context_validate to_vec ctx)) (\<lambda>_.
     result_bind (ok_or (json_pretty (context_json ctx)) InvalidAnalysis) (\<lambda>ctx_json.
     result_bind (ok_or (request_pretty (wire req)) InvalidAnalysis) (\<lambda>req_json.
     let prompt = join newline
       [''Create a compliance services quote analysis from the following untrusted data.'', [],
        ''REQUESTED FRAMEWORKS'', join '', '' (qr_frameworks (wire req)), [],
        ''APPLICATION MARKDOWN CONTEXT'', ''<application-markdown>'', application_markdown req, ''</application-markdown>'', [],
        ''OWNER-SCOPED POSTGRES CONTEXT'', ''Context ID: '' @ uuid_str (cc_id ctx), ''Context name: '' @ cc_name ctx,
        ''<context-markdown>'', context_markdown ctx, ''</context-markdown>'', ''<context-json>'', ctx_json,
        ''</context-json>'', [], ''NORMALIZED QUOTE REQUEST'', ''<quote-request-json>'', req_json,
        ''</quote-request-json>'', [],
        ''Return a practical phased scope, conservative fee range, timing range,'',
        ''assumptions, risks, and missing information. Do not claim that the customer is'',
        ''compliant or that an attestation is guaranteed.'']
     in if MAX_PROMPT_BYTES < length prompt then Inl PromptTooLarge else Inr prompt)))"


section \<open>Responses\<close>

record part =
  part_text :: "string option"
  thought :: bool

record candidate =
  content :: "part list option"

type_synonym generate_content_response = "candidate list"

definition extract_text :: "generate_content_response \<Rightarrow> string option" where
  "extract_text candidates =
     Option.bind
       (List.find (\<lambda>p. \<not> thought p \<and> (case part_text p of None \<Rightarrow> False | Some t \<Rightarrow> t \<noteq> []))
          (concat (List.map_filter content candidates)))
       part_text"

definition strip_json_fence :: "string \<Rightarrow> string" where
  "strip_json_fence value =
     (let opened = (case strip_prefix value ''```json'' of Some r \<Rightarrow> r
                    | None \<Rightarrow> (case strip_prefix value ''```'' of Some r \<Rightarrow> r | None \<Rightarrow> value));
          v = trim opened
      in trim (case strip_suffix v ''```'' of Some r \<Rightarrow> r | None \<Rightarrow> v))"

definition validate_analysis :: "json \<Rightarrow> gemini_error + unit" where
  "validate_analysis a =
     result_bind (ok_or (as_object a) InvalidAnalysis) (\<lambda>object.
     if list_ex (\<lambda>f. case Option.bind (obj_get object f) as_str of None \<Rightarrow> True | Some s \<Rightarrow> s = [])
          [''summary'', ''currency'', ''disclaimer'']
     then Inl InvalidAnalysis
     else if list_ex (\<lambda>f. Option.bind (obj_get object f) as_u64 = None)
          [''estimated_total_fee_low'', ''estimated_total_fee_high'', ''estimated_total_weeks_low'',
           ''estimated_total_weeks_high'']
     then Inl InvalidAnalysis
     else if list_ex (\<lambda>f. Option.bind (obj_get object f) as_array = None)
          [''recommended_services'', ''assumptions'', ''risks'', ''missing_information'']
     then Inl InvalidAnalysis
     else
       result_bind (ok_or (Option.bind (obj_get object ''estimated_total_fee_low'') as_u64) InvalidAnalysis) (\<lambda>fee_low.
       result_bind (ok_or (Option.bind (obj_get object ''estimated_total_fee_high'') as_u64) InvalidAnalysis) (\<lambda>fee_high.
       result_bind (ok_or (Option.bind (obj_get object ''estimated_total_weeks_low'') as_u64) InvalidAnalysis) (\<lambda>weeks_low.
       result_bind (ok_or (Option.bind (obj_get object ''estimated_total_weeks_high'') as_u64) InvalidAnalysis) (\<lambda>weeks_high.
       if fee_high < fee_low \<or> weeks_low = 0 \<or> weeks_high < weeks_low then Inl InvalidAnalysis else Inr ())))))"


section \<open>The retry loop\<close>

abbreviation MAX_ATTEMPTS :: nat where "MAX_ATTEMPTS \<equiv> 3"
abbreviation MAX_GEMINI_RESPONSE_BYTES :: nat where "MAX_GEMINI_RESPONSE_BYTES \<equiv> 2000000"

text \<open>What one \<open>send().await\<close> gives: a response with its status, the announced content length and the
  body (\<open>None\<close> if reading it fails), or a transport error that is a connect or timeout error or is not.\<close>

datatype http_result = Response nat "nat option" "string option" | SendError bool

definition is_success :: "nat \<Rightarrow> bool" where
  "is_success status \<longleftrightarrow> 200 \<le> status \<and> status < 300"

definition should_retry_status :: "nat \<Rightarrow> bool" where
  "should_retry_status status \<longleftrightarrow> status = 429 \<or> 500 \<le> status \<and> status < 600"

text \<open>Milliseconds.\<close>

definition retry_delay :: "nat \<Rightarrow> nat" where
  "retry_delay attempt = min u64_max (250 * 2 ^ min attempt 4)"

definition accept_body ::
    "(string \<Rightarrow> generate_content_response option) \<Rightarrow> (string \<Rightarrow> json option) \<Rightarrow> nat option \<Rightarrow> string option
     \<Rightarrow> gemini_error + json" where
  "accept_body from_slice from_str content_length body =
     (if (case content_length of None \<Rightarrow> False | Some n \<Rightarrow> MAX_GEMINI_RESPONSE_BYTES < n) then Inl ResponseTooLarge
      else result_bind (ok_or body Transport) (\<lambda>bytes.
      if MAX_GEMINI_RESPONSE_BYTES < length bytes then Inl ResponseTooLarge
      else result_bind (ok_or (from_slice bytes) InvalidResponse) (\<lambda>payload.
      result_bind (ok_or (extract_text payload) InvalidResponse) (\<lambda>text.
      result_bind (ok_or (from_str (strip_json_fence (trim text))) InvalidAnalysis) (\<lambda>a.
      result_bind (validate_analysis a) (\<lambda>_. Inr a))))))"

text \<open>The loop from attempt \<open>n\<close> on: the result and the delays slept. \<open>send k\<close> is the outcome of attempt \<open>k\<close>.\<close>

function retry_loop ::
    "(string \<Rightarrow> generate_content_response option) \<Rightarrow> (string \<Rightarrow> json option) \<Rightarrow> (nat \<Rightarrow> http_result) \<Rightarrow> nat
     \<Rightarrow> (gemini_error + json) \<times> nat list" where
  "retry_loop from_slice from_str send attempt =
     (if MAX_ATTEMPTS \<le> attempt then (Inl Transport, [])
      else case send attempt of
        Response status len body \<Rightarrow>
          if is_success status then (accept_body from_slice from_str len body, [])
          else if should_retry_status status \<and> attempt + 1 < MAX_ATTEMPTS
          then (let (r, ds) = retry_loop from_slice from_str send (attempt + 1) in (r, retry_delay attempt # ds))
          else (Inl (Rejected status), [])
      | SendError retryable \<Rightarrow>
          if retryable \<and> attempt + 1 < MAX_ATTEMPTS
          then (let (r, ds) = retry_loop from_slice from_str send (attempt + 1) in (r, retry_delay attempt # ds))
          else (Inl Transport, []))"
  by pat_completeness auto
termination
  by (relation "measure (\<lambda>(_, _, _, attempt). MAX_ATTEMPTS - attempt)") auto

declare retry_loop.simps [simp del]

definition execute_with_retries ::
    "(string \<Rightarrow> generate_content_response option) \<Rightarrow> (string \<Rightarrow> json option) \<Rightarrow> (nat \<Rightarrow> http_result)
     \<Rightarrow> (gemini_error + json) \<times> nat list" where
  "execute_with_retries from_slice from_str send = retry_loop from_slice from_str send 0"


section \<open>The circuit breaker\<close>

abbreviation CIRCUIT_FAILURE_THRESHOLD :: nat where "CIRCUIT_FAILURE_THRESHOLD \<equiv> 5"
abbreviation CIRCUIT_OPEN_FOR :: nat where "CIRCUIT_OPEN_FOR \<equiv> 30000000000"

record circuit_state =
  failures :: nat
  open_until :: "nat option"

definition circuit_default :: circuit_state where
  "circuit_default = \<lparr>failures = 0, open_until = None\<rparr>"

definition before_request :: "nat \<Rightarrow> circuit_state \<Rightarrow> (gemini_error + unit) \<times> circuit_state" where
  "before_request now c =
     (case open_until c of
        None \<Rightarrow> (Inr (), c)
      | Some t \<Rightarrow> if now < t then (Inl CircuitOpen, c) else (Inr (), c\<lparr>failures := 0, open_until := None\<rparr>))"

definition record_success :: "circuit_state \<Rightarrow> circuit_state" where
  "record_success c = c\<lparr>failures := 0, open_until := None\<rparr>"

definition record_failure :: "nat \<Rightarrow> circuit_state \<Rightarrow> circuit_state" where
  "record_failure now c =
     (let n = min 4294967295 (failures c + 1)
      in c\<lparr>failures := n, open_until := (if CIRCUIT_FAILURE_THRESHOLD \<le> n then Some (now + CIRCUIT_OPEN_FOR) else open_until c)\<rparr>)"

text \<open>\<open>analyze\<close>: the prompt, the breaker, the exchange and the bookkeeping. \<open>started\<close> and \<open>finished\<close> are the
  clock readings in \<open>before_request\<close> and \<open>record_failure\<close>; \<open>exchange\<close> is the retry loop for the prompt.\<close>

definition analyze ::
    "(gemini_error + string) \<Rightarrow> (string \<Rightarrow> gemini_error + json) \<Rightarrow> nat \<Rightarrow> nat \<Rightarrow> circuit_state
     \<Rightarrow> (gemini_error + json) \<times> circuit_state" where
  "analyze prompt exchange started finished c =
     (case prompt of
        Inl e \<Rightarrow> (Inl e, c)
      | Inr p \<Rightarrow>
          (case before_request started c of
             (Inl e, c1) \<Rightarrow> (Inl e, c1)
           | (Inr _, c1) \<Rightarrow>
               (let result = exchange p
                in (result,
                    case result of
                      Inr _ \<Rightarrow> record_success c1
                    | Inl e \<Rightarrow> if is_operational_failure e then record_failure finished c1 else c1))))"


section \<open>Retries are bounded and justified\<close>

definition transient :: "http_result \<Rightarrow> bool" where
  "transient h = (case h of Response status _ _ \<Rightarrow> \<not> is_success status \<and> should_retry_status status | SendError r \<Rightarrow> r)"

text \<open>What one attempt that is not retried yields.\<close>

definition conclude ::
    "(string \<Rightarrow> generate_content_response option) \<Rightarrow> (string \<Rightarrow> json option) \<Rightarrow> http_result \<Rightarrow> gemini_error + json" where
  "conclude from_slice from_str h =
     (case h of Response status len body \<Rightarrow>
        if is_success status then accept_body from_slice from_str len body else Inl (Rejected status)
      | SendError _ \<Rightarrow> Inl Transport)"

lemma retry_loop_step:
  "attempt < 2 \<Longrightarrow> retry_loop fs ft send attempt =
     (if transient (send attempt)
      then (let (r, ds) = retry_loop fs ft send (attempt + 1) in (r, retry_delay attempt # ds))
      else (conclude fs ft (send attempt), []))"
  "retry_loop fs ft send 2 = (conclude fs ft (send 2), [])"
  by (subst retry_loop.simps, simp add: transient_def conclude_def split: http_result.split)+

lemma conclude_valid: "conclude fs ft h = Inr a \<Longrightarrow> validate_analysis a = Inr ()"
  by (auto simp: conclude_def accept_body_def result_elims split: http_result.splits if_splits option.splits)

text \<open>C34: the exchange with the model is bounded: at most three requests and at most 750 ms of waiting in all, with
  the delays 250 ms and 500 ms; a request is repeated only after a transient outcome (429, a 5xx status, a
  connect or timeout error); the first other outcome, or the third, decides; and an analysis is returned
  only if it passed validation.\<close>

theorem gemini_retries_bounded:
  "let (r, ds) = execute_with_retries fs ft send
   in length ds \<le> 2 \<and> ds = take (length ds) [250, 500] \<and> sum_list ds \<le> 750 \<and>
      (\<forall>k < length ds. transient (send k)) \<and>
      (length ds < 2 \<longrightarrow> \<not> transient (send (length ds))) \<and>
      r = conclude fs ft (send (length ds)) \<and>
      (\<forall>a. r = Inr a \<longrightarrow> validate_analysis a = Inr ())"
proof -
  have d: "retry_delay 0 = 250" "retry_delay (Suc 0) = 500" by (simp_all add: retry_delay_def)
  have last: "retry_loop fs ft send (Suc (Suc 0)) = (conclude fs ft (send 2), [])"
    using retry_loop_step(2) [of fs ft send] by (simp add: numeral_2_eq_2)
  have two: "send (Suc (Suc 0)) = send 2" by (simp add: numeral_2_eq_2)
  consider "\<not> transient (send 0)" | "transient (send 0)" "\<not> transient (send (Suc 0))" | "transient (send 0)" "transient (send (Suc 0))"
    by blast
  then show ?thesis
  proof cases
    case 1
    then show ?thesis using conclude_valid by (simp add: execute_with_retries_def retry_loop_step(1) [of 0])
  next
    case 2
    then show ?thesis using conclude_valid d
      by (simp add: execute_with_retries_def retry_loop_step(1) [of 0] retry_loop_step(1) [of "Suc 0"])
  next
    case 3
    then have "k < 2 \<Longrightarrow> transient (send k)" for k by (auto simp: less_2_cases_iff)
    then show ?thesis using 3 conclude_valid d last two
      by (simp add: execute_with_retries_def retry_loop_step(1) [of 0] retry_loop_step(1) [of "Suc 0"])
  qed
qed

theorem gemini_retries_bounded_witness:
  "snd (execute_with_retries (\<lambda>_. None) (\<lambda>_. None) (\<lambda>_. SendError True)) = [250, 500]"
proof -
  have "execute_with_retries (\<lambda>_. None) (\<lambda>_. None) (\<lambda>_. SendError True) = (Inl Transport, [250, 500])"
    by (simp add: execute_with_retries_def retry_loop.simps retry_delay_def)
  with gemini_retries_bounded [of "\<lambda>_. None" "\<lambda>_. None" "\<lambda>_. SendError True"] show ?thesis by simp
qed


section \<open>The circuit breaker under any interleaving\<close>

text \<open>Analyses run concurrently: the breaker sees an arbitrary sequence of the three operations.\<close>

datatype circuit_op = Before nat | Success | Failure nat

fun circuit_step :: "circuit_state \<Rightarrow> circuit_op \<Rightarrow> circuit_state" where
  "circuit_step c (Before now) = snd (before_request now c)"
| "circuit_step c Success = record_success c"
| "circuit_step c (Failure now) = record_failure now c"

text \<open>The failures recorded since the last success.\<close>

definition recent_failures :: "circuit_op list \<Rightarrow> nat list" where
  "recent_failures ops = List.map_filter (\<lambda>p. case p of Failure t \<Rightarrow> Some t | _ \<Rightarrow> None) (takeWhile (\<lambda>p. p \<noteq> Success) (rev ops))"

lemma recent_failures_snoc [simp]:
  "recent_failures (ops @ [Before t]) = recent_failures ops"
  "recent_failures (ops @ [Success]) = []"
  "recent_failures (ops @ [Failure t]) = t # recent_failures ops"
  by (simp_all add: recent_failures_def List.map_filter_simps)

definition circuit_inv :: "nat list \<Rightarrow> circuit_state \<Rightarrow> bool" where
  "circuit_inv recent c \<longleftrightarrow>
     failures c \<le> length recent \<and>
     (case open_until c of None \<Rightarrow> failures c < CIRCUIT_FAILURE_THRESHOLD
      | Some u \<Rightarrow> CIRCUIT_FAILURE_THRESHOLD \<le> failures c \<and> recent \<noteq> [] \<and> u = hd recent + CIRCUIT_OPEN_FOR)"

lemma circuit_inv_run: "circuit_inv (recent_failures ops) (run circuit_step circuit_default ops)"
proof (induction ops rule: rev_induct)
  case Nil
  show ?case by (simp add: circuit_inv_def circuit_default_def)
next
  case (snoc p ops)
  then show ?case
    by (cases p) (auto simp: circuit_inv_def before_request_def record_success_def record_failure_def Let_def
        split: option.splits)
qed

text \<open>The circuit breaker refuses only when it should, however concurrent analyses interleave: a refused call
  finds at least five operational failures since the last success, the latest of them less than 30 seconds
  ago; and once 30 seconds pass without a new failure the next call is admitted and clears the count.\<close>

theorem circuit_refusal_justified:
  "let c = run circuit_step circuit_default ops; recent = recent_failures ops
   in (fst (before_request now c) = Inl CircuitOpen \<longrightarrow>
         CIRCUIT_FAILURE_THRESHOLD \<le> length recent \<and> now < hd recent + CIRCUIT_OPEN_FOR) \<and>
      ((recent = [] \<or> hd recent + CIRCUIT_OPEN_FOR \<le> now) \<longrightarrow>
         fst (before_request now c) = Inr () \<and> open_until (snd (before_request now c)) = None)"
  using circuit_inv_run [of ops]
  by (auto simp: Let_def circuit_inv_def before_request_def split: option.splits)

theorem circuit_refusal_justified_witness:
  "fst (before_request 99 (run circuit_step circuit_default (map Failure [1, 2, 3, 4, 5]))) = Inl CircuitOpen \<and>
   5 \<le> length (recent_failures (map Failure [1, 2, 3, 4, 5]))"
proof -
  have "fst (before_request 99 (run circuit_step circuit_default (map Failure [1, 2, 3, 4, 5]))) = Inl CircuitOpen"
    by (simp add: circuit_default_def record_failure_def before_request_def)
  then show ?thesis
    using circuit_refusal_justified [where ops = "map Failure [1, 2, 3, 4, 5]" and now = 99]
    by (simp add: Let_def)
qed

text \<open>Five operational failures in a row do open the circuit: after any history, if the last five recorded
  operations are failures, the last at time \<open>t\<close>, every call before \<open>t\<close> plus 30 seconds is refused.\<close>

theorem circuit_opens:
  assumes "now < t + CIRCUIT_OPEN_FOR"
  shows "fst (before_request now (run circuit_step circuit_default (ops @ map Failure [a, b, c, d, t]))) = Inl CircuitOpen"
  using assms by (simp add: record_failure_def Let_def before_request_def)

theorem circuit_opens_witness:
  "fst (before_request 7 (run circuit_step circuit_default ([Success] @ map Failure [1, 2, 3, 4, 5]))) = Inl CircuitOpen"
  by (rule circuit_opens) simp


section \<open>From a validated analysis to a shown estimate\<close>

lemma as_str_test:
  "(case Option.bind x as_str of None \<Rightarrow> True | Some s \<Rightarrow> s = []) \<longleftrightarrow> \<not> (\<exists>s. x = Some (JString s) \<and> s \<noteq> [])"
  by (auto split: option.splits simp: bind_eq_Some_conv)

lemma bind_eq_None: "Option.bind x f = None \<longleftrightarrow> \<not> (\<exists>y z. x = Some y \<and> f y = Some z)"
  by (cases x) auto

lemma validate_analysisE:
  assumes "validate_analysis a = Inr ()"
  obtains obj summary currency l h wl wh services assumptions risks missing where "a = JObject obj"
    "obj_get obj ''summary'' = Some (JString summary)" "summary \<noteq> []"
    "obj_get obj ''currency'' = Some (JString currency)" "currency \<noteq> []"
    "obj_get obj ''estimated_total_fee_low'' = Some (JNumber (PosInt l))"
    "obj_get obj ''estimated_total_fee_high'' = Some (JNumber (PosInt h))"
    "obj_get obj ''estimated_total_weeks_low'' = Some (JNumber (PosInt wl))"
    "obj_get obj ''estimated_total_weeks_high'' = Some (JNumber (PosInt wh))"
    "obj_get obj ''recommended_services'' = Some (JArray services)"
    "obj_get obj ''assumptions'' = Some (JArray assumptions)"
    "obj_get obj ''risks'' = Some (JArray risks)"
    "obj_get obj ''missing_information'' = Some (JArray missing)"
    "l \<le> h" "0 < wl" "wl \<le> wh"
proof -
  obtain obj where obj: "a = JObject obj" using assms by (auto simp: validate_analysis_def result_elims)
  note v = assms [unfolded validate_analysis_def obj as_object.simps ok_or_simps result_bind_simps as_str_test
      if_Inl_Inr_iff result_bind_Inr_iff ok_or_iff de_Morgan_disj not_less]
  from v obtain l h wl wh where
    "obj_get obj ''estimated_total_fee_low'' = Some (JNumber (PosInt l))"
    "obj_get obj ''estimated_total_fee_high'' = Some (JNumber (PosInt h))"
    "obj_get obj ''estimated_total_weeks_low'' = Some (JNumber (PosInt wl))"
    "obj_get obj ''estimated_total_weeks_high'' = Some (JNumber (PosInt wh))" "l \<le> h" "0 < wl" "wl \<le> wh"
    by (auto simp: bind_eq_Some_conv word_gt_0)
  with v show ?thesis by (auto simp: bind_eq_None intro!: that [OF obj])
qed

text \<open>The stored analysis fits the wire types: the fee in cents and the weeks fit a signed 64-bit integer and every
  listed risk, assumption and missing fact is a non-empty string.\<close>

definition presentable :: "json \<Rightarrow> bool" where
  "presentable a \<longleftrightarrow>
     (case as_object a of None \<Rightarrow> False
      | Some obj \<Rightarrow>
          (case required_u64 obj ''estimated_total_fee_high'' of Inl _ \<Rightarrow> False | Inr h \<Rightarrow> uint h * 100 \<le> i64_max) \<and>
          (case required_u64 obj ''estimated_total_weeks_high'' of Inl _ \<Rightarrow> False | Inr w \<Rightarrow> uint w \<le> i64_max) \<and>
          list_all (\<lambda>f. \<not> isl (strings (obj_get obj f))) [''risks'', ''missing_information'', ''assumptions''])"

lemma not_isl_strings: "\<not> isl (strings v) \<longleftrightarrow> (\<exists>ss. v = Some (JArray (map JString ss)) \<and> [] \<notin> set ss)"
  using strings_Inr [of v] by (cases "strings v") auto

definition fails_only :: "'e \<Rightarrow> 'e + 'a \<Rightarrow> bool" where
  "fails_only d m \<longleftrightarrow> (\<forall>e. m = Inl e \<longrightarrow> e = d)"

lemma fails_only_rules:
  "fails_only d m \<Longrightarrow> (\<And>x. fails_only d (f x)) \<Longrightarrow> fails_only d (result_bind m f)"
  "(\<not> b \<Longrightarrow> fails_only d m) \<Longrightarrow> fails_only d (if b then Inl d else m)"
  "fails_only d (ok_or v d)" "fails_only d (Inr x)" "fails_only d (Inl d)"
  by (auto simp: fails_only_def result_bind_Inl_iff ok_or_iff)

lemma projections_fail_only:
  "fails_only invalid_analysis (required_u64 obj f)" "fails_only invalid_analysis (required_string obj f)"
  "fails_only invalid_analysis (cents n)" "fails_only invalid_analysis (integer_field obj f)"
  "fails_only invalid_analysis (strings v)"
proof -
  show u64: "fails_only invalid_analysis (required_u64 obj f)" for obj f
    unfolding required_u64_def by (rule fails_only_rules)
  show "fails_only invalid_analysis (required_string obj f)" for obj f
    by (simp add: fails_only_def required_string_def split: option.splits)
  show "fails_only invalid_analysis (cents n)" for n by (simp add: fails_only_def cents_def)
  show "fails_only invalid_analysis (integer_field obj f)" for obj f
    unfolding integer_field_def by (intro fails_only_rules u64)
  have item: "e = invalid_analysis" if "strings_item x = Inl e" for x e
    using that by (simp add: strings_item_def split: option.splits if_splits)
  show "fails_only invalid_analysis (strings v)" for v
    by (auto simp: fails_only_def strings_def result_bind_Inl_iff ok_or_iff dest!: list_try_error item)
qed

lemma quote_estimate_error: "quote_estimate u r = Inl e \<Longrightarrow> e = invalid_analysis"
proof -
  have "fails_only invalid_analysis (quote_estimate u r)"
  proof (cases "qstatus r \<noteq> ''completed'' \<and> qstatus r \<noteq> ''ready''")
    case True
    then show ?thesis by (simp add: quote_estimate_pending fails_only_rules)
  next
    case False
    show ?thesis unfolding quote_estimate_def if_not_P [OF False] by (intro fails_only_rules projections_fail_only)
  qed
  then show "quote_estimate u r = Inl e \<Longrightarrow> e = invalid_analysis" by (simp add: fails_only_def)
qed

text \<open>C35: which validated analyses can be shown: a completed quote whose analysis passed \<open>validate_analysis\<close> yields an
  estimate exactly when the analysis is also presentable (cents and weeks fit 64 bits, listed texts are
  non-empty strings); otherwise reading the quote is the storage error, since validation does not check it.\<close>

theorem validated_analysis_readable:
  assumes valid: "validate_analysis a = Inr ()" and st: "qstatus r = ''completed''" and a: "analysis r = Some a"
  shows "if presentable a then \<exists>e. quote_estimate u r = Inr (Some e) else quote_estimate u r = Inl invalid_analysis"
  using valid
proof (cases rule: validate_analysisE)
  case v: (1 obj summary currency l h wl wh services assumptions risks missing)
  show ?thesis
  proof (cases "presentable a")
    case True
    then obtain rs ms as where
      "risks = map JString rs" "[] \<notin> set rs" "missing = map JString ms" "[] \<notin> set ms"
      "assumptions = map JString as" "[] \<notin> set as" "uint h * 100 \<le> i64_max" "uint wh \<le> i64_max"
      using v by (auto simp: presentable_def not_isl_strings required_u64_def)
    then show ?thesis
      using v True st a quote_estimate_total [of r obj l h wl wh services rs ms as currency summary u] by simp
  next
    case False
    have "\<nexists>e. quote_estimate u r = Inr (Some e)"
    proof
      assume "\<exists>e. quote_estimate u r = Inr (Some e)"
      then obtain e where "quote_estimate u r = Inr (Some e)" by blast
      then show False
      proof (cases rule: quote_estimate_SomeE)
        case q: (1 obj' l' h' a' b' services' risks' missing' assumptions')
        then show False using False v a by (auto simp: presentable_def not_isl_strings required_u64_def)
      qed
    qed
    moreover have "quote_estimate u r \<noteq> Inr None" using quote_estimate_presence [of u r None] st by auto
    ultimately have "isl (quote_estimate u r)"
      by (cases "quote_estimate u r"; cases "projr (quote_estimate u r)") auto
    then show ?thesis using False quote_estimate_error [of u r] by (cases "quote_estimate u r") auto
  qed
qed

text \<open>An analysis with an empty risk text: it passes validation, and the completed quote cannot be read.\<close>

definition unreadable_object :: "(string \<times> json) list" where
  "unreadable_object = map (\<lambda>(k, v). (k, if k = ''risks'' then JArray [JString []] else v)) example_object"

theorem validated_analysis_readable_witness:
  "validate_analysis (JObject unreadable_object) = Inr () \<and>
   quote_estimate (\<lambda>_. ''id'') (example_record\<lparr>analysis := Some (JObject unreadable_object)\<rparr>) = Inl invalid_analysis \<and>
   (\<exists>e. quote_estimate (\<lambda>_. ''id'') example_record = Inr (Some e))"
proof -
  have v: "validate_analysis (JObject unreadable_object) = Inr ()" "validate_analysis (JObject example_object) = Inr ()"
    by (simp_all add: validate_analysis_def unreadable_object_def example_object_def)
  have p: "\<not> presentable (JObject unreadable_object)" "presentable (JObject example_object)"
    by (simp_all add: presentable_def unreadable_object_def example_object_def required_u64_def strings_def strings_item_def)
  have r: "qstatus example_record = ''completed''" "analysis example_record = Some (JObject example_object)"
    by (simp_all add: example_record_def)
  show ?thesis
    using validated_analysis_readable [OF v(1), of "example_record\<lparr>analysis := Some (JObject unreadable_object)\<rparr>" "\<lambda>_. ''id''"]
      validated_analysis_readable [OF v(2) r, of "\<lambda>_. ''id''"] v p r by simp
qed

end
