(* ===== verification/Persistence.thy ===== *)
theory Persistence
  imports Contract Machine "HOL-Library.Product_Lexorder"
begin

text \<open>
  The PostgreSQL store of \<open>src/persistence.rs\<close>: the rows of the five tables its statements name, and one
  definition per operation that runs the operation's statements in order inside a transaction.

  A transaction works on a copy of the tables; leaving it by \<open>?\<close> drops it, which rolls back. Any statement
  may fail, as the argument \<open>d\<close> says; a failing commit may or may not have taken effect. Constraints of
  \<open>db/schema.sql\<close> that an insert can violate (primary keys, the check on idempotency keys, the foreign key
  to the quote) make the insert fail. \<open>serde_json\<close>, the printing of timestamps by \<open>to_char\<close> and the clock
  are arguments. The advisory lock of \<open>lock_idempotency\<close> serialises the transactions of one key, so
  operations are sequential here.
\<close>

section \<open>Tables\<close>

record context_row =
  cx_id :: uuid
  cx_owner :: string
  cx_name :: string
  cx_markdown :: string
  cx_json :: json
  cx_active :: bool
  cx_updated_at :: nat

record QuoteRow =
  qr_id :: uuid
  qr_owner :: string
  qr_context_id :: uuid
  qr_request_json :: json
  qr_application_markdown :: string
  qr_snapshot_markdown :: string
  qr_snapshot_json :: json
  qr_model :: string
  qr_status :: string
  qr_analysis :: "json option"
  qr_error :: "string option"
  qr_created :: nat
  qr_updated :: nat

record operation_row =
  op_owner :: string
  op_key :: string
  op_operation :: string
  op_quote :: uuid
  op_request :: "json option"

record event_row =
  er_sequence :: int
  er_quote :: uuid
  er_owner :: string
  er_status :: string
  er_created :: nat

record attempt_row =
  at_id :: uuid
  at_quote :: uuid
  at_owner :: string
  at_provider :: string
  at_model :: string
  at_status :: string
  at_error :: "string option"
  at_finished :: "nat option"

record store =
  contexts :: "context_row list"
  quote_rows :: "QuoteRow list"
  operations :: "operation_row list"
  event_rows :: "event_row list"
  attempts :: "attempt_row list"
  next_sequence :: int


section \<open>Transactions\<close>

datatype stmt =
    Begin | LockIdempotency | FindOperation | SelectContext | InsertQuote | InsertOperation | InsertEvent
  | SelectQuote | UpdateQuote | ListQuotes | LatestEvent | InsertAttempt | UpdateAttempt | Commit | Rollback

record db_faults =
  fails :: "stmt \<Rightarrow> bool"
  commit_applied :: bool

text \<open>What the statements read besides the tables: the transaction's timestamp, \<open>to_char\<close>, and the
  (de)serialiser of quote requests.\<close>

record store_env =
  now_ts :: nat
  to_text :: "nat \<Rightarrow> string"
  request_to_value :: "quote_request \<Rightarrow> json option"
  request_from_value :: "json \<Rightarrow> quote_request option"
  json_to_vec :: "json \<Rightarrow> string option"

definition exec :: "db_faults \<Rightarrow> stmt \<Rightarrow> (store_error + 'a) \<Rightarrow> store_error + 'a" where
  "exec d st k = (if fails d st then Inl Database else k)"

definition rollback_with :: "db_faults \<Rightarrow> store_error \<Rightarrow> store_error + 'a" where
  "rollback_with d e = exec d Rollback (Inl e)"

text \<open>\<open>begin_subject_transaction\<close>, the body, and the final \<open>commit\<close>.\<close>

definition transact :: "db_faults \<Rightarrow> (store \<Rightarrow> store_error + 'a \<times> store) \<Rightarrow> store \<Rightarrow> (store_error + 'a) \<times> store" where
  "transact d body s =
     (if fails d Begin then (Inl Database, s)
      else case body s of
             Inl e \<Rightarrow> (Inl e, s)
           | Inr (x, s') \<Rightarrow>
               if fails d Commit then (Inl Database, if commit_applied d then s' else s) else (Inr x, s'))"


section \<open>Rows and records\<close>

definition context_from_row :: "context_row \<Rightarrow> canonical_context" where
  "context_from_row row =
     \<lparr>context_json = cx_json row, context_markdown = cx_markdown row, cc_id = cx_id row, cc_name = cx_name row\<rparr>"

definition context_snapshot_from_row :: "QuoteRow \<Rightarrow> canonical_context" where
  "context_snapshot_from_row row =
     \<lparr>context_json = qr_snapshot_json row, context_markdown = qr_snapshot_markdown row, cc_id = qr_context_id row,
      cc_name = ''persisted quote context snapshot''\<rparr>"

definition quote_from_row :: "store_env \<Rightarrow> QuoteRow \<Rightarrow> store_error + quote_record" where
  "quote_from_row env row =
     result_bind (ok_or (request_from_value env (qr_request_json row)) (InvalidRecord ''canonical_quote.request_json'')) (\<lambda>req.
     if qr_status row \<notin> {''queued'', ''analyzing'', ''completed'', ''failed''}
     then Inl (InvalidRecord ''canonical_quote.status'')
     else Inr \<lparr>analysis = qr_analysis row, context_record_id = qr_context_id row, error_code = qr_error row,
               gemini_model = qr_model row, owner_subject = qr_owner row, persistence = ''postgres'',
               quote_id = qr_id row, request = req, qstatus = qr_status row,
               created_at = to_text env (qr_created row), updated_at = to_text env (qr_updated row)\<rparr>)"

definition event_from_row :: "store_env \<Rightarrow> event_row \<Rightarrow> store_error + quote_event_record" where
  "event_from_row env row =
     (if er_sequence row < 0 then Inl (InvalidRecord ''canonical_quote_event.sequence_id'')
      else Inr \<lparr>ev_owner_subject = er_owner row, ev_quote_id = er_quote row,
                ev_sequence = of_int (er_sequence row), ev_status = er_status row,
                ev_occurred_at = to_text env (er_created row)\<rparr>)"


section \<open>Statements\<close>

definition quote_row :: "store \<Rightarrow> string \<Rightarrow> uuid \<Rightarrow> QuoteRow option" where
  "quote_row s subject qid = List.find (\<lambda>r. qr_id r = qid \<and> qr_owner r = subject) (quote_rows s)"

definition get_quote_in_transaction :: "db_faults \<Rightarrow> store_env \<Rightarrow> store \<Rightarrow> string \<Rightarrow> uuid \<Rightarrow> store_error + quote_record" where
  "get_quote_in_transaction d env s subject qid =
     exec d SelectQuote (result_bind (ok_or (quote_row s subject qid) QuoteNotFound) (quote_from_row env))"

definition find_operation :: "store \<Rightarrow> string \<Rightarrow> string \<Rightarrow> operation_row option" where
  "find_operation s subject key = List.find (\<lambda>r. op_owner r = subject \<and> op_key r = key) (operations s)"

text \<open>The check constraint on keys: \<open>char_length\<close> 8 to 128 and \<open>^[A-Za-z0-9._:-]+$\<close>.\<close>

definition schema_key_check :: "string \<Rightarrow> bool" where
  "schema_key_check key \<longleftrightarrow>
     8 \<le> length key \<and> length key \<le> 128 \<and>
     list_all (\<lambda>c. is_ascii_alphanumeric c \<or> c \<in> {CHR ''.'', CHR ''_'', CHR '':'', CHR ''-''}) key"

definition insert_operation ::
    "db_faults \<Rightarrow> store \<Rightarrow> string \<Rightarrow> string \<Rightarrow> string \<Rightarrow> uuid \<Rightarrow> json option \<Rightarrow> store_error + store" where
  "insert_operation d s subject key op qid req =
     exec d InsertOperation
       (if find_operation s subject key \<noteq> None \<or> \<not> schema_key_check key \<or> quote_row s subject qid = None
        then Inl Database
        else Inr (s\<lparr>operations := operations s @
               [\<lparr>op_owner = subject, op_key = key, op_operation = op, op_quote = qid, op_request = req\<rparr>]\<rparr>))"

definition insert_event :: "db_faults \<Rightarrow> store_env \<Rightarrow> store \<Rightarrow> quote_record \<Rightarrow> store_error + quote_event_record \<times> store" where
  "insert_event d env s record =
     exec d InsertEvent
       (if quote_row s (owner_subject record) (quote_id record) = None then Inl Database
        else let row = \<lparr>er_sequence = next_sequence s, er_quote = quote_id record, er_owner = owner_subject record,
                        er_status = qstatus record, er_created = now_ts env\<rparr>
             in result_bind (event_from_row env row) (\<lambda>event.
                Inr (event, s\<lparr>event_rows := event_rows s @ [row], next_sequence := next_sequence s + 1\<rparr>)))"

text \<open>\<open>WHERE owner_subject = $1 AND active ORDER BY updated_at DESC, id LIMIT 1\<close>.\<close>

definition active_context :: "store \<Rightarrow> string \<Rightarrow> context_row option" where
  "active_context s subject =
     (case sort_key (\<lambda>c. (- int (cx_updated_at c), cx_id c)) (filter (\<lambda>c. cx_owner c = subject \<and> cx_active c) (contexts s)) of
        [] \<Rightarrow> None | c # _ \<Rightarrow> Some c)"


section \<open>Operations\<close>

datatype create_quote_outcome =
    Created canonical_context quote_event_record quote_record
  | CreateExisting quote_record

text \<open>The inserted quote, with the context it was priced against.\<close>

definition new_quote_row ::
    "store_env \<Rightarrow> string \<Rightarrow> accepted_quote_request \<Rightarrow> quote_record \<Rightarrow> json \<Rightarrow> canonical_context \<Rightarrow> QuoteRow" where
  "new_quote_row env subject req record request_json ctx =
     \<lparr>qr_id = quote_id record, qr_owner = subject, qr_context_id = cc_id ctx, qr_request_json = request_json,
      qr_application_markdown = application_markdown req, qr_snapshot_markdown = context_markdown ctx,
      qr_snapshot_json = context_json ctx, qr_model = gemini_model record, qr_status = qstatus record,
      qr_analysis = None, qr_error = None, qr_created = now_ts env, qr_updated = now_ts env\<rparr>"

text \<open>The part of \<open>create_quote\<close> that runs when the key is new.\<close>

definition create_quote_new ::
    "db_faults \<Rightarrow> store_env \<Rightarrow> string \<Rightarrow> string \<Rightarrow> accepted_quote_request \<Rightarrow> quote_record \<Rightarrow> json \<Rightarrow> store
     \<Rightarrow> store_error + create_quote_outcome \<times> store" where
  "create_quote_new d env subject key req record request_json s =
     exec d SelectContext (
     result_bind (ok_or (active_context s subject) ContextNotFound) (\<lambda>row.
     let context = context_from_row row
     in result_bind (map_err InvalidRecord (context_validate (json_to_vec env) context)) (\<lambda>_.
     exec d InsertQuote (
     if list_ex (\<lambda>r. qr_id r = quote_id record) (quote_rows s) then Inl Database
     else
       let s1 = s\<lparr>quote_rows := quote_rows s @
             [new_quote_row env subject req record request_json context]\<rparr>;
           record = record\<lparr>context_record_id := cc_id context, created_at := to_text env (now_ts env),
                           updated_at := to_text env (now_ts env)\<rparr>
       in result_bind (insert_operation d s1 subject key ''create'' (quote_id record) (Some request_json)) (\<lambda>s2.
          result_bind (insert_event d env s2 record) (\<lambda>(event, s3).
          Inr (Created context event record, s3)))))))"

definition create_quote_body ::
    "db_faults \<Rightarrow> store_env \<Rightarrow> string \<Rightarrow> string \<Rightarrow> accepted_quote_request \<Rightarrow> quote_record \<Rightarrow> store
     \<Rightarrow> store_error + create_quote_outcome \<times> store" where
  "create_quote_body d env subject key req record s =
     exec d LockIdempotency (
     result_bind (ok_or (request_to_value env (wire req)) (InvalidRecord ''quote request'')) (\<lambda>request_json.
     exec d FindOperation (
     case find_operation s subject key of
       Some existing \<Rightarrow>
         if op_operation existing \<noteq> ''create'' \<or> op_request existing \<noteq> Some request_json
         then rollback_with d IdempotencyKeyReused
         else result_bind (get_quote_in_transaction d env s subject (op_quote existing)) (\<lambda>r. Inr (CreateExisting r, s))
     | None \<Rightarrow> create_quote_new d env subject key req record request_json s)))"

definition create_quote ::
    "db_faults \<Rightarrow> store_env \<Rightarrow> string \<Rightarrow> string \<Rightarrow> accepted_quote_request \<Rightarrow> quote_record \<Rightarrow> store
     \<Rightarrow> (store_error + create_quote_outcome) \<times> store" where
  "create_quote d env subject key req record = transact d (create_quote_body d env subject key req record)"

definition set_quote_row :: "store \<Rightarrow> string \<Rightarrow> uuid \<Rightarrow> (QuoteRow \<Rightarrow> QuoteRow) \<Rightarrow> store" where
  "set_quote_row s subject qid f =
     s\<lparr>quote_rows := map (\<lambda>r. if qr_id r = qid \<and> qr_owner r = subject then f r else r) (quote_rows s)\<rparr>"

datatype retry_quote_outcome =
    Retried canonical_context quote_event_record quote_record
  | RetryExisting quote_record

text \<open>The part of \<open>retry_quote\<close> that runs when the key is new.\<close>

definition retry_quote_new ::
    "db_faults \<Rightarrow> store_env \<Rightarrow> string \<Rightarrow> uuid \<Rightarrow> string \<Rightarrow> store \<Rightarrow> store_error + retry_quote_outcome \<times> store" where
  "retry_quote_new d env subject qid key s =
     exec d SelectQuote (
     result_bind (ok_or (quote_row s subject qid) QuoteNotFound) (\<lambda>row.
     result_bind (quote_from_row env row) (\<lambda>record.
     if qstatus record \<noteq> ''failed'' then rollback_with d InvalidTransition
     else
       let context = context_snapshot_from_row row
       in result_bind (map_err InvalidRecord (context_validate (json_to_vec env) context)) (\<lambda>_.
       exec d UpdateQuote (
       let s1 = set_quote_row s subject qid
             (\<lambda>r. r\<lparr>qr_status := ''queued'', qr_analysis := None, qr_error := None, qr_updated := now_ts env\<rparr>);
           record = record\<lparr>qstatus := ''queued'', analysis := None, error_code := None,
                           updated_at := to_text env (now_ts env)\<rparr>
       in result_bind (insert_operation d s1 subject key ''retry'' qid None) (\<lambda>s2.
          result_bind (insert_event d env s2 record) (\<lambda>(event, s3).
          Inr (Retried context event record, s3))))))))"

definition retry_quote_body ::
    "db_faults \<Rightarrow> store_env \<Rightarrow> string \<Rightarrow> uuid \<Rightarrow> string \<Rightarrow> store \<Rightarrow> store_error + retry_quote_outcome \<times> store" where
  "retry_quote_body d env subject qid key s =
     exec d LockIdempotency (
     exec d FindOperation (
     case find_operation s subject key of
       Some existing \<Rightarrow>
         if op_operation existing \<noteq> ''retry'' \<or> op_quote existing \<noteq> qid then rollback_with d IdempotencyKeyReused
         else result_bind (get_quote_in_transaction d env s subject qid) (\<lambda>r. Inr (RetryExisting r, s))
     | None \<Rightarrow> retry_quote_new d env subject qid key s))"

definition retry_quote ::
    "db_faults \<Rightarrow> store_env \<Rightarrow> string \<Rightarrow> uuid \<Rightarrow> string \<Rightarrow> store \<Rightarrow> (store_error + retry_quote_outcome) \<times> store" where
  "retry_quote d env subject qid key = transact d (retry_quote_body d env subject qid key)"

definition get_quote :: "db_faults \<Rightarrow> store_env \<Rightarrow> string \<Rightarrow> uuid \<Rightarrow> store \<Rightarrow> (store_error + quote_record) \<times> store" where
  "get_quote d env subject qid = transact d (\<lambda>s.
     result_bind (get_quote_in_transaction d env s subject qid) (\<lambda>r. Inr (r, s)))"

text \<open>\<open>ORDER BY created_at DESC, id DESC\<close> and the row comparison with the owner's cursor; with no such row the
  comparison is with \<open>NULL\<close> and selects nothing.\<close>

definition newest_first :: "QuoteRow list \<Rightarrow> QuoteRow list" where
  "newest_first rows = rev (sort_key (\<lambda>r. (qr_created r, qr_id r)) rows)"

definition list_rows :: "store \<Rightarrow> string \<Rightarrow> nat \<Rightarrow> uuid option \<Rightarrow> QuoteRow list" where
  "list_rows s subject limit cursor =
     (let own = filter (\<lambda>r. qr_owner r = subject) (quote_rows s);
          selected = (case cursor of
                        None \<Rightarrow> own
                      | Some c \<Rightarrow> (case quote_row s subject c of
                                    None \<Rightarrow> []
                                  | Some cr \<Rightarrow> filter (\<lambda>r. (qr_created r, qr_id r) < (qr_created cr, qr_id cr)) own))
      in take (max 1 (min 101 limit)) (newest_first selected))"

definition list_quotes ::
    "db_faults \<Rightarrow> store_env \<Rightarrow> string \<Rightarrow> nat \<Rightarrow> uuid option \<Rightarrow> store \<Rightarrow> (store_error + quote_record list) \<times> store" where
  "list_quotes d env subject limit cursor = transact d (\<lambda>s.
     exec d ListQuotes (
     result_bind (list_try (quote_from_row env) (list_rows s subject limit cursor)) (\<lambda>records. Inr (records, s))))"

text \<open>\<open>update_quote\<close> also writes the new \<open>updated_at\<close> into the caller's record; it is returned.\<close>

definition update_quote ::
    "db_faults \<Rightarrow> store_env \<Rightarrow> quote_record \<Rightarrow> store \<Rightarrow> (store_error + quote_event_record \<times> quote_record) \<times> store" where
  "update_quote d env record = transact d (\<lambda>s.
     exec d UpdateQuote (
     if quote_row s (owner_subject record) (quote_id record) = None then Inl QuoteNotFound
     else if qstatus record \<notin> {''queued'', ''analyzing'', ''completed'', ''failed''} then Inl Database
     else
       let s1 = set_quote_row s (owner_subject record) (quote_id record)
             (\<lambda>r. r\<lparr>qr_status := qstatus record, qr_analysis := analysis record, qr_error := error_code record,
                    qr_updated := now_ts env\<rparr>);
           record = record\<lparr>updated_at := to_text env (now_ts env)\<rparr>
       in result_bind (insert_event d env s1 record) (\<lambda>(event, s2). Inr ((event, record), s2))))"

definition latest_event ::
    "db_faults \<Rightarrow> store_env \<Rightarrow> string \<Rightarrow> uuid \<Rightarrow> store \<Rightarrow> (store_error + quote_event_record) \<times> store" where
  "latest_event d env subject qid = transact d (\<lambda>s.
     exec d LatestEvent (
     case sort_key er_sequence (filter (\<lambda>e. er_quote e = qid \<and> er_owner e = subject) (event_rows s)) of
       [] \<Rightarrow> Inl QuoteNotFound
     | rows \<Rightarrow> result_bind (event_from_row env (last rows)) (\<lambda>e. Inr (e, s))))"

definition start_model_attempt ::
    "db_faults \<Rightarrow> uuid \<Rightarrow> quote_record \<Rightarrow> store \<Rightarrow> (store_error + uuid) \<times> store" where
  "start_model_attempt d attempt_id record = transact d (\<lambda>s.
     exec d InsertAttempt (
     if list_ex (\<lambda>a. at_id a = attempt_id) (attempts s) \<or> quote_row s (owner_subject record) (quote_id record) = None
     then Inl Database
     else Inr (attempt_id, s\<lparr>attempts := attempts s @
       [\<lparr>at_id = attempt_id, at_quote = quote_id record, at_owner = owner_subject record, at_provider = ''google-gemini'',
         at_model = gemini_model record, at_status = ''started'', at_error = None, at_finished = None\<rparr>]\<rparr>)))"

definition attempt_matches :: "quote_record \<Rightarrow> uuid \<Rightarrow> attempt_row \<Rightarrow> bool" where
  "attempt_matches record attempt_id a \<longleftrightarrow>
     at_id a = attempt_id \<and> at_quote a = quote_id record \<and> at_owner a = owner_subject record \<and> at_status a = ''started''"

definition finish_model_attempt ::
    "db_faults \<Rightarrow> store_env \<Rightarrow> quote_record \<Rightarrow> uuid \<Rightarrow> store \<Rightarrow> (store_error + unit) \<times> store" where
  "finish_model_attempt d env record attempt_id = transact d (\<lambda>s.
     exec d UpdateAttempt (
     let attempt_status = (if qstatus record = ''completed'' then ''completed'' else ''failed'')
     in if length (filter (attempt_matches record attempt_id) (attempts s)) \<noteq> 1
        then rollback_with d (InvalidRecord ''canonical_model_attempt transition'')
        else Inr ((), s\<lparr>attempts := map (\<lambda>a. if attempt_matches record attempt_id a
                 then a\<lparr>at_status := attempt_status, at_error := error_code record, at_finished := Some (now_ts env)\<rparr>
                 else a) (attempts s)\<rparr>)))"


section \<open>The invariant of the tables\<close>

text \<open>The status of the latest event of a quote, in order of insertion.\<close>

definition latest_status :: "event_row list \<Rightarrow> string \<Rightarrow> uuid \<Rightarrow> string option" where
  "latest_status evs owner qid =
     (case filter (\<lambda>e. er_quote e = qid \<and> er_owner e = owner) evs of [] \<Rightarrow> None | es \<Rightarrow> Some (er_status (last es)))"

lemma latest_status_snoc:
  "latest_status (evs @ [e]) owner qid =
     (if er_quote e = qid \<and> er_owner e = owner then Some (er_status e) else latest_status evs owner qid)"
  by (cases "filter (\<lambda>e. er_quote e = qid \<and> er_owner e = owner) evs") (simp_all add: latest_status_def)

definition mirrors :: "QuoteRow list \<Rightarrow> event_row list \<Rightarrow> bool" where
  "mirrors rows evs \<longleftrightarrow> (\<forall>r \<in> set rows. latest_status evs (qr_owner r) (qr_id r) = Some (qr_status r))"

text \<open>Quote identifiers and idempotency keys are unique, an operation refers to a quote of its owner, event
  sequence numbers increase, and the latest event of every quote carries the quote's status.\<close>

definition store_inv :: "store \<Rightarrow> bool" where
  "store_inv s \<longleftrightarrow>
     distinct (map qr_id (quote_rows s)) \<and>
     distinct (map (\<lambda>r. (op_owner r, op_key r)) (operations s)) \<and>
     (\<forall>r \<in> set (operations s). \<exists>q \<in> set (quote_rows s). qr_id q = op_quote r \<and> qr_owner q = op_owner r) \<and>
     0 \<le> next_sequence s \<and> sorted_wrt (<) (map er_sequence (event_rows s)) \<and>
     (\<forall>e \<in> set (event_rows s). er_sequence e < next_sequence s) \<and>
     mirrors (quote_rows s) (event_rows s)"

lemma exec_Inr [simp]: "exec d st k = Inr x \<longleftrightarrow> \<not> fails d st \<and> k = Inr x"
  by (simp add: exec_def)

lemma rollback_with_Inr [simp]: "rollback_with d e \<noteq> Inr x"
  by (simp add: rollback_with_def)

lemma transact_cases:
  obtains (failed) e where "transact d body s = (Inl e, s)"
  | (lost) x s' where "body s = Inr (x, s')" "fails d Commit" "commit_applied d" "transact d body s = (Inl Database, s')"
  | (committed) x s' where "body s = Inr (x, s')" "\<not> fails d Commit" "\<not> fails d Begin" "transact d body s = (Inr x, s')"
proof (cases "fails d Begin")
  case True
  then show ?thesis by (intro failed) (simp add: transact_def)
next
  case False
  show ?thesis
  proof (cases "body s")
    case (Inl e)
    with False show ?thesis by (intro failed) (simp add: transact_def)
  next
    case (Inr p)
    obtain x s' where "body s = Inr (x, s')" by (cases p) (use Inr in simp)
    with False show ?thesis
      by (cases "fails d Commit"; cases "commit_applied d")
        (auto simp: transact_def intro: failed [of Database] lost committed)
  qed
qed

lemma transact_inv: "P s \<Longrightarrow> (\<And>x s'. body s = Inr (x, s') \<Longrightarrow> P s') \<Longrightarrow> P (snd (transact d body s))"
  by (rule transact_cases [of d body s]) auto

lemma find_facts:
  "List.find P xs = Some x \<Longrightarrow> x \<in> set xs \<and> P x"
  "List.find P xs = None \<longleftrightarrow> (\<forall>x \<in> set xs. \<not> P x)"
  by (auto simp: find_Some_iff find_None_iff)

lemma quote_row_Some:
  "quote_row s subject qid = Some r \<Longrightarrow> r \<in> set (quote_rows s) \<and> qr_id r = qid \<and> qr_owner r = subject"
  unfolding quote_row_def by (drule find_facts(1)) simp

lemma quote_row_None: "quote_row s subject qid = None \<longleftrightarrow> (\<forall>r \<in> set (quote_rows s). \<not> (qr_id r = qid \<and> qr_owner r = subject))"
  unfolding quote_row_def by (rule find_facts(2))

lemma insert_operation_Inr:
  "insert_operation d s subject key op qid req = Inr s' \<Longrightarrow>
     s' = s\<lparr>operations := operations s @ [\<lparr>op_owner = subject, op_key = key, op_operation = op, op_quote = qid, op_request = req\<rparr>]\<rparr> \<and>
     find_operation s subject key = None \<and> quote_row s subject qid \<noteq> None \<and> schema_key_check key \<and> \<not> fails d InsertOperation"
  by (auto simp: insert_operation_def split: if_splits)

lemma insert_event_Inr:
  "insert_event d env s record = Inr (ev, s') \<Longrightarrow>
     s' = s\<lparr>event_rows := event_rows s @ [\<lparr>er_sequence = next_sequence s, er_quote = quote_id record,
             er_owner = owner_subject record, er_status = qstatus record, er_created = now_ts env\<rparr>],
            next_sequence := next_sequence s + 1\<rparr> \<and>
     quote_row s (owner_subject record) (quote_id record) \<noteq> None \<and>
     ev_owner_subject ev = owner_subject record \<and> ev_quote_id ev = quote_id record \<and> ev_status ev = qstatus record"
  by (auto simp: insert_event_def event_from_row_def Let_def result_bind_Inr_iff split: if_splits)

lemma map_qr_id_set [simp]:
  "(\<And>r. qr_id (f r) = qr_id r) \<Longrightarrow> map qr_id (quote_rows (set_quote_row s subject qid f)) = map qr_id (quote_rows s)"
  by (auto simp: set_quote_row_def)

lemma set_quote_row_fields [simp]:
  "operations (set_quote_row s subject qid f) = operations s"
  "event_rows (set_quote_row s subject qid f) = event_rows s"
  "next_sequence (set_quote_row s subject qid f) = next_sequence s"
  "contexts (set_quote_row s subject qid f) = contexts s"
  "attempts (set_quote_row s subject qid f) = attempts s"
  by (simp_all add: set_quote_row_def)

text \<open>The two state changes every operation is made of: a new quote or a new status, with its event.\<close>

lemma store_inv_status:
  assumes inv: "store_inv s"
    and f: "\<And>r. qr_id (f r) = qr_id r \<and> qr_owner (f r) = qr_owner r \<and> qr_status (f r) = st"
    and e: "er_sequence e = next_sequence s" "er_quote e = qid" "er_owner e = subject" "er_status e = st"
  shows "store_inv ((set_quote_row s subject qid f)\<lparr>event_rows := event_rows s @ [e], next_sequence := next_sequence s + 1\<rparr>)"
proof -
  let ?g = "\<lambda>r. if qr_id r = qid \<and> qr_owner r = subject then f r else r"
  have g: "qr_id (?g r) = qr_id r" "qr_owner (?g r) = qr_owner r" for r using f by auto
  have ids: "map qr_id (map ?g (quote_rows s)) = map qr_id (quote_rows s)" using g by simp
  have "mirrors (map ?g (quote_rows s)) (event_rows s @ [e])"
    unfolding mirrors_def
  proof
    fix r assume "r \<in> set (map ?g (quote_rows s))"
    then obtain q where q: "q \<in> set (quote_rows s)" "r = ?g q" by auto
    then have "latest_status (event_rows s) (qr_owner q) (qr_id q) = Some (qr_status q)"
      using inv by (simp add: store_inv_def mirrors_def)
    then show "latest_status (event_rows s @ [e]) (qr_owner r) (qr_id r) = Some (qr_status r)"
      using q(2) f e g by (auto simp: latest_status_snoc)
  qed
  moreover have "\<exists>q \<in> set (map ?g (quote_rows s)). qr_id q = op_quote r \<and> qr_owner q = op_owner r" if "r \<in> set (operations s)" for r
  proof -
    obtain q where "q \<in> set (quote_rows s)" "qr_id q = op_quote r \<and> qr_owner q = op_owner r"
      using inv \<open>r \<in> set (operations s)\<close> unfolding store_inv_def by blast
    then show ?thesis using g [of q] by (intro bexI [of _ "?g q"]) auto
  qed
  moreover have "sorted_wrt (<) (map er_sequence (event_rows s @ [e]))"
    "\<forall>x \<in> set (event_rows s @ [e]). er_sequence x < next_sequence s + 1" "0 \<le> next_sequence s + 1"
    using inv e(1) by (auto simp: store_inv_def sorted_wrt_append)
  moreover have "distinct (map qr_id (map ?g (quote_rows s)))"
    unfolding ids using inv by (simp add: store_inv_def)
  ultimately show ?thesis using inv by (simp add: store_inv_def set_quote_row_def)
qed

lemma store_inv_new_quote:
  assumes inv: "store_inv s" and new: "\<forall>r \<in> set (quote_rows s). qr_id r \<noteq> qr_id row"
    and e: "er_sequence e = next_sequence s" "er_quote e = qr_id row" "er_owner e = qr_owner row" "er_status e = qr_status row"
  shows "store_inv (s\<lparr>quote_rows := quote_rows s @ [row], event_rows := event_rows s @ [e], next_sequence := next_sequence s + 1\<rparr>)"
  using assms by (auto simp: store_inv_def mirrors_def latest_status_snoc sorted_wrt_append)

lemma store_inv_operation:
  assumes inv: "store_inv s" and "find_operation s subject key = None"
    and "\<exists>q \<in> set (quote_rows s). qr_id q = qid \<and> qr_owner q = subject"
  shows "store_inv (s\<lparr>operations := operations s @ [\<lparr>op_owner = subject, op_key = key, op_operation = op, op_quote = qid, op_request = req\<rparr>]\<rparr>)"
  using assms by (auto simp: store_inv_def find_operation_def find_facts(2))

section \<open>Every operation keeps the invariant\<close>

lemma create_quote_new_inv:
  assumes inv: "store_inv s" and new: "create_quote_new d env subject key req record request_json s = Inr (x, s')"
  shows "store_inv s'"
proof -
  obtain ctx s2 event record' where
    fresh: "\<forall>r \<in> set (quote_rows s). qr_id r \<noteq> quote_id record"
    and op: "insert_operation d (s\<lparr>quote_rows := quote_rows s @ [new_quote_row env subject req record request_json ctx]\<rparr>)
      subject key ''create'' (quote_id record) (Some request_json) = Inr s2"
    and ev: "insert_event d env s2 record' = Inr (event, s')"
    and rec: "quote_id record' = quote_id record" "qstatus record' = qstatus record" "owner_subject record' = owner_subject record"
    using new by (auto simp: create_quote_new_def result_bind_Inr_iff Let_def list_ex_iff split: if_splits)
  let ?row = "new_quote_row env subject req record request_json ctx"
  have row: "qr_id ?row = quote_id record" "qr_owner ?row = subject" "qr_status ?row = qstatus record"
    by (simp_all add: new_quote_row_def)
  let ?op = "\<lparr>op_owner = subject, op_key = key, op_operation = ''create'', op_quote = quote_id record, op_request = Some request_json\<rparr>"
  let ?e = "\<lparr>er_sequence = next_sequence s, er_quote = quote_id record, er_owner = owner_subject record,
      er_status = qstatus record, er_created = now_ts env\<rparr>"
  note o = insert_operation_Inr [OF op] and e = insert_event_Inr [OF ev]
  have owner: "owner_subject record = subject"
    using e o fresh row rec by (auto simp: quote_row_None)
  let ?t = "s\<lparr>quote_rows := quote_rows s @ [?row], event_rows := event_rows s @ [?e], next_sequence := next_sequence s + 1\<rparr>"
  have "store_inv ?t" by (rule store_inv_new_quote [OF inv]) (use fresh row owner in simp_all)
  then have "store_inv (?t\<lparr>operations := operations ?t @ [?op]\<rparr>)"
    by (rule store_inv_operation) (use o row in \<open>auto simp: find_operation_def\<close>)
  moreover have "s' = ?t\<lparr>operations := operations ?t @ [?op]\<rparr>" using o e rec by simp
  ultimately show ?thesis by simp
qed

lemma create_quote_inv: "store_inv s \<Longrightarrow> store_inv (snd (create_quote d env subject key req record s))"
  unfolding create_quote_def
  by (rule transact_inv)
    (auto simp: create_quote_body_def result_bind_Inr_iff dest: create_quote_new_inv split: option.splits if_splits)

lemma retry_quote_new_inv:
  assumes inv: "store_inv s" and new: "retry_quote_new d env subject qid key s = Inr (x, s')"
  shows "store_inv s'"
proof -
  let ?f = "\<lambda>r. r\<lparr>qr_status := ''queued'', qr_analysis := None, qr_error := None, qr_updated := now_ts env\<rparr>"
  obtain row s2 event record' where
    row: "quote_row s subject qid = Some row"
    and op: "insert_operation d (set_quote_row s subject qid ?f) subject key ''retry'' qid None = Inr s2"
    and ev: "insert_event d env s2 record' = Inr (event, s')"
    and rec: "quote_id record' = qid" "qstatus record' = ''queued''" "owner_subject record' = subject"
    using new by (auto simp: retry_quote_new_def quote_from_row_def result_bind_Inr_iff ok_or_iff Let_def
        dest: quote_row_Some split: if_splits)
  let ?op = "\<lparr>op_owner = subject, op_key = key, op_operation = ''retry'', op_quote = qid, op_request = None\<rparr>"
  let ?e = "\<lparr>er_sequence = next_sequence s, er_quote = qid, er_owner = subject,
      er_status = ''queued'', er_created = now_ts env\<rparr>"
  note o = insert_operation_Inr [OF op] and e = insert_event_Inr [OF ev]
  let ?t = "(set_quote_row s subject qid ?f)\<lparr>event_rows := event_rows s @ [?e], next_sequence := next_sequence s + 1\<rparr>"
  have "store_inv ?t" by (rule store_inv_status [OF inv]) simp_all
  then have "store_inv (?t\<lparr>operations := operations ?t @ [?op]\<rparr>)"
    by (rule store_inv_operation) (use o in \<open>auto simp: find_operation_def dest: quote_row_Some\<close>)
  moreover have "s' = ?t\<lparr>operations := operations ?t @ [?op]\<rparr>" using o e rec by simp
  ultimately show ?thesis by simp
qed

lemma retry_quote_inv: "store_inv s \<Longrightarrow> store_inv (snd (retry_quote d env subject qid key s))"
  unfolding retry_quote_def
  by (rule transact_inv)
    (auto simp: retry_quote_body_def result_bind_Inr_iff dest: retry_quote_new_inv split: option.splits if_splits)

lemma update_quote_inv: "store_inv s \<Longrightarrow> store_inv (snd (update_quote d env record s))"
  unfolding update_quote_def
proof (rule transact_inv)
  fix x s'
  let ?f = "\<lambda>r. r\<lparr>qr_status := qstatus record, qr_analysis := analysis record, qr_error := error_code record,
                    qr_updated := now_ts env\<rparr>"
  assume inv: "store_inv s" and body: "exec d UpdateQuote (
     if quote_row s (owner_subject record) (quote_id record) = None then Inl QuoteNotFound
     else if qstatus record \<notin> {''queued'', ''analyzing'', ''completed'', ''failed''} then Inl Database
     else
       let s1 = set_quote_row s (owner_subject record) (quote_id record) ?f;
           record = record\<lparr>updated_at := to_text env (now_ts env)\<rparr>
       in result_bind (insert_event d env s1 record) (\<lambda>(event, s2). Inr ((event, record), s2))) = Inr (x, s')"
  then obtain event where
    ev: "insert_event d env (set_quote_row s (owner_subject record) (quote_id record) ?f) (record\<lparr>updated_at := to_text env (now_ts env)\<rparr>)
      = Inr (event, s')"
    by (auto simp: result_bind_Inr_iff Let_def split: if_splits)
  have "store_inv ((set_quote_row s (owner_subject record) (quote_id record) ?f)\<lparr>event_rows := event_rows s @
      [\<lparr>er_sequence = next_sequence s, er_quote = quote_id record, er_owner = owner_subject record, er_status = qstatus record,
        er_created = now_ts env\<rparr>], next_sequence := next_sequence s + 1\<rparr>)"
    by (rule store_inv_status [OF inv]) simp_all
  then show "store_inv s'" using insert_event_Inr [OF ev] by simp
qed

lemma transact_unchanged: "(\<And>x s'. body s = Inr (x, s') \<Longrightarrow> s' = s) \<Longrightarrow> snd (transact d body s) = s"
  by (rule transact_inv) auto

lemma read_operations_unchanged:
  "snd (get_quote d env subject qid s) = s"
  "snd (list_quotes d env subject limit cursor s) = s"
  "snd (latest_event d env subject qid s) = s"
  unfolding get_quote_def list_quotes_def latest_event_def
  by (rule transact_unchanged, auto simp: result_bind_Inr_iff split: list.splits)+

lemma store_inv_attempts [simp]: "store_inv (s\<lparr>attempts := a\<rparr>) = store_inv s"
  by (simp add: store_inv_def)

lemma start_model_attempt_inv: "store_inv s \<Longrightarrow> store_inv (snd (start_model_attempt d aid record s))"
  unfolding start_model_attempt_def by (rule transact_inv, assumption) (auto split: if_splits)

lemma finish_model_attempt_inv: "store_inv s \<Longrightarrow> store_inv (snd (finish_model_attempt d env record aid s))"
  unfolding finish_model_attempt_def by (rule transact_inv, assumption) (auto simp: Let_def split: if_splits)

text \<open>The operations as inputs of one machine, each with its faults and environment.\<close>

datatype store_op =
    OpCreate db_faults store_env string string accepted_quote_request quote_record
  | OpRetry db_faults store_env string uuid string
  | OpUpdate db_faults store_env quote_record
  | OpStartAttempt db_faults uuid quote_record
  | OpFinishAttempt db_faults store_env quote_record uuid
  | OpGet db_faults store_env string uuid
  | OpList db_faults store_env string nat "uuid option"
  | OpLatest db_faults store_env string uuid

fun store_step :: "store \<Rightarrow> store_op \<Rightarrow> store" where
  "store_step s (OpCreate d env subject key req record) = snd (create_quote d env subject key req record s)"
| "store_step s (OpRetry d env subject qid key) = snd (retry_quote d env subject qid key s)"
| "store_step s (OpUpdate d env record) = snd (update_quote d env record s)"
| "store_step s (OpStartAttempt d aid record) = snd (start_model_attempt d aid record s)"
| "store_step s (OpFinishAttempt d env record aid) = snd (finish_model_attempt d env record aid s)"
| "store_step s (OpGet d env subject qid) = snd (get_quote d env subject qid s)"
| "store_step s (OpList d env subject limit cursor) = snd (list_quotes d env subject limit cursor s)"
| "store_step s (OpLatest d env subject qid) = snd (latest_event d env subject qid s)"

interpretation quote_store: machine store_step store_inv
proof
  fix s p assume "store_inv s"
  then show "store_inv (store_step s p)"
    by (cases p) (simp_all add: create_quote_inv retry_quote_inv update_quote_inv start_model_attempt_inv
        finish_model_attempt_inv read_operations_unchanged)
qed

definition empty_store :: "context_row list \<Rightarrow> store" where
  "empty_store cs = \<lparr>contexts = cs, quote_rows = [], operations = [], event_rows = [], attempts = [], next_sequence = 1\<rparr>"

text \<open>C1: the quote tables stay consistent under any sequence of operations and any database failures, a commit
  whose outcome is unknown included: quote identifiers and a subject's idempotency keys are unique, every
  recorded operation refers to a quote of the same owner, event numbers only grow, and the latest event of
  each quote always carries the quote's current status.\<close>

theorem store_invariant: "store_inv (run store_step (empty_store cs) ops)"
  by (rule quote_store.inv_run) (simp add: store_inv_def empty_store_def mirrors_def)


section \<open>Idempotent submission\<close>

definition healthy :: db_faults where
  "healthy = \<lparr>fails = (\<lambda>_. False), commit_applied = False\<rparr>"

lemma find_append: "List.find P (xs @ ys) = (case List.find P xs of None \<Rightarrow> List.find P ys | Some x \<Rightarrow> Some x)"
  by (induction xs) auto

lemma create_quote_effect:
  assumes "find_operation s subject key = None" and "snd (create_quote d env subject key req record s) = s'"
    and "find_operation s' subject key \<noteq> None"
  obtains j ctx where "request_to_value env (wire req) = Some j"
    "find_operation s' subject key =
       Some \<lparr>op_owner = subject, op_key = key, op_operation = ''create'', op_quote = quote_id record, op_request = Some j\<rparr>"
    "quote_row s' subject (quote_id record) = Some (new_quote_row env subject req record j ctx)"
proof -
  obtain x where body: "create_quote_body d env subject key req record s = Inr (x, s')"
    using assms unfolding create_quote_def
    by (cases rule: transact_cases [of d "create_quote_body d env subject key req record" s]) auto
  then obtain j where j: "request_to_value env (wire req) = Some j"
    and new: "create_quote_new d env subject key req record j s = Inr (x, s')"
    using assms(1) by (auto simp: create_quote_body_def result_bind_Inr_iff ok_or_iff)
  obtain ctx s2 event record' where
    fresh: "\<forall>r \<in> set (quote_rows s). qr_id r \<noteq> quote_id record"
    and op: "insert_operation d (s\<lparr>quote_rows := quote_rows s @ [new_quote_row env subject req record j ctx]\<rparr>)
      subject key ''create'' (quote_id record) (Some j) = Inr s2"
    and ev: "insert_event d env s2 record' = Inr (event, s')"
    using new by (auto simp: create_quote_new_def result_bind_Inr_iff Let_def list_ex_iff split: if_splits)
  note o = insert_operation_Inr [OF op] and e = insert_event_Inr [OF ev]
  let ?row = "new_quote_row env subject req record j ctx"
  have "operations s' = operations s @ [\<lparr>op_owner = subject, op_key = key, op_operation = ''create'', op_quote = quote_id record, op_request = Some j\<rparr>]"
    "quote_rows s' = quote_rows s @ [?row]"
    using o e by simp_all
  moreover have "qr_id ?row = quote_id record" "qr_owner ?row = subject" by (simp_all add: new_quote_row_def)
  moreover have "List.find (\<lambda>r. qr_id r = quote_id record \<and> qr_owner r = subject) (quote_rows s) = None"
    using fresh by (simp add: find_facts(2))
  ultimately show ?thesis
    using assms(1) by (intro that [of j ctx] j) (simp_all add: find_operation_def quote_row_def find_append)
qed

text \<open>C2: a submission takes effect at most once per key, even if the acknowledgement of its commit is lost: once a
  create with a new key is in the store, a repeated create with the same key and payload returns that same
  quote and changes nothing, and one with another payload is refused as a reused key. The hypotheses are
  that the serialiser of quote requests round-trips and that the submitted record is a queued one.\<close>

theorem create_quote_idempotent:
  assumes "find_operation s subject key = None" and "snd (create_quote d env subject key req record s) = s'"
    and "find_operation s' subject key \<noteq> None"
    and "\<And>q j. request_to_value env q = Some j \<Longrightarrow> request_from_value env j = Some q"
    and "request_to_value env' = request_to_value env" "request_from_value env' = request_from_value env"
    and "qstatus record = ''queued''"
  shows "(\<exists>r. create_quote healthy env' subject key req record' s' = (Inr (CreateExisting r), s') \<and>
           quote_id r = quote_id record \<and> owner_subject r = subject \<and> request r = wire req) \<and>
         (\<forall>req'. request_to_value env (wire req') \<notin> {None, request_to_value env (wire req)} \<longrightarrow>
           create_quote healthy env' subject key req' record' s' = (Inl IdempotencyKeyReused, s'))"
proof -
  obtain j ctx where j: "request_to_value env (wire req) = Some j"
    and op: "find_operation s' subject key =
       Some \<lparr>op_owner = subject, op_key = key, op_operation = ''create'', op_quote = quote_id record, op_request = Some j\<rparr>"
    and row: "quote_row s' subject (quote_id record) = Some (new_quote_row env subject req record j ctx)"
    by (rule create_quote_effect [OF assms(1-3)])
  have "\<exists>r. create_quote healthy env' subject key req record' s' = (Inr (CreateExisting r), s') \<and>
      quote_id r = quote_id record \<and> owner_subject r = subject \<and> request r = wire req"
    using j row assms(4) [OF j] assms(5-7)
    by (simp add: create_quote_def transact_def healthy_def create_quote_body_def exec_def op get_quote_in_transaction_def
        quote_from_row_def new_quote_row_def)
  moreover have "create_quote healthy env' subject key req' record' s' = (Inl IdempotencyKeyReused, s')"
    if "request_to_value env (wire req') \<notin> {None, request_to_value env (wire req)}" for req'
    using that j assms(5)
    by (auto simp: create_quote_def transact_def healthy_def create_quote_body_def exec_def op rollback_with_def)
  ultimately show ?thesis by blast
qed

text \<open>A store with one context, one subject and one submission, for concrete instances.\<close>

definition example_env :: store_env where
  "example_env =
     \<lparr>now_ts = 7, to_text = nat_to_string,
      request_to_value = (\<lambda>q. if q = request example_record then Some JNull else None),
      request_from_value = (\<lambda>_. Some (request example_record)), json_to_vec = (\<lambda>_. Some ''{}'')\<rparr>"

definition example_store :: store where
  "example_store = empty_store
     [\<lparr>cx_id = 9, cx_owner = ''alice'', cx_name = ''ctx'', cx_markdown = [], cx_json = JObject [], cx_active = True, cx_updated_at = 1\<rparr>]"

definition example_request :: accepted_quote_request where
  "example_request = \<lparr>application_markdown = ''md'', wire = request example_record\<rparr>"

definition example_submit :: "db_faults \<Rightarrow> (store_error + create_quote_outcome) \<times> store" where
  "example_submit d = create_quote d example_env ''alice'' ''key-00001'' example_request
     (example_record\<lparr>qstatus := ''queued'', analysis := None\<rparr>) example_store"

lemma example_submit_effect:
  "find_operation example_store ''alice'' ''key-00001'' = None"
  "fst (example_submit (healthy\<lparr>fails := (\<lambda>st. st = Commit), commit_applied := True\<rparr>)) = Inl Database"
  "find_operation (snd (example_submit (healthy\<lparr>fails := (\<lambda>st. st = Commit), commit_applied := True\<rparr>))) ''alice'' ''key-00001'' \<noteq> None"
  by (simp_all add: example_submit_def create_quote_def transact_def healthy_def create_quote_body_def create_quote_new_def
      exec_def find_operation_def example_store_def empty_store_def example_env_def example_request_def active_context_def
      context_validate_def context_from_row_def insert_operation_def insert_event_def quote_row_def new_quote_row_def
      example_record_def event_from_row_def Let_def schema_key_check_def ascii_defs)

theorem create_quote_idempotent_witness:
  "\<exists>r. create_quote healthy example_env ''alice'' ''key-00001'' example_request example_record
         (snd (example_submit (healthy\<lparr>fails := (\<lambda>st. st = Commit), commit_applied := True\<rparr>)))
       = (Inr (CreateExisting r), snd (example_submit (healthy\<lparr>fails := (\<lambda>st. st = Commit), commit_applied := True\<rparr>))) \<and>
     quote_id r = 1"
proof -
  have rt: "request_to_value example_env q = Some j \<Longrightarrow> request_from_value example_env j = Some q" for q j
    by (auto simp: example_env_def split: if_splits)
  note idem = create_quote_idempotent [OF example_submit_effect(1)
      example_submit_def [of "healthy\<lparr>fails := (\<lambda>st. st = Commit), commit_applied := True\<rparr>", THEN arg_cong, of snd, symmetric]
      example_submit_effect(3) rt refl refl, of example_record]
  from idem show ?thesis by (auto simp: example_record_def)
qed

section \<open>Reading\<close>

lemma quote_from_row_Inr:
  "quote_from_row env row = Inr r \<Longrightarrow> owner_subject r = qr_owner row \<and> quote_id r = qr_id row \<and>
     qstatus r = qr_status row \<and> qstatus r \<in> {''queued'', ''analyzing'', ''completed'', ''failed''} \<and> persistence r = ''postgres''"
  by (auto simp: quote_from_row_def result_bind_Inr_iff split: if_splits)

lemma transact_Inr: "fst (transact d body s) = Inr x \<Longrightarrow> \<exists>s'. body s = Inr (x, s')"
  by (cases rule: transact_cases [of d body s]) auto

lemma list_rows_owned: "r \<in> set (list_rows s subject limit cursor) \<Longrightarrow> qr_owner r = subject"
  by (auto simp: list_rows_def newest_first_def Let_def dest!: in_set_takeD split: option.splits)

lemma get_quote_owned:
  "fst (get_quote d env subject qid s) = Inr r \<Longrightarrow> owner_subject r = subject \<and> quote_id r = qid"
  unfolding get_quote_def
  by (drule transact_Inr)
    (auto simp: get_quote_in_transaction_def result_bind_Inr_iff ok_or_iff dest!: quote_from_row_Inr quote_row_Some)

lemma list_quotes_owned:
  assumes "fst (list_quotes d env subject limit cursor s) = Inr rs"
  shows "list_all (\<lambda>r. owner_subject r = subject) rs \<and> length rs \<le> 101"
proof -
  from transact_Inr [OF assms [unfolded list_quotes_def]]
  have all: "list_all2 (\<lambda>row r. quote_from_row env row = Inr r) (list_rows s subject limit cursor) rs"
    by (auto simp: result_bind_Inr_iff list_try_iff)
  have "\<forall>row \<in> set (list_rows s subject limit cursor). qr_owner row = subject" using list_rows_owned by blast
  with all have "list_all (\<lambda>r. owner_subject r = subject) rs"
    by (induction rule: list_all2_induct) (auto dest: quote_from_row_Inr)
  moreover have "length (list_rows s subject limit cursor) \<le> 101" by (simp add: list_rows_def Let_def min_le_iff_disj)
  ultimately show ?thesis using list_all2_lengthD [OF all] by simp
qed

text \<open>No caller reads another subject's quotes from the store: whatever the store holds and whatever fails, every
  record that \<open>get_quote\<close> or \<open>list_quotes\<close> returns belongs to the asking subject, a fetched record has the
  identifier asked for, and reading changes nothing.\<close>

theorem quote_reads_owned:
  "(case get_quote d env subject qid s of (res, s') \<Rightarrow>
      s' = s \<and> (case res of Inl _ \<Rightarrow> True | Inr r \<Rightarrow> owner_subject r = subject \<and> quote_id r = qid)) \<and>
   (case list_quotes d env subject limit cursor s of (res, s') \<Rightarrow>
      s' = s \<and> (case res of Inl _ \<Rightarrow> True | Inr rs \<Rightarrow> list_all (\<lambda>r. owner_subject r = subject) rs \<and> length rs \<le> 101))"
  using read_operations_unchanged(1) [of d env subject qid s] read_operations_unchanged(2) [of d env subject limit cursor s]
    get_quote_owned [of d env subject qid s] list_quotes_owned [of d env subject limit cursor s]
  by (auto split: prod.splits sum.splits)

lemma newest_first_strict:
  assumes "distinct (map qr_id rows)"
  shows "sorted_wrt (\<lambda>a b. (qr_created b, qr_id b) < (qr_created a, qr_id a)) (newest_first rows)"
proof -
  let ?k = "\<lambda>r. (qr_created r, qr_id r)"
  have "distinct (map ?k rows)" using assms by (auto simp: distinct_map inj_on_def)
  then have "distinct (map ?k (sort_key ?k rows))" by (simp add: distinct_map)
  then have "sorted_wrt (<) (map ?k (sort_key ?k rows))"
    using sorted_sort_key [of ?k rows] by (simp add: strict_sorted_iff)
  then show ?thesis by (simp add: newest_first_def sorted_wrt_rev sorted_wrt_map)
qed

text \<open>Cursor paging neither skips nor repeats: if \<open>r\<close> is somewhere in the subject's quotes listed newest first, the
  page after the cursor \<open>r\<close> is exactly the quotes that follow it there, up to the limit.\<close>

theorem cursor_continues_list:
  assumes "store_inv s" and "newest_first (filter (\<lambda>r. qr_owner r = subject) (quote_rows s)) = newer @ r # older"
  shows "list_rows s subject limit (Some (qr_id r)) = take (max 1 (min 101 limit)) older"
proof -
  let ?own = "filter (\<lambda>r. qr_owner r = subject) (quote_rows s)" and ?k = "\<lambda>r. (qr_created r, qr_id r)"
  have ids: "distinct (map qr_id (quote_rows s))" using assms(1) by (simp add: store_inv_def)
  have "r \<in> set (newest_first ?own)" using assms(2) by simp
  then have r: "r \<in> set (quote_rows s)" "qr_owner r = subject" by (auto simp: newest_first_def)
  have "quote_row s subject (qr_id r) = Some r"
  proof (cases "quote_row s subject (qr_id r)")
    case (Some r')
    then have "r' = r" using quote_row_Some [OF Some] r ids by (auto simp: distinct_map inj_on_def)
    then show ?thesis using Some by simp
  qed (use r in \<open>auto simp: quote_row_None\<close>)
  moreover have "newest_first (filter P rows) = filter P (newest_first rows)" for P rows
    by (simp only: newest_first_def filter_sort [symmetric] rev_filter)
  moreover have "sorted_wrt (\<lambda>a b. ?k b < ?k a) (newer @ r # older)"
    using newest_first_strict [of ?own] ids assms(2) by (simp add: distinct_map_filter)
  then have "filter (\<lambda>x. ?k x < ?k r) (newer @ r # older) = older"
    by (auto simp: sorted_wrt_append filter_empty_conv filter_id_conv dest: less_asym)
  ultimately show ?thesis using assms(2) by (simp add: list_rows_def Let_def)
qed

theorem cursor_continues_list_witness:
  "list_rows (snd (example_submit healthy)) ''alice'' 25 (Some 1) = []"
proof -
  have inv: "store_inv (snd (example_submit healthy))"
    unfolding example_submit_def
    by (rule create_quote_inv) (simp add: store_inv_def example_store_def empty_store_def mirrors_def)
  have "\<exists>r. quote_rows (snd (example_submit healthy)) = [r] \<and> qr_id r = 1 \<and> qr_owner r = ''alice''"
    by (simp add: example_submit_def create_quote_def transact_def healthy_def create_quote_body_def create_quote_new_def
      exec_def find_operation_def example_store_def empty_store_def example_env_def example_request_def active_context_def
      context_validate_def context_from_row_def insert_operation_def insert_event_def quote_row_def new_quote_row_def
      example_record_def event_from_row_def Let_def schema_key_check_def ascii_defs)
  then obtain r where r: "quote_rows (snd (example_submit healthy)) = [r]" "qr_id r = 1" "qr_owner r = ''alice''" by blast
  then show ?thesis
    using cursor_continues_list [OF inv, of "''alice''" "[]" r "[]" 25] by (simp add: newest_first_def)
qed

end
