(* ===== verification/Quotes.thy ===== *)
theory Quotes
  imports Auth Admission Gemini Persistence "HOL-Library.AList" "HOL-Library.List_Lexorder" "HOL-Library.Char_ord"
begin

text \<open>
  The quote service of \<open>src/lib.rs\<close>: the shared state, the handlers that submit, retry, list and fetch quotes,
  and the analysis worker. A handler is a function on the state; it is split where the code releases its locks
  between deciding on a record and publishing it (\<open>create_decide\<close>, \<open>retry_decide\<close>, then \<open>submit_finish\<close>), so that
  interleavings of concurrent requests can be stated. A worker is split at its calls to the model
  (\<open>worker_begin\<close>, \<open>worker_finish\<close>). Permits of the analysis semaphore are counted; a handler that returns
  without spawning a worker gives its permit back.

  The association lists \<open>quotes\<close> and \<open>idempotency\<close> stand for the hash maps. The record \<open>call_env\<close> holds what a
  request reads from outside: the authority, \<open>canonical_lib\<close>, the clock, the random UUID, the database's behaviour.
\<close>

section \<open>State\<close>

datatype memory_operation = MAssessment uuid json | MCreate uuid json | MRetry uuid

record worker =
  wk_record :: quote_record
  wk_request :: accepted_quote_request
  wk_context :: canonical_context
  wk_attempt :: "uuid option"
  wk_started :: bool

record app_state =
  ap_auth :: auth_state
  ap_database :: "store option"
  ap_gemini :: bool
  ap_model :: string
  ap_webhook :: bool
  ap_permits :: nat
  ap_windows :: submission_windows
  ap_quotes :: "(uuid \<times> quote_record) list"
  ap_idempotency :: "((string \<times> string) \<times> memory_operation) list"
  ap_sequence :: "64 word"
  ap_events :: "quote_event_record list"
  ap_deliveries :: "quote_event_record list"
  ap_workers :: "worker list"

record call_env =
  ce_introspect :: introspector
  ce_from_value :: "json \<Rightarrow> quote_request option"
  ce_is_accepted :: "quote_request \<Rightarrow> bool"
  ce_to_value :: "quote_request \<Rightarrow> json option"
  ce_markdown :: string
  ce_uuid_str :: "uuid \<Rightarrow> string"
  ce_uuid_parse :: "string \<Rightarrow> uuid option"
  ce_new_uuid :: uuid
  ce_instant :: nat
  ce_timestamp :: "string option"
  ce_faults :: db_faults
  ce_store_env :: store_env

abbreviation QUOTE_ANALYSIS_MAX_CONCURRENCY :: nat where "QUOTE_ANALYSIS_MAX_CONCURRENCY \<equiv> 4"

definition app_state_new :: "auth_state \<Rightarrow> string \<Rightarrow> store option \<Rightarrow> bool \<Rightarrow> bool \<Rightarrow> app_state" where
  "app_state_new auth model database gemini webhook =
     \<lparr>ap_auth = auth, ap_database = database, ap_gemini = gemini, ap_model = model, ap_webhook = webhook,
      ap_permits = QUOTE_ANALYSIS_MAX_CONCURRENCY, ap_windows = submission_windows_default, ap_quotes = [],
      ap_idempotency = [], ap_sequence = 1, ap_events = [], ap_deliveries = [], ap_workers = []\<rparr>"


section \<open>Pieces the handlers share\<close>

definition now_rfc3339 :: "call_env \<Rightarrow> api_error + string" where
  "now_rfc3339 env = ok_or (ce_timestamp env)
     (service_unavailable ''internal'' ''quote timestamp generation is temporarily unavailable'')"

definition new_record :: "app_state \<Rightarrow> uuid \<Rightarrow> string \<Rightarrow> quote_request \<Rightarrow> string \<Rightarrow> quote_record" where
  "new_record st new_uuid subject req timestamp =
     \<lparr>analysis = None, context_record_id = 0, error_code = None, gemini_model = ap_model st, owner_subject = subject,
      persistence = (if ap_database st \<noteq> None then ''postgres'' else ''memory-only''), quote_id = new_uuid, request = req,
      qstatus = ''queued'', created_at = timestamp, updated_at = timestamp\<rparr>"

text \<open>\<open>fetch_add\<close> wraps at 64 bits.\<close>

definition memory_event :: "app_state \<Rightarrow> quote_record \<Rightarrow> quote_event_record \<times> app_state" where
  "memory_event st record =
     (\<lparr>ev_owner_subject = owner_subject record, ev_quote_id = quote_id record, ev_sequence = ap_sequence st,
       ev_status = qstatus record, ev_occurred_at = updated_at record\<rparr>, st\<lparr>ap_sequence := ap_sequence st + 1\<rparr>)"

definition publish_event :: "app_state \<Rightarrow> quote_event_record \<Rightarrow> app_state" where
  "publish_event st event =
     st\<lparr>ap_events := ap_events st @ [event],
        ap_deliveries := (if ap_webhook st then ap_deliveries st @ [event] else ap_deliveries st)\<rparr>"

definition cache_quote :: "app_state \<Rightarrow> quote_record \<Rightarrow> app_state" where
  "cache_quote st record = st\<lparr>ap_quotes := AList.update (quote_id record) record (ap_quotes st)\<rparr>"

definition find_quote :: "call_env \<Rightarrow> app_state \<Rightarrow> uuid \<Rightarrow> string \<Rightarrow> (api_error + quote_record) \<times> app_state" where
  "find_quote env st qid subject =
     (case ap_database st of
        Some db \<Rightarrow>
          (case get_quote (ce_faults env) (ce_store_env env) subject qid db of
             (Inl e, db') \<Rightarrow> (Inl (map_store_error e), st\<lparr>ap_database := Some db'\<rparr>)
           | (Inr record, db') \<Rightarrow>
               (Inr record, st\<lparr>ap_database := Some db', ap_quotes := AList.update qid record (ap_quotes st)\<rparr>))
      | None \<Rightarrow>
          (case map_of (ap_quotes st) qid of
             Some record \<Rightarrow>
               if owner_subject record = subject then (Inr record, st)
               else (Inl (not_found ''not_found'' ''quote was not found''), st)
           | None \<Rightarrow> (Inl (not_found ''not_found'' ''quote was not found''), st)))"

definition analysis_capacity_reached :: api_error where
  "analysis_capacity_reached =
     service_unavailable ''analysis_capacity_reached'' ''quote analysis capacity is temporarily unavailable''"

text \<open>\<open>reserve_analysis\<close> and \<open>check_submission\<close>, in this order, as both submitting handlers call them. The permit is
  taken; the windows change even when the submission is refused.\<close>

definition admit :: "call_env \<Rightarrow> app_state \<Rightarrow> string \<Rightarrow> (api_error + unit) \<times> app_state" where
  "admit env st subject =
     (if ap_permits st = 0 then (Inl analysis_capacity_reached, st)
      else case check_submission (ap_windows st) (ce_instant env, subject) of
             (Inl retry_after, w) \<Rightarrow> (Inl (rate_limited retry_after), st\<lparr>ap_windows := w\<rparr>)
           | (Inr _, w) \<Rightarrow> (Inr (), st\<lparr>ap_windows := w, ap_permits := ap_permits st - 1\<rparr>))"

definition release_permit :: "app_state \<Rightarrow> app_state" where
  "release_permit st = st\<lparr>ap_permits := ap_permits st + 1\<rparr>"

text \<open>What a submission decides before it publishes: the record, its context, its event, whether to analyse.\<close>

record decision =
  dc_record :: quote_record
  dc_context :: "canonical_context option"
  dc_event :: "quote_event_record option"
  dc_analyze :: bool


section \<open>Submitting\<close>

definition create_decide ::
    "call_env \<Rightarrow> app_state \<Rightarrow> string \<Rightarrow> string \<Rightarrow> accepted_quote_request \<Rightarrow> json \<Rightarrow> (api_error + decision) \<times> app_state" where
  "create_decide env st subject key req request_json =
     (case ap_database st of
        Some db \<Rightarrow>
          (case now_rfc3339 env of
             Inl e \<Rightarrow> (Inl e, st)
           | Inr timestamp \<Rightarrow>
               (case create_quote (ce_faults env) (ce_store_env env) subject key req
                       (new_record st (ce_new_uuid env) subject (wire req) timestamp) db of
                  (Inl e, db') \<Rightarrow> (Inl (map_store_error e), st\<lparr>ap_database := Some db'\<rparr>)
                | (Inr (Created ctx event record), db') \<Rightarrow>
                    (Inr \<lparr>dc_record = record, dc_context = Some ctx, dc_event = Some event, dc_analyze = True\<rparr>,
                     st\<lparr>ap_database := Some db'\<rparr>)
                | (Inr (CreateExisting record), db') \<Rightarrow>
                    (Inr \<lparr>dc_record = record, dc_context = None, dc_event = None, dc_analyze = False\<rparr>,
                     st\<lparr>ap_database := Some db'\<rparr>)))
      | None \<Rightarrow>
          (case map_of (ap_idempotency st) (subject, key) of
             Some (MCreate qid existing) \<Rightarrow>
               if existing = request_json
               then (case map_of (ap_quotes st) qid of
                       Some record \<Rightarrow>
                         (Inr \<lparr>dc_record = record, dc_context = None, dc_event = None, dc_analyze = False\<rparr>, st)
                     | None \<Rightarrow> (Inl storage_unavailable, st))
               else (Inl idempotency_reused, st)
           | Some _ \<Rightarrow> (Inl idempotency_reused, st)
           | None \<Rightarrow>
               (case now_rfc3339 env of
                  Inl e \<Rightarrow> (Inl e, st)
                | Inr timestamp \<Rightarrow>
                    let record = new_record st (ce_new_uuid env) subject (wire req) timestamp;
                        (event, st1) = memory_event st record
                    in (Inr \<lparr>dc_record = record, dc_context = Some request_only, dc_event = Some event, dc_analyze = True\<rparr>,
                        st1\<lparr>ap_idempotency := AList.update (subject, key) (MCreate (quote_id record) request_json)
                              (ap_idempotency st1)\<rparr>))))"

text \<open>Caching the record, publishing the event and spawning the worker, which takes over the permit; the end of
  both submitting handlers.\<close>

definition submit_finish ::
    "app_state \<Rightarrow> decision \<Rightarrow> accepted_quote_request \<Rightarrow> (api_error + unit) \<times> app_state" where
  "submit_finish st dc req =
     (let st1 = cache_quote st (dc_record dc);
          st2 = (case dc_event dc of None \<Rightarrow> st1 | Some event \<Rightarrow> publish_event st1 event)
      in if \<not> dc_analyze dc then (Inr (), release_permit st2)
         else case dc_context dc of
                None \<Rightarrow> (Inl storage_unavailable, release_permit st2)
              | Some ctx \<Rightarrow>
                  (Inr (), st2\<lparr>ap_workers := ap_workers st2 @
                     [\<lparr>wk_record = dc_record dc, wk_request = req, wk_context = ctx, wk_attempt = None, wk_started = False\<rparr>]\<rparr>))"

definition create_quote_handler ::
    "call_env \<Rightarrow> header_map \<Rightarrow> json \<Rightarrow> app_state \<Rightarrow> (api_error + nat \<times> QuoteSubmissionResponse) \<times> app_state" where
  "create_quote_handler env headers payload st =
     (case authenticate (ce_introspect env) headers (ap_auth st) [''quotes:write''] of
        Inl e \<Rightarrow> (Inl e, st)
      | Inr subject \<Rightarrow>
        (case required_idempotency_key headers of
           Inl e \<Rightarrow> (Inl e, st)
         | Inr key \<Rightarrow>
           (case parse_quote_request (ce_from_value env) (ce_is_accepted env) (ce_markdown env) payload of
              Inl e \<Rightarrow> (Inl e, st)
            | Inr req \<Rightarrow>
              (case admit env st subject of
                 (Inl e, st1) \<Rightarrow> (Inl e, st1)
               | (Inr _, st1) \<Rightarrow>
                 (case ce_to_value env (wire req) of
                    None \<Rightarrow> (Inl (bad_request ''invalid_request'' ''quote request could not be normalized''), release_permit st1)
                  | Some request_json \<Rightarrow>
                    (case create_decide env st1 subject key req request_json of
                       (Inl e, st2) \<Rightarrow> (Inl e, release_permit st2)
                     | (Inr dc, st2) \<Rightarrow>
                       (case submit_finish st2 dc req of
                          (Inl e, st3) \<Rightarrow> (Inl e, st3)
                        | (Inr _, st3) \<Rightarrow>
                            (Inr (202, quote_submission_response (ce_uuid_str env) (dc_record dc)), st3))))))))"


section \<open>Retrying\<close>

definition retry_decide ::
    "call_env \<Rightarrow> app_state \<Rightarrow> string \<Rightarrow> string \<Rightarrow> uuid \<Rightarrow> (api_error + decision) \<times> app_state" where
  "retry_decide env st subject key qid =
     (case ap_database st of
        Some db \<Rightarrow>
          (case retry_quote (ce_faults env) (ce_store_env env) subject qid key db of
             (Inl e, db') \<Rightarrow> (Inl (map_store_error e), st\<lparr>ap_database := Some db'\<rparr>)
           | (Inr (Retried ctx event record), db') \<Rightarrow>
               (Inr \<lparr>dc_record = record, dc_context = Some ctx, dc_event = Some event, dc_analyze = True\<rparr>,
                st\<lparr>ap_database := Some db'\<rparr>)
           | (Inr (RetryExisting record), db') \<Rightarrow>
               (Inr \<lparr>dc_record = record, dc_context = None, dc_event = None, dc_analyze = False\<rparr>,
                st\<lparr>ap_database := Some db'\<rparr>))
      | None \<Rightarrow>
          (case map_of (ap_idempotency st) (subject, key) of
             Some (MRetry existing) \<Rightarrow>
               if existing = qid
               then (case find_quote env st qid subject of
                       (Inl e, st1) \<Rightarrow> (Inl e, st1)
                     | (Inr record, st1) \<Rightarrow>
                         (Inr \<lparr>dc_record = record, dc_context = None, dc_event = None, dc_analyze = False\<rparr>, st1))
               else (Inl idempotency_reused, st)
           | Some _ \<Rightarrow> (Inl idempotency_reused, st)
           | None \<Rightarrow>
               (case find_quote env st qid subject of
                  (Inl e, st1) \<Rightarrow> (Inl e, st1)
                | (Inr record, st1) \<Rightarrow>
                    if qstatus record \<noteq> ''failed''
                    then (Inl (conflict ''conflict'' ''only a failed quote may be retried''), st1)
                    else (case now_rfc3339 env of
                            Inl e \<Rightarrow> (Inl e, st1)
                          | Inr timestamp \<Rightarrow>
                              let record = record\<lparr>qstatus := ''queued'', analysis := None, error_code := None, updated_at := timestamp\<rparr>;
                                  (event, st2) = memory_event st1 record
                              in (Inr \<lparr>dc_record = record, dc_context = Some request_only, dc_event = Some event, dc_analyze = True\<rparr>,
                                  st2\<lparr>ap_idempotency := AList.update (subject, key) (MRetry qid) (ap_idempotency st2)\<rparr>)))))"

definition retry_quote_handler ::
    "call_env \<Rightarrow> header_map \<Rightarrow> uuid \<Rightarrow> app_state \<Rightarrow> (api_error + nat \<times> QuoteRetryResponse) \<times> app_state" where
  "retry_quote_handler env headers qid st =
     (case authenticate (ce_introspect env) headers (ap_auth st) [''quotes:write''] of
        Inl e \<Rightarrow> (Inl e, st)
      | Inr subject \<Rightarrow>
        (case required_idempotency_key headers of
           Inl e \<Rightarrow> (Inl e, st)
         | Inr key \<Rightarrow>
           (case admit env st subject of
              (Inl e, st1) \<Rightarrow> (Inl e, st1)
            | (Inr _, st1) \<Rightarrow>
              (case retry_decide env st1 subject key qid of
                 (Inl e, st2) \<Rightarrow> (Inl e, release_permit st2)
               | (Inr dc, st2) \<Rightarrow>
                 let application = trim (ce_markdown env);
                     unavailable = dc_analyze dc \<and> (application = [] \<or> MAX_MARKDOWN_CONTEXT_BYTES < length application)
                 in if unavailable
                    then (Inl (service_unavailable ''context_unavailable'' ''quote analysis context is unavailable''),
                          release_permit (let st3 = cache_quote st2 (dc_record dc)
                            in case dc_event dc of None \<Rightarrow> st3 | Some event \<Rightarrow> publish_event st3 event))
                    else (case submit_finish st2 dc \<lparr>application_markdown = application, wire = request (dc_record dc)\<rparr> of
                            (Inl e, st3) \<Rightarrow> (Inl e, st3)
                          | (Inr _, st3) \<Rightarrow>
                              (Inr (202, quote_retry_response (ce_uuid_str env) (dc_record dc)), st3))))))"


section \<open>The analysis worker\<close>

text \<open>\<open>update_quote_state\<close>: the record as it is left, whether the update succeeded, and the state.\<close>

definition update_quote_state :: "call_env \<Rightarrow> app_state \<Rightarrow> quote_record \<Rightarrow> (bool \<times> quote_record) \<times> app_state" where
  "update_quote_state env st record =
     (case ap_database st of
        Some db \<Rightarrow>
          (case update_quote (ce_faults env) (ce_store_env env) record db of
             (Inl _, db') \<Rightarrow> ((False, record), st\<lparr>ap_database := Some db'\<rparr>)
           | (Inr (event, record'), db') \<Rightarrow>
               ((True, record'), publish_event (cache_quote (st\<lparr>ap_database := Some db'\<rparr>) record') event))
      | None \<Rightarrow>
          (case ce_timestamp env of
             None \<Rightarrow> ((False, record), st)
           | Some timestamp \<Rightarrow>
               let record' = record\<lparr>updated_at := timestamp\<rparr>;
                   (event, st1) = memory_event st record'
               in ((True, record'), publish_event (cache_quote st1 record') event)))"

text \<open>Up to the call of the model: \<open>Some\<close> worker goes on, \<open>None\<close> has ended and dropped its permit.\<close>

definition worker_begin :: "call_env \<Rightarrow> app_state \<Rightarrow> worker \<Rightarrow> worker option \<times> app_state" where
  "worker_begin env st w =
     (let record = (wk_record w)\<lparr>qstatus := ''analyzing'', error_code := None, analysis := None\<rparr>
      in case update_quote_state env st record of
           ((False, _), st1) \<Rightarrow> (None, release_permit st1)
         | ((True, record1), st1) \<Rightarrow>
             if \<not> ap_gemini st1
             then (let (_, st2) = update_quote_state env st1
                         (record1\<lparr>qstatus := ''failed'', error_code := Some ''gemini_not_configured''\<rparr>)
                   in (None, release_permit st2))
             else (case ap_database st1 of
                     None \<Rightarrow> (Some (w\<lparr>wk_record := record1, wk_started := True\<rparr>), st1)
                   | Some db \<Rightarrow>
                       (case start_model_attempt (ce_faults env) (ce_new_uuid env) record1 db of
                          (Inl _, db') \<Rightarrow> (Some (w\<lparr>wk_record := record1, wk_started := True\<rparr>), st1\<lparr>ap_database := Some db'\<rparr>)
                        | (Inr aid, db') \<Rightarrow>
                            (Some (w\<lparr>wk_record := record1, wk_attempt := Some aid, wk_started := True\<rparr>),
                             st1\<lparr>ap_database := Some db'\<rparr>))))"

definition analyzed_record :: "quote_record \<Rightarrow> gemini_error + json \<Rightarrow> quote_record" where
  "analyzed_record record result =
     (case result of
        Inr a \<Rightarrow> record\<lparr>qstatus := ''completed'', analysis := Some a, error_code := None\<rparr>
      | Inl e \<Rightarrow> record\<lparr>qstatus := ''failed'', analysis := None, error_code := Some (gemini_error_code e)\<rparr>)"

definition worker_finish :: "call_env \<Rightarrow> app_state \<Rightarrow> worker \<Rightarrow> gemini_error + json \<Rightarrow> app_state" where
  "worker_finish env st w result =
     (let ((_, record), st1) = update_quote_state env st (analyzed_record (wk_record w) result)
      in release_permit
           (case (ap_database st1, wk_attempt w) of
              (Some db, Some aid) \<Rightarrow>
                st1\<lparr>ap_database := Some (snd (finish_model_attempt (ce_faults env) (ce_store_env env) record aid db))\<rparr>
            | _ \<Rightarrow> st1))"


section \<open>Reading\<close>

text \<open>The memory-mode listing: newest first by timestamp text, then identifier, continued after the cursor.\<close>

definition memory_list :: "app_state \<Rightarrow> string \<Rightarrow> nat \<Rightarrow> uuid option \<Rightarrow> quote_record list" where
  "memory_list st subject limit cursor =
     (let records = rev (sort_key (\<lambda>r. (created_at r, quote_id r))
                           (filter (\<lambda>r. owner_subject r = subject) (map snd (ap_quotes st))));
          records = (case cursor of
                       None \<Rightarrow> records
                     | Some c \<Rightarrow> drop 1 (dropWhile (\<lambda>r. quote_id r \<noteq> c) records))
      in take (limit + 1) records)"

definition list_quotes_handler ::
    "call_env \<Rightarrow> header_map \<Rightarrow> int option \<Rightarrow> string option \<Rightarrow> app_state \<Rightarrow> (api_error + QuoteListResponse) \<times> app_state" where
  "list_quotes_handler env headers limit cursor st =
     (case authenticate (ce_introspect env) headers (ap_auth st) [''quotes:read''] of
        Inl e \<Rightarrow> (Inl e, st)
      | Inr subject \<Rightarrow>
          let limit = nat (min 100 (max 1 (case limit of None \<Rightarrow> 25 | Some l \<Rightarrow> l)))
          in (case option_try (\<lambda>c. ok_or (ce_uuid_parse env c) (bad_request ''invalid_request'' ''cursor is invalid'')) cursor of
                Inl e \<Rightarrow> (Inl e, st)
              | Inr cursor \<Rightarrow>
                  (case ap_database st of
                     Some db \<Rightarrow>
                       (case list_quotes (ce_faults env) (ce_store_env env) subject (limit + 1) cursor db of
                          (Inl e, db') \<Rightarrow> (Inl (map_store_error e), st\<lparr>ap_database := Some db'\<rparr>)
                        | (Inr records, db') \<Rightarrow>
                            (quote_list_response (ce_uuid_str env) records limit, st\<lparr>ap_database := Some db'\<rparr>))
                   | None \<Rightarrow> (quote_list_response (ce_uuid_str env) (memory_list st subject limit cursor) limit, st))))"

definition get_quote_handler ::
    "call_env \<Rightarrow> header_map \<Rightarrow> uuid \<Rightarrow> app_state \<Rightarrow> (api_error + QuoteDetail) \<times> app_state" where
  "get_quote_handler env headers qid st =
     (case authenticate (ce_introspect env) headers (ap_auth st) [''quotes:read''] of
        Inl e \<Rightarrow> (Inl e, st)
      | Inr subject \<Rightarrow>
          (case find_quote env st qid subject of
             (Inl e, st1) \<Rightarrow> (Inl e, st1)
           | (Inr record, st1) \<Rightarrow> (quote_detail (ce_uuid_str env) record, st1)))"


section \<open>The service as a machine\<close>

datatype app_input =
    InCreate call_env header_map json
  | InRetry call_env header_map uuid
  | InGet call_env header_map uuid
  | InList call_env header_map "int option" "string option"
  | InBegin call_env nat
  | InFinish call_env nat "gemini_error + json"

definition remove_nth :: "nat \<Rightarrow> 'a list \<Rightarrow> 'a list" where
  "remove_nth i xs = take i xs @ drop (Suc i) xs"

fun app_step :: "app_state \<Rightarrow> app_input \<Rightarrow> app_state" where
  "app_step st (InCreate env headers payload) = snd (create_quote_handler env headers payload st)"
| "app_step st (InRetry env headers qid) = snd (retry_quote_handler env headers qid st)"
| "app_step st (InGet env headers qid) = snd (get_quote_handler env headers qid st)"
| "app_step st (InList env headers limit cursor) = snd (list_quotes_handler env headers limit cursor st)"
| "app_step st (InBegin env i) =
     (if i < length (ap_workers st) \<and> \<not> wk_started (ap_workers st ! i)
      then case worker_begin env st (ap_workers st ! i) of
             (Some w, st1) \<Rightarrow> st1\<lparr>ap_workers := (ap_workers st)[i := w]\<rparr>
           | (None, st1) \<Rightarrow> st1\<lparr>ap_workers := remove_nth i (ap_workers st)\<rparr>
      else st)"
| "app_step st (InFinish env i result) =
     (if i < length (ap_workers st) \<and> wk_started (ap_workers st ! i)
      then (worker_finish env st (ap_workers st ! i) result)\<lparr>ap_workers := remove_nth i (ap_workers st)\<rparr>
      else st)"

lemma length_remove_nth: "i < length xs \<Longrightarrow> Suc (length (remove_nth i xs)) = length xs"
  by (simp add: remove_nth_def)

lemma set_remove_nth: "set (remove_nth i xs) \<subseteq> set xs"
  by (auto simp: remove_nth_def dest: in_set_takeD in_set_dropD)


section \<open>Permits\<close>

text \<open>What each piece leaves alone: permits and workers change only in \<open>admit\<close>, \<open>release_permit\<close> and the end of a
  submission.\<close>

definition slots :: "app_state \<Rightarrow> nat \<times> worker list" where
  "slots st = (ap_permits st, ap_workers st)"

lemma slots_pieces [simp]:
  "slots (publish_event st e) = slots st"
  "slots (cache_quote st r) = slots st"
  "slots (snd (memory_event st r)) = slots st"
  "slots (st\<lparr>ap_database := db\<rparr>) = slots st"
  "slots (st\<lparr>ap_quotes := qs\<rparr>) = slots st"
  "slots (st\<lparr>ap_sequence := n\<rparr>) = slots st"
  "slots (st\<lparr>ap_idempotency := ops\<rparr>) = slots st"
  "slots (st\<lparr>ap_windows := w\<rparr>) = slots st"
  by (simp_all add: slots_def publish_event_def cache_quote_def memory_event_def)

lemma slots_find_quote: "find_quote env st q s = (r, st') \<Longrightarrow> slots st' = slots st"
  by (auto simp: find_quote_def split: option.splits prod.splits sum.splits if_splits)

lemma slots_create_decide: "create_decide env st subject key req j = (r, st') \<Longrightarrow> slots st' = slots st"
  by (auto simp: create_decide_def memory_event_def Let_def
      split: option.splits prod.splits sum.splits memory_operation.splits create_quote_outcome.splits if_splits)

lemma slots_retry_decide: "retry_decide env st subject key qid = (r, st') \<Longrightarrow> slots st' = slots st"
  by (auto simp: retry_decide_def memory_event_def Let_def dest: slots_find_quote
      split: option.splits prod.splits sum.splits memory_operation.splits retry_quote_outcome.splits if_splits)

lemma slots_update_quote_state: "update_quote_state env st r = (x, st') \<Longrightarrow> slots st' = slots st"
  by (auto simp: update_quote_state_def memory_event_def Let_def split: option.splits prod.splits sum.splits)

definition permits_ok :: "app_state \<Rightarrow> bool" where
  "permits_ok st \<longleftrightarrow> ap_permits st + length (ap_workers st) = QUOTE_ANALYSIS_MAX_CONCURRENCY"

lemma permits_pieces: "slots st' = slots st \<Longrightarrow> permits_ok st' = permits_ok st"
  by (simp add: permits_ok_def slots_def)

text \<open>Between admission and the end of its handler a request holds one permit.\<close>

definition one_held :: "app_state \<Rightarrow> bool" where
  "one_held st \<longleftrightarrow> Suc (ap_permits st + length (ap_workers st)) = QUOTE_ANALYSIS_MAX_CONCURRENCY"

lemma one_held_pieces: "slots st' = slots st \<Longrightarrow> one_held st' = one_held st"
  by (simp add: one_held_def slots_def)

lemma admit_permits:
  "admit env st subject = (Inl e, st1) \<Longrightarrow> permits_ok st \<Longrightarrow> permits_ok st1"
  "admit env st subject = (Inr u, st1) \<Longrightarrow> permits_ok st \<Longrightarrow> one_held st1"
  by (auto simp: admit_def permits_ok_def one_held_def split: if_splits prod.splits sum.splits)

lemma release_permits [simp]: "permits_ok (release_permit st) = one_held st"
  by (simp add: permits_ok_def one_held_def release_permit_def)

lemma published_slots:
  "slots (case e of None \<Rightarrow> cache_quote st r | Some event \<Rightarrow> publish_event (cache_quote st r) event) = slots st"
  by (simp split: option.split)

lemma submit_finish_permits:
  assumes "submit_finish st dc req = (r, st')" and "one_held st"
  shows "permits_ok st'"
proof -
  let ?st = "case dc_event dc of None \<Rightarrow> cache_quote st (dc_record dc) | Some event \<Rightarrow> publish_event (cache_quote st (dc_record dc)) event"
  have "one_held ?st" using assms(2) one_held_pieces [OF published_slots] by blast
  then show ?thesis
    using assms(1) by (auto simp: submit_finish_def Let_def permits_ok_def one_held_def release_permit_def split: if_splits option.splits)
qed

lemma create_handler_permits:
  assumes ok: "permits_ok st"
  shows "permits_ok (snd (create_quote_handler env headers payload st))"
proof -
  have decide: "create_decide env st1 subject key req j = (r, st2) \<Longrightarrow> one_held st1 \<Longrightarrow> one_held st2" for st1 subject key req j r st2
    using one_held_pieces [OF slots_create_decide] by blast
  show ?thesis
    using ok unfolding create_quote_handler_def
    by (auto split: sum.splits prod.splits option.splits dest: admit_permits decide submit_finish_permits)
qed

lemma retry_handler_permits:
  assumes ok: "permits_ok st"
  shows "permits_ok (snd (retry_quote_handler env headers qid st))"
proof -
  have decide: "retry_decide env st1 subject key q = (r, st2) \<Longrightarrow> one_held st1 \<Longrightarrow> one_held st2" for st1 subject key q r st2
    using one_held_pieces [OF slots_retry_decide] by blast
  have pub: "one_held st2 \<Longrightarrow> one_held (case e of None \<Rightarrow> cache_quote st2 r | Some event \<Rightarrow> publish_event (cache_quote st2 r) event)" for e st2 r
    using one_held_pieces [OF published_slots] by blast
  show ?thesis
    using ok unfolding retry_quote_handler_def Let_def
    by (auto split: sum.splits prod.splits if_splits intro!: pub dest: admit_permits decide submit_finish_permits)
qed

lemma worker_begin_slots:
  assumes "worker_begin env st w = (r, st')"
  shows "ap_workers st' = ap_workers st \<and> ap_permits st' = ap_permits st + (if r = None then 1 else 0)"
proof -
  have "(r = None \<and> (\<exists>st1. slots st1 = slots st \<and> st' = release_permit st1)) \<or> (r \<noteq> None \<and> slots st' = slots st)"
    using assms
    by (auto simp: worker_begin_def Let_def split: prod.splits bool.splits if_splits option.splits sum.splits
        dest!: slots_update_quote_state)
  then show ?thesis by (auto simp: slots_def release_permit_def)
qed

lemma worker_finish_slots:
  "ap_workers (worker_finish env st w result) = ap_workers st \<and> ap_permits (worker_finish env st w result) = Suc (ap_permits st)"
proof -
  obtain b r1 st1 where u: "update_quote_state env st (analyzed_record (wk_record w) result) = ((b, r1), st1)"
    by (metis surj_pair)
  then show ?thesis
    using slots_update_quote_state [OF u]
    by (auto simp: worker_finish_def u slots_def release_permit_def split: option.split)
qed

lemma list_handler_slots: "slots (snd (list_quotes_handler env headers limit cursor st)) = slots st"
  by (auto simp: list_quotes_handler_def Let_def split: sum.splits option.splits prod.splits)

lemma get_handler_slots: "slots (snd (get_quote_handler env headers qid st)) = slots st"
  by (auto simp: get_quote_handler_def split: sum.splits prod.splits dest: slots_find_quote)

interpretation permits: machine app_step permits_ok
proof
  fix st p assume ok: "permits_ok st"
  show "permits_ok (app_step st p)"
  proof (cases p)
    case (InCreate env headers payload)
    then show ?thesis using create_handler_permits [OF ok] by simp
  next
    case (InRetry env headers qid)
    then show ?thesis using retry_handler_permits [OF ok] by simp
  next
    case (InGet env headers qid)
    then show ?thesis using ok permits_pieces [OF get_handler_slots] by simp
  next
    case (InList env headers limit cursor)
    then show ?thesis using ok permits_pieces [OF list_handler_slots] by simp
  next
    case (InBegin env i)
    then show ?thesis using ok length_remove_nth [of i "ap_workers st"]
      by (auto simp: permits_ok_def split: prod.splits option.splits dest!: worker_begin_slots)
  next
    case (InFinish env i result)
    then show ?thesis using ok length_remove_nth [of i "ap_workers st"] worker_finish_slots [of env st "ap_workers st ! i" result]
      by (auto simp: permits_ok_def)
  qed
qed

text \<open>Analysis capacity is neither exceeded nor leaked: after any sequence of requests and worker steps, in either
  storage mode and under any database failures, the free permits and the running workers add up to four, so at
  most four analyses run at once and every permit comes back when its worker or request ends.\<close>

theorem analysis_permits_conserved:
  "let st = run app_step (app_state_new auth model database gemini webhook) inputs
   in ap_permits st + length (ap_workers st) = QUOTE_ANALYSIS_MAX_CONCURRENCY"
  using permits.inv_run [of "app_state_new auth model database gemini webhook" inputs]
  by (simp add: permits_ok_def app_state_new_def)

text \<open>A call in which everything outside works, for concrete instances.\<close>

definition example_call :: call_env where
  "example_call =
     \<lparr>ce_introspect = (\<lambda>_ _ _. None), ce_from_value = (\<lambda>_. Some (request example_record)), ce_is_accepted = (\<lambda>_. True),
      ce_to_value = (\<lambda>_. Some JNull), ce_markdown = ''md'', ce_uuid_str = (\<lambda>u. nat_to_string (unat u)), ce_uuid_parse = (\<lambda>_. None),
      ce_new_uuid = 1, ce_instant = 0, ce_timestamp = Some ''t'', ce_faults = healthy, ce_store_env = example_env\<rparr>"

text \<open>A submission, for concrete instances.\<close>

definition example_headers :: header_map where
  "example_headers = [ascii_header ''x-canonical-internal-token'' ''tok'', ascii_header ''x-canonical-subject'' ''alice'',
     ascii_header ''idempotency-key'' ''key-00001'']"

definition example_memory :: app_state where
  "example_memory = app_state_new \<lparr>internal_auth_token = ''tok'', shared_audience = None\<rparr> ''m'' None True False"

lemma example_head:
  "authenticate i example_headers (ap_auth example_memory) scopes = Inr ''alice''"
  "required_idempotency_key example_headers = Inr ''key-00001''"
proof -
  have t: "trim ''alice'' = ''alice''" "trim ''key-00001'' = ''key-00001''" by (rule trim_graphic; simp add: is_ascii_graphic_def)+
  show "authenticate i example_headers (ap_auth example_memory) scopes = Inr ''alice''"
    by (simp add: authenticate_def example_headers_def example_memory_def app_state_new_def header_str_def header_get_def
        ascii_header_def valid_subject_def t ascii_defs)
  show "required_idempotency_key example_headers = Inr ''key-00001''"
    by (simp add: required_idempotency_key_def example_headers_def header_str_def header_get_def ascii_header_def t
        valid_idempotency_key_def ascii_defs)
qed

lemma example_windows:
  "check_submission submission_windows_default (0, ''alice'') = (Inr (), \<lparr>all_subjects = [0], by_subject = [(''alice'', [0])]\<rparr>)"
  by (simp add: check_submission_def submission_windows_default_def retain_live_def discard_expired_def evict_oldest_def put_subject_def Let_def)

end
