(* ===== verification/Quote_Memory.thy ===== *)
theory Quote_Memory
  imports Quotes
begin

text \<open>
  The quote service without a database: what its maps and workers satisfy when requests and worker steps run one
  after the other, and what can go wrong when a replayed submission overlaps with the worker of its quote.
\<close>

section \<open>The invariant\<close>

text \<open>The maps and workers a memory-mode step changes.\<close>

type_synonym memory_view =
  "(uuid \<rightharpoonup> quote_record) \<times> (string \<times> string \<rightharpoonup> memory_operation) \<times> worker list"

definition view :: "app_state \<Rightarrow> memory_view" where
  "view st = (map_of (ap_quotes st), map_of (ap_idempotency st), ap_workers st)"

abbreviation wk_id :: "worker \<Rightarrow> uuid" where
  "wk_id w \<equiv> quote_id (wk_record w)"

text \<open>Quotes are stored under their identifiers with a known status; a recorded key refers to a quote of its subject;
  every quote has at most one worker, and its stored status is the phase its worker is in.\<close>

definition tracked :: "(uuid \<rightharpoonup> quote_record) \<Rightarrow> worker \<Rightarrow> bool" where
  "tracked Q w \<longleftrightarrow> (\<exists>r. Q (wk_id w) = Some r \<and> owner_subject r = owner_subject (wk_record w) \<and>
     qstatus r = (if wk_started w then ''analyzing'' else ''queued''))"

definition mem_ok :: "memory_view \<Rightarrow> bool" where
  "mem_ok v \<longleftrightarrow> (case v of (Q, I, W) \<Rightarrow>
     (\<forall>q r. Q q = Some r \<longrightarrow> quote_id r = q \<and> qstatus r \<in> {''queued'', ''analyzing'', ''completed'', ''failed''}) \<and>
     (\<forall>s k q j. I (s, k) = Some (MCreate q j) \<longrightarrow> (\<exists>r. Q q = Some r \<and> owner_subject r = s)) \<and>
     (\<forall>s k q. I (s, k) = Some (MRetry q) \<longrightarrow> (\<exists>r. Q q = Some r \<and> owner_subject r = s)) \<and>
     distinct (map wk_id W) \<and> (\<forall>w \<in> set W. tracked Q w))"

lemmas mem_ok_I = mem_ok_def [THEN iffD2, of "(Q, I, W)" for Q I W, simplified prod.case, rule_format]

lemma mem_ok_D:
  assumes "mem_ok (Q, I, W)"
  shows "Q q = Some r \<Longrightarrow> quote_id r = q"
    and "Q q = Some r \<Longrightarrow> qstatus r \<in> {''queued'', ''analyzing'', ''completed'', ''failed''}"
    and "I (s, k) = Some (MCreate q j) \<Longrightarrow> \<exists>r. Q q = Some r \<and> owner_subject r = s"
    and "I (s, k) = Some (MRetry q) \<Longrightarrow> \<exists>r. Q q = Some r \<and> owner_subject r = s"
    and "distinct (map wk_id W)" and "w \<in> set W \<Longrightarrow> tracked Q w"
  using assms unfolding mem_ok_def by blast+

lemma mem_ok_update:
  assumes ok: "mem_ok (Q, I, W)" and q: "Q q = Some r0" and "quote_id r = q" and own: "owner_subject r = owner_subject r0"
    and "qstatus r \<in> {''queued'', ''analyzing'', ''completed'', ''failed''}"
    and "distinct (map wk_id W')" and other: "\<And>w. w \<in> set W' \<Longrightarrow> wk_id w \<noteq> q \<Longrightarrow> w \<in> set W"
    and mine: "\<And>w. w \<in> set W' \<Longrightarrow> wk_id w = q \<Longrightarrow> owner_subject (wk_record w) = owner_subject r \<and>
           qstatus r = (if wk_started w then ''analyzing'' else ''queued'')"
  shows "mem_ok (Q(q \<mapsto> r), I, W')"
proof (rule mem_ok_I, intro conjI allI impI ballI)
  have own': "\<exists>r'. (Q(q \<mapsto> r)) p = Some r' \<and> owner_subject r' = s" if "\<exists>r. Q p = Some r \<and> owner_subject r = s" for p s
    using that q own by auto
  show "\<exists>r'. (Q(q \<mapsto> r)) p = Some r' \<and> owner_subject r' = s" if "I (s, k) = Some (MCreate p j)" for s k p j
    using mem_ok_D(3) [OF ok that] by (rule own')
  show "\<exists>r'. (Q(q \<mapsto> r)) p = Some r' \<and> owner_subject r' = s" if "I (s, k) = Some (MRetry p)" for s k p
    using mem_ok_D(4) [OF ok that] by (rule own')
  show "tracked (Q(q \<mapsto> r)) w" if "w \<in> set W'" for w
    using mine [OF that] mem_ok_D(6) [OF ok, of w] other [OF that] by (auto simp: tracked_def)
qed (use assms mem_ok_D [OF ok] in \<open>auto split: if_splits\<close>)

lemma mem_ok_idempotency:
  assumes "mem_ok (Q, I, W)" and "Q q = Some r" and "owner_subject r = s" and "p = MRetry q \<or> p = MCreate q j"
  shows "mem_ok (Q, I((s, k) \<mapsto> p), W)"
  using assms unfolding mem_ok_def by auto

lemma mem_ok_new:
  assumes ok: "mem_ok (Q, I, W)" and q: "Q q = None" and r: "quote_id r = q" "qstatus r = ''queued''"
    and w: "wk_record w = r" "\<not> wk_started w"
  shows "mem_ok (Q(q \<mapsto> r), I, W @ [w])"
proof (rule mem_ok_I, intro conjI allI impI ballI)
  have own': "\<exists>r'. (Q(q \<mapsto> r)) p = Some r' \<and> owner_subject r' = s" if "\<exists>r. Q p = Some r \<and> owner_subject r = s" for p s
    using that q by auto
  show "\<exists>r'. (Q(q \<mapsto> r)) p = Some r' \<and> owner_subject r' = s" if "I (s, k) = Some (MCreate p j)" for s k p j
    using mem_ok_D(3) [OF ok that] by (rule own')
  show "\<exists>r'. (Q(q \<mapsto> r)) p = Some r' \<and> owner_subject r' = s" if "I (s, k) = Some (MRetry p)" for s k p
    using mem_ok_D(4) [OF ok that] by (rule own')
  have new: "wk_id x \<noteq> q" if "x \<in> set W" for x using mem_ok_D(6) [OF ok that] q by (auto simp: tracked_def)
  then have "q \<notin> set (map wk_id W)" by auto
  then show "distinct (map wk_id (W @ [w]))" using mem_ok_D(5) [OF ok] r w by simp
  show "tracked (Q(q \<mapsto> r)) x" if "x \<in> set (W @ [w])" for x
    using mem_ok_D(6) [OF ok, of x] that new [of x] r w by (auto simp: tracked_def)
qed (use assms mem_ok_D [OF ok] in \<open>auto split: if_splits\<close>)

lemma mem_ok_fewer:
  assumes "mem_ok (Q, I, W)" and "distinct (map wk_id W')" and "set W' \<subseteq> set W"
  shows "mem_ok (Q, I, W')"
  using assms unfolding mem_ok_def by auto

lemma wk_id_remove_nth:
  assumes "i < length W" and "distinct (map wk_id W)" and "w \<in> set (remove_nth i W)"
  shows "wk_id w \<noteq> wk_id (W ! i)"
proof -
  have "distinct (map wk_id (take i W @ W ! i # drop (Suc i) W))"
    using assms(1,2) by (simp only: id_take_nth_drop [symmetric])
  then have "wk_id (W ! i) \<notin> wk_id ` set (take i W @ drop (Suc i) W)" by auto
  then show ?thesis using assms(3) unfolding remove_nth_def by (metis imageI)
qed

lemma distinct_remove_nth: "distinct (map f W) \<Longrightarrow> distinct (map f (remove_nth i W))"
proof (cases "i < length W")
  case True
  assume "distinct (map f W)"
  then have "distinct (map f (take i W @ W ! i # drop (Suc i) W))" using True by (simp only: id_take_nth_drop [symmetric])
  then show ?thesis by (simp add: remove_nth_def)
qed (simp add: remove_nth_def)


section \<open>Every step keeps it\<close>

lemma view_simps [simp]:
  "view (publish_event st e) = view st"
  "view (release_permit st) = view st"
  "view (st\<lparr>ap_windows := x\<rparr>) = view st"
  "view (st\<lparr>ap_permits := n\<rparr>) = view st"
  "view (st\<lparr>ap_sequence := m\<rparr>) = view st"
  "ap_database (publish_event st e) = ap_database st"
  "ap_database (release_permit st) = ap_database st"
  "ap_database (cache_quote st r) = ap_database st"
  "ap_gemini (publish_event st e) = ap_gemini st"
  "ap_gemini (cache_quote st r) = ap_gemini st"
  by (simp_all add: view_def publish_event_def release_permit_def cache_quote_def)

lemma view_updates:
  "view (cache_quote st r) = ((map_of (ap_quotes st))(quote_id r \<mapsto> r), map_of (ap_idempotency st), ap_workers st)"
  "view (st\<lparr>ap_workers := W\<rparr>) = (map_of (ap_quotes st), map_of (ap_idempotency st), W)"
  "view (st\<lparr>ap_idempotency := AList.update k p (ap_idempotency st)\<rparr>) =
     (map_of (ap_quotes st), (map_of (ap_idempotency st))(k \<mapsto> p), ap_workers st)"
  by (simp_all add: view_def cache_quote_def update_conv')

definition memory_ok :: "app_state \<Rightarrow> bool" where
  "memory_ok st \<longleftrightarrow> ap_database st = None \<and> mem_ok (view st)"

text \<open>What a memory-mode decision is: a replay of the stored record, which changes nothing yet, or a new analysis of a
  queued record, whose key is already recorded.\<close>

definition replays :: "app_state \<Rightarrow> decision \<Rightarrow> bool" where
  "replays st dc \<longleftrightarrow> \<not> dc_analyze dc \<and> dc_event dc = None \<and> (\<exists>q. map_of (ap_quotes st) q = Some (dc_record dc))"

definition starts :: "app_state \<Rightarrow> string \<times> string \<Rightarrow> memory_operation \<Rightarrow> decision \<Rightarrow> app_state \<Rightarrow> bool" where
  "starts st k p dc st' \<longleftrightarrow> dc_analyze dc \<and> dc_context dc = Some request_only \<and> qstatus (dc_record dc) = ''queued'' \<and>
     owner_subject (dc_record dc) = fst k \<and>
     view st' = (map_of (ap_quotes st), (map_of (ap_idempotency st))(k \<mapsto> p), ap_workers st)"

lemma create_decide_memory:
  assumes "ap_database st = None" and "create_decide env st subject key req j = (Inr dc, st')"
  shows "ap_database st' = None \<and> (replays st dc \<and> st' = st \<or>
     quote_id (dc_record dc) = ce_new_uuid env \<and> starts st (subject, key) (MCreate (ce_new_uuid env) j) dc st')"
  using assms
  by (auto simp: create_decide_def new_record_def memory_event_def Let_def replays_def starts_def view_def update_conv'
      split: option.splits memory_operation.splits if_splits sum.splits)

lemma create_decide_refuses:
  "ap_database st = None \<Longrightarrow> create_decide env st subject key req j = (Inl e, st') \<Longrightarrow> st' = st"
  by (auto simp: create_decide_def memory_event_def Let_def
      split: option.splits memory_operation.splits if_splits sum.splits)

lemma find_quote_memory:
  "ap_database st = None \<Longrightarrow> find_quote env st q s = (res, st') \<Longrightarrow>
     st' = st \<and> (\<forall>r. res = Inr r \<longrightarrow> map_of (ap_quotes st) q = Some r \<and> owner_subject r = s)"
  by (auto simp: find_quote_def split: option.splits if_splits)

lemma retry_decide_memory:
  assumes "ap_database st = None" and "retry_decide env st subject key qid = (Inr dc, st')"
  shows "ap_database st' = None \<and> (replays st dc \<and> st' = st \<or>
     (\<exists>r. map_of (ap_quotes st) qid = Some r \<and> qstatus r = ''failed'' \<and> quote_id (dc_record dc) = quote_id r \<and>
        owner_subject r = subject \<and> starts st (subject, key) (MRetry qid) dc st'))"
proof -
  obtain res st1 where f: "find_quote env st qid subject = (res, st1)" by fastforce
  note m = find_quote_memory [OF assms(1) f]
  show ?thesis using assms m
    by (cases "map_of (ap_idempotency st) (subject, key)"; cases res)
      (auto simp: retry_decide_def f memory_event_def Let_def replays_def starts_def view_def update_conv'
        split: memory_operation.splits if_splits sum.splits)
qed

lemma retry_decide_refuses:
  assumes "ap_database st = None" and "retry_decide env st subject key qid = (Inl e, st')"
  shows "st' = st"
proof -
  obtain res st1 where f: "find_quote env st qid subject = (res, st1)" by fastforce
  show ?thesis using assms find_quote_memory [OF assms(1) f]
    by (auto simp: retry_decide_def f memory_event_def Let_def
        split: option.splits memory_operation.splits if_splits sum.splits)
qed

lemma submit_finish_replay:
  assumes ok: "memory_ok st" and dc: "replays st dc"
  shows "memory_ok (snd (submit_finish st dc req))"
proof -
  from dc obtain q where q: "map_of (ap_quotes st) q = Some (dc_record dc)" by (auto simp: replays_def)
  then have "quote_id (dc_record dc) = q" using ok mem_ok_D(1) by (auto simp: memory_ok_def view_def)
  with q have "view (cache_quote st (dc_record dc)) = view st" by (simp add: view_updates) (simp add: view_def map_upd_triv)
  then show ?thesis using ok dc by (simp add: memory_ok_def submit_finish_def replays_def)
qed

lemma submit_finish_start:
  assumes "ap_database st = None" and "dc_analyze dc" and "dc_context dc = Some ctx" and "view st = (Q, I, W)"
  shows "\<exists>w. wk_record w = dc_record dc \<and> \<not> wk_started w \<and> ap_database (snd (submit_finish st dc req)) = None \<and>
     view (snd (submit_finish st dc req)) = (Q(quote_id (dc_record dc) \<mapsto> dc_record dc), I, W @ [w])"
proof -
  define w where "w = \<lparr>wk_record = dc_record dc, wk_request = req, wk_context = ctx, wk_attempt = None, wk_started = False\<rparr>"
  let ?st = "case dc_event dc of None \<Rightarrow> cache_quote st (dc_record dc) | Some event \<Rightarrow> publish_event (cache_quote st (dc_record dc)) event"
  have "view ?st = (Q(quote_id (dc_record dc) \<mapsto> dc_record dc), I, W) \<and> ap_database ?st = None"
    using assms(1,4) by (simp add: view_updates split: option.split) (simp add: view_def)
  moreover have "snd (submit_finish st dc req) = ?st\<lparr>ap_workers := ap_workers ?st @ [w]\<rparr>"
    using assms(2,3) by (simp add: submit_finish_def Let_def w_def)
  ultimately show ?thesis by (intro exI [of _ w]) (simp add: view_updates w_def, simp add: view_def)
qed

lemma create_publishes:
  assumes ok: "memory_ok st" and new: "map_of (ap_quotes st) (ce_new_uuid env) = None"
    and dc: "create_decide env st subject key req j = (Inr dc, st')"
  shows "memory_ok (snd (submit_finish st' dc req))"
proof -
  have db: "ap_database st = None" using ok by (simp add: memory_ok_def)
  from create_decide_memory [OF db dc] consider "replays st dc" "st' = st"
    | "quote_id (dc_record dc) = ce_new_uuid env" "starts st (subject, key) (MCreate (ce_new_uuid env) j) dc st'" by blast
  then show ?thesis
  proof cases
    case 1
    then show ?thesis using submit_finish_replay [OF ok] by simp
  next
    case 2
    let ?r = "dc_record dc" and ?Q = "map_of (ap_quotes st)" and ?I = "map_of (ap_idempotency st)"
    have st': "ap_database st' = None" "dc_analyze dc" "dc_context dc = Some request_only"
      "view st' = (?Q, ?I((subject, key) \<mapsto> MCreate (quote_id ?r) j), ap_workers st)"
      using 2 create_decide_memory [OF db dc] by (simp_all add: starts_def)
    from submit_finish_start [OF this, of req] obtain w
      where w: "wk_record w = ?r" "\<not> wk_started w" "ap_database (snd (submit_finish st' dc req)) = None"
      "view (snd (submit_finish st' dc req)) =
         (?Q(quote_id ?r \<mapsto> ?r), ?I((subject, key) \<mapsto> MCreate (quote_id ?r) j), ap_workers st @ [w])" by blast
    have "mem_ok (?Q(quote_id ?r \<mapsto> ?r), ?I, ap_workers st @ [w])"
      using ok new 2 w by (intro mem_ok_new) (auto simp: memory_ok_def view_def starts_def)
    then show ?thesis
      using mem_ok_idempotency [of "?Q(quote_id ?r \<mapsto> ?r)" ?I _ "quote_id ?r" ?r subject] 2 w by (simp add: memory_ok_def starts_def)
  qed
qed

lemma failed_idle:
  assumes ok: "mem_ok (Q, I, W)" and "Q q = Some r" and "qstatus r = ''failed''" and "w \<in> set W"
  shows "wk_id w \<noteq> q"
  using mem_ok_D(6) [OF ok assms(4)] assms(2,3) by (auto simp: tracked_def split: if_splits)

text \<open>A retried quote is failed, so it has no worker; the retry queues it again, with a worker or, when the analysis
  context is unavailable, without one.\<close>

lemma retry_requeues:
  assumes ok: "mem_ok (Q, I, W)" and "Q q = Some r" and "qstatus r = ''failed''" and "quote_id r' = quote_id r"
    and "owner_subject r' = owner_subject r" and "qstatus r' = ''queued''" and "owner_subject r = s"
    and W': "W' = W \<or> (\<exists>w. W' = W @ [w] \<and> wk_record w = r' \<and> \<not> wk_started w)"
  shows "mem_ok (Q(quote_id r' \<mapsto> r'), I((s, k) \<mapsto> MRetry q), W')"
proof -
  have q: "quote_id r = q" using mem_ok_D(1) [OF ok assms(2)] .
  have idle: "wk_id w \<noteq> q" if "w \<in> set W" for w using failed_idle [OF ok assms(2,3) that] .
  then have "q \<notin> set (map wk_id W)" by auto
  then have "distinct (map wk_id W')" using W' mem_ok_D(5) [OF ok] assms(4) q by auto
  then have "mem_ok (Q(q \<mapsto> r'), I, W')"
    using assms q idle W' by (intro mem_ok_update [OF ok assms(2)]) auto
  then show ?thesis using mem_ok_idempotency [of "Q(q \<mapsto> r')" I W' q r' s] assms q by simp
qed

lemma retry_publishes:
  assumes ok: "memory_ok st" and dc: "retry_decide env st subject key qid = (Inr dc, st')"
  shows "memory_ok (snd (submit_finish st' dc req))"
    and "dc_analyze dc \<Longrightarrow> memory_ok (case dc_event dc of None \<Rightarrow> cache_quote st' (dc_record dc)
           | Some event \<Rightarrow> publish_event (cache_quote st' (dc_record dc)) event)"
proof -
  let ?r = "dc_record dc" and ?Q = "map_of (ap_quotes st)" and ?I = "map_of (ap_idempotency st)"
  have db: "ap_database st = None" and mem: "mem_ok (?Q, ?I, ap_workers st)" using ok by (simp_all add: memory_ok_def view_def)
  have started: "\<exists>r. ?Q qid = Some r \<and> qstatus r = ''failed'' \<and> quote_id ?r = quote_id r \<and> owner_subject r = subject \<and>
      starts st (subject, key) (MRetry qid) dc st'" if "dc_analyze dc"
    using retry_decide_memory [OF db dc] that by (auto simp: replays_def)
  have db': "ap_database st' = None" using retry_decide_memory [OF db dc] by blast
  show "memory_ok (snd (submit_finish st' dc req))"
  proof (cases "dc_analyze dc")
    case False
    then show ?thesis using submit_finish_replay [OF ok] retry_decide_memory [OF db dc] by (auto simp: starts_def)
  next
    case True
    then obtain r where r: "?Q qid = Some r" "qstatus r = ''failed''" "quote_id ?r = quote_id r" "owner_subject r = subject"
      and st': "starts st (subject, key) (MRetry qid) dc st'" using started by blast
    have v: "dc_context dc = Some request_only" "view st' = (?Q, ?I((subject, key) \<mapsto> MRetry qid), ap_workers st)"
      using st' by (simp_all add: starts_def)
    from submit_finish_start [OF db' True v, of req] obtain w
      where w: "wk_record w = ?r" "\<not> wk_started w" "ap_database (snd (submit_finish st' dc req)) = None"
        "view (snd (submit_finish st' dc req)) = (?Q(quote_id ?r \<mapsto> ?r), ?I((subject, key) \<mapsto> MRetry qid), ap_workers st @ [w])"
      by blast
    have "mem_ok (?Q(quote_id ?r \<mapsto> ?r), ?I((subject, key) \<mapsto> MRetry qid), ap_workers st @ [w])"
      using r st' w by (intro retry_requeues [OF mem r(1,2)]) (auto simp: starts_def)
    then show ?thesis using w by (simp add: memory_ok_def)
  qed
  show "memory_ok (case dc_event dc of None \<Rightarrow> cache_quote st' ?r | Some event \<Rightarrow> publish_event (cache_quote st' ?r) event)"
    if an: "dc_analyze dc"
  proof -
    obtain r where r: "?Q qid = Some r" "qstatus r = ''failed''" "quote_id ?r = quote_id r" "owner_subject r = subject"
      and st': "starts st (subject, key) (MRetry qid) dc st'" using started [OF an] by blast
    then have "mem_ok (?Q(quote_id ?r \<mapsto> ?r), ?I((subject, key) \<mapsto> MRetry qid), ap_workers st)"
      by (intro retry_requeues [OF mem r(1,2)]) (auto simp: starts_def)
    moreover have "view st' = (?Q, ?I((subject, key) \<mapsto> MRetry qid), ap_workers st)" using st' by (simp add: starts_def)
    ultimately show ?thesis using db' by (simp add: memory_ok_def view_updates split: option.split) (simp add: view_def)
  qed
qed

lemma update_state_memory:
  assumes "ap_database st = None" and "update_quote_state env st r = ((b, r'), st')"
  shows "ap_database st' = None \<and> ap_gemini st' = ap_gemini st \<and> (\<exists>t. r' = r\<lparr>updated_at := t\<rparr>) \<and>
     view st' = (if b then (map_of (ap_quotes st))(quote_id r \<mapsto> r') else map_of (ap_quotes st), map_of (ap_idempotency st), ap_workers st)"
proof (cases "ce_timestamp env")
  case None
  then have "r' = r" "st' = st" "\<not> b" using assms by (simp_all add: update_quote_state_def)
  then show ?thesis using assms(1) by (auto simp: view_def intro: exI [of _ "updated_at r"])
next
  case (Some t)
  then show ?thesis using assms by (auto simp: update_quote_state_def memory_event_def Let_def view_updates)
qed

lemma memory_ok_admit: "memory_ok st \<Longrightarrow> admit env st s = (r, st') \<Longrightarrow> memory_ok st' \<and> ap_quotes st' = ap_quotes st"
  by (auto simp: admit_def memory_ok_def view_def split: if_splits prod.splits sum.splits)

lemma memory_ok_release [simp]: "memory_ok (release_permit st) = memory_ok st"
  by (simp add: memory_ok_def)

lemma create_handler_memory:
  assumes "memory_ok st" and "map_of (ap_quotes st) (ce_new_uuid env) = None"
  shows "memory_ok (snd (create_quote_handler env headers payload st))"
proof -
  have dec: "create_decide env st1 su k rq j = (Inr dc, st2) \<Longrightarrow> memory_ok st1 \<Longrightarrow>
      map_of (ap_quotes st1) (ce_new_uuid env) = None \<Longrightarrow> memory_ok (snd (submit_finish st2 dc rq))" for st1 su k rq j dc st2
    by (rule create_publishes)
  have refuse: "create_decide env st1 su k rq j = (Inl e, st2) \<Longrightarrow> memory_ok st1 \<Longrightarrow> memory_ok st2" for st1 su k rq j e st2
    by (auto simp: memory_ok_def dest: create_decide_refuses)
  show ?thesis
  proof (cases "authenticate (ce_introspect env) headers (ap_auth st) [''quotes:write'']"; cases "required_idempotency_key headers";
      cases "parse_quote_request (ce_from_value env) (ce_is_accepted env) (ce_markdown env) payload")
    fix su k rq assume head: "authenticate (ce_introspect env) headers (ap_auth st) [''quotes:write''] = Inr su"
      "required_idempotency_key headers = Inr k"
      "parse_quote_request (ce_from_value env) (ce_is_accepted env) (ce_markdown env) payload = Inr rq"
    obtain r st1 where adm: "admit env st su = (r, st1)" by fastforce
    have ok1: "memory_ok st1" "map_of (ap_quotes st1) (ce_new_uuid env) = None"
      using memory_ok_admit [OF assms(1) adm] assms(2) by auto
    show ?thesis
    proof (cases r; cases "ce_to_value env (wire rq)")
      fix u j assume rj: "r = Inr u" "ce_to_value env (wire rq) = Some j"
      obtain d st2 where d: "create_decide env st1 su k rq j = (d, st2)" by fastforce
      show ?thesis
        using head adm d rj ok1 dec [of st1 su k rq j _ st2] refuse [of st1 su k rq j _ st2]
        by (cases d) (auto simp: create_quote_handler_def split: prod.splits sum.splits)
    qed (use head adm ok1 in \<open>auto simp: create_quote_handler_def\<close>)
  qed (use assms in \<open>auto simp: create_quote_handler_def\<close>)
qed

lemma retry_handler_memory:
  assumes "memory_ok st"
  shows "memory_ok (snd (retry_quote_handler env headers qid st))"
proof -
  have dec: "retry_decide env st1 su k q = (Inr dc, st2) \<Longrightarrow> memory_ok st1 \<Longrightarrow> memory_ok (snd (submit_finish st2 dc rq))"
    for st1 su k q dc st2 rq
    by (rule retry_publishes(1))
  have refuse: "retry_decide env st1 su k q = (Inl e, st2) \<Longrightarrow> memory_ok st1 \<Longrightarrow> memory_ok st2" for st1 su k q e st2
    by (auto simp: memory_ok_def dest: retry_decide_refuses)
  show ?thesis
  proof (cases "authenticate (ce_introspect env) headers (ap_auth st) [''quotes:write'']"; cases "required_idempotency_key headers")
    fix su k assume head: "authenticate (ce_introspect env) headers (ap_auth st) [''quotes:write''] = Inr su"
      "required_idempotency_key headers = Inr k"
    obtain r st1 where adm: "admit env st su = (r, st1)" by fastforce
    have ok1: "memory_ok st1" using memory_ok_admit [OF assms adm] by blast
    obtain d st2 where d: "retry_decide env st1 su k qid = (d, st2)" by fastforce
    show ?thesis
    proof (cases r; cases d)
      fix u dc assume "r = Inr u" "d = Inr dc"
      then show ?thesis
        using head adm d dec [of st1 su k qid dc st2 "\<lparr>application_markdown = trim (ce_markdown env), wire = request (dc_record dc)\<rparr>"] ok1 retry_publishes(2) [OF ok1, of env su k qid dc st2]
        by (auto simp: retry_quote_handler_def Let_def split: prod.splits sum.splits)
    qed (use head adm d ok1 refuse [of st1 su k qid _ st2] in \<open>auto simp: retry_quote_handler_def\<close>)
  qed (use assms in \<open>auto simp: retry_quote_handler_def\<close>)
qed

lemma worker_steps:
  assumes ok: "memory_ok st" and i: "i < length (ap_workers st)"
    and r: "quote_id r = wk_id (ap_workers st ! i)" "owner_subject r = owner_subject (wk_record (ap_workers st ! i))"
    and v: "view st' = ((map_of (ap_quotes st))(quote_id r \<mapsto> r), map_of (ap_idempotency st), W)" "ap_database st' = None"
  shows "qstatus r \<in> {''completed'', ''failed''} \<Longrightarrow> memory_ok (st'\<lparr>ap_workers := remove_nth i (ap_workers st)\<rparr>)"
    and "qstatus r = ''analyzing'' \<Longrightarrow> wk_record w = r \<Longrightarrow> wk_started w \<Longrightarrow> memory_ok (st'\<lparr>ap_workers := (ap_workers st)[i := w]\<rparr>)"
proof -
  let ?W = "ap_workers st" and ?Q = "map_of (ap_quotes st)"
  have mem: "mem_ok (?Q, map_of (ap_idempotency st), ?W)" using ok by (simp add: memory_ok_def view_def)
  obtain r0 where r0: "?Q (quote_id r) = Some r0" "owner_subject r = owner_subject r0"
    using mem_ok_D(6) [OF mem nth_mem [OF i]] r by (auto simp: tracked_def)
  have qv: "view (st'\<lparr>ap_workers := V\<rparr>) = (?Q(quote_id r \<mapsto> r), map_of (ap_idempotency st), V)" for V
    using v(1) by (simp add: view_def)
  note d = mem_ok_D(5) [OF mem]
  show "memory_ok (st'\<lparr>ap_workers := remove_nth i ?W\<rparr>)" if "qstatus r \<in> {''completed'', ''failed''}"
  proof -
    have "mem_ok (?Q(quote_id r \<mapsto> r), map_of (ap_idempotency st), remove_nth i ?W)"
      by (rule mem_ok_update [OF mem r0(1) refl r0(2)])
        (use that r set_remove_nth [of i ?W] wk_id_remove_nth [OF i d] distinct_remove_nth [OF d] in auto)
    then show ?thesis using v(2) by (simp add: memory_ok_def qv)
  qed
  show "memory_ok (st'\<lparr>ap_workers := ?W[i := w]\<rparr>)" if w: "qstatus r = ''analyzing''" "wk_record w = r" "wk_started w"
  proof -
    have ids: "map wk_id (?W[i := w]) = map wk_id ?W" using w r i by (simp add: map_update) (metis list_update_id nth_map)
    have same: "x = w" if x: "x \<in> set (?W[i := w])" "wk_id x = quote_id r" for x
    proof -
      obtain n where n: "n < length ?W" "x = ?W[i := w] ! n" using x(1) by (auto simp: in_set_conv_nth)
      then have "map wk_id ?W ! n = map wk_id ?W ! i" using ids x(2) r i by (metis length_list_update nth_map)
      then have "n = i" using d n(1) i by (simp add: distinct_conv_nth) (metis nth_map)
      then show ?thesis using n i by simp
    qed
    have "mem_ok (?Q(quote_id r \<mapsto> r), map_of (ap_idempotency st), ?W[i := w])"
      by (rule mem_ok_update [OF mem r0(1) refl r0(2)])
        (use w ids d set_update_subset_insert [of ?W i w] same in \<open>auto dest: same\<close>)
    then show ?thesis using v(2) by (simp add: memory_ok_def qv)
  qed
qed

lemma begin_memory:
  assumes ok: "memory_ok st" and i: "i < length (ap_workers st)" "\<not> wk_started (ap_workers st ! i)"
  shows "memory_ok (app_step st (InBegin env i))"
proof -
  let ?w = "ap_workers st ! i" and ?W = "ap_workers st"
  let ?r = "(wk_record ?w)\<lparr>qstatus := ''analyzing'', error_code := None, analysis := None\<rparr>"
  have db: "ap_database st = None" using ok by (simp add: memory_ok_def)
  obtain b r1 st1 where u: "update_quote_state env st ?r = ((b, r1), st1)" by (metis surj_pair)
  note m = update_state_memory [OF db u]
  then have r1: "quote_id r1 = wk_id ?w" "owner_subject r1 = owner_subject (wk_record ?w)" "qstatus r1 = ''analyzing''"
    by auto
  have v1: "view st1 = ((map_of (ap_quotes st))(quote_id r1 \<mapsto> r1), map_of (ap_idempotency st), ?W)" if b using m that r1 by simp
  show ?thesis
  proof (cases b)
    case False
    then have "worker_begin env st ?w = (None, release_permit st1)" by (simp add: worker_begin_def u Let_def)
    moreover have mem: "mem_ok (map_of (ap_quotes st), map_of (ap_idempotency st), ?W)"
      using ok by (simp add: memory_ok_def view_def)
    have "mem_ok (map_of (ap_quotes st), map_of (ap_idempotency st), remove_nth i ?W)"
      by (rule mem_ok_fewer [OF mem distinct_remove_nth [OF mem_ok_D(5) [OF mem]] set_remove_nth])
    moreover have "view ((release_permit st1)\<lparr>ap_workers := remove_nth i ?W\<rparr>) =
        (map_of (ap_quotes st), map_of (ap_idempotency st), remove_nth i ?W)"
      using m False by (simp add: view_def release_permit_def)
    moreover have "ap_database ((release_permit st1)\<lparr>ap_workers := remove_nth i ?W\<rparr>) = None"
      using m by (simp add: release_permit_def)
    ultimately show ?thesis using i by (simp add: memory_ok_def)
  next
    case True
    show ?thesis
    proof (cases "ap_gemini st")
      case gem: True
      have "worker_begin env st ?w = (Some (?w\<lparr>wk_record := r1, wk_started := True\<rparr>), st1)"
        using True gem m by (simp add: worker_begin_def u Let_def)
      moreover have "memory_ok (st1\<lparr>ap_workers := ?W[i := ?w\<lparr>wk_record := r1, wk_started := True\<rparr>]\<rparr>)"
        by (rule worker_steps(2) [OF ok i(1) r1(1,2) v1 [OF True] conjunct1 [OF m] r1(3)]) simp_all
      ultimately show ?thesis using i by simp
    next
      case gem: False
      let ?r2 = "r1\<lparr>qstatus := ''failed'', error_code := Some ''gemini_not_configured''\<rparr>"
      obtain b2 r3 st2 where u2: "update_quote_state env st1 ?r2 = ((b2, r3), st2)" by (metis surj_pair)
      note m2 = update_state_memory [OF conjunct1 [OF m] u2]
      then have r3: "quote_id r3 = wk_id ?w" "owner_subject r3 = owner_subject (wk_record ?w)" "qstatus r3 = ''failed''"
        using r1 by auto
      have same: "b2 = True" using True u u2 db m by (auto simp: update_quote_state_def Let_def memory_event_def split: option.splits)
      have "worker_begin env st ?w = (None, release_permit st2)"
        using True gem m by (simp add: worker_begin_def u u2 Let_def)
      moreover have "view (release_permit st2) = ((map_of (ap_quotes st))(quote_id r3 \<mapsto> r3), map_of (ap_idempotency st), ?W)"
        using m m2 True same r1(1) r3(1) v1 [OF True] by (simp add: view_def release_permit_def)
      moreover have "ap_database (release_permit st2) = None" using m2 by simp
      ultimately have "memory_ok ((release_permit st2)\<lparr>ap_workers := remove_nth i ?W\<rparr>) \<and> worker_begin env st ?w = (None, release_permit st2)"
        using r3(3) worker_steps(1) [OF ok i(1) r3(1,2), of "release_permit st2" ?W] by blast
      then show ?thesis using i by simp
    qed
  qed
qed

lemma finish_memory:
  assumes ok: "memory_ok st" and i: "i < length (ap_workers st)"
  shows "memory_ok (app_step st (InFinish env i result))"
proof (cases "wk_started (ap_workers st ! i)")
  case True
  let ?w = "ap_workers st ! i" and ?W = "ap_workers st"
  let ?r = "analyzed_record (wk_record ?w) result"
  have r: "quote_id ?r = wk_id ?w" "owner_subject ?r = owner_subject (wk_record ?w)" "qstatus ?r \<in> {''completed'', ''failed''}"
    by (simp_all add: analyzed_record_def split: sum.split)
  have db: "ap_database st = None" using ok by (simp add: memory_ok_def)
  obtain b r1 st1 where u: "update_quote_state env st ?r = ((b, r1), st1)" by (metis surj_pair)
  note m = update_state_memory [OF db u]
  have fin: "worker_finish env st ?w result = release_permit st1" using m by (simp add: worker_finish_def u)
  have r1: "quote_id r1 = wk_id ?w" "owner_subject r1 = owner_subject (wk_record ?w)" "qstatus r1 \<in> {''completed'', ''failed''}"
    using m r by auto
  show ?thesis
  proof (cases b)
    case b: True
    have "view (release_permit st1) = ((map_of (ap_quotes st))(quote_id r1 \<mapsto> r1), map_of (ap_idempotency st), ?W)"
      using m b r(1) r1(1) by (simp add: view_def release_permit_def)
    moreover have "ap_database (release_permit st1) = None" using m by simp
    ultimately have "memory_ok ((release_permit st1)\<lparr>ap_workers := remove_nth i ?W\<rparr>)"
      using r1(3) worker_steps(1) [OF ok i r1(1,2), of "release_permit st1" ?W] by blast
    then show ?thesis using i True fin by simp
  next
    case b: False
    have mem: "mem_ok (map_of (ap_quotes st), map_of (ap_idempotency st), ?W)"
      using ok by (simp add: memory_ok_def view_def)
    have "mem_ok (map_of (ap_quotes st), map_of (ap_idempotency st), remove_nth i ?W)"
      by (rule mem_ok_fewer [OF mem distinct_remove_nth [OF mem_ok_D(5) [OF mem]] set_remove_nth])
    moreover have "view ((release_permit st1)\<lparr>ap_workers := remove_nth i ?W\<rparr>) =
        (map_of (ap_quotes st), map_of (ap_idempotency st), remove_nth i ?W)"
      using m b by (simp add: view_def release_permit_def)
    moreover have "ap_database ((release_permit st1)\<lparr>ap_workers := remove_nth i ?W\<rparr>) = None"
      using m by (simp add: release_permit_def)
    ultimately show ?thesis using i True fin by (simp add: memory_ok_def)
  qed
qed (use ok in simp)

lemma read_memory:
  assumes "ap_database st = None"
  shows "snd (get_quote_handler env headers qid st) = st" "snd (list_quotes_handler env headers limit cursor st) = st"
  using assms by (auto simp: get_quote_handler_def list_quotes_handler_def Let_def split: sum.split prod.split dest: find_quote_memory)


section \<open>Reachable memory-mode services\<close>

text \<open>A submission draws a random identifier; the steps are those in which it is not one already in use.\<close>

definition fresh :: "app_state \<Rightarrow> app_input \<Rightarrow> bool" where
  "fresh st p \<longleftrightarrow> (case p of InCreate env headers payload \<Rightarrow> map_of (ap_quotes st) (ce_new_uuid env) = None | _ \<Rightarrow> True)"

inductive memory_reachable :: "app_state \<Rightarrow> bool" where
  start: "memory_reachable (app_state_new auth model None gemini webhook)"
| step: "memory_reachable st \<Longrightarrow> fresh st p \<Longrightarrow> memory_reachable (app_step st p)"

lemma memory_ok_step:
  assumes "memory_ok st" and "fresh st p"
  shows "memory_ok (app_step st p)"
proof (cases p)
  case (InCreate env headers payload)
  then show ?thesis using create_handler_memory assms by (simp add: fresh_def)
next
  case (InBegin env i)
  then show ?thesis using begin_memory [OF assms(1), of i env] assms(1) by (cases "i < length (ap_workers st)") auto
next
  case (InFinish env i result)
  then show ?thesis using finish_memory [OF assms(1), of i env result] assms(1) by (cases "i < length (ap_workers st)") auto
qed (use assms retry_handler_memory read_memory in \<open>auto simp: memory_ok_def\<close>)

lemma memory_reachable_ok: "memory_reachable st \<Longrightarrow> memory_ok st"
proof (induction rule: memory_reachable.induct)
  case (start auth model gemini webhook)
  then show ?case by (simp add: memory_ok_def mem_ok_def view_def app_state_new_def)
qed (rule memory_ok_step)

text \<open>As long as requests and worker steps are handled one after another, the service without a database stays consistent:
  quotes are stored under their identifiers with one of the four statuses, a recorded key refers to a stored quote of
  its own subject, no quote has two workers, and a quote with a worker is queued or analysing as its worker is. What of
  this survives when they overlap is the subject of \<open>Overlap_Invariant\<close>.\<close>

theorem memory_service_consistent:
  assumes "memory_reachable st"
  shows "(\<forall>q r. map_of (ap_quotes st) q = Some r \<longrightarrow>
            quote_id r = q \<and> qstatus r \<in> {''queued'', ''analyzing'', ''completed'', ''failed''}) \<and>
    (\<forall>s k q j. map_of (ap_idempotency st) (s, k) \<in> {Some (MCreate q j), Some (MRetry q)} \<longrightarrow>
            (\<exists>r. map_of (ap_quotes st) q = Some r \<and> owner_subject r = s)) \<and>
    distinct (map (\<lambda>w. quote_id (wk_record w)) (ap_workers st)) \<and>
    (\<forall>w \<in> set (ap_workers st). \<exists>r. map_of (ap_quotes st) (quote_id (wk_record w)) = Some r \<and>
       owner_subject r = owner_subject (wk_record w) \<and> qstatus r = (if wk_started w then ''analyzing'' else ''queued''))"
proof -
  have ok: "mem_ok (map_of (ap_quotes st), map_of (ap_idempotency st), ap_workers st)"
    using memory_reachable_ok [OF assms] by (simp add: memory_ok_def view_def)
  show ?thesis
    using mem_ok_D(1,2) [OF ok] mem_ok_D(3,4) [OF ok] mem_ok_D(5,6) [OF ok] unfolding tracked_def by blast
qed

text \<open>A submission, for concrete instances.\<close>

definition example_created :: app_state where
  "example_created = app_step example_memory (InCreate example_call example_headers (JObject []))"

definition example_accepted :: accepted_quote_request where
  "example_accepted = \<lparr>application_markdown = ''md'', wire = (request example_record)\<lparr>context_key := Some ''quote-analysis''\<rparr>\<rparr>"

lemma example_parse:
  "parse_quote_request (ce_from_value example_call) (ce_is_accepted example_call) (ce_markdown example_call) (JObject []) = Inr example_accepted"
proof -
  have "trim ''md'' = ''md''" by (rule trim_graphic; simp add: is_ascii_graphic_def)
  then show ?thesis by (simp add: parse_quote_request_def example_call_def Let_def example_accepted_def example_record_def)
qed

lemma example_admit:
  "admit example_call example_memory ''alice'' =
     (Inr (), example_memory\<lparr>ap_windows := \<lparr>all_subjects = [0], by_subject = [(''alice'', [0])]\<rparr>, ap_permits := 3\<rparr>)"
  using example_windows by (simp add: admit_def example_memory_def app_state_new_def example_call_def)

lemma example_created_eq:
  "\<exists>r w. map_of (ap_quotes example_created) = [1 \<mapsto> r] \<and> quote_id r = 1 \<and> owner_subject r = ''alice'' \<and> qstatus r = ''queued'' \<and> ap_workers example_created = [w] \<and>
     wk_record w = r \<and> \<not> wk_started w \<and> ap_database example_created = None \<and> ap_gemini example_created \<and>
     map_of (ap_idempotency example_created) = [(''alice'', ''key-00001'') \<mapsto> MCreate 1 JNull]"
proof -
  have c: "ce_to_value example_call q = Some JNull" "now_rfc3339 example_call = Inr ''t''" "ce_new_uuid example_call = 1" for q
    by (simp_all add: example_call_def now_rfc3339_def)
  have m: "ap_database example_memory = None" "ap_gemini example_memory" "ap_quotes example_memory = []" "ap_idempotency example_memory = []"
    "ap_workers example_memory = []" "ap_webhook example_memory = False"
    by (simp_all add: example_memory_def app_state_new_def)
  show ?thesis
    by (simp add: example_created_def create_quote_handler_def example_head example_parse example_admit c m create_decide_def
        submit_finish_def new_record_def memory_event_def cache_quote_def publish_event_def Let_def)
qed

lemma example_created_auth: "ap_auth example_created = ap_auth example_memory"
proof -
  have c: "ce_to_value example_call q = Some JNull" "now_rfc3339 example_call = Inr ''t''" for q
    by (simp_all add: example_call_def now_rfc3339_def)
  have m: "ap_database example_memory = None" "ap_quotes example_memory = []" "ap_idempotency example_memory = []"
    "ap_webhook example_memory = False"
    by (simp_all add: example_memory_def app_state_new_def)
  show ?thesis
    by (simp add: example_created_def create_quote_handler_def example_head example_parse example_admit c m create_decide_def
        submit_finish_def new_record_def memory_event_def cache_quote_def publish_event_def Let_def)
qed

lemma created_reachable: "memory_reachable example_created"
proof -
  have "fresh example_memory (InCreate example_call example_headers (JObject []))"
    by (simp add: fresh_def example_memory_def app_state_new_def)
  then show ?thesis
    unfolding example_created_def using memory_reachable.step [OF memory_reachable.start] unfolding example_memory_def by blast
qed

theorem memory_service_consistent_witness:
  "memory_reachable example_created \<and> (\<exists>w r. ap_workers example_created = [w] \<and> map_of (ap_quotes example_created) 1 = Some r \<and>
     owner_subject r = ''alice'' \<and> qstatus r = ''queued'')"
  using created_reachable memory_service_consistent [OF created_reachable] example_created_eq by fastforce


section \<open>A replay that overlaps the end of the analysis\<close>

text \<open>C37: a replayed submission can undo a finished analysis: the replay reads the stored record, and when it comes to write
  it back, later, it overwrites whatever the quote has become in the meantime, starts no worker, and leaves a
  quote that cannot be retried unless it had already failed when it was read.\<close>

theorem stale_replay_overwrites:
  assumes "memory_reachable st" and "create_decide env st subject key req j = (Inr dc, st1)" and "\<not> dc_analyze dc"
    and "ap_database later = None"
  shows "let later' = snd (submit_finish later dc req); r = dc_record dc
    in map_of (ap_quotes st) (quote_id r) = Some r \<and> map_of (ap_quotes later') (quote_id r) = Some r \<and>
       ap_workers later' = ap_workers later \<and>
       (qstatus r \<noteq> ''failed'' \<and> map_of (ap_idempotency later) (subject, key') = None \<longrightarrow>
         retry_decide env' later' subject key' (quote_id r) =
           (Inl (conflict ''conflict'' ''only a failed quote may be retried''), later'))"
proof -
  let ?r = "dc_record dc" and ?l = "snd (submit_finish later dc req)"
  have ok: "mem_ok (map_of (ap_quotes st), map_of (ap_idempotency st), ap_workers st)" and db: "ap_database st = None"
    using memory_reachable_ok [OF assms(1)] by (simp_all add: memory_ok_def view_def)
  from assms(2,3) db obtain q j' where q: "map_of (ap_quotes st) q = Some ?r" "map_of (ap_idempotency st) (subject, key) = Some (MCreate q j')"
    and ev: "dc_event dc = None"
    by (auto simp: create_decide_def memory_event_def Let_def split: option.splits memory_operation.splits if_splits sum.splits)
  then have id: "quote_id ?r = q" "owner_subject ?r = subject"
    using mem_ok_D(1) [OF ok q(1)] mem_ok_D(3) [OF ok q(2)] by auto
  have l: "?l = release_permit (cache_quote later ?r)"
    using assms(3) ev by (simp add: submit_finish_def)
  then have l': "map_of (ap_quotes ?l) q = Some ?r" "ap_database ?l = None" "ap_idempotency ?l = ap_idempotency later"
    "ap_workers ?l = ap_workers later"
    using id assms(4) by (simp_all add: cache_quote_def release_permit_def update_conv')
  then have f: "find_quote env' ?l q subject = (Inr ?r, ?l)" using id by (simp add: find_quote_def)
  show ?thesis using q id l' f by (simp add: Let_def retry_decide_def)
qed

text \<open>The interleaving: the worker of the submission starts; the submission is replayed and reads the record; the worker
  completes the quote; the replay writes the record back, and the quote is analysing with no worker.\<close>

definition example_started :: app_state where
  "example_started = app_step example_created (InBegin example_call 0)"

definition example_completed :: app_state where
  "example_completed = app_step example_started (InFinish example_call 0 (Inr JNull))"

lemma example_started_eq:
  "\<exists>r w. map_of (ap_quotes example_started) = [1 \<mapsto> r] \<and> quote_id r = 1 \<and> qstatus r = ''analyzing'' \<and> ap_workers example_started = [w] \<and>
     wk_record w = r \<and> wk_started w \<and> ap_database example_started = None \<and>
     map_of (ap_idempotency example_started) = [(''alice'', ''key-00001'') \<mapsto> MCreate 1 JNull]"
proof -
  obtain r w where c: "map_of (ap_quotes example_created) = [1 \<mapsto> r]" "quote_id r = 1" "ap_workers example_created = [w]"
    "wk_record w = r" "\<not> wk_started w" "ap_database example_created = None" "ap_gemini example_created"
    "map_of (ap_idempotency example_created) = [(''alice'', ''key-00001'') \<mapsto> MCreate 1 JNull]"
    using example_created_eq by blast
  have t: "ce_timestamp example_call = Some ''t''" by (simp add: example_call_def)
  show ?thesis
    using c by (simp add: example_started_def worker_begin_def update_quote_state_def t memory_event_def cache_quote_def publish_event_def
        Let_def update_conv')
qed

lemma example_completed_eq:
  "\<exists>r. map_of (ap_quotes example_completed) 1 = Some r \<and> qstatus r = ''completed'' \<and> ap_workers example_completed = [] \<and>
     ap_database example_completed = None \<and> map_of (ap_idempotency example_completed) (''alice'', ''key-00002'') = None"
proof -
  obtain r w where c: "map_of (ap_quotes example_started) = [1 \<mapsto> r]" "quote_id r = 1" "ap_workers example_started = [w]"
    "wk_record w = r" "wk_started w" "ap_database example_started = None"
    "map_of (ap_idempotency example_started) = [(''alice'', ''key-00001'') \<mapsto> MCreate 1 JNull]"
    using example_started_eq by blast
  have t: "ce_timestamp example_call = Some ''t''" by (simp add: example_call_def)
  show ?thesis
    using c by (simp add: example_completed_def worker_finish_def update_quote_state_def t memory_event_def cache_quote_def publish_event_def
        release_permit_def analyzed_record_def remove_nth_def Let_def update_conv')
qed

theorem stale_replay_overwrites_witness:
  "\<exists>dc r. create_decide example_call example_started ''alice'' ''key-00001'' example_accepted JNull = (Inr dc, example_started) \<and>
     map_of (ap_quotes example_completed) 1 = Some r \<and> qstatus r = ''completed'' \<and>
     (let later' = snd (submit_finish example_completed dc example_accepted)
      in (\<exists>r'. map_of (ap_quotes later') 1 = Some r' \<and> qstatus r' = ''analyzing'') \<and> ap_workers later' = [] \<and>
         isl (fst (retry_decide example_call later' ''alice'' ''key-00002'' 1)))"
proof -
  obtain r w where st: "map_of (ap_quotes example_started) = [1 \<mapsto> r]" "quote_id r = 1" "qstatus r = ''analyzing''"
    "ap_database example_started = None"
    "map_of (ap_idempotency example_started) = [(''alice'', ''key-00001'') \<mapsto> MCreate 1 JNull]"
    using example_started_eq by blast
  define dc where "dc = \<lparr>dc_record = r, dc_context = None, dc_event = None, dc_analyze = False\<rparr>"
  have dec: "create_decide example_call example_started ''alice'' ''key-00001'' example_accepted JNull = (Inr dc, example_started)"
    using st by (simp add: create_decide_def dc_def)
  have reach: "memory_reachable example_started"
    unfolding example_started_def by (rule memory_reachable.step [OF created_reachable]) (simp add: fresh_def)
  obtain r' where fin: "map_of (ap_quotes example_completed) 1 = Some r'" "qstatus r' = ''completed''" "ap_workers example_completed = []"
    "ap_database example_completed = None" "map_of (ap_idempotency example_completed) (''alice'', ''key-00002'') = None"
    using example_completed_eq by blast
  show ?thesis
    using stale_replay_overwrites [OF reach dec, where later = example_completed and key' = "''key-00002''" and env' = example_call] dec fin st
    by (auto simp: dc_def Let_def)
qed

end
