(* ===== verification/Frameworks.thy ===== *)
theory Frameworks
  imports Wire
begin

text \<open>
  The readiness reference catalogue and the intake parser of \<open>src/frameworks.rs\<close>. Lengths are in bytes, as
  \<open>str::len\<close> counts them.
\<close>

section \<open>The catalogue\<close>

definition READINESS_BOUNDARY :: string where
  "READINESS_BOUNDARY =
     ''Readiness reference data. Canonical Plus prepares organizations for independent '' @
     ''review; it does not perform audits, attestations, or certifications.''"

abbreviation MAX_ASSESSMENT_ORGANIZATION_BYTES :: nat where "MAX_ASSESSMENT_ORGANIZATION_BYTES \<equiv> 200"
abbreviation MAX_ASSESSMENT_NOTES_BYTES :: nat where "MAX_ASSESSMENT_NOTES_BYTES \<equiv> 2000"

definition ASSESSMENT_FIELDS :: "string list" where
  "ASSESSMENT_FIELDS = [''frameworkIds'', ''notes'', ''organization'']"

record framework_descriptor =
  fd_category :: string
  fd_governing_body :: string
  fd_id :: string
  fd_source_url :: string
  fd_summary :: string
  fd_title :: string

definition CATALOG :: "framework_descriptor list" where
  "CATALOG = [
     \<lparr>fd_category = ''security-program'', fd_governing_body = ''Center for Internet Security'',
      fd_id = ''cis-controls-8.1'',
      fd_source_url = ''https://www.cisecurity.org/controls/v8-1'',
      fd_summary =
        ''Prioritized safeguards for building and benchmarking a security program. Canonical Plus maps '' @
        ''readiness work to the safeguards ahead of any independent assessment.'',
      fd_title = ''CIS Critical Security Controls''\<rparr>,
     \<lparr>fd_category = ''assurance-target'', fd_governing_body = ''U.S. Department of Defense'',
      fd_id = ''cmmc-2.0'',
      fd_source_url = ''https://dodcio.defense.gov/CMMC/'',
      fd_summary =
        ''Defense industrial base maturity model assessed by authorized C3PAOs. Canonical Plus prepares '' @
        ''the CUI boundary and evidence for that independent assessment.'',
      fd_title = ''Cybersecurity Maturity Model Certification''\<rparr>,
     \<lparr>fd_category = ''assurance-target'', fd_governing_body = ''Cloud Security Alliance'',
      fd_id = ''csa-ccm'',
      fd_source_url = ''https://cloudsecurityalliance.org/research/cloud-controls-matrix'',
      fd_summary =
        ''Cloud control matrix behind the STAR assurance program. Canonical Plus readies cloud control '' @
        ''evidence for independent STAR review.'',
      fd_title = ''CSA Cloud Controls Matrix and STAR''\<rparr>,
     \<lparr>fd_category = ''security-program'', fd_governing_body = ''European Union'',
      fd_id = ''dora-2022-2554'',
      fd_source_url = ''https://eur-lex.europa.eu/eli/reg/2022/2554/oj'',
      fd_summary =
        ''EU operational-resilience regulation for financial entities. Canonical Plus prepares ICT risk, '' @
        ''testing, and reporting practices for supervisory scrutiny.'',
      fd_title = ''Digital Operational Resilience Act''\<rparr>,
     \<lparr>fd_category = ''assurance-target'', fd_governing_body = ''U.S. General Services Administration'',
      fd_id = ''fedramp-rev5'',
      fd_source_url = ''https://www.fedramp.gov/documents-templates/'',
      fd_summary =
        ''U.S. federal cloud authorization program assessed by independent 3PAOs. Canonical Plus prepares '' @
        ''the authorization boundary and package for that assessment.'',
      fd_title = ''Federal Risk and Authorization Management Program''\<rparr>,
     \<lparr>fd_category = ''privacy-regulation'', fd_governing_body = ''European Union'',
      fd_id = ''gdpr-2016-679'',
      fd_source_url = ''https://eur-lex.europa.eu/eli/reg/2016/679/oj'',
      fd_summary =
        ''EU data-protection regulation enforced by supervisory authorities. Canonical Plus prepares '' @
        ''processing records, lawful bases, and safeguards for regulator review.'',
      fd_title = ''General Data Protection Regulation''\<rparr>,
     \<lparr>fd_category = ''privacy-regulation'', fd_governing_body = ''U.S. Department of Health and Human Services'',
      fd_id = ''hipaa-security-rule'',
      fd_source_url = ''https://www.hhs.gov/hipaa/for-professionals/security/index.html'',
      fd_summary =
        ''U.S. health-information security regulation overseen by HHS OCR. Canonical Plus prepares the '' @
        ''required safeguards and documentation for independent review.'',
      fd_title = ''HIPAA Security Rule''\<rparr>,
     \<lparr>fd_category = ''assurance-target'', fd_governing_body = ''ISO'',
      fd_id = ''iso-22301-2019'',
      fd_source_url = ''https://www.iso.org/standard/75106.html'',
      fd_summary =
        ''Business-continuity management standard certified by accredited bodies. Canonical Plus prepares '' @
        ''the continuity program for that independent certification audit.'',
      fd_title = ''ISO 22301 Business Continuity Management''\<rparr>,
     \<lparr>fd_category = ''assurance-target'', fd_governing_body = ''ISO/IEC'',
      fd_id = ''iso-iec-27001-2022'',
      fd_source_url = ''https://www.iso.org/standard/27001'',
      fd_summary =
        ''Information-security management system standard certified by accredited bodies. Canonical Plus '' @
        ''prepares the ISMS and evidence for that independent certification audit.'',
      fd_title = ''ISO/IEC 27001''\<rparr>,
     \<lparr>fd_category = ''assurance-target'', fd_governing_body = ''ISO/IEC'',
      fd_id = ''iso-iec-27701'',
      fd_source_url = ''https://www.iso.org/standard/85819.html'',
      fd_summary =
        ''Privacy information management extension to ISO/IEC 27001. Canonical Plus prepares the privacy '' @
        ''program for independent certification against it.'',
      fd_title = ''ISO/IEC 27701 Privacy Information Management''\<rparr>,
     \<lparr>fd_category = ''security-program'', fd_governing_body = ''European Union'',
      fd_id = ''nis2-2022-2555'',
      fd_source_url = ''https://eur-lex.europa.eu/eli/dir/2022/2555/oj'',
      fd_summary =
        ''EU cybersecurity directive for essential and important entities. Canonical Plus prepares '' @
        ''governance, risk, and reporting practices for national-authority oversight.'',
      fd_title = ''NIS2 Directive''\<rparr>,
     \<lparr>fd_category = ''security-program'', fd_governing_body = ''National Institute of Standards and Technology'',
      fd_id = ''nist-csf-2.0'',
      fd_source_url = ''https://www.nist.gov/cyberframework'',
      fd_summary =
        ''Voluntary cybersecurity outcomes framework across six functions. Canonical Plus uses it to '' @
        ''structure readiness work ahead of any independent evaluation.'',
      fd_title = ''NIST Cybersecurity Framework''\<rparr>,
     \<lparr>fd_category = ''security-program'', fd_governing_body = ''National Institute of Standards and Technology'',
      fd_id = ''nist-sp-800-53-5.2.0'',
      fd_source_url = ''https://csrc.nist.gov/projects/risk-management/sp800-53-controls/release-search'',
      fd_summary =
        ''Federal control catalog underpinning RMF authorizations. Canonical Plus prepares control '' @
        ''implementations and evidence for independent assessment.'',
      fd_title = ''NIST SP 800-53 Control Catalog''\<rparr>,
     \<lparr>fd_category = ''assurance-target'', fd_governing_body = ''PCI Security Standards Council'',
      fd_id = ''pci-dss-4.0.1'',
      fd_source_url = ''https://www.pcisecuritystandards.org/standards/pci-dss/'',
      fd_summary =
        ''Payment-card security standard validated by QSAs or self-assessment. Canonical Plus prepares '' @
        ''cardholder-data controls for that independent validation.'',
      fd_title = ''Payment Card Industry Data Security Standard''\<rparr>,
     \<lparr>fd_category = ''assurance-target'', fd_governing_body = ''AICPA'',
      fd_id = ''soc2-tsc'',
      fd_source_url = ''https://www.aicpa-cima.com/resources/landing/system-and-organization-controls-soc-suite-of-services'',
      fd_summary =
        ''Trust Services Criteria examined by independent CPA firms in SOC 2 reports. Canonical Plus '' @
        ''prepares controls and evidence for that examination.'',
      fd_title = ''SOC 2 Trust Services Criteria''\<rparr>]"

definition find_framework :: "string \<Rightarrow> framework_descriptor option" where
  "find_framework fid = List.find (\<lambda>descriptor. fd_id descriptor = fid) CATALOG"


section \<open>Intake requests\<close>

record assessment_submission =
  sb_framework_ids :: "string list"
  sb_notes :: "string option"
  sb_organization :: string

text \<open>The loop over the supplied identifiers, with those accepted so far.\<close>

fun collect_ids :: "string list \<Rightarrow> json list \<Rightarrow> api_error + string list" where
  "collect_ids accepted [] = Inr accepted"
| "collect_ids accepted (supplied # rest) =
     (case as_str supplied of
        None \<Rightarrow> Inl (bad_request ''invalid_request'' ''frameworkIds may only contain known readiness framework ids'')
      | Some fid \<Rightarrow>
          if find_framework fid = None
          then Inl (bad_request ''invalid_request'' ''frameworkIds may only contain known readiness framework ids'')
          else if fid \<in> set accepted
          then Inl (bad_request ''invalid_request'' ''frameworkIds must not contain duplicates'')
          else collect_ids (accepted @ [fid]) rest)"

definition parse_notes :: "json option \<Rightarrow> api_error + string option" where
  "parse_notes v =
     (case v of
        None \<Rightarrow> Inr None
      | Some JNull \<Rightarrow> Inr None
      | Some value \<Rightarrow>
          (case as_str value of
             Some s \<Rightarrow>
               if length s \<le> MAX_ASSESSMENT_NOTES_BYTES then Inr (Some s)
               else Inl (bad_request ''invalid_request'' ''notes must be a string of at most 2000 bytes'')
           | None \<Rightarrow> Inl (bad_request ''invalid_request'' ''notes must be a string of at most 2000 bytes'')))"

definition parse_assessment_request :: "json \<Rightarrow> api_error + assessment_submission" where
  "parse_assessment_request payload =
     result_bind (ok_or (as_object payload) (bad_request ''invalid_request'' ''assessment request must be a JSON object'')) (\<lambda>object.
     if list_ex (\<lambda>(field, _). field \<notin> set ASSESSMENT_FIELDS) object
     then Inl (bad_request ''invalid_request'' ''assessment request contains an unknown field'')
     else
       result_bind (ok_or (case Option.bind (obj_get object ''frameworkIds'') as_array of
                             Some ids \<Rightarrow> if ids \<noteq> [] \<and> length ids \<le> length CATALOG then Some ids else None
                           | None \<Rightarrow> None)
                      (bad_request ''invalid_request'' ''frameworkIds must list 1 to 15 readiness framework ids'')) (\<lambda>supplied_ids.
       result_bind (collect_ids [] supplied_ids) (\<lambda>framework_ids.
       result_bind (ok_or (case map_option trim (Option.bind (obj_get object ''organization'') as_str) of
                             Some name \<Rightarrow> if name \<noteq> [] \<and> length name \<le> MAX_ASSESSMENT_ORGANIZATION_BYTES then Some name else None
                           | None \<Rightarrow> None)
                      (bad_request ''invalid_request'' ''organization must contain 1 to 200 bytes'')) (\<lambda>organization.
       result_bind (parse_notes (obj_get object ''notes'')) (\<lambda>notes_value.
       Inr \<lparr>sb_framework_ids = framework_ids, sb_notes = notes_value, sb_organization = organization\<rparr>)))))"


section \<open>What is accepted\<close>

lemma catalog_ids:
  "map fd_id CATALOG =
     [''cis-controls-8.1'', ''cmmc-2.0'', ''csa-ccm'', ''dora-2022-2554'', ''fedramp-rev5'', ''gdpr-2016-679'', ''hipaa-security-rule'',
      ''iso-22301-2019'', ''iso-iec-27001-2022'', ''iso-iec-27701'', ''nis2-2022-2555'', ''nist-csf-2.0'', ''nist-sp-800-53-5.2.0'',
      ''pci-dss-4.0.1'', ''soc2-tsc'']"
  by (simp add: CATALOG_def)

lemma length_catalog: "length CATALOG = 15"
  using arg_cong [OF catalog_ids, of length] by simp

lemma find_framework_None: "find_framework fid = None \<longleftrightarrow> fid \<notin> set (map fd_id CATALOG)"
  by (auto simp: find_framework_def find_None_iff)

lemma as_str_iff: "as_str v = Some s \<longleftrightarrow> v = JString s"
  by (cases v) auto

lemma as_array_iff: "as_array v = Some xs \<longleftrightarrow> v = JArray xs"
  by (cases v) auto

lemma as_object_iff: "as_object v = Some kvs \<longleftrightarrow> v = JObject kvs"
  by (cases v) auto

lemma collect_ids_iff:
  "collect_ids accepted xs = Inr r \<longleftrightarrow>
     (\<exists>ids. xs = map JString ids \<and> r = accepted @ ids \<and> distinct ids \<and> set ids \<inter> set accepted = {} \<and>
        set ids \<subseteq> set (map fd_id CATALOG))"
proof (induction xs arbitrary: accepted)
  case (Cons x xs)
  show ?case
  proof (cases "as_str x")
    case None
    then show ?thesis by (cases x) auto
  next
    case (Some fid)
    then have x: "x = JString fid" by (simp add: as_str_iff)
    show ?thesis
      unfolding x by (simp add: Cons.IH find_framework_None map_eq_Cons_conv) (auto simp: Cons_eq_map_conv)
  qed
qed auto

lemma parse_notes_iff:
  "parse_notes v = Inr n \<longleftrightarrow>
     (n = None \<and> v \<in> {None, Some JNull} \<or> (\<exists>s. n = Some s \<and> v = Some (JString s) \<and> length s \<le> MAX_ASSESSMENT_NOTES_BYTES))"
  by (auto simp: parse_notes_def split: option.splits json.splits)

text \<open>The intake parser accepts exactly the documented requests: an object with no other fields than the three, one to
  fifteen distinct identifiers of the catalogue, an organization of 1 to 200 bytes once trimmed, and notes that are
  absent, null or a string of at most 2000 bytes; and it keeps the identifiers in order and the texts as given.\<close>

theorem assessment_request_exact:
  "parse_assessment_request payload = Inr sb \<longleftrightarrow>
     (\<exists>obj name. payload = JObject obj \<and> list_all (\<lambda>(field, _). field \<in> set ASSESSMENT_FIELDS) obj \<and>
        obj_get obj ''frameworkIds'' = Some (JArray (map JString (sb_framework_ids sb))) \<and>
        1 \<le> length (sb_framework_ids sb) \<and> length (sb_framework_ids sb) \<le> 15 \<and> distinct (sb_framework_ids sb) \<and>
        set (sb_framework_ids sb) \<subseteq> set (map fd_id CATALOG) \<and>
        obj_get obj ''organization'' = Some (JString name) \<and> sb_organization sb = trim name \<and>
        1 \<le> length (trim name) \<and> length (trim name) \<le> 200 \<and>
        (sb_notes sb = None \<and> obj_get obj ''notes'' \<in> {None, Some JNull} \<or>
         (\<exists>s. sb_notes sb = Some s \<and> obj_get obj ''notes'' = Some (JString s) \<and> length s \<le> 2000)))"
  (is "?l \<longleftrightarrow> ?r")
proof
  assume ?l
  then obtain obj ids name where o: "payload = JObject obj" "\<not> list_ex (\<lambda>(field, _). field \<notin> set ASSESSMENT_FIELDS) obj"
    "obj_get obj ''frameworkIds'' = Some (JArray ids)" "ids \<noteq> []" "length ids \<le> 15" "collect_ids [] ids = Inr (sb_framework_ids sb)"
    "obj_get obj ''organization'' = Some (JString name)" "trim name \<noteq> []" "length (trim name) \<le> 200" "sb_organization sb = trim name"
    "parse_notes (obj_get obj ''notes'') = Inr (sb_notes sb)"
    by (auto simp: parse_assessment_request_def result_bind_Inr_iff ok_or_iff as_object_iff length_catalog as_array_iff as_str_iff
        bind_eq_Some_conv split: if_splits option.splits)
  then show ?r
    by (intro exI [of _ obj] exI [of _ name])
      (auto simp: collect_ids_iff parse_notes_iff list_ex_iff list_all_iff Suc_le_eq)
next
  assume ?r
  then obtain obj name where o: "payload = JObject obj" "list_all (\<lambda>(field, _). field \<in> set ASSESSMENT_FIELDS) obj"
    "obj_get obj ''frameworkIds'' = Some (JArray (map JString (sb_framework_ids sb)))"
    "sb_framework_ids sb \<noteq> []" "length (sb_framework_ids sb) \<le> 15"
    "obj_get obj ''organization'' = Some (JString name)" "trim name \<noteq> []" "length (trim name) \<le> 200" "sb_organization sb = trim name"
    and ids: "collect_ids [] (map JString (sb_framework_ids sb)) = Inr (sb_framework_ids sb)"
    and ns: "parse_notes (obj_get obj ''notes'') = Inr (sb_notes sb)"
    by (auto simp: collect_ids_iff parse_notes_iff Suc_le_eq)
  have "\<not> list_ex (\<lambda>(field, _). field \<notin> set ASSESSMENT_FIELDS) obj" using o(2) by (auto simp: list_ex_iff list_all_iff)
  then show ?l using o ids ns by (simp add: parse_assessment_request_def length_catalog result_bind_def ok_or_def)
qed

end
