(* ===== verification/Assessments.thy ===== *)
theory Assessments
  imports Quotes Frameworks
begin

text \<open>
  Readiness assessments (\<open>src/lib.rs\<close>, \<open>create_readiness_assessment\<close> to \<open>publish_assessment_event\<close>), the framework
  catalogue handlers and the health document. The record \<open>service\<close> joins the state of the quote service with the
  bounded queue of assessments; both services share the map of idempotency keys, so the invariant is proved for
  every sequence of their requests. The assessment handler holds the write guard of that map from its lookup
  to its insertion and does not wait in between: it is one step. The quote handlers are one step here too; \<open>Overlap\<close>
  takes them apart.
\<close>

section \<open>State and handlers\<close>

abbreviation READINESS_ASSESSMENT_CAPACITY :: nat where "READINESS_ASSESSMENT_CAPACITY \<equiv> 1024"

record service =
  sv_app :: app_state
  sv_assessments :: "assessment_record list"
  sv_assessment_deliveries :: "assessment_event_record list"

definition service_new :: "app_state \<Rightarrow> service" where
  "service_new st = \<lparr>sv_app = st, sv_assessments = [], sv_assessment_deliveries = []\<rparr>"

definition submission_json :: "assessment_submission \<Rightarrow> json" where
  "submission_json sb = JObject
     [(''frameworkIds'', JArray (map JString (sb_framework_ids sb))),
      (''notes'', case sb_notes sb of None \<Rightarrow> JNull | Some s \<Rightarrow> JString s),
      (''organization'', JString (sb_organization sb))]"

definition find_assessment :: "service \<Rightarrow> uuid \<Rightarrow> string \<Rightarrow> api_error + assessment_record" where
  "find_assessment sv aid subject =
     ok_or (List.find (\<lambda>r. as_id r = aid \<and> as_subject r = subject) (sv_assessments sv))
       (not_found ''not_found'' ''readiness assessment was not found'')"

definition publish_assessment_event :: "service \<Rightarrow> assessment_event_record \<Rightarrow> service" where
  "publish_assessment_event sv event =
     (if ap_webhook (sv_app sv)
      then sv\<lparr>sv_assessment_deliveries := sv_assessment_deliveries sv @ [event]\<rparr> else sv)"

text \<open>The part under the write guard: \<open>Inl\<close> refuses, \<open>Inr (False, r)\<close> is a replay of \<open>r\<close>, \<open>Inr (True, r)\<close> a new record.\<close>

definition assessment_decide ::
    "call_env \<Rightarrow> service \<Rightarrow> string \<Rightarrow> string \<Rightarrow> assessment_submission \<Rightarrow> api_error + bool \<times> assessment_record" where
  "assessment_decide env sv subject key sb =
     (case map_of (ap_idempotency (sv_app sv)) (subject, key) of
        Some (MAssessment aid existing) \<Rightarrow>
          if existing = submission_json sb
          then result_bind (map_err (\<lambda>_. service_unavailable ''storage_unavailable''
                  ''readiness assessment storage is temporarily unavailable'') (find_assessment sv aid subject))
                 (\<lambda>r. Inr (False, r))
          else Inl idempotency_reused
      | Some _ \<Rightarrow> Inl idempotency_reused
      | None \<Rightarrow>
          result_bind (now_rfc3339 env) (\<lambda>received.
          Inr (True, \<lparr>framework_ids = sb_framework_ids sb, as_id = ce_new_uuid env, as_idempotency_key = key,
            as_notes = sb_notes sb, organization = sb_organization sb, received_at = received,
            as_status = ''received'', as_subject = subject\<rparr>)))"

text \<open>Recording a new assessment: its key, then room in the queue, at the expense of the oldest and of its key.\<close>

definition store_assessment :: "service \<Rightarrow> assessment_record \<Rightarrow> json \<Rightarrow> service" where
  "store_assessment sv r request_json =
     (let ops = AList.update (as_subject r, as_idempotency_key r) (MAssessment (as_id r) request_json) (ap_idempotency (sv_app sv));
          (ops, kept) =
            (case sv_assessments sv of
               evicted # others \<Rightarrow>
                 if READINESS_ASSESSMENT_CAPACITY \<le> length (evicted # others)
                 then ((case map_of ops (as_subject evicted, as_idempotency_key evicted) of
                          Some (MAssessment aid _) \<Rightarrow>
                            if aid = as_id evicted then AList.delete (as_subject evicted, as_idempotency_key evicted) ops else ops
                        | _ \<Rightarrow> ops), others)
                 else (ops, evicted # others)
             | [] \<Rightarrow> (ops, []))
      in sv\<lparr>sv_app := (sv_app sv)\<lparr>ap_idempotency := ops\<rparr>, sv_assessments := kept @ [r]\<rparr>)"

definition set_windows :: "service \<Rightarrow> submission_windows \<Rightarrow> service" where
  "set_windows sv w = sv\<lparr>sv_app := (sv_app sv)\<lparr>ap_windows := w\<rparr>\<rparr>"

definition create_assessment_handler ::
    "call_env \<Rightarrow> header_map \<Rightarrow> json \<Rightarrow> service \<Rightarrow> (api_error + nat \<times> assessment_record) \<times> service" where
  "create_assessment_handler env headers payload sv =
     (case authenticate (ce_introspect env) headers (ap_auth (sv_app sv)) [] of
        Inl e \<Rightarrow> (Inl e, sv)
      | Inr subject \<Rightarrow>
        (case required_idempotency_key headers of
           Inl e \<Rightarrow> (Inl e, sv)
         | Inr key \<Rightarrow>
           (case parse_assessment_request payload of
              Inl e \<Rightarrow> (Inl e, sv)
            | Inr sb \<Rightarrow>
              (case check_submission (ap_windows (sv_app sv)) (ce_instant env, subject) of
                 (Inl retry_after, w) \<Rightarrow> (Inl (rate_limited retry_after), set_windows sv w)
               | (Inr _, w) \<Rightarrow>
                 (case assessment_decide env (set_windows sv w) subject key sb of
                    Inl e \<Rightarrow> (Inl e, set_windows sv w)
                  | Inr (new, r) \<Rightarrow>
                      if \<not> new then (Inr (201, r), set_windows sv w)
                      else (Inr (201, r), publish_assessment_event (store_assessment (set_windows sv w) r (submission_json sb))
                              \<lparr>ae_assessment_id = as_id r, ae_framework_ids = framework_ids r, ae_occurred_at = received_at r,
                               ae_status = as_status r\<rparr>))))))"

definition list_assessments_handler :: "call_env \<Rightarrow> header_map \<Rightarrow> service \<Rightarrow> api_error + assessment_record list" where
  "list_assessments_handler env headers sv =
     result_bind (authenticate (ce_introspect env) headers (ap_auth (sv_app sv)) []) (\<lambda>subject.
     Inr (filter (\<lambda>r. as_subject r = subject) (rev (sv_assessments sv))))"

definition get_assessment_handler :: "call_env \<Rightarrow> header_map \<Rightarrow> uuid \<Rightarrow> service \<Rightarrow> api_error + assessment_record" where
  "get_assessment_handler env headers aid sv =
     result_bind (authenticate (ce_introspect env) headers (ap_auth (sv_app sv)) []) (\<lambda>subject. find_assessment sv aid subject)"

definition get_framework_handler :: "string \<Rightarrow> api_error + framework_descriptor" where
  "get_framework_handler fid = ok_or (find_framework fid) (not_found ''not_found'' ''readiness framework was not found'')"

definition list_frameworks_handler :: "string \<times> framework_descriptor list" where
  "list_frameworks_handler = (READINESS_BOUNDARY, CATALOG)"

record health_response =
  h_database_configured :: bool
  h_gemini_configured :: bool
  h_gemini_model :: string
  h_readiness_frameworks :: nat
  h_service :: string
  h_shared_auth_configured :: bool
  h_status :: string
  h_version :: string
  h_webhook_configured :: bool

definition health :: "app_state \<Rightarrow> health_response" where
  "health st =
     \<lparr>h_database_configured = (ap_database st \<noteq> None), h_gemini_configured = ap_gemini st, h_gemini_model = ap_model st,
      h_readiness_frameworks = length CATALOG, h_service = ''canonical-api-server'',
      h_shared_auth_configured = (shared_audience (ap_auth st) \<noteq> None), h_status = ''ok'', h_version = ''0.1.0'',
      h_webhook_configured = ap_webhook st\<rparr>"


section \<open>The service as a machine\<close>

datatype service_input = QuoteRequest app_input | CreateAssessment call_env header_map json

fun service_step :: "service \<Rightarrow> service_input \<Rightarrow> service" where
  "service_step sv (QuoteRequest p) = sv\<lparr>sv_app := app_step (sv_app sv) p\<rparr>"
| "service_step sv (CreateAssessment env headers payload) = snd (create_assessment_handler env headers payload sv)"



section \<open>Quote requests leave assessment keys alone\<close>

type_synonym operations_list = "((string \<times> string) \<times> memory_operation) list"

definition idem_ext :: "operations_list \<Rightarrow> operations_list \<Rightarrow> bool" where
  "idem_ext ops ops' \<longleftrightarrow>
     (\<forall>k. map_of ops' k = map_of ops k \<or> (map_of ops k = None \<and> (\<forall>a j. map_of ops' k \<noteq> Some (MAssessment a j))))"

lemma idem_ext_refl [simp]: "idem_ext ops ops"
  by (simp add: idem_ext_def)

lemma idem_pieces [simp]:
  "ap_idempotency (publish_event st e) = ap_idempotency st"
  "ap_idempotency (cache_quote st r) = ap_idempotency st"
  "ap_idempotency (release_permit st) = ap_idempotency st"
  "ap_idempotency (case x of None \<Rightarrow> cache_quote st r | Some e \<Rightarrow> publish_event (cache_quote st r) e) = ap_idempotency st"
  by (simp_all add: publish_event_def cache_quote_def release_permit_def split: option.split)

lemma idem_find_quote: "find_quote env st q s = (r, st') \<Longrightarrow> ap_idempotency st' = ap_idempotency st"
  by (auto simp: find_quote_def split: option.splits prod.splits sum.splits if_splits)

lemma idem_admit: "admit env st s = (r, st') \<Longrightarrow> ap_idempotency st' = ap_idempotency st"
  by (auto simp: admit_def split: if_splits prod.splits sum.splits)

lemma idem_update_state: "update_quote_state env st r = (x, st') \<Longrightarrow> ap_idempotency st' = ap_idempotency st"
  by (auto simp: update_quote_state_def memory_event_def Let_def split: option.splits prod.splits sum.splits)

lemma idem_submit_finish: "submit_finish st dc req = (r, st') \<Longrightarrow> ap_idempotency st' = ap_idempotency st"
  by (auto simp: submit_finish_def Let_def split: if_splits option.splits)

lemma idem_create_decide: "create_decide env st su key req j = (r, st') \<Longrightarrow> idem_ext (ap_idempotency st) (ap_idempotency st')"
  by (auto simp: create_decide_def memory_event_def Let_def update_conv' idem_ext_def
      split: option.splits prod.splits sum.splits memory_operation.splits create_quote_outcome.splits if_splits)

lemma idem_retry_decide: "retry_decide env st su key q = (r, st') \<Longrightarrow> idem_ext (ap_idempotency st) (ap_idempotency st')"
proof -
  obtain x st1 where f: "find_quote env st q su = (x, st1)" by fastforce
  assume "retry_decide env st su key q = (r, st')"
  then show ?thesis using idem_find_quote [OF f]
    by (auto simp: retry_decide_def f memory_event_def Let_def update_conv' idem_ext_def
        split: option.splits prod.splits sum.splits memory_operation.splits retry_quote_outcome.splits if_splits)
qed

lemma idem_create_handler: "idem_ext (ap_idempotency st) (ap_idempotency (snd (create_quote_handler env headers payload st)))"
  unfolding create_quote_handler_def
  by (auto split: sum.splits prod.splits option.splits dest!: idem_admit idem_submit_finish idem_create_decide)

lemma idem_retry_handler: "idem_ext (ap_idempotency st) (ap_idempotency (snd (retry_quote_handler env headers q st)))"
  unfolding retry_quote_handler_def Let_def
  by (auto split: sum.splits prod.splits if_splits dest!: idem_admit idem_submit_finish idem_retry_decide)

lemma idem_worker_begin: "worker_begin env st w = (r, st') \<Longrightarrow> ap_idempotency st' = ap_idempotency st"
  by (auto simp: worker_begin_def Let_def split: prod.splits bool.splits if_splits option.splits sum.splits dest!: idem_update_state)

lemma idem_worker_finish: "ap_idempotency (worker_finish env st w result) = ap_idempotency st"
proof -
  obtain b r1 st1 where u: "update_quote_state env st (analyzed_record (wk_record w) result) = ((b, r1), st1)"
    by (metis surj_pair)
  then show ?thesis using idem_update_state [OF u] by (auto simp: worker_finish_def u split: option.split)
qed

lemma idem_app_step: "idem_ext (ap_idempotency st) (ap_idempotency (app_step st p))"
proof (cases p)
  case (InGet env headers q)
  then show ?thesis
    by (auto simp: get_quote_handler_def split: sum.splits prod.splits dest: idem_find_quote)
next
  case (InList env headers limit cursor)
  then show ?thesis
    by (auto simp: list_quotes_handler_def Let_def split: sum.splits option.splits prod.splits)
next
  case (InBegin env i)
  then show ?thesis by (auto split: prod.splits option.splits dest: idem_worker_begin)
qed (auto simp: idem_create_handler idem_retry_handler idem_worker_finish)



section \<open>The queue and the keys agree\<close>

abbreviation as_key :: "assessment_record \<Rightarrow> string \<times> string" where
  "as_key a \<equiv> (as_subject a, as_idempotency_key a)"

definition assess_ok :: "(string \<times> string \<rightharpoonup> memory_operation) \<Rightarrow> assessment_record list \<Rightarrow> bool" where
  "assess_ok ops A \<longleftrightarrow>
     length A \<le> READINESS_ASSESSMENT_CAPACITY \<and> distinct (map as_id A) \<and>
     (\<forall>a \<in> set A. \<exists>j. ops (as_key a) = Some (MAssessment (as_id a) j)) \<and>
     (\<forall>k aid j. ops k = Some (MAssessment aid j) \<longrightarrow> (\<exists>a \<in> set A. as_id a = aid \<and> as_key a = k))"

lemma assess_ok_D:
  assumes "assess_ok ops A"
  shows "length A \<le> READINESS_ASSESSMENT_CAPACITY" and "distinct (map as_id A)"
    and "a \<in> set A \<Longrightarrow> \<exists>j. ops (as_key a) = Some (MAssessment (as_id a) j)"
    and "ops k = Some (MAssessment aid j) \<Longrightarrow> \<exists>a \<in> set A. as_id a = aid \<and> as_key a = k"
  using assms unfolding assess_ok_def by blast+

lemma assess_ok_ext:
  assumes ok: "assess_ok (map_of ops) A" and ext: "idem_ext ops ops'"
  shows "assess_ok (map_of ops') A"
  unfolding assess_ok_def
proof (intro conjI ballI allI impI)
  show "\<exists>j. map_of ops' (as_key a) = Some (MAssessment (as_id a) j)" if "a \<in> set A" for a
    using assess_ok_D(3) [OF ok that] ext unfolding idem_ext_def by (metis option.distinct(1))
  show "\<exists>a \<in> set A. as_id a = aid \<and> as_key a = k" if "map_of ops' k = Some (MAssessment aid j)" for k aid j
    using assess_ok_D(4) [OF ok, of k aid j] that ext unfolding idem_ext_def by metis
qed (use assess_ok_D [OF ok] in auto)

text \<open>One more assessment, and the oldest gone.\<close>

lemma assess_ok_push:
  assumes ok: "assess_ok ops A" and "ops (as_key r) = None" and "as_id r \<notin> set (map as_id A)"
    and "length A < READINESS_ASSESSMENT_CAPACITY"
  shows "assess_ok (ops(as_key r \<mapsto> MAssessment (as_id r) j)) (A @ [r])"
  unfolding assess_ok_def
proof (intro conjI ballI allI impI)
  show "\<exists>j'. (ops(as_key r \<mapsto> MAssessment (as_id r) j)) (as_key a) = Some (MAssessment (as_id a) j')" if "a \<in> set (A @ [r])" for a
    using that assess_ok_D(3) [OF ok, of a] assms(2) by (cases "a = r") auto
  show "\<exists>a \<in> set (A @ [r]). as_id a = aid \<and> as_key a = k"
    if "(ops(as_key r \<mapsto> MAssessment (as_id r) j)) k = Some (MAssessment aid j')" for k aid j'
    using that assess_ok_D(4) [OF ok, of k aid j'] by (cases "k = as_key r") auto
qed (use assms assess_ok_D [OF ok] in auto)

lemma assess_ok_pop:
  assumes ok: "assess_ok ops (a0 # A)"
  shows "assess_ok (ops(as_key a0 := None)) A"
proof -
  have other: "as_key a \<noteq> as_key a0" if "a \<in> set A" for a
  proof
    assume "as_key a = as_key a0"
    then have "as_id a = as_id a0"
      using assess_ok_D(3) [OF ok, of a] assess_ok_D(3) [OF ok, of a0] that by auto
    then show False using assess_ok_D(2) [OF ok] that by (metis distinct.simps(2) imageI list.set_map list.simps(9))
  qed
  show ?thesis
    unfolding assess_ok_def
  proof (intro conjI ballI allI impI)
    show "\<exists>j. (ops(as_key a0 := None)) (as_key a) = Some (MAssessment (as_id a) j)" if "a \<in> set A" for a
      using assess_ok_D(3) [OF ok, of a] other [OF that] that by auto
    show "\<exists>a \<in> set A. as_id a = aid \<and> as_key a = k" if "(ops(as_key a0 := None)) k = Some (MAssessment aid j)" for k aid j
    proof -
      have "k \<noteq> as_key a0" and "ops k = Some (MAssessment aid j)" using that by (auto split: if_splits)
      then show ?thesis using assess_ok_D(4) [OF ok, of k aid j] by auto
    qed
  qed (use assess_ok_D [OF ok] in auto)
qed

lemma store_assessment_eq:
  assumes ok: "assess_ok (map_of (ap_idempotency (sv_app sv))) (sv_assessments sv)"
    and new: "map_of (ap_idempotency (sv_app sv)) (as_key r) = None"
  shows "sv_assessments (store_assessment sv r j) =
       (if length (sv_assessments sv) < READINESS_ASSESSMENT_CAPACITY then sv_assessments sv else tl (sv_assessments sv)) @ [r] \<and>
     map_of (ap_idempotency (sv_app (store_assessment sv r j))) =
       (if length (sv_assessments sv) < READINESS_ASSESSMENT_CAPACITY then map_of (ap_idempotency (sv_app sv))
        else (map_of (ap_idempotency (sv_app sv)))(as_key (hd (sv_assessments sv)) := None))
         (as_key r \<mapsto> MAssessment (as_id r) j)"
proof (cases "sv_assessments sv")
  case Nil
  then show ?thesis by (simp add: store_assessment_def update_conv')
next
  case (Cons a0 A)
  from assess_ok_D(3) [OF ok, of a0] obtain j0
    where j0: "map_of (ap_idempotency (sv_app sv)) (as_key a0) = Some (MAssessment (as_id a0) j0)" by (auto simp: Cons)
  with new have neq: "as_key a0 \<noteq> as_key r" by auto
  then have "f(as_key r \<mapsto> x, as_key a0 := None) = f(as_key a0 := None, as_key r \<mapsto> x)" for f :: "_ \<rightharpoonup> memory_operation" and x
    by (rule fun_upd_twist [symmetric])
  with neq show ?thesis using Cons j0
    by (auto simp: store_assessment_def Let_def update_conv' delete_conv')
qed

lemma store_assessment_ok:
  assumes ok: "assess_ok (map_of (ap_idempotency (sv_app sv))) (sv_assessments sv)"
    and new: "map_of (ap_idempotency (sv_app sv)) (as_key r) = None" and id: "as_id r \<notin> set (map as_id (sv_assessments sv))"
  shows "assess_ok (map_of (ap_idempotency (sv_app (store_assessment sv r j)))) (sv_assessments (store_assessment sv r j))"
proof (cases "length (sv_assessments sv) < READINESS_ASSESSMENT_CAPACITY")
  case True
  then show ?thesis using assess_ok_push [OF ok new id True] store_assessment_eq [OF ok new] by simp
next
  case False
  then obtain a0 A where A: "sv_assessments sv = a0 # A" by (cases "sv_assessments sv") auto
  have "assess_ok ((map_of (ap_idempotency (sv_app sv)))(as_key a0 := None)) A"
    using ok unfolding A by (rule assess_ok_pop)
  then have "assess_ok ((map_of (ap_idempotency (sv_app sv)))(as_key a0 := None, as_key r \<mapsto> MAssessment (as_id r) j)) (A @ [r])"
    using new id assess_ok_D(1) [OF ok] False by (intro assess_ok_push) (auto simp: A)
  then show ?thesis using False store_assessment_eq [OF ok new] by (simp add: A)
qed

definition service_ok :: "service \<Rightarrow> bool" where
  "service_ok sv \<longleftrightarrow> assess_ok (map_of (ap_idempotency (sv_app sv))) (sv_assessments sv)"

text \<open>New records draw identifiers that no stored record has.\<close>

definition fresh_assessment :: "service \<Rightarrow> service_input \<Rightarrow> bool" where
  "fresh_assessment sv p \<longleftrightarrow>
     (case p of CreateAssessment env _ _ \<Rightarrow> ce_new_uuid env \<notin> set (map as_id (sv_assessments sv)) | _ \<Rightarrow> True)"

text \<open>The record a step creates: the one it answers, unless it was stored before.\<close>

definition created :: "service \<Rightarrow> service_input \<Rightarrow> assessment_record list" where
  "created sv p =
     (case p of
        CreateAssessment env headers payload \<Rightarrow>
          (case fst (create_assessment_handler env headers payload sv) of
             Inr (_, r) \<Rightarrow> if r \<in> set (sv_assessments sv) then [] else [r]
           | Inl _ \<Rightarrow> [])
      | _ \<Rightarrow> [])"

lemma set_windows_simps [simp]:
  "sv_assessments (set_windows sv w) = sv_assessments sv"
  "ap_idempotency (sv_app (set_windows sv w)) = ap_idempotency (sv_app sv)"
  "ap_auth (sv_app (set_windows sv w)) = ap_auth (sv_app sv)"
  by (simp_all add: set_windows_def)

lemma publish_assessment_simps [simp]:
  "sv_assessments (publish_assessment_event sv e) = sv_assessments sv"
  "sv_app (publish_assessment_event sv e) = sv_app sv"
  by (simp_all add: publish_assessment_event_def)

lemma find_assessment_Inr:
  "find_assessment sv aid subject = Inr r \<longleftrightarrow> List.find (\<lambda>r. as_id r = aid \<and> as_subject r = subject) (sv_assessments sv) = Some r"
  by (simp add: find_assessment_def ok_or_iff)

lemma find_stored:
  assumes "service_ok sv" and "a \<in> set (sv_assessments sv)" and "as_id a = aid" and "as_subject a = subject"
  shows "List.find (\<lambda>r. as_id r = aid \<and> as_subject r = subject) (sv_assessments sv) = Some a"
proof -
  have d: "distinct (map as_id (sv_assessments sv))" using assms(1) assess_ok_D(2) by (auto simp: service_ok_def)
  have "List.find (\<lambda>r. as_id r = aid \<and> as_subject r = subject) (sv_assessments sv) \<noteq> None"
    using assms(2-4) by (auto simp: find_None_iff)
  then obtain b where b: "List.find (\<lambda>r. as_id r = aid \<and> as_subject r = subject) (sv_assessments sv) = Some b" by blast
  then have "b \<in> set (sv_assessments sv)" "as_id b = as_id a" using assms(3) by (auto simp: find_Some_iff)
  then have "b = a" using d assms(2) by (metis distinct_map inj_onD)
  with b show ?thesis by simp
qed

lemma assessment_decide_cases:
  assumes "service_ok sv" and "assessment_decide env sv subject key sb = Inr (new, r)"
  shows "if new then map_of (ap_idempotency (sv_app sv)) (as_key r) = None \<and> as_id r = ce_new_uuid env
         else r \<in> set (sv_assessments sv)"
  using assms(2)
  by (auto simp: assessment_decide_def result_bind_Inr_iff map_err_def find_assessment_Inr find_Some_iff
      split: option.splits memory_operation.splits if_splits sum.splits)

lemma create_assessment_step:
  assumes ok: "service_ok sv" and id: "ce_new_uuid env \<notin> set (map as_id (sv_assessments sv))"
  shows "service_ok (snd (create_assessment_handler env headers payload sv)) \<and>
     sv_assessments (snd (create_assessment_handler env headers payload sv)) =
       (let all = sv_assessments sv @ created sv (CreateAssessment env headers payload)
        in drop (length all - READINESS_ASSESSMENT_CAPACITY) all)"
proof -
  let ?h = "create_assessment_handler env headers payload sv"
  let ?keep = "\<lambda>all. drop (length all - READINESS_ASSESSMENT_CAPACITY) all"
  have len: "length (sv_assessments sv) \<le> READINESS_ASSESSMENT_CAPACITY" using ok assess_ok_D(1) by (auto simp: service_ok_def)
  have same: "?keep (sv_assessments sv) = sv_assessments sv" using len by simp
  consider
    (refuse) e w where "?h = (Inl e, sv) \<or> ?h = (Inl e, set_windows sv w)"
  | (replay) w r where "?h = (Inr (201, r), set_windows sv w)" "r \<in> set (sv_assessments sv)"
  | (new) w r j e where "?h = (Inr (201, r), publish_assessment_event (store_assessment (set_windows sv w) r j) e)"
      "map_of (ap_idempotency (sv_app sv)) (as_key r) = None" "as_id r = ce_new_uuid env"
    using assessment_decide_cases [of "set_windows sv _" env] ok
    unfolding create_assessment_handler_def service_ok_def
    by (fastforce split: sum.splits prod.splits if_splits)
  then show ?thesis
  proof cases
    case refuse
    then show ?thesis using ok same by (auto simp: created_def service_ok_def)
  next
    case replay
    then show ?thesis using ok same by (simp add: created_def service_ok_def)
  next
    case new
    have ok': "assess_ok (map_of (ap_idempotency (sv_app (set_windows sv w)))) (sv_assessments (set_windows sv w))"
      using ok by (simp add: service_ok_def)
    have n: "map_of (ap_idempotency (sv_app (set_windows sv w))) (as_key r) = None"
      "as_id r \<notin> set (map as_id (sv_assessments (set_windows sv w)))" using new id by simp_all
    have "r \<notin> set (sv_assessments sv)" using n(2) by auto
    then show ?thesis
      using store_assessment_ok [OF ok' n, of j] store_assessment_eq [OF ok' n(1), of j] new(1) len
      by (auto simp: created_def service_ok_def drop_Suc drop_append)
  qed
qed

lemma service_step_ok:
  assumes ok: "service_ok sv" and "fresh_assessment sv p"
  shows "service_ok (service_step sv p) \<and>
     sv_assessments (service_step sv p) =
       (let all = sv_assessments sv @ created sv p in drop (length all - READINESS_ASSESSMENT_CAPACITY) all)"
proof (cases p)
  case (QuoteRequest q)
  have "length (sv_assessments sv) \<le> READINESS_ASSESSMENT_CAPACITY" using ok assess_ok_D(1) by (auto simp: service_ok_def)
  then show ?thesis using ok assess_ok_ext [OF _ idem_app_step, of "sv_app sv"]
    by (simp add: QuoteRequest created_def service_ok_def)
next
  case (CreateAssessment env headers payload)
  then show ?thesis using create_assessment_step [OF ok] assms(2) by (simp add: fresh_assessment_def)
qed


section \<open>Runs of the joint service\<close>

fun fresh_run :: "service \<Rightarrow> service_input list \<Rightarrow> bool" where
  "fresh_run sv [] = True"
| "fresh_run sv (p # ps) = (fresh_assessment sv p \<and> fresh_run (service_step sv p) ps)"

text \<open>All assessments a run creates, in order.\<close>

fun assessment_log :: "service \<Rightarrow> service_input list \<Rightarrow> assessment_record list" where
  "assessment_log sv [] = []"
| "assessment_log sv (p # ps) = created sv p @ assessment_log (service_step sv p) ps"

lemma drop_drop_append:
  "drop (length (drop (length xs - n) xs @ ys) - n) (drop (length xs - n) xs @ ys) = drop (length (xs @ ys) - n) (xs @ ys)"
proof (cases "length xs \<le> n")
  case False
  then have "drop (length (xs @ ys) - n) (xs @ ys) = drop (length ys) (drop (length xs - n) (xs @ ys))"
    by (simp add: add.commute)
  then show ?thesis using False by simp
qed simp

lemma service_run:
  assumes "service_ok sv" and "fresh_run sv ps"
  shows "service_ok (run service_step sv ps) \<and>
     sv_assessments (run service_step sv ps) =
       (let all = sv_assessments sv @ assessment_log sv ps in drop (length all - READINESS_ASSESSMENT_CAPACITY) all)"
  using assms
proof (induction ps arbitrary: sv)
  case Nil
  then show ?case using assess_ok_D(1) by (auto simp: service_ok_def Let_def)
next
  case (Cons p ps)
  then have "service_ok (service_step sv p)" and s: "sv_assessments (service_step sv p) =
      (let all = sv_assessments sv @ created sv p in drop (length all - READINESS_ASSESSMENT_CAPACITY) all)"
    using service_step_ok by simp_all
  then have "service_ok (run service_step sv (p # ps)) \<and>
     sv_assessments (run service_step sv (p # ps)) =
       (let all = drop (length (sv_assessments sv @ created sv p) - READINESS_ASSESSMENT_CAPACITY) (sv_assessments sv @ created sv p)
             @ assessment_log (service_step sv p) ps in drop (length all - READINESS_ASSESSMENT_CAPACITY) all)"
    using Cons.IH [of "service_step sv p"] Cons.prems(2) by (simp add: Let_def)
  then show ?case unfolding Let_def drop_drop_append by simp
qed

abbreviation service_start :: "auth_state \<Rightarrow> string \<Rightarrow> store option \<Rightarrow> bool \<Rightarrow> bool \<Rightarrow> service" where
  "service_start auth model database gemini webhook \<equiv> service_new (app_state_new auth model database gemini webhook)"

lemma service_start_ok: "service_ok (service_start auth model database gemini webhook)"
  by (simp add: service_ok_def service_new_def app_state_new_def assess_ok_def)

text \<open>C6: the assessment queue is the last 1024 assessments accepted: after any sequence of quote and assessment requests
  the stored records are exactly the most recent ones, in order, of all that were created.\<close>

theorem assessments_keep_latest:
  assumes "fresh_run (service_start auth model database gemini webhook) ps"
  shows "let log = assessment_log (service_start auth model database gemini webhook) ps
    in sv_assessments (run service_step (service_start auth model database gemini webhook) ps) = drop (length log - 1024) log"
  using service_run [OF service_start_ok assms] by (simp add: Let_def service_new_def)

text \<open>Keys and stored assessments stay paired as long as requests are handled one after another: at most 1024 records are
  stored, with distinct identifiers; each has its idempotency key recorded under its identifier, and every key recorded
  for an assessment has its record, of the same subject, still stored. For requests that overlap see \<open>Overlap_Keys\<close>.\<close>

theorem assessment_keys_paired:
  assumes "fresh_run (service_start auth model database gemini webhook) ps"
  shows "let sv = run service_step (service_start auth model database gemini webhook) ps;
             ops = map_of (ap_idempotency (sv_app sv))
    in length (sv_assessments sv) \<le> 1024 \<and> distinct (map as_id (sv_assessments sv)) \<and>
       (\<forall>a \<in> set (sv_assessments sv). \<exists>j. ops (as_subject a, as_idempotency_key a) = Some (MAssessment (as_id a) j)) \<and>
       (\<forall>s k aid j. ops (s, k) = Some (MAssessment aid j) \<longrightarrow>
          (\<exists>a \<in> set (sv_assessments sv). as_id a = aid \<and> as_subject a = s \<and> as_idempotency_key a = k))"
  using service_run [OF service_start_ok assms] unfolding service_ok_def assess_ok_def Let_def
  by (elim conjE) (intro conjI, assumption+, metis prod.inject)

text \<open>Repeating an assessment request is safe: after any sequence of requests, a request whose key is recorded for an
  assessment is, if the limiter admits it, answered with the stored record when its contents are the same and
  refused as a reused key otherwise; it never finds its record missing, and nothing but the limiter's windows changes.\<close>

theorem assessment_replay:
  assumes "fresh_run (service_start auth model database gemini webhook) ps"
    and "sv = run service_step (service_start auth model database gemini webhook) ps"
    and "authenticate (ce_introspect env) headers (ap_auth (sv_app sv)) [] = Inr subject"
    and "required_idempotency_key headers = Inr key" and "parse_assessment_request payload = Inr sb"
    and "check_submission (ap_windows (sv_app sv)) (ce_instant env, subject) = (Inr u, w)"
    and "map_of (ap_idempotency (sv_app sv)) (subject, key) = Some (MAssessment aid j)"
  shows "\<exists>r \<in> set (sv_assessments sv). as_id r = aid \<and> as_subject r = subject \<and>
    create_assessment_handler env headers payload sv =
      (if j = submission_json sb then Inr (201, r) else Inl idempotency_reused, set_windows sv w)"
proof -
  have ok: "service_ok sv" using service_run [OF service_start_ok assms(1)] assms(2) by simp
  then obtain r where r: "r \<in> set (sv_assessments sv)" "as_id r = aid" "as_subject r = subject"
    using assess_ok_D(4) [of "map_of (ap_idempotency (sv_app sv))" "sv_assessments sv", OF _ assms(7)] by (auto simp: service_ok_def)
  have "find_assessment (set_windows sv w) aid subject = Inr r"
    using find_stored [OF ok r] by (simp add: find_assessment_def)
  then show ?thesis using r assms(3-7)
    by (intro bexI [of _ r]) (auto simp: create_assessment_handler_def assessment_decide_def map_err_def)
qed

text \<open>One intake and its repetition.\<close>

definition example_intake :: json where
  "example_intake = JObject [(''frameworkIds'', JArray [JString ''soc2-tsc'']), (''organization'', JString ''acme'')]"

definition example_step :: service_input where
  "example_step = CreateAssessment example_call example_headers example_intake"

abbreviation example_service :: service where
  "example_service \<equiv> service_start \<lparr>internal_auth_token = ''tok'', shared_audience = None\<rparr> ''m'' None True False"

definition example_submission :: assessment_submission where
  "example_submission = \<lparr>sb_framework_ids = [''soc2-tsc''], sb_notes = None, sb_organization = ''acme''\<rparr>"

lemma example_intake_parses: "parse_assessment_request example_intake = Inr example_submission"
proof -
  have "trim ''acme'' = ''acme''" by (rule trim_graphic; simp add: is_ascii_graphic_def)
  then show ?thesis
    by (subst assessment_request_exact)
      (auto simp: example_intake_def example_submission_def ASSESSMENT_FIELDS_def catalog_ids intro!: exI)
qed

lemma example_stored:
  "\<exists>r. as_id r = 1 \<and> as_subject r = ''alice'' \<and> sv_assessments (service_step example_service example_step) = [r] \<and>
     created example_service example_step = [r] \<and>
     map_of (ap_idempotency (sv_app (service_step example_service example_step))) (''alice'', ''key-00001'') =
       Some (MAssessment 1 (submission_json example_submission)) \<and>
     ap_auth (sv_app (service_step example_service example_step)) = ap_auth example_memory \<and>
     ap_windows (sv_app (service_step example_service example_step)) = \<lparr>all_subjects = [0], by_subject = [(''alice'', [0])]\<rparr>"
proof -
  have m: "sv_app example_service = example_memory" "ap_windows example_memory = submission_windows_default"
    "ap_idempotency example_memory = []" "sv_assessments example_service = []"
    by (simp_all add: service_new_def example_memory_def app_state_new_def)
  have c: "now_rfc3339 example_call = Inr ''t''" "ce_new_uuid example_call = 1" "ce_instant example_call = 0"
    by (simp_all add: example_call_def now_rfc3339_def)
  show ?thesis
    by (simp add: example_step_def created_def create_assessment_handler_def m c example_head example_intake_parses example_windows
        assessment_decide_def store_assessment_def publish_assessment_event_def set_windows_def)
qed

lemma example_fresh: "fresh_run example_service [example_step]"
  by (simp add: fresh_assessment_def example_step_def service_new_def)

theorem assessments_keep_latest_witness:
  "\<exists>r. assessment_log example_service [example_step] = [r] \<and> sv_assessments (run service_step example_service [example_step]) = [r]"
  using assessments_keep_latest [OF example_fresh] example_stored by (auto simp: Let_def)

theorem assessment_keys_paired_witness:
  "\<exists>a \<in> set (sv_assessments (run service_step example_service [example_step])).
     \<exists>j. map_of (ap_idempotency (sv_app (run service_step example_service [example_step]))) (as_subject a, as_idempotency_key a) =
       Some (MAssessment (as_id a) j) \<and> as_subject a = ''alice''"
proof -
  let ?sv = "run service_step example_service [example_step]"
  obtain r where r: "as_subject r = ''alice''" "sv_assessments ?sv = [r]" using example_stored by auto
  from assessment_keys_paired [OF example_fresh, unfolded Let_def, THEN conjunct2, THEN conjunct2, THEN conjunct1] r(2)
  have "\<exists>j. map_of (ap_idempotency (sv_app ?sv)) (as_subject r, as_idempotency_key r) = Some (MAssessment (as_id r) j)" by simp
  with r show ?thesis by (intro bexI [of _ r]) simp_all
qed

theorem assessment_replay_witness:
  "\<exists>r w. create_assessment_handler example_call example_headers example_intake (service_step example_service example_step) =
     (Inr (201, r), set_windows (service_step example_service example_step) w) \<and> as_subject r = ''alice''"
proof -
  let ?sv = "service_step example_service example_step"
  obtain w where w: "check_submission (ap_windows (sv_app ?sv)) (ce_instant example_call, ''alice'') = (Inr (), w)"
  proof
    show "check_submission (ap_windows (sv_app ?sv)) (ce_instant example_call, ''alice'') =
        (Inr (), \<lparr>all_subjects = [0, 0], by_subject = [(''alice'', [0, 0])]\<rparr>)"
      using example_stored
      by (auto simp: check_submission_def retain_live_def discard_expired_def expired_def QUOTE_SUBMISSION_WINDOW_def evict_oldest_def
          put_subject_def Let_def example_call_def)
  qed
  have sv: "?sv = run service_step example_service [example_step]" by simp
  have "authenticate (ce_introspect example_call) example_headers (ap_auth (sv_app ?sv)) [] = Inr ''alice''"
    "map_of (ap_idempotency (sv_app ?sv)) (''alice'', ''key-00001'') = Some (MAssessment 1 (submission_json example_submission))"
    using example_stored example_head by auto
  from assessment_replay [OF example_fresh sv this(1) example_head(2) example_intake_parses w this(2)]
  show ?thesis by auto
qed

end
