(* ===== verification/Quote_Stream.thy ===== *)
theory Quote_Stream
  imports Quote_Memory
begin

text \<open>
  The event stream of a quote (\<open>src/lib.rs\<close>, \<open>quote_events\<close> and \<open>stream_quote_events\<close>): the handler that admits a
  WebSocket, and the loop that forwards the published events of one quote to it. A step of the loop is one turn of
  its \<open>select!\<close>: a reception from the broadcast channel or from the peer. Whether each send succeeds is an input.
\<close>

section \<open>Admission\<close>

abbreviation WEBSOCKET_MAX_CONNECTIONS :: nat where "WEBSOCKET_MAX_CONNECTIONS \<equiv> 1024"

text \<open>\<open>reserve_websocket\<close>: a permit of the semaphore, if one is left.\<close>

definition reserve_websocket :: "nat \<Rightarrow> (api_error + unit) \<times> nat" where
  "reserve_websocket sockets =
     (if sockets = 0
      then (Inl (service_unavailable ''websocket_capacity_reached'' ''quote event capacity is temporarily unavailable''), sockets)
      else (Inr (), sockets - 1))"

text \<open>The answer carries the subject and the first event of the stream. The permit is held until the stream ends.\<close>

definition quote_events ::
    "call_env \<Rightarrow> header_map \<Rightarrow> uuid \<Rightarrow> app_state \<Rightarrow> nat \<Rightarrow> (api_error + string \<times> quote_event_record) \<times> app_state \<times> nat" where
  "quote_events env headers qid st sockets =
     (case authenticate (ce_introspect env) headers (ap_auth st) [''quotes:read''] of
        Inl e \<Rightarrow> (Inl e, st, sockets)
      | Inr subject \<Rightarrow>
          (case find_quote env st qid subject of
             (Inl e, st1) \<Rightarrow> (Inl e, st1, sockets)
           | (Inr record, st1) \<Rightarrow>
               (case reserve_websocket sockets of
                  (Inl e, sockets') \<Rightarrow> (Inl e, st1, sockets')
                | (Inr _, sockets') \<Rightarrow>
                    (case ap_database st1 of
                       Some db \<Rightarrow>
                         (case latest_event (ce_faults env) (ce_store_env env) subject qid db of
                            (Inl e, db') \<Rightarrow> (Inl (map_store_error e), st1\<lparr>ap_database := Some db'\<rparr>, sockets)
                          | (Inr initial, db') \<Rightarrow> (Inr (subject, initial), st1\<lparr>ap_database := Some db'\<rparr>, sockets'))
                     | None \<Rightarrow>
                         (Inr (subject, \<lparr>ev_owner_subject = subject, ev_quote_id = qid, ev_sequence = 0,
                            ev_status = qstatus record, ev_occurred_at = updated_at record\<rparr>), st1, sockets')))))"


section \<open>The stream\<close>

datatype stream_input =
    Published quote_event_record | Lagged | Closed | PeerClose | PeerGone | PeerPing string | PeerOther

datatype stream_output = SendEvent QuoteStatusEvent | SendPong string

text \<open>One turn: what is sent, whether the loop goes on, the state after looking the quote up.\<close>

definition stream_step ::
    "uuid \<Rightarrow> string \<Rightarrow> call_env \<Rightarrow> bool \<Rightarrow> stream_input \<Rightarrow> app_state \<Rightarrow> stream_output list \<times> bool \<times> app_state" where
  "stream_step qid subject env send_ok input st =
     (case input of
        Published event \<Rightarrow>
          if ev_quote_id event = qid \<and> ev_owner_subject event = subject
          then (case find_quote env st qid subject of
                  (Inl _, st1) \<Rightarrow> ([], False, st1)
                | (Inr record, st1) \<Rightarrow>
                    (case quote_status_event (ce_uuid_str env) event record of
                       Inl _ \<Rightarrow> ([], False, st1)
                     | Inr public \<Rightarrow> ([SendEvent public], send_ok, st1)))
          else ([], True, st)
      | Lagged \<Rightarrow> ([], True, st)
      | Closed \<Rightarrow> ([], False, st)
      | PeerClose \<Rightarrow> ([], False, st)
      | PeerGone \<Rightarrow> ([], False, st)
      | PeerPing payload \<Rightarrow> ([SendPong payload], send_ok, st)
      | PeerOther \<Rightarrow> ([], True, st))"

text \<open>The event sent when the stream opens; an unreadable quote only leaves it out.\<close>

definition stream_open ::
    "uuid \<Rightarrow> string \<Rightarrow> quote_event_record \<Rightarrow> call_env \<Rightarrow> bool \<Rightarrow> app_state \<Rightarrow> stream_output list \<times> bool \<times> app_state" where
  "stream_open qid subject initial env send_ok st =
     (case find_quote env st qid subject of
        (Inl _, st1) \<Rightarrow> ([], True, st1)
      | (Inr record, st1) \<Rightarrow>
          (case quote_status_event (ce_uuid_str env) initial record of
             Inl _ \<Rightarrow> ([], True, st1)
           | Inr public \<Rightarrow> ([SendEvent public], send_ok, st1)))"

text \<open>A turn comes with the state of the service at that moment, which other requests change between turns.\<close>

record turn =
  tn_env :: call_env
  tn_state :: app_state
  tn_send_ok :: bool
  tn_input :: stream_input

fun stream_loop :: "uuid \<Rightarrow> string \<Rightarrow> turn list \<Rightarrow> stream_output list" where
  "stream_loop qid subject [] = []"
| "stream_loop qid subject (t # ts) =
     (case stream_step qid subject (tn_env t) (tn_send_ok t) (tn_input t) (tn_state t) of
        (out, go_on, _) \<Rightarrow> out @ (if go_on then stream_loop qid subject ts else []))"

definition stream_quote_events ::
    "uuid \<Rightarrow> string \<Rightarrow> quote_event_record \<Rightarrow> turn \<Rightarrow> turn list \<Rightarrow> stream_output list" where
  "stream_quote_events qid subject initial first ts =
     (case stream_open qid subject initial (tn_env first) (tn_send_ok first) (tn_state first) of
        (out, go_on, _) \<Rightarrow> out @ (if go_on then stream_loop qid subject ts else []))"


section \<open>A stream shows only its own quote\<close>

text \<open>What a turn may show: the projection of an event on the record that the lookup of this quote and subject finds in the
  state of that very turn.\<close>

definition shows_event :: "uuid \<Rightarrow> string \<Rightarrow> quote_event_record \<Rightarrow> turn \<Rightarrow> stream_output \<Rightarrow> bool" where
  "shows_event qid subject event t out \<longleftrightarrow>
     ev_quote_id event = qid \<and> ev_owner_subject event = subject \<and>
     (\<exists>record st' public. find_quote (tn_env t) (tn_state t) qid subject = (Inr record, st') \<and> owner_subject record = subject \<and>
        quote_status_event (ce_uuid_str (tn_env t)) event record = Inr public \<and> out = SendEvent public)"

text \<open>What a turn of the loop is answered by: a ping by its payload, a published event by its projection.\<close>

definition answers_turn :: "uuid \<Rightarrow> string \<Rightarrow> turn \<Rightarrow> stream_output \<Rightarrow> bool" where
  "answers_turn qid subject t out \<longleftrightarrow>
     (case tn_input t of
        Published event \<Rightarrow> shows_event qid subject event t out
      | PeerPing payload \<Rightarrow> out = SendPong payload
      | _ \<Rightarrow> False)"

lemma find_quote_owner:
  assumes "find_quote env st qid subject = (Inr record, st')"
  shows "owner_subject record = subject"
proof (cases "ap_database st")
  case None
  then show ?thesis using assms by (auto simp: find_quote_def split: option.splits if_splits)
next
  case (Some db)
  obtain res db' where g: "get_quote (ce_faults env) (ce_store_env env) subject qid db = (res, db')" by fastforce
  with assms Some have "res = Inr record" by (auto simp: find_quote_def split: sum.splits)
  then show ?thesis using get_quote_owned [of "ce_faults env" "ce_store_env env" subject qid db "record"] g by simp
qed

lemma latest_event_own:
  assumes "latest_event d env subject qid s = (Inr event, s')"
  shows "ev_quote_id event = qid \<and> ev_owner_subject event = subject"
proof -
  let ?rows = "sort_key er_sequence (filter (\<lambda>e. er_quote e = qid \<and> er_owner e = subject) (event_rows s))"
  have "fst (latest_event d env subject qid s) = Inr event" using assms by simp
  from transact_Inr [OF this [unfolded latest_event_def]]
  have r: "?rows \<noteq> []" "event_from_row env (last ?rows) = Inr event"
    by (auto simp: exec_def result_bind_Inr_iff split: if_splits list.splits)
  then have "last ?rows \<in> set ?rows" by (intro last_in_set)
  then have "er_quote (last ?rows) = qid \<and> er_owner (last ?rows) = subject" by simp
  with r(2) show ?thesis by (auto simp: event_from_row_def split: if_splits)
qed

text \<open>The handler hands the loop an event of this quote and the authenticated subject.\<close>

lemma quote_events_own:
  assumes "quote_events env headers qid st sockets = (Inr (subject, initial), st', sockets')"
  shows "authenticate (ce_introspect env) headers (ap_auth st) [''quotes:read''] = Inr subject"
    and "ev_quote_id initial = qid \<and> ev_owner_subject initial = subject"
  using assms latest_event_own
  by (auto simp: quote_events_def split: sum.splits prod.splits option.splits)

lemma stream_step_answers:
  "list_all (answers_turn qid subject t) (fst (stream_step qid subject (tn_env t) (tn_send_ok t) (tn_input t) (tn_state t))) \<and>
   length (fst (stream_step qid subject (tn_env t) (tn_send_ok t) (tn_input t) (tn_state t))) \<le> 1"
  by (auto simp: stream_step_def answers_turn_def shows_event_def find_quote_owner
      split: stream_input.splits prod.splits sum.splits)

lemma stream_loop_answers:
  "\<exists>us. subseq us ts \<and> list_all2 (answers_turn qid subject) us (stream_loop qid subject ts)"
proof (induction ts)
  case (Cons t ts)
  obtain out go st where step: "stream_step qid subject (tn_env t) (tn_send_ok t) (tn_input t) (tn_state t) = (out, go, st)"
    by (metis surj_pair)
  have one: "list_all (answers_turn qid subject t) out" "length out \<le> 1"
    using stream_step_answers [of qid subject t] step by simp_all
  from Cons obtain us where us: "subseq us ts" "list_all2 (answers_turn qid subject) us (stream_loop qid subject ts)" by blast
  let ?rest = "if go then stream_loop qid subject ts else []" and ?us = "if go then us else []"
  have rest: "subseq ?us ts" "list_all2 (answers_turn qid subject) ?us ?rest" using us by simp_all
  show ?case
  proof (cases out)
    case Nil
    then show ?thesis using rest step by (intro exI [of _ ?us]) (auto intro: list_emb_Cons)
  next
    case (Cons o1 os)
    then have "out = [o1]" "answers_turn qid subject t o1" using one by simp_all
    then show ?thesis using rest step by (intro exI [of _ "t # ?us"]) simp
  qed
qed (simp add: exI [of _ "[]"])

text \<open>C36: a stream shows nothing but its own quote: it opens with at most one message, the projection of the event the
  handler read - an event of exactly this quote and the authenticated subject; and every later message answers, in
  order, a turn of its own: a ping of the peer by its payload, or a published event of exactly this quote and subject
  by its projection on the record found for them in the state of that turn.\<close>

theorem stream_shows_own_quote:
  assumes "quote_events env headers qid st sockets = (Inr (subject, initial), st', sockets')"
  shows "authenticate (ce_introspect env) headers (ap_auth st) [''quotes:read''] = Inr subject \<and>
    (\<exists>opening later us. stream_quote_events qid subject initial first ts = opening @ later \<and>
       length opening \<le> 1 \<and> list_all (shows_event qid subject initial first) opening \<and>
       subseq us ts \<and> list_all2 (answers_turn qid subject) us later)"
proof -
  obtain out go st1 where op: "stream_open qid subject initial (tn_env first) (tn_send_ok first) (tn_state first) = (out, go, st1)"
    by (metis surj_pair)
  have "length out \<le> 1 \<and> list_all (shows_event qid subject initial first) out"
    using op quote_events_own(2) [OF assms]
    by (auto simp: stream_open_def shows_event_def find_quote_owner split: prod.splits sum.splits)
  moreover obtain us where "subseq us ts" "list_all2 (answers_turn qid subject) us (stream_loop qid subject ts)"
    using stream_loop_answers by blast
  ultimately show ?thesis using quote_events_own(1) [OF assms] op
    by (intro conjI exI [of _ out] exI [of _ "if go then stream_loop qid subject ts else []"] exI [of _ "if go then us else []"])
      (simp_all add: stream_quote_events_def)
qed

text \<open>Alice's stream of the quote she has submitted, with a ping after it has opened.\<close>

theorem stream_shows_own_quote_witness:
  "\<exists>initial opening later us.
     quote_events example_call example_headers 1 example_created 5 = (Inr (''alice'', initial), example_created, 4) \<and>
     stream_quote_events 1 ''alice'' initial \<lparr>tn_env = example_call, tn_state = example_created, tn_send_ok = True, tn_input = PeerOther\<rparr>
       [\<lparr>tn_env = example_call, tn_state = example_created, tn_send_ok = True, tn_input = PeerPing ''x''\<rparr>] = opening @ later \<and>
     subseq us [\<lparr>tn_env = example_call, tn_state = example_created, tn_send_ok = True, tn_input = PeerPing ''x''\<rparr>] \<and>
     list_all2 (answers_turn 1 ''alice'') us later"
proof -
  obtain r where r: "map_of (ap_quotes example_created) = [1 \<mapsto> r]" "owner_subject r = ''alice''" "ap_database example_created = None"
    using example_created_eq by blast
  have "authenticate i example_headers (ap_auth example_created) scopes = Inr ''alice''" for i scopes
    using example_head(1) example_created_auth by simp
  then obtain initial where e: "quote_events example_call example_headers 1 example_created 5 = (Inr (''alice'', initial), example_created, 4)"
    using r by (simp add: quote_events_def find_quote_def reserve_websocket_def)
  show ?thesis
    using stream_shows_own_quote [OF e, of "\<lparr>tn_env = example_call, tn_state = example_created, tn_send_ok = True, tn_input = PeerOther\<rparr>"
        "[\<lparr>tn_env = example_call, tn_state = example_created, tn_send_ok = True, tn_input = PeerPing ''x''\<rparr>]"] e by blast
qed

end
