(* ===== verification/Webhook.thy ===== *)
theory Webhook
  imports Records
begin

text \<open>
  The webhook dispatcher of \<open>src/webhook.rs\<close>: which endpoints and secrets it accepts, the events it builds from quote
  and assessment events, the signature, and the bounded delivery. Parameters: \<open>Url::parse\<close>, whether the HTTP
  client could be built, HMAC-SHA-256 (\<open>mac key message\<close>), the JSON serialiser, the printing of UUIDs, and the
  outcome of each request. The parsing of IP addresses is the standard library's and is written out.
\<close>

section \<open>IP addresses as the standard library reads them\<close>

definition digit_value :: "char \<Rightarrow> nat" where
  "digit_value c =
     (if is_ascii_digit c then byte c - 48
      else if 97 \<le> byte c \<and> byte c \<le> 102 then byte c - 87
      else if 65 \<le> byte c \<and> byte c \<le> 70 then byte c - 55 else 16)"

definition read_number :: "nat \<Rightarrow> nat \<Rightarrow> bool \<Rightarrow> nat \<Rightarrow> string \<Rightarrow> (nat \<times> string) option" where
  "read_number radix max_digits allow_zero_prefix bound s =
     (let ds = takeWhile (\<lambda>c. digit_value c < radix) s; n = fold (\<lambda>c n. radix * n + digit_value c) ds 0
      in if ds = [] \<or> max_digits < length ds \<or> (\<not> allow_zero_prefix \<and> hd ds = CHR ''0'' \<and> 1 < length ds) \<or> bound < n
         then None else Some (n, drop (length ds) s))"

abbreviation read_char :: "char \<Rightarrow> string \<Rightarrow> string option" where
  "read_char c s \<equiv> (case s of [] \<Rightarrow> None | d # rest \<Rightarrow> if d = c then Some rest else None)"

text \<open>\<open>read_separator\<close>: the separator comes before every item but the first.\<close>

definition read_sep :: "char \<Rightarrow> nat \<Rightarrow> (string \<Rightarrow> ('a \<times> string) option) \<Rightarrow> string \<Rightarrow> ('a \<times> string) option" where
  "read_sep c i inner s = (if i = 0 then inner s else Option.bind (read_char c s) inner)"

definition read_ipv4 :: "string \<Rightarrow> (nat list \<times> string) option" where
  "read_ipv4 s =
     (let octet = (\<lambda>i. read_sep CHR ''.'' i (read_number 10 3 False 255))
      in Option.bind (octet 0 s) (\<lambda>(a, s). Option.bind (octet 1 s) (\<lambda>(b, s).
         Option.bind (octet 2 s) (\<lambda>(c, s). Option.bind (octet 3 s) (\<lambda>(d, s). Some ([a, b, c, d], s))))))"

function read_groups :: "nat \<Rightarrow> nat \<Rightarrow> string \<Rightarrow> nat list \<times> bool \<times> string" where
  "read_groups limit i s =
     (if limit \<le> i then ([], False, s)
      else case (if i < limit - 1 then read_sep CHR '':'' i read_ipv4 s else None) of
             Some (v4, rest) \<Rightarrow> ([v4 ! 0 * 256 + v4 ! 1, v4 ! 2 * 256 + v4 ! 3], True, rest)
           | None \<Rightarrow>
               (case read_sep CHR '':'' i (read_number 16 4 True 65535) s of
                  Some (g, rest) \<Rightarrow> (let (gs, v4, rest) = read_groups limit (i + 1) rest in (g # gs, v4, rest))
                | None \<Rightarrow> ([], False, s)))"
  by pat_completeness auto
termination
  by (relation "measure (\<lambda>(limit, i, _). limit - i)") auto

declare read_groups.simps [simp del]

definition read_ipv6 :: "string \<Rightarrow> (nat list \<times> string) option" where
  "read_ipv6 s =
     (let (head, v4, s1) = read_groups 8 0 s
      in if length head = 8 then Some (head, s1)
         else if v4 then None
         else Option.bind (read_char CHR '':'' s1) (\<lambda>s2. Option.bind (read_char CHR '':'' s2) (\<lambda>s3.
           let (tail, _, s4) = read_groups (8 - (length head + 1)) 0 s3
           in Some (head @ replicate (8 - length head - length tail) 0 @ tail, s4))))"

datatype ip_addr = V4 "nat list" | V6 "nat list"

definition parse_ip :: "string \<Rightarrow> ip_addr option" where
  "parse_ip s =
     (case read_ipv4 s of
        Some (octets, rest) \<Rightarrow> if rest = [] then Some (V4 octets) else None
      | None \<Rightarrow> (case read_ipv6 s of
                   Some (groups, rest) \<Rightarrow> if rest = [] then Some (V6 groups) else None
                 | None \<Rightarrow> None))"

fun is_loopback :: "ip_addr \<Rightarrow> bool" where
  "is_loopback (V4 octets) = (hd octets = 127)"
| "is_loopback (V6 groups) = (groups = [0, 0, 0, 0, 0, 0, 0, 1])"


section \<open>Configuration\<close>

datatype webhook_build_error = Client | InsecureUrl | InvalidUrl | UnsafeUrl | WeakSecret

record webhook_dispatcher =
  wd_endpoint :: url
  wd_secret :: string

definition loopback_host :: "string \<Rightarrow> bool" where
  "loopback_host host \<longleftrightarrow>
     eq_ignore_ascii_case host ''localhost'' \<or> (case parse_ip host of None \<Rightarrow> False | Some a \<Rightarrow> is_loopback a)"

definition validate_endpoint :: "url \<Rightarrow> webhook_build_error + unit" where
  "validate_endpoint endpoint =
     (if url_username endpoint \<noteq> [] \<or> url_password endpoint \<noteq> None \<or> url_fragment endpoint \<noteq> None \<or> url_query endpoint \<noteq> None
      then Inl UnsafeUrl
      else result_bind (ok_or (url_host endpoint) InvalidUrl) (\<lambda>host.
        if url_scheme endpoint \<noteq> ''https'' \<and> \<not> (url_scheme endpoint = ''http'' \<and> loopback_host host)
        then Inl InsecureUrl else Inr ()))"

definition webhook_new :: "url_parser \<Rightarrow> bool \<Rightarrow> string \<Rightarrow> string \<Rightarrow> webhook_build_error + webhook_dispatcher" where
  "webhook_new url_parse client_built endpoint secret =
     result_bind (ok_or (url_parse endpoint) InvalidUrl) (\<lambda>endpoint.
     result_bind (validate_endpoint endpoint) (\<lambda>_.
     if length (filter (\<lambda>c. \<not> is_ascii_whitespace c) secret) < 32 then Inl WeakSecret
     else if \<not> client_built then Inl Client
     else Inr \<lparr>wd_endpoint = endpoint, wd_secret = secret\<rparr>))"


section \<open>Events\<close>

datatype webhook_event_data =
    AssessmentData string "string list" string
  | QuoteData string "64 word" string

record webhook_event =
  we_data :: webhook_event_data
  we_id :: string
  we_occurred_at :: string
  we_source :: string
  we_spec_version :: string
  we_event_type :: string

definition from_quote_event :: "(uuid \<Rightarrow> string) \<Rightarrow> quote_event_record \<Rightarrow> webhook_event" where
  "from_quote_event uuid_str event =
     \<lparr>we_data = QuoteData (uuid_str (ev_quote_id event)) (ev_sequence event)
        (if ev_status event = ''completed'' then ''ready'' else ev_status event),
      we_id = ''quote:'' @ uuid_str (ev_quote_id event) @ '':'' @ nat_to_string (unat (ev_sequence event)),
      we_occurred_at = ev_occurred_at event, we_source = ''api.canonical.plus'', we_spec_version = ''1.0'',
      we_event_type = ''canonical.quote.status.changed''\<rparr>"

definition from_assessment_event :: "(uuid \<Rightarrow> string) \<Rightarrow> assessment_event_record \<Rightarrow> webhook_event" where
  "from_assessment_event uuid_str event =
     \<lparr>we_data = AssessmentData (uuid_str (ae_assessment_id event)) (ae_framework_ids event) (ae_status event),
      we_id = ''readiness-assessment:'' @ uuid_str (ae_assessment_id event),
      we_occurred_at = ae_occurred_at event, we_source = ''api.canonical.plus'', we_spec_version = ''1.0'',
      we_event_type = ''readiness.assessment.received''\<rparr>"


section \<open>Delivery\<close>

abbreviation DELIVERY_ATTEMPTS :: nat where "DELIVERY_ATTEMPTS \<equiv> 3"

datatype delivery_error = RejectedBy nat | Serialize | Unavailable "nat option"

definition signature :: "(string \<Rightarrow> string \<Rightarrow> string) \<Rightarrow> string \<Rightarrow> string \<Rightarrow> string \<Rightarrow> string" where
  "signature mac secret timestamp body = ''v1='' @ hex_lower (mac secret (timestamp @ ''.'' @ body))"

record delivery =
  dl_body :: string
  dl_headers :: "(string \<times> string) list"

definition delivery_for ::
    "(string \<Rightarrow> string \<Rightarrow> string) \<Rightarrow> webhook_dispatcher \<Rightarrow> int \<Rightarrow> webhook_event \<Rightarrow> string \<Rightarrow> delivery" where
  "delivery_for mac w now event body =
     (let timestamp = int_to_string now
      in \<lparr>dl_body = body,
          dl_headers = [(''content-type'', ''application/json''), (''x-canonical-webhook-id'', we_id event),
            (''x-canonical-webhook-timestamp'', timestamp),
            (''x-canonical-webhook-signature'', signature mac (wd_secret w) timestamp body)]\<rparr>)"

datatype delivery_step = Post delivery | SleepMillis nat

text \<open>The loop from \<open>attempt\<close> on. \<open>send k d\<close> is the status answered to attempt \<open>k\<close>, \<open>None\<close> if the request failed.\<close>

function attempts_from ::
    "(nat \<Rightarrow> delivery \<Rightarrow> nat option) \<Rightarrow> delivery \<Rightarrow> nat \<Rightarrow> (delivery_error + unit) \<times> delivery_step list" where
  "attempts_from send d attempt =
     (if DELIVERY_ATTEMPTS \<le> attempt then (Inl (Unavailable None), [])
      else
        let continue = (let (r, steps) = attempts_from send d (attempt + 1)
                        in (r, Post d # SleepMillis (if attempt = 0 then 250 else 1000) # steps))
        in case send attempt d of
             Some status \<Rightarrow>
               if 200 \<le> status \<and> status < 300 then (Inr (), [Post d])
               else if 400 \<le> status \<and> status < 500 \<and> status \<noteq> 408 \<and> status \<noteq> 429 then (Inl (RejectedBy status), [Post d])
               else if attempt + 1 = DELIVERY_ATTEMPTS then (Inl (Unavailable (Some status)), [Post d])
               else continue
           | None \<Rightarrow>
               if attempt + 1 = DELIVERY_ATTEMPTS then (Inl (Unavailable None), [Post d]) else continue)"
  by pat_completeness auto
termination
  by (relation "measure (\<lambda>(_, _, attempt). DELIVERY_ATTEMPTS - attempt)") auto

declare attempts_from.simps [simp del]

definition dispatch ::
    "(string \<Rightarrow> string \<Rightarrow> string) \<Rightarrow> (webhook_event \<Rightarrow> string option) \<Rightarrow> (nat \<Rightarrow> delivery \<Rightarrow> nat option) \<Rightarrow> webhook_dispatcher
     \<Rightarrow> int \<Rightarrow> webhook_event \<Rightarrow> (delivery_error + unit) \<times> delivery_step list" where
  "dispatch mac to_vec send w now event =
     (case to_vec event of
        None \<Rightarrow> (Inl Serialize, [])
      | Some body \<Rightarrow> attempts_from send (delivery_for mac w now event body) 0)"



section \<open>Which endpoints are accepted\<close>

lemma digit_value_bracket: "digit_value (CHR ''['') = 16"
  by (simp add: digit_value_def is_ascii_digit_def)

lemma read_number_stuck: "radix \<le> digit_value c \<Longrightarrow> read_number radix n z b (c # s) = None"
  by (simp add: read_number_def Let_def)

lemma parse_ip_bracket: "parse_ip (CHR ''['' # h) = None"
proof -
  have none: "read_number 10 3 False 255 (CHR ''['' # h) = None" "read_number 16 4 True 65535 (CHR ''['' # h) = None"
    by (simp_all add: read_number_stuck digit_value_bracket)
  have v4: "read_ipv4 (CHR ''['' # h) = None"
    by (simp add: read_ipv4_def read_sep_def none)
  have "read_groups 8 0 (CHR ''['' # h) = ([], False, CHR ''['' # h)"
    by (simp add: read_groups.simps [of 8 0] read_sep_def none v4)
  then have "read_ipv6 (CHR ''['' # h) = None" by (simp add: read_ipv6_def)
  with v4 show ?thesis by (simp add: parse_ip_def)
qed

lemma parse_ip_localhost6: "parse_ip ''::1'' = Some (V6 [0, 0, 0, 0, 0, 0, 0, 1])"
proof -
  note defs = read_sep_def read_ipv4_def read_number_def digit_value_def is_ascii_digit_def Let_def
  have "read_groups 8 0 ''::1'' = ([], False, ''::1'')" by (simp add: read_groups.simps [of 8 0] defs)
  moreover have "read_groups 7 (Suc 0) [] = ([], False, [])" by (simp add: read_groups.simps [of 7 "Suc 0"] defs)
  then have "read_groups 7 0 ''1'' = ([1], False, [])" by (simp add: read_groups.simps [of 7 0] defs)
  ultimately have "read_ipv6 ''::1'' = Some (replicate 7 0 @ [1], [])" by (simp add: read_ipv6_def)
  moreover have "read_ipv4 ''::1'' = None" by (simp add: defs)
  moreover have "replicate 7 (0::nat) = [0, 0, 0, 0, 0, 0, 0]" by (simp add: eval_nat_numeral)
  ultimately show ?thesis by (simp add: parse_ip_def)
qed

text \<open>An endpoint is accepted exactly if it carries no credentials, query or fragment, has a host, and is HTTPS, or
  HTTP to a loopback host: \<open>localhost\<close> in any case, 127.x.y.z, or a text that parses as \<open>::1\<close>. A bracketed host, as
  \<open>Url::host_str\<close> spells IPv6 addresses, is never one, so plain HTTP to the IPv6 loopback is refused.\<close>

theorem endpoint_policy:
  "(validate_endpoint u = Inr () \<longleftrightarrow>
      url_username u = [] \<and> url_password u = None \<and> url_query u = None \<and> url_fragment u = None \<and>
      (\<exists>host. url_host u = Some host \<and>
        (url_scheme u = ''https'' \<or> url_scheme u = ''http'' \<and>
          (to_ascii_lowercase host = ''localhost'' \<or> (\<exists>a. parse_ip host = Some a \<and> is_loopback a))))) \<and>
   parse_ip ''127.0.0.1'' = Some (V4 [127, 0, 0, 1]) \<and> parse_ip ''::1'' = Some (V6 [0, 0, 0, 0, 0, 0, 0, 1]) \<and>
   \<not> loopback_host (CHR ''['' # h)"
proof (intro conjI)
  have lower: "to_ascii_lowercase ''localhost'' = ''localhost''"
    by (simp add: to_ascii_lowercase_def ascii_lower_def is_ascii_upper_def)
  show "validate_endpoint u = Inr () \<longleftrightarrow>
      url_username u = [] \<and> url_password u = None \<and> url_query u = None \<and> url_fragment u = None \<and>
      (\<exists>host. url_host u = Some host \<and>
        (url_scheme u = ''https'' \<or> url_scheme u = ''http'' \<and>
          (to_ascii_lowercase host = ''localhost'' \<or> (\<exists>a. parse_ip host = Some a \<and> is_loopback a))))"
    by (cases "url_host u")
      (auto simp: validate_endpoint_def result_bind_def ok_or_def loopback_host_def eq_ignore_ascii_case_def lower
        split: option.splits)
  show "parse_ip ''127.0.0.1'' = Some (V4 [127, 0, 0, 1])"
    by (simp add: parse_ip_def read_ipv4_def read_sep_def read_number_def digit_value_def is_ascii_digit_def Let_def)
  show "parse_ip ''::1'' = Some (V6 [0, 0, 0, 0, 0, 0, 0, 1])"
    by (rule parse_ip_localhost6)
  show "\<not> loopback_host (CHR ''['' # h)"
    by (simp add: loopback_host_def parse_ip_bracket eq_ignore_ascii_case_def lower)
      (simp add: to_ascii_lowercase_def ascii_lower_def is_ascii_upper_def)
qed


section \<open>Delivery is bounded\<close>

definition may_retry :: "nat option \<Rightarrow> bool" where
  "may_retry answer \<longleftrightarrow>
     (case answer of None \<Rightarrow> True
      | Some status \<Rightarrow> \<not> (200 \<le> status \<and> status < 300) \<and>
          (400 \<le> status \<and> status < 500 \<longrightarrow> status = 408 \<or> status = 429))"

definition verdict :: "nat option \<Rightarrow> delivery_error + unit" where
  "verdict answer =
     (case answer of None \<Rightarrow> Inl (Unavailable None)
      | Some status \<Rightarrow> if 200 \<le> status \<and> status < 300 then Inr ()
          else if may_retry answer then Inl (Unavailable (Some status)) else Inl (RejectedBy status))"

lemma attempts_from_step:
  "attempt < DELIVERY_ATTEMPTS \<Longrightarrow> attempts_from send d attempt =
     (if attempt + 1 = DELIVERY_ATTEMPTS \<or> \<not> may_retry (send attempt d) then (verdict (send attempt d), [Post d])
      else let (r, steps) = attempts_from send d (attempt + 1)
           in (r, Post d # SleepMillis (if attempt = 0 then 250 else 1000) # steps))"
  by (subst attempts_from.simps) (auto simp: may_retry_def verdict_def Let_def split: option.split)

text \<open>A delivery is one to three identical requests, at most 1250 ms of waiting apart: it stops at the first success
  or permanent refusal (a 4xx other than 408 and 429) or after the third request, with the outcome that answer
  deserves; an event that cannot be serialised is not sent at all.\<close>

theorem delivery_bounded:
  "dispatch mac to_vec send w now event =
     (case to_vec event of
        None \<Rightarrow> (Inl Serialize, [])
      | Some body \<Rightarrow>
          (let d = delivery_for mac w now event body
           in if \<not> may_retry (send 0 d) then (verdict (send 0 d), [Post d])
              else if \<not> may_retry (send 1 d) then (verdict (send 1 d), [Post d, SleepMillis 250, Post d])
              else (verdict (send 2 d), [Post d, SleepMillis 250, Post d, SleepMillis 1000, Post d])))"
  by (simp add: dispatch_def attempts_from_step Let_def numeral_2_eq_2 split: option.split)


section \<open>What a receiver can rely on\<close>

lemma int_to_string_no_dot: "CHR ''.'' \<notin> set (int_to_string i)"
  using nat_to_string_digits [of "nat i"] nat_to_string_digits [of "nat (- i)"]
  by (auto simp: int_to_string_def list_all_iff is_ascii_digit_def)

lemma int_to_string_inject: "int_to_string i = int_to_string j \<longleftrightarrow> i = j"
proof -
  have "CHR ''-'' \<notin> set (nat_to_string n)" for n
    using nat_to_string_digits [of n] by (auto simp: list_all_iff is_ascii_digit_def)
  then show ?thesis by (auto simp: int_to_string_def) (metis list.set_intros(1))+
qed

text \<open>The signature binds the timestamp and the body: it is \<open>v1=\<close> and the lower-case hexadecimal code of the MAC of
  the signed text, so equal signatures mean equal MACs, and the signed texts of two deliveries are equal only if
  both their timestamps and their bodies are.\<close>

theorem signature_binds:
  "(signature mac secret (int_to_string now) body = signature mac secret (int_to_string now') body' \<longleftrightarrow>
      mac secret (int_to_string now @ ''.'' @ body) = mac secret (int_to_string now' @ ''.'' @ body')) \<and>
   (int_to_string now @ ''.'' @ body = int_to_string now' @ ''.'' @ body' \<longleftrightarrow> now = now' \<and> body = body') \<and>
   length (signature mac secret (int_to_string now) body) = 3 + 2 * length (mac secret (int_to_string now @ ''.'' @ body))"
proof -
  have "int_to_string now @ CHR ''.'' # body = int_to_string now' @ CHR ''.'' # body' \<longleftrightarrow> now = now' \<and> body = body'"
    using append_sep_inject [OF int_to_string_no_dot int_to_string_no_dot, of now body now' body'] int_to_string_inject by blast
  then show ?thesis by (simp add: signature_def hex_lower_inject)
qed

text \<open>Webhook identifiers deduplicate: two quote events have the same identifier exactly if they are the same sequence
  number of the same quote, and no quote event has the identifier of an assessment event. The hypotheses are that
  UUIDs print injectively and without colons.\<close>

theorem webhook_ids_unique:
  assumes "inj uuid_str" and "\<And>u. CHR '':'' \<notin> set (uuid_str u)"
  shows "(we_id (from_quote_event uuid_str e) = we_id (from_quote_event uuid_str e') \<longleftrightarrow>
      ev_quote_id e = ev_quote_id e' \<and> ev_sequence e = ev_sequence e') \<and>
    we_id (from_quote_event uuid_str e) \<noteq> we_id (from_assessment_event uuid_str a)"
proof -
  have "uuid_str (ev_quote_id e) @ CHR '':'' # x = uuid_str (ev_quote_id e') @ CHR '':'' # y \<longleftrightarrow>
      uuid_str (ev_quote_id e) = uuid_str (ev_quote_id e') \<and> x = y" for x y
    using append_sep_inject [OF assms(2) assms(2)] by blast
  then show ?thesis
    using assms(1) by (auto simp: from_quote_event_def from_assessment_event_def inj_eq)
qed

theorem webhook_ids_unique_witness:
  "we_id (from_quote_event (\<lambda>u. nat_to_string (unat u)) \<lparr>ev_owner_subject = ''alice'', ev_quote_id = 1, ev_sequence = 2,
      ev_status = ''queued'', ev_occurred_at = ''t''\<rparr>) \<noteq>
   we_id (from_quote_event (\<lambda>u. nat_to_string (unat u)) \<lparr>ev_owner_subject = ''alice'', ev_quote_id = 1, ev_sequence = 3,
      ev_status = ''analyzing'', ev_occurred_at = ''t''\<rparr>)"
proof -
  have "inj (\<lambda>u :: uuid. nat_to_string (unat u))" by (rule injI) (simp add: word_unat_eq_iff)
  moreover have "CHR '':'' \<notin> set (nat_to_string (unat u))" for u :: uuid
    using nat_to_string_digits [of "unat u"] by (auto simp: list_all_iff is_ascii_digit_def)
  ultimately show ?thesis by (subst webhook_ids_unique [THEN conjunct1]) simp_all
qed

end
