(* ===== verification/Pre_Interest.thy ===== *)
theory Pre_Interest
  imports Records
begin

text \<open>
  Pre-interest registration (\<open>src/pre_interest.rs\<close>): validation and normalisation of a registration, and the keyed
  digests derived from it. Texts are the bytes of their UTF-8 encoding; \<open>chars\<close> gives the characters. Parameters:
  \<open>Url::parse\<close>, the serialisation of the URL a text parses to, and HMAC-SHA-256 (\<open>mac key message\<close>).
\<close>

section \<open>Data\<close>

abbreviation MAX_EMAIL_BYTES :: nat where "MAX_EMAIL_BYTES \<equiv> 320"
abbreviation MAX_ORGANIZATION_CHARS :: nat where "MAX_ORGANIZATION_CHARS \<equiv> 200"
abbreviation MAX_DISPLAY_NAME_CHARS :: nat where "MAX_DISPLAY_NAME_CHARS \<equiv> 120"
abbreviation MAX_WEBSITE_URL_BYTES :: nat where "MAX_WEBSITE_URL_BYTES \<equiv> 2048"
abbreviation MAX_INTERESTS :: nat where "MAX_INTERESTS \<equiv> 9"
abbreviation MAX_CONSENT_REVISION_BYTES :: nat where "MAX_CONSENT_REVISION_BYTES \<equiv> 64"
abbreviation MAX_MARKETING_CONSENT_REVISION_BYTES :: nat where "MAX_MARKETING_CONSENT_REVISION_BYTES \<equiv> 64"
abbreviation MAX_LOCALE_BYTES :: nat where "MAX_LOCALE_BYTES \<equiv> 35"
abbreviation MAX_REFERRAL_BYTES :: nat where "MAX_REFERRAL_BYTES \<equiv> 64"
abbreviation MIN_DERIVATION_KEY_BYTES :: nat where "MIN_DERIVATION_KEY_BYTES \<equiv> 32"

abbreviation nul :: char where "nul \<equiv> CHR 0x00"

definition EMAIL_ALIAS_CONTEXT :: string where
  "EMAIL_ALIAS_CONTEXT = ''canonical.pre-interest.email-alias.v1'' @ [nul]"

definition REQUEST_FINGERPRINT_CONTEXT :: string where
  "REQUEST_FINGERPRINT_CONTEXT = ''canonical.pre-interest.request-fingerprint.v1'' @ [nul]"

definition QUOTE_NEXT_STEP_URL :: string where
  "QUOTE_NEXT_STEP_URL = ''https://user.canonical.plus/u/quote''"

datatype party_type = Individual | Organization

datatype interest_area = ReadinessAssessment | Soc2 | Iso27001 | Hipaa | PciDss4 | Fedramp | Nist | Gdpr | Cmmc

fun interest_str :: "interest_area \<Rightarrow> string" where
  "interest_str ReadinessAssessment = ''readiness_assessment''"
| "interest_str Soc2 = ''soc2''"
| "interest_str Iso27001 = ''iso_27001''"
| "interest_str Hipaa = ''hipaa''"
| "interest_str PciDss4 = ''pci_dss_4''"
| "interest_str Fedramp = ''fedramp''"
| "interest_str Nist = ''nist''"
| "interest_str Gdpr = ''gdpr''"
| "interest_str Cmmc = ''cmmc''"

text \<open>The derived order: that of the declaration.\<close>

fun interest_index :: "interest_area \<Rightarrow> nat" where
  "interest_index ReadinessAssessment = 0"
| "interest_index Soc2 = 1"
| "interest_index Iso27001 = 2"
| "interest_index Hipaa = 3"
| "interest_index PciDss4 = 4"
| "interest_index Fedramp = 5"
| "interest_index Nist = 6"
| "interest_index Gdpr = 7"
| "interest_index Cmmc = 8"

lemma interest_index_inject: "interest_index a = interest_index b \<longleftrightarrow> a = b"
  by (cases a; cases b) simp_all

instantiation interest_area :: linorder
begin

definition less_eq_interest_area :: "interest_area \<Rightarrow> interest_area \<Rightarrow> bool" where
  "less_eq_interest_area a b \<longleftrightarrow> interest_index a \<le> interest_index b"

definition less_interest_area :: "interest_area \<Rightarrow> interest_area \<Rightarrow> bool" where
  "less_interest_area a b \<longleftrightarrow> interest_index a < interest_index b"

instance
  by standard (auto simp: less_eq_interest_area_def less_interest_area_def interest_index_inject)

end

record registration_request =
  rq_request_id :: uuid
  rq_email :: string
  rq_party_type :: party_type
  rq_organization_name :: "string option"
  rq_interest_areas :: "interest_area list"
  rq_consent_revision :: string
  rq_consented_at :: string
  rq_source_host :: string
  rq_locale :: "string option"
  rq_referral_code :: "string option"
  rq_display_name :: "string option"
  rq_website_url :: "string option"
  rq_registration_consent :: bool
  rq_marketing_consent :: bool
  rq_marketing_consent_revision :: "string option"

datatype registration_host = UserHost | OrganizationHost

datatype validation_error =
    DuplicateInterest | EmptyInterestSet | InvalidConsentRevision | InvalidConsentedAt | InvalidDisplayName | InvalidEmail
  | InvalidLocale | InvalidMarketingConsentRevision | InvalidOrganizationName | InvalidReferralCode | InvalidSourceHost
  | InvalidWebsiteUrl | OrganizationNameForbidden | OrganizationNameRequired | PartyHostMismatch
  | RegistrationConsentRequired | SourceHostMismatch | TooManyInterests | UnexpectedMarketingConsentRevision

fun validation_message :: "validation_error \<Rightarrow> string" where
  "validation_message DuplicateInterest = ''interest areas must be unique''"
| "validation_message EmptyInterestSet = ''at least one interest area is required''"
| "validation_message InvalidConsentRevision = ''consent revision is invalid''"
| "validation_message InvalidConsentedAt = ''consent timestamp is invalid''"
| "validation_message InvalidDisplayName = ''display name is invalid''"
| "validation_message InvalidEmail = ''email is invalid''"
| "validation_message InvalidLocale = ''locale is invalid''"
| "validation_message InvalidMarketingConsentRevision = ''marketing consent revision is invalid''"
| "validation_message InvalidOrganizationName = ''organization name is invalid''"
| "validation_message InvalidReferralCode = ''referral code is invalid''"
| "validation_message InvalidSourceHost = ''registration host is invalid''"
| "validation_message InvalidWebsiteUrl = ''website URL is invalid''"
| "validation_message OrganizationNameForbidden = ''organization name is forbidden for individual registration''"
| "validation_message OrganizationNameRequired = ''organization name is required for organization registration''"
| "validation_message PartyHostMismatch = ''registration host and party type do not agree''"
| "validation_message RegistrationConsentRequired = ''registration consent must be affirmatively granted''"
| "validation_message SourceHostMismatch = ''request source host does not match the verified request host''"
| "validation_message TooManyInterests = ''too many interest areas were supplied''"
| "validation_message UnexpectedMarketingConsentRevision =
     ''marketing consent revision is forbidden without marketing consent''"

definition host_parse :: "string \<Rightarrow> validation_error + registration_host" where
  "host_parse value =
     (if value = ''user.canonical.plus'' then Inr UserHost
      else if value = ''org.canonical.plus'' then Inr OrganizationHost else Inl InvalidSourceHost)"

fun host_str :: "registration_host \<Rightarrow> string" where
  "host_str UserHost = ''user.canonical.plus''"
| "host_str OrganizationHost = ''org.canonical.plus''"

fun host_party_type :: "registration_host \<Rightarrow> party_type" where
  "host_party_type UserHost = Individual"
| "host_party_type OrganizationHost = Organization"

record validated_registration =
  vr_request_id :: uuid
  vr_email :: string
  vr_party_type :: party_type
  vr_organization_name :: "string option"
  vr_interest_areas :: "interest_area list"
  vr_consent_revision :: string
  vr_consented_at :: string
  vr_source_host :: registration_host
  vr_locale :: "string option"
  vr_referral_code :: "string option"
  vr_display_name :: "string option"
  vr_website_url :: "string option"
  vr_registration_consent :: bool
  vr_marketing_consent :: bool
  vr_marketing_consent_revision :: "string option"


section \<open>Texts\<close>

definition is_portable_identifier :: "string \<Rightarrow> nat \<Rightarrow> bool" where
  "is_portable_identifier value max_bytes \<longleftrightarrow>
     value \<noteq> [] \<and> length value \<le> max_bytes \<and> is_ascii_alphanumeric (hd value) \<and>
     list_all (\<lambda>c. is_ascii_alphanumeric c \<or> c \<in> {CHR ''.'', CHR ''_'', CHR ''-''}) value"

definition valid_domain_label :: "string \<Rightarrow> bool" where
  "valid_domain_label label \<longleftrightarrow>
     label \<noteq> [] \<and> \<not> starts_with label ''-'' \<and> \<not> ends_with label ''-'' \<and>
     list_all (\<lambda>c. is_ascii_alphanumeric c \<or> c = CHR ''-'') label"

definition normalize_email :: "string \<Rightarrow> validation_error + string" where
  "normalize_email value =
     (let trimmed = trim value
      in if trimmed = [] \<or> MAX_EMAIL_BYTES < length trimmed \<or> \<not> is_ascii trimmed \<or>
            list_ex (\<lambda>g. is_control g \<or> is_whitespace g) (chars trimmed)
         then Inl InvalidEmail
         else case split_once CHR ''@'' trimmed of
                None \<Rightarrow> Inl InvalidEmail
              | Some (local, domain) \<Rightarrow>
                  if local = [] \<or> domain = [] \<or> CHR ''@'' \<in> set domain \<or> starts_with local ''.'' \<or> ends_with local ''.'' \<or>
                     contains_sub local ''..'' \<or> CHR ''.'' \<notin> set domain \<or> \<not> list_all valid_domain_label (split_on CHR ''.'' domain)
                  then Inl InvalidEmail
                  else Inr (to_ascii_lowercase local @ ''@'' @ to_ascii_lowercase domain))"

definition normalize_human_text :: "string \<Rightarrow> nat \<Rightarrow> validation_error \<Rightarrow> validation_error + string" where
  "normalize_human_text value max_chars error =
     (if list_ex is_control (chars value) then Inl error
      else let normalized = join '' '' (split_whitespace value)
           in if normalized = [] \<or> max_chars < length (chars normalized) then Inl error else Inr normalized)"

definition normalize_website_url :: "url_parser \<Rightarrow> (string \<Rightarrow> string) \<Rightarrow> string \<Rightarrow> validation_error + string" where
  "normalize_website_url url_parse url_serialize value =
     (let normalized = trim value
      in if normalized = [] \<or> MAX_WEBSITE_URL_BYTES < length normalized \<or> list_ex is_control (chars normalized) \<or>
            list_ex is_whitespace (chars normalized)
         then Inl InvalidWebsiteUrl
         else result_bind (ok_or (url_parse normalized) InvalidWebsiteUrl) (\<lambda>parsed.
           if url_scheme parsed \<noteq> ''https'' \<or> url_host parsed = None \<or> url_username parsed \<noteq> [] \<or> url_password parsed \<noteq> None \<or>
              url_fragment parsed \<noteq> None
           then Inl InvalidWebsiteUrl else Inr (url_serialize normalized)))"

definition is_locale :: "string \<Rightarrow> bool" where
  "is_locale value =
     (case split_on CHR ''-'' value of
        [] \<Rightarrow> False
      | language # segments \<Rightarrow>
          2 \<le> length language \<and> length language \<le> 3 \<and> list_all is_ascii_alphabetic language \<and>
          list_all (\<lambda>segment. 2 \<le> length segment \<and> length segment \<le> 8 \<and> list_all is_ascii_alphanumeric segment) segments)"

definition normalize_locale :: "string \<Rightarrow> validation_error + string" where
  "normalize_locale value =
     (let normalized = trim value
      in if length normalized < 2 \<or> MAX_LOCALE_BYTES < length normalized \<or> \<not> is_locale normalized then Inl InvalidLocale
         else Inr normalized)"

definition normalize_referral :: "string \<Rightarrow> validation_error + string" where
  "normalize_referral value =
     (let normalized = trim value
      in if \<not> is_portable_identifier normalized MAX_REFERRAL_BYTES then Inl InvalidReferralCode else Inr normalized)"


section \<open>Timestamps\<close>

text \<open>\<open>bytes.get(i)\<close>.\<close>

definition byte_at :: "string \<Rightarrow> nat \<Rightarrow> char option" where
  "byte_at bytes i = (if i < length bytes then Some (bytes ! i) else None)"

definition parse_two :: "string \<Rightarrow> nat \<Rightarrow> nat option" where
  "parse_two bytes start =
     (case (byte_at bytes start, byte_at bytes (start + 1)) of
        (Some first, Some second) \<Rightarrow>
          if is_ascii_digit first \<and> is_ascii_digit second then Some ((byte first - 48) * 10 + (byte second - 48)) else None
      | _ \<Rightarrow> None)"

definition two_within :: "string \<Rightarrow> nat \<Rightarrow> nat \<Rightarrow> nat \<Rightarrow> bool" where
  "two_within bytes start low high = (case parse_two bytes start of None \<Rightarrow> False | Some n \<Rightarrow> low \<le> n \<and> n \<le> high)"

text \<open>The end of the optional fraction that begins at byte 19; \<open>None\<close> if it has no digits.\<close>

definition fraction_end :: "string \<Rightarrow> nat option" where
  "fraction_end bytes =
     (if byte_at bytes 19 = Some CHR ''.''
      then let n = length (takeWhile is_ascii_digit (drop 20 bytes)) in if n = 0 then None else Some (20 + n)
      else Some 19)"

definition is_rfc3339 :: "string \<Rightarrow> bool" where
  "is_rfc3339 value \<longleftrightarrow>
     20 \<le> length value \<and> length value \<le> 35 \<and> byte_at value 4 = Some CHR ''-'' \<and> byte_at value 7 = Some CHR ''-'' \<and>
     byte_at value 10 = Some CHR ''T'' \<and> byte_at value 13 = Some CHR '':'' \<and> byte_at value 16 = Some CHR '':'' \<and>
     list_all is_ascii_digit (take 4 value) \<and>
     two_within value 5 1 12 \<and> two_within value 8 1 31 \<and> two_within value 11 0 23 \<and> two_within value 14 0 59 \<and>
     two_within value 17 0 60 \<and>
     (case fraction_end value of
        None \<Rightarrow> False
      | Some tz \<Rightarrow>
          byte_at value tz = Some CHR ''Z'' \<and> tz + 1 = length value \<or>
          byte_at value tz \<in> {Some CHR ''+'', Some CHR ''-''} \<and> tz + 6 = length value \<and> byte_at value (tz + 3) = Some CHR '':'' \<and>
            two_within value (tz + 1) 0 23 \<and> two_within value (tz + 4) 0 59)"


section \<open>Validation\<close>

definition validate_organization_name :: "party_type \<Rightarrow> string option \<Rightarrow> validation_error + string option" where
  "validate_organization_name party name =
     (case party of
        Individual \<Rightarrow> if name \<noteq> None then Inl OrganizationNameForbidden else Inr None
      | Organization \<Rightarrow>
          result_bind (ok_or name OrganizationNameRequired) (\<lambda>value.
          result_bind (normalize_human_text value MAX_ORGANIZATION_CHARS InvalidOrganizationName) (\<lambda>n. Inr (Some n))))"

text \<open>Through the ordered set: sorted, without repetitions.\<close>

definition validate_interests :: "interest_area list \<Rightarrow> validation_error + interest_area list" where
  "validate_interests areas =
     (if areas = [] then Inl EmptyInterestSet
      else if MAX_INTERESTS < length areas then Inl TooManyInterests
      else let ordered = sort (remdups areas)
           in if length ordered \<noteq> length areas then Inl DuplicateInterest else Inr ordered)"

definition validate_marketing :: "bool \<Rightarrow> string option \<Rightarrow> validation_error + string option" where
  "validate_marketing consent revision =
     (case (consent, revision) of
        (True, Some value) \<Rightarrow>
          let value = trim value
          in if \<not> is_portable_identifier value MAX_MARKETING_CONSENT_REVISION_BYTES then Inl InvalidMarketingConsentRevision else Inr (Some value)
      | (True, None) \<Rightarrow> Inl InvalidMarketingConsentRevision
      | (False, Some _) \<Rightarrow> Inl UnexpectedMarketingConsentRevision
      | (False, None) \<Rightarrow> Inr None)"

definition validate_registration ::
    "url_parser \<Rightarrow> (string \<Rightarrow> string) \<Rightarrow> registration_request \<Rightarrow> string \<Rightarrow> validation_error + validated_registration" where
  "validate_registration url_parse url_serialize rq verified_host =
     result_bind (host_parse verified_host) (\<lambda>host.
     if rq_source_host rq \<noteq> verified_host then Inl SourceHostMismatch
     else if rq_party_type rq \<noteq> host_party_type host then Inl PartyHostMismatch
     else if \<not> rq_registration_consent rq then Inl RegistrationConsentRequired
     else
     result_bind (normalize_email (rq_email rq)) (\<lambda>email.
     result_bind (validate_organization_name (rq_party_type rq) (rq_organization_name rq)) (\<lambda>organization_name.
     result_bind (option_try (\<lambda>v. normalize_human_text v MAX_DISPLAY_NAME_CHARS InvalidDisplayName) (rq_display_name rq)) (\<lambda>display_name.
     result_bind (option_try (normalize_website_url url_parse url_serialize) (rq_website_url rq)) (\<lambda>website_url.
     result_bind (validate_interests (rq_interest_areas rq)) (\<lambda>interest_areas.
     let consent_revision = trim (rq_consent_revision rq); consented_at = trim (rq_consented_at rq)
     in if \<not> is_portable_identifier consent_revision MAX_CONSENT_REVISION_BYTES then Inl InvalidConsentRevision
     else if \<not> is_rfc3339 consented_at then Inl InvalidConsentedAt
     else
     result_bind (option_try normalize_locale (rq_locale rq)) (\<lambda>locale_tag.
     result_bind (option_try normalize_referral (rq_referral_code rq)) (\<lambda>referral_code.
     result_bind (validate_marketing (rq_marketing_consent rq) (rq_marketing_consent_revision rq)) (\<lambda>marketing_revision.
     Inr \<lparr>vr_request_id = rq_request_id rq, vr_email = email, vr_party_type = rq_party_type rq,
          vr_organization_name = organization_name, vr_interest_areas = interest_areas,
          vr_consent_revision = consent_revision, vr_consented_at = consented_at, vr_source_host = host,
          vr_locale = locale_tag, vr_referral_code = referral_code, vr_display_name = display_name,
          vr_website_url = website_url, vr_registration_consent = True,
          vr_marketing_consent = rq_marketing_consent rq, vr_marketing_consent_revision = marketing_revision\<rparr>)))))))))"


section \<open>Keyed digests\<close>

text \<open>A MAC in progress: its key and the message so far. HMAC takes keys of any length, so only the length check fails.\<close>

datatype derivation_key_error = DerivationKeyError

type_synonym mac_state = "string \<times> string"

definition new_mac :: "string \<Rightarrow> string \<Rightarrow> derivation_key_error + mac_state" where
  "new_mac key ctx = (if length key < MIN_DERIVATION_KEY_BYTES then Inl DerivationKeyError else Inr (key, ctx))"

definition mac_update :: "mac_state \<Rightarrow> string \<Rightarrow> mac_state" where
  "mac_update m bytes = (fst m, snd m @ bytes)"

definition update_field :: "mac_state \<Rightarrow> string \<Rightarrow> mac_state" where
  "update_field m value = mac_update (mac_update m value) [nul]"

definition update_optional :: "mac_state \<Rightarrow> string option \<Rightarrow> mac_state" where
  "update_optional m value =
     (case value of Some v \<Rightarrow> update_field (mac_update m [CHR 0x01]) v | None \<Rightarrow> mac_update m [nul, nul])"

definition finish_mac :: "(string \<Rightarrow> string \<Rightarrow> string) \<Rightarrow> mac_state \<Rightarrow> string" where
  "finish_mac mac m = mac (fst m) (snd m)"

definition to_hex :: "string \<Rightarrow> string" where
  "to_hex digest = hex_lower digest"

fun party_type_name :: "party_type \<Rightarrow> string" where
  "party_type_name Individual = ''individual''"
| "party_type_name Organization = ''organization''"

definition boolean_name :: "bool \<Rightarrow> string" where
  "boolean_name value = (if value then ''true'' else ''false'')"

definition derive_email_alias ::
    "(string \<Rightarrow> string \<Rightarrow> string) \<Rightarrow> string \<Rightarrow> string \<Rightarrow> derivation_key_error + string" where
  "derive_email_alias mac key email =
     result_bind (new_mac key EMAIL_ALIAS_CONTEXT) (\<lambda>m. Inr (finish_mac mac (update_field m email)))"

definition fingerprint_state :: "mac_state \<Rightarrow> validated_registration \<Rightarrow> mac_state" where
  "fingerprint_state m r =
     (let m = update_field m (vr_email r);
          m = update_field m (party_type_name (vr_party_type r));
          m = update_optional m (vr_organization_name r);
          m = fold (\<lambda>interest m. update_field m (interest_str interest)) (vr_interest_areas r) m;
          m = update_field m (vr_consent_revision r);
          m = update_field m (vr_consented_at r);
          m = update_field m (host_str (vr_source_host r));
          m = update_optional m (vr_locale r);
          m = update_optional m (vr_referral_code r);
          m = update_optional m (vr_display_name r);
          m = update_optional m (vr_website_url r);
          m = update_field m (boolean_name (vr_registration_consent r));
          m = update_field m (boolean_name (vr_marketing_consent r))
      in update_optional m (vr_marketing_consent_revision r))"

definition derive_request_fingerprint ::
    "(string \<Rightarrow> string \<Rightarrow> string) \<Rightarrow> string \<Rightarrow> validated_registration \<Rightarrow> derivation_key_error + string" where
  "derive_request_fingerprint mac key r =
     result_bind (new_mac key REQUEST_FINGERPRINT_CONTEXT) (\<lambda>m. Inr (finish_mac mac (fingerprint_state m r)))"

record registration_response =
  rr_receipt_id :: uuid
  rr_status :: string
  rr_accepted_at :: string
  rr_next_step_url :: string

definition accepted_response :: "uuid \<Rightarrow> string \<Rightarrow> party_type \<Rightarrow> validation_error + registration_response" where
  "accepted_response receipt accepted_at party =
     (if \<not> is_rfc3339 accepted_at then Inl InvalidConsentedAt
      else Inr \<lparr>rr_receipt_id = receipt, rr_status = ''accepted'', rr_accepted_at = accepted_at,
                rr_next_step_url = QUOTE_NEXT_STEP_URL\<rparr>)"


section \<open>No accepted text holds a zero byte\<close>

text \<open>Of UTF-8 only this is used: a byte below 128 is a character of its own.\<close>

definition utf8 :: "string \<Rightarrow> bool" where
  "utf8 s \<longleftrightarrow> list_all (\<lambda>g. byte (hd g) < 128 \<longrightarrow> length g = 1) (chars s)"

lemma chars_tail: "g \<in> set (chars s) \<Longrightarrow> list_all is_continuation (tl g)"
  by (induction s rule: chars.induct) (auto simp: list_all_iff dest: set_takeWhileD)

lemma no_control_no_nul:
  assumes "utf8 s" and "\<not> list_ex is_control (chars s)"
  shows "nul \<notin> set s"
proof
  assume "nul \<in> set s"
  then have "nul \<in> set (concat (chars s))" by simp
  then obtain g where g: "g \<in> set (chars s)" and mem: "nul \<in> set g" by (auto simp del: concat_chars)
  obtain c cs where gc: "g = c # cs" using mem by (cases g) auto
  have "nul \<notin> set cs" using chars_tail [OF g] by (auto simp: gc list_all_iff is_continuation_def)
  with mem gc have "c = nul" by auto
  with assms(1) g gc have "g = [nul]" by (auto simp: utf8_def list_all_iff)
  with assms(2) g show False by (auto simp: list_ex_iff)
qed

lemma set_split_whitespace: "w \<in> set (split_whitespace s) \<Longrightarrow> set w \<subseteq> set s"
proof -
  assume w: "w \<in> set (split_whitespace s)"
  let ?f = "\<lambda>g (cur, acc). if is_whitespace g then ([], if cur = [] then acc else cur # acc) else (g @ cur, acc)"
  have "set (fst (foldr ?f gs ([], []))) \<subseteq> set (concat gs) \<and> \<Union> (set ` set (snd (foldr ?f gs ([], [])))) \<subseteq> set (concat gs)" for gs
    by (induction gs) (auto simp: case_prod_beta split: if_splits)
  from this [of "chars s"] w show ?thesis
    by (auto simp: split_whitespace_def Let_def case_prod_beta split: if_splits)
qed

lemma set_join: "set (join sep ws) \<subseteq> \<Union> (set ` set ws) \<union> set sep"
  by (induction sep ws rule: join.induct) auto

lemma human_text_no_nul:
  assumes "normalize_human_text s n e = Inr t" and "utf8 s"
  shows "nul \<notin> set t"
proof -
  have t: "t = join '' '' (split_whitespace s)" and c: "\<not> list_ex is_control (chars s)"
    using assms(1) by (auto simp: normalize_human_text_def Let_def split: if_splits)
  have "set t \<subseteq> set s \<union> {CHR '' ''}"
    using set_join [of "'' ''" "split_whitespace s"] set_split_whitespace [of _ s] unfolding t by fastforce
  with no_control_no_nul [OF assms(2) c] show ?thesis by auto
qed

lemma portable_chars:
  "is_portable_identifier v n \<Longrightarrow> nul \<notin> set v \<and> CHR '':'' \<notin> set v"
  by (auto simp: is_portable_identifier_def list_all_iff ascii_defs)

lemma email_no_nul: "normalize_email v = Inr e \<Longrightarrow> nul \<notin> set e"
proof -
  assume e: "normalize_email v = Inr e"
  then obtain a b where ok: "is_ascii (trim v)" "\<not> list_ex (\<lambda>g. is_control g \<or> is_whitespace g) (chars (trim v))"
    and s: "split_once CHR ''@'' (trim v) = Some (a, b)" and ee: "e = to_ascii_lowercase a @ ''@'' @ to_ascii_lowercase b"
    by (auto simp: normalize_email_def Let_def split: if_splits option.splits)
  have "nul \<notin> set (trim v)" using ok by (auto simp: chars_ascii list_ex_iff)
  with split_once_Some [OF s] have ab: "nul \<notin> set a" "nul \<notin> set b" by auto
  have "byte (ascii_lower c) = 0 \<Longrightarrow> byte c = 0" for c
    by (auto simp: ascii_lower_def is_ascii_upper_def split: if_splits)
  moreover have "c = nul" if "byte c = 0" for c
  proof -
    have "c = char_of (byte c)" by simp
    also have "\<dots> = char_of (0::nat)" by (simp only: that)
    finally show ?thesis by (simp add: char_of_def)
  qed
  ultimately have "ascii_lower c = nul \<Longrightarrow> c = nul" for c by auto
  then have "nul \<notin> set (to_ascii_lowercase x)" if "nul \<notin> set x" for x
    using that by (metis imageE list.set_map to_ascii_lowercase_def)
  with ab show ?thesis by (simp add: ee)
qed

lemma locale_no_nul: "normalize_locale v = Inr t \<Longrightarrow> nul \<notin> set t"
proof -
  assume "normalize_locale v = Inr t"
  then have l: "is_locale t" by (auto simp: normalize_locale_def Let_def split: if_splits)
  moreover have "\<not> is_ascii_alphanumeric nul" "\<not> is_ascii_alphabetic nul" by (simp_all add: ascii_defs)
  ultimately have "nul \<notin> \<Union> (set ` set (split_on CHR ''-'' t))"
    by (fastforce simp: is_locale_def list_all_iff split: list.splits)
  moreover have "set (join [CHR ''-''] (split_on CHR ''-'' t)) \<subseteq> \<Union> (set ` set (split_on CHR ''-'' t)) \<union> {CHR ''-''}"
    using set_join [of "[CHR ''-'']" "split_on CHR ''-'' t"] by simp
  ultimately show ?thesis unfolding join_split_on by auto
qed


lemma two_within_digits: "two_within s i a b \<Longrightarrow> j \<in> {i, i + 1} \<Longrightarrow> is_ascii_digit (s ! j)"
  by (auto simp: two_within_def parse_two_def byte_at_def split: option.splits if_splits)

lemma fraction_digits:
  assumes "fraction_end s = Some tz" and "19 < j" and "j < tz"
  shows "is_ascii_digit (s ! j)"
proof -
  let ?ds = "takeWhile is_ascii_digit (drop 20 s)"
  from assms have tz: "tz = 20 + length ?ds" by (auto simp: fraction_end_def Let_def split: if_splits)
  have "j - 20 < length ?ds" using assms tz by simp
  then have "is_ascii_digit (?ds ! (j - 20))" and "?ds ! (j - 20) = drop 20 s ! (j - 20)"
    using nth_mem [of "j - 20" ?ds] by (auto dest: set_takeWhileD simp: takeWhile_nth)
  moreover have "j - 20 < length (drop 20 s)" using \<open>j - 20 < length ?ds\<close> length_takeWhile_le [of is_ascii_digit "drop 20 s"] by linarith
  ultimately show ?thesis using assms(2) by simp
qed

definition time_char :: "char \<Rightarrow> bool" where
  "time_char c \<longleftrightarrow> is_ascii_digit c \<or> c \<in> {CHR ''-'', CHR ''T'', CHR '':'', CHR ''.'', CHR ''Z'', CHR ''+''}"

lemma rfc3339_chars:
  assumes "is_rfc3339 s"
  shows "nul \<notin> set s \<and> CHR '':'' \<in> set s"
proof -
  note r = assms [unfolded is_rfc3339_def]
  obtain tz where tz: "fraction_end s = Some tz" using r by (auto split: option.splits)
  have tail: "s ! tz = CHR ''Z'' \<and> tz + 1 = length s \<or>
      (s ! tz = CHR ''+'' \<or> s ! tz = CHR ''-'') \<and> tz + 6 = length s \<and> s ! (tz + 3) = CHR '':'' \<and>
      two_within s (tz + 1) 0 23 \<and> two_within s (tz + 4) 0 59"
    using r tz by (auto simp: byte_at_def split: if_splits)
  have "time_char (s ! j)" if j: "j < length s" for j
  proof -
    have "j < 4 \<or> j \<in> {4, 7, 10, 13, 16} \<or> j \<in> {5, 6, 8, 9, 11, 12, 14, 15, 17, 18} \<or> j = 19 \<and> tz \<noteq> 19 \<or>
        19 < j \<and> j < tz \<or> tz \<le> j \<and> 19 \<le> j"
      by simp presburger
    then consider "j < 4" | "j \<in> {4, 7, 10, 13, 16}" | "j \<in> {5, 6, 8, 9, 11, 12, 14, 15, 17, 18}" | "j = 19" "tz \<noteq> 19"
      | "19 < j" "j < tz" | "tz \<le> j" "19 \<le> j" by blast
    then show ?thesis
    proof cases
      case 1
      then have "s ! j \<in> set (take 4 s)" using j by (metis in_set_conv_nth length_take min_less_iff_conj nth_take)
      with r show ?thesis by (auto simp: time_char_def list_all_iff)
    next
      case 2
      with r show ?thesis by (auto simp: time_char_def byte_at_def split: if_splits)
    next
      case 3
      with r show ?thesis
        using two_within_digits [of s 5 1 12 j] two_within_digits [of s 8 1 31 j] two_within_digits [of s 11 0 23 j]
          two_within_digits [of s 14 0 59 j] two_within_digits [of s 17 0 60 j]
        by (auto simp: time_char_def)
    next
      case 4
      with tz show ?thesis by (auto simp: fraction_end_def byte_at_def time_char_def split: if_splits)
    next
      case 5
      with fraction_digits [OF tz] show ?thesis by (simp add: time_char_def)
    next
      case 6
      have "tz + 1 = length s \<or> tz + 6 = length s" using tail by blast
      then have "j = tz \<or> j \<in> {tz + 1, tz + 2, tz + 4, tz + 5} \<and> tz + 6 = length s \<or> j = tz + 3 \<and> tz + 6 = length s"
        using j 6 by simp presburger
      then consider "j = tz" | "j \<in> {tz + 1, tz + 2, tz + 4, tz + 5}" "tz + 6 = length s" | "j = tz + 3" "tz + 6 = length s"
        by blast
      then show ?thesis
        using tail j two_within_digits [of s "tz + 1" 0 23 j] two_within_digits [of s "tz + 4" 0 59 j]
        by cases (auto simp: time_char_def)
    qed
  qed
  then have "\<forall>c \<in> set s. time_char c" by (auto simp: in_set_conv_nth)
  moreover have "\<not> time_char nul" by (simp add: time_char_def is_ascii_digit_def)
  moreover have "s ! 13 = CHR '':''" and "13 < length s" using r by (auto simp: byte_at_def)
  ultimately show ?thesis by (metis nth_mem)
qed


section \<open>The authenticated text\<close>

definition field :: "string \<Rightarrow> string" where "field v = v @ [nul]"

fun optional :: "string option \<Rightarrow> string" where
  "optional None = [nul, nul]"
| "optional (Some v) = CHR 0x01 # field v"

definition alias_message :: "string \<Rightarrow> string" where
  "alias_message email = EMAIL_ALIAS_CONTEXT @ field email"

definition fingerprint_message :: "validated_registration \<Rightarrow> string" where
  "fingerprint_message r =
     REQUEST_FINGERPRINT_CONTEXT @ field (vr_email r) @ field (party_type_name (vr_party_type r)) @
     optional (vr_organization_name r) @ concat (map (\<lambda>i. field (interest_str i)) (vr_interest_areas r)) @
     field (vr_consent_revision r) @ field (vr_consented_at r) @ field (host_str (vr_source_host r)) @
     optional (vr_locale r) @ optional (vr_referral_code r) @ optional (vr_display_name r) @ optional (vr_website_url r) @
     field (boolean_name (vr_registration_consent r)) @ field (boolean_name (vr_marketing_consent r)) @
     optional (vr_marketing_consent_revision r)"

lemma update_field_eq [simp]: "update_field (k, m) v = (k, m @ field v)"
  by (simp add: update_field_def mac_update_def field_def)

lemma update_optional_eq [simp]: "update_optional (k, m) v = (k, m @ optional v)"
  by (cases v) (simp_all add: update_optional_def mac_update_def)

lemma update_interests [simp]:
  "fold (\<lambda>i m. update_field m (interest_str i)) is (k, m) = (k, m @ concat (map (\<lambda>i. field (interest_str i)) is))"
  by (induction "is" arbitrary: m) simp_all

lemma derive_email_alias_eq:
  "32 \<le> length key \<Longrightarrow> derive_email_alias mac key email = Inr (mac key (alias_message email))"
  by (simp add: derive_email_alias_def new_mac_def finish_mac_def alias_message_def)

lemma derive_request_fingerprint_eq:
  "32 \<le> length key \<Longrightarrow> derive_request_fingerprint mac key r = Inr (mac key (fingerprint_message r))"
  by (simp add: derive_request_fingerprint_def new_mac_def finish_mac_def fingerprint_state_def fingerprint_message_def Let_def)

lemma field_inject:
  "nul \<notin> set v \<Longrightarrow> nul \<notin> set v' \<Longrightarrow> field v @ x = field v' @ x' \<longleftrightarrow> v = v' \<and> x = x'"
  using append_sep_inject [of nul v v' x x'] by (simp add: field_def)

lemma optional_inject:
  assumes "\<And>w. v = Some w \<Longrightarrow> nul \<notin> set w" and "\<And>w. v' = Some w \<Longrightarrow> nul \<notin> set w"
  shows "optional v @ x = optional v' @ x' \<longleftrightarrow> v = v' \<and> x = x'"
  using assms by (cases v; cases v') (auto simp: field_inject)

lemma interest_str_inject: "interest_str a = interest_str b \<longleftrightarrow> a = b"
  by (cases a; cases b; simp)

lemma interest_str_chars: "nul \<notin> set (interest_str a) \<and> CHR '':'' \<notin> set (interest_str a)"
  by (cases a) simp_all

text \<open>The list of interests carries no length: it ends where the second field after it holds a colon, the timestamp's.\<close>

lemma interests_inject:
  assumes "nul \<notin> set rev'" "CHR '':'' \<notin> set rev'" "nul \<notin> set stamp" "CHR '':'' \<in> set stamp"
    and "nul \<notin> set rev2" "CHR '':'' \<notin> set rev2" "nul \<notin> set stamp2" "CHR '':'' \<in> set stamp2"
  shows "concat (map (\<lambda>i. field (interest_str i)) is) @ field rev' @ field stamp @ x =
      concat (map (\<lambda>i. field (interest_str i)) js) @ field rev2 @ field stamp2 @ x' \<Longrightarrow>
      is = js \<and> rev' = rev2 \<and> stamp = stamp2 \<and> x = x'"
proof (induction "is" arbitrary: js)
  case Nil
  show ?case
  proof (cases js)
    case Nil
    with Nil.prems assms show ?thesis by (simp add: field_inject)
  next
    case (Cons j js')
    with Nil.prems assms have "field stamp @ x = concat (map (\<lambda>i. field (interest_str i)) js') @ field rev2 @ field stamp2 @ x'"
      by (simp add: field_inject interest_str_chars)
    then have "stamp = rev2 \<or> (\<exists>i. stamp = interest_str i)"
      using assms by (cases js') (auto simp: field_inject interest_str_chars)
    with assms interest_str_chars show ?thesis by auto
  qed
next
  case (Cons i is')
  show ?case
  proof (cases js)
    case Nil
    with Cons.prems assms have "concat (map (\<lambda>i. field (interest_str i)) is') @ field rev' @ field stamp @ x = field stamp2 @ x'"
      by (simp add: field_inject interest_str_chars)
    then have "stamp2 = rev' \<or> (\<exists>i. stamp2 = interest_str i)"
      using assms by (cases is') (auto simp: field_inject interest_str_chars)
    with assms interest_str_chars show ?thesis by auto
  next
    case (Cons j js')
    with Cons.prems Cons.IH [of js'] show ?thesis by (simp add: field_inject interest_str_chars interest_str_inject)
  qed
qed


definition clean_texts :: "validated_registration \<Rightarrow> bool" where
  "clean_texts r \<longleftrightarrow>
     nul \<notin> set (vr_email r) \<and> nul \<notin> set (vr_consent_revision r) \<and> CHR '':'' \<notin> set (vr_consent_revision r) \<and>
     nul \<notin> set (vr_consented_at r) \<and> CHR '':'' \<in> set (vr_consented_at r) \<and>
     (\<forall>v w. v \<in> {vr_organization_name r, vr_locale r, vr_referral_code r, vr_display_name r, vr_website_url r,
                vr_marketing_consent_revision r} \<longrightarrow> v = Some w \<longrightarrow> nul \<notin> set w)"

lemma name_inject:
  "party_type_name a = party_type_name b \<longleftrightarrow> a = b" "nul \<notin> set (party_type_name a)"
  "host_str h = host_str h' \<longleftrightarrow> h = h'" "nul \<notin> set (host_str h)"
  "boolean_name c = boolean_name d \<longleftrightarrow> c = d" "nul \<notin> set (boolean_name c)"
  by (cases a; cases b; cases h; cases h'; simp add: boolean_name_def)+

lemma fingerprint_message_inject:
  assumes "clean_texts r" and "clean_texts r'"
  shows "fingerprint_message r = fingerprint_message r' \<longleftrightarrow> r\<lparr>vr_request_id := vr_request_id r'\<rparr> = r'"
proof
  assume eq: "fingerprint_message r = fingerprint_message r'"
  note c = assms [unfolded clean_texts_def]
  note inj = field_inject optional_inject name_inject
  from eq c have head: "vr_email r = vr_email r' \<and> vr_party_type r = vr_party_type r' \<and>
      vr_organization_name r = vr_organization_name r'"
    and mid: "concat (map (\<lambda>i. field (interest_str i)) (vr_interest_areas r)) @ field (vr_consent_revision r) @
        field (vr_consented_at r) @ field (host_str (vr_source_host r)) @ optional (vr_locale r) @
        optional (vr_referral_code r) @ optional (vr_display_name r) @ optional (vr_website_url r) @
        field (boolean_name (vr_registration_consent r)) @ field (boolean_name (vr_marketing_consent r)) @
        optional (vr_marketing_consent_revision r) =
      concat (map (\<lambda>i. field (interest_str i)) (vr_interest_areas r')) @ field (vr_consent_revision r') @
        field (vr_consented_at r') @ field (host_str (vr_source_host r')) @ optional (vr_locale r') @
        optional (vr_referral_code r') @ optional (vr_display_name r') @ optional (vr_website_url r') @
        field (boolean_name (vr_registration_consent r')) @ field (boolean_name (vr_marketing_consent r')) @
        optional (vr_marketing_consent_revision r')"
    by (simp_all add: fingerprint_message_def inj)
  from c have "nul \<notin> set (vr_consent_revision r)" "CHR '':'' \<notin> set (vr_consent_revision r)"
    "nul \<notin> set (vr_consented_at r)" "CHR '':'' \<in> set (vr_consented_at r)"
    "nul \<notin> set (vr_consent_revision r')" "CHR '':'' \<notin> set (vr_consent_revision r')"
    "nul \<notin> set (vr_consented_at r')" "CHR '':'' \<in> set (vr_consented_at r')" by simp_all
  note mid' = interests_inject [OF this mid]
  then have "vr_source_host r = vr_source_host r' \<and> vr_locale r = vr_locale r' \<and> vr_referral_code r = vr_referral_code r' \<and>
      vr_display_name r = vr_display_name r' \<and> vr_website_url r = vr_website_url r' \<and>
      vr_registration_consent r = vr_registration_consent r' \<and> vr_marketing_consent r = vr_marketing_consent r' \<and>
      optional (vr_marketing_consent_revision r) @ [] = optional (vr_marketing_consent_revision r') @ []"
    using c by (simp add: inj)
  moreover from this c have "vr_marketing_consent_revision r = vr_marketing_consent_revision r'"
    by (subst (asm) optional_inject) simp_all
  ultimately show "r\<lparr>vr_request_id := vr_request_id r'\<rparr> = r'" using head mid' by (cases r; cases r') simp
next
  assume "r\<lparr>vr_request_id := vr_request_id r'\<rparr> = r'"
  then have "fingerprint_message r' = fingerprint_message (r\<lparr>vr_request_id := vr_request_id r'\<rparr>)" by simp
  then show "fingerprint_message r = fingerprint_message r'" by (simp add: fingerprint_message_def)
qed

lemma validated_clean:
  assumes v: "validate_registration url_parse url_serialize rq host = Inr r"
    and url: "\<And>u. nul \<notin> set (url_serialize u)"
    and utf: "\<And>w. rq_organization_name rq = Some w \<Longrightarrow> utf8 w" "\<And>w. rq_display_name rq = Some w \<Longrightarrow> utf8 w"
  shows "clean_texts r"
proof -
  from v have fields:
    "normalize_email (rq_email rq) = Inr (vr_email r)"
    "validate_organization_name (rq_party_type rq) (rq_organization_name rq) = Inr (vr_organization_name r)"
    "option_try (\<lambda>v. normalize_human_text v MAX_DISPLAY_NAME_CHARS InvalidDisplayName) (rq_display_name rq) = Inr (vr_display_name r)"
    "option_try (normalize_website_url url_parse url_serialize) (rq_website_url rq) = Inr (vr_website_url r)"
    "is_portable_identifier (vr_consent_revision r) MAX_CONSENT_REVISION_BYTES" "is_rfc3339 (vr_consented_at r)"
    "option_try normalize_locale (rq_locale rq) = Inr (vr_locale r)"
    "option_try normalize_referral (rq_referral_code rq) = Inr (vr_referral_code r)"
    "validate_marketing (rq_marketing_consent rq) (rq_marketing_consent_revision rq) = Inr (vr_marketing_consent_revision r)"
    by (auto simp: validate_registration_def Let_def result_bind_Inr_iff split: if_splits)
  have "nul \<notin> set w" if "vr_organization_name r = Some w" for w
    using fields(2) that utf(1) human_text_no_nul
    by (auto simp: validate_organization_name_def result_elims split: party_type.splits if_splits)
  moreover have "nul \<notin> set w" if "vr_display_name r = Some w" for w
    using fields(3) that utf(2) human_text_no_nul by (auto simp: result_elims)
  moreover have "nul \<notin> set w" if "vr_website_url r = Some w" for w
    using fields(4) that url by (auto simp: result_elims normalize_website_url_def Let_def split: if_splits)
  moreover have "nul \<notin> set w" if "vr_locale r = Some w" for w
    using fields(7) that locale_no_nul by (auto simp: result_elims)
  moreover have "nul \<notin> set w" if "vr_referral_code r = Some w" for w
    using fields(8) that portable_chars by (auto simp: result_elims normalize_referral_def Let_def split: if_splits)
  moreover have "nul \<notin> set w" if "vr_marketing_consent_revision r = Some w" for w
    using fields(9) that portable_chars
    by (auto simp: validate_marketing_def Let_def split: bool.splits option.splits if_splits)
  ultimately show ?thesis
    using email_no_nul [OF fields(1)] portable_chars [OF fields(5)] rfc3339_chars [OF fields(6)]
    unfolding clean_texts_def by auto
qed


section \<open>Lower case keeps the shape of an address\<close>

definition not_letter :: "char \<Rightarrow> bool" where
  "not_letter d \<longleftrightarrow> \<not> is_ascii_upper d \<and> \<not> is_ascii_lower d"

lemma ascii_lower_not_letter: "not_letter d \<Longrightarrow> ascii_lower c = d \<longleftrightarrow> c = d"
  by (auto simp: not_letter_def ascii_lower_def ascii_defs)

lemma ascii_lower_idem [simp]: "ascii_lower (ascii_lower c) = ascii_lower c"
  by (auto simp: ascii_lower_def ascii_defs)

lemma ascii_lower_classes:
  "is_ascii_alphanumeric (ascii_lower c) = is_ascii_alphanumeric c"
  "is_ascii_graphic (ascii_lower c) = is_ascii_graphic c"
  by (auto simp: ascii_lower_def ascii_defs)

lemma lower_mem: "not_letter d \<Longrightarrow> d \<in> set (to_ascii_lowercase s) \<longleftrightarrow> d \<in> set s"
  using ascii_lower_not_letter [of d] by (metis (no_types, lifting) image_iff list.set_map to_ascii_lowercase_def)

lemma lower_prefix:
  "list_all not_letter p \<Longrightarrow> prefix p (map ascii_lower s) \<longleftrightarrow> prefix p s"
proof (induction p arbitrary: s)
  case (Cons d p)
  then have d: "d = ascii_lower c \<longleftrightarrow> d = c" for c using ascii_lower_not_letter [of d c] by auto
  with Cons show ?case by (cases s) simp_all
qed simp

lemma lower_suffix: "list_all not_letter p \<Longrightarrow> suffix p (map ascii_lower s) \<longleftrightarrow> suffix p s"
  using lower_prefix [of "rev p" "rev s"] by (simp add: suffix_to_prefix rev_map)

lemma lower_contains: "list_all not_letter p \<Longrightarrow> contains_sub (map ascii_lower s) p \<longleftrightarrow> contains_sub s p"
proof (induction s)
  case (Cons c s)
  then show ?case using lower_prefix [of p "c # s"] by simp
qed simp

lemma lower_split: "not_letter d \<Longrightarrow> split_on d (map ascii_lower s) = map (map ascii_lower) (split_on d s)"
proof (induction s)
  case (Cons c s)
  then show ?case using ascii_lower_not_letter [of d c] by (auto split: list.splits)
qed simp

lemma lower_label: "valid_domain_label (map ascii_lower l) = valid_domain_label l"
proof -
  have "list_all not_letter ''-''" by (simp add: not_letter_def ascii_defs)
  moreover have "ascii_lower c = CHR ''-'' \<longleftrightarrow> c = CHR ''-''" for c
    using ascii_lower_not_letter [of "CHR ''-''" c] by (simp add: not_letter_def ascii_defs)
  ultimately show ?thesis
    using lower_prefix [of "''-''" l] lower_suffix [of "''-''" l]
    by (simp add: valid_domain_label_def starts_with_def ends_with_def list_all_iff ascii_lower_classes)
qed

lemma email_graphic:
  assumes "is_ascii t" and "\<not> list_ex (\<lambda>g. is_control g \<or> is_whitespace g) (chars t)"
  shows "list_all is_ascii_graphic t"
proof -
  have "is_ascii_graphic c" if "c \<in> set t" for c
  proof -
    have "byte c < 128" "\<not> is_control [c]" "\<not> is_whitespace [c]"
      using assms that by (auto simp: chars_ascii list_ex_iff is_ascii_def list_all_iff)
    then show ?thesis by (simp add: is_ascii_graphic_def)
  qed
  then show ?thesis by (simp add: list_all_iff)
qed

lemma normalize_email_idem:
  assumes "normalize_email v = Inr e"
  shows "normalize_email e = Inr e \<and> to_ascii_lowercase e = e \<and> length e \<le> MAX_EMAIL_BYTES"
proof -
  let ?t = "trim v" and ?low = "map ascii_lower"
  from assms obtain a b where ok: "?t \<noteq> []" "length ?t \<le> MAX_EMAIL_BYTES" "is_ascii ?t"
      "\<not> list_ex (\<lambda>g. is_control g \<or> is_whitespace g) (chars ?t)"
    and s: "split_once CHR ''@'' ?t = Some (a, b)"
    and parts: "a \<noteq> []" "b \<noteq> []" "CHR ''@'' \<notin> set b" "\<not> starts_with a ''.''" "\<not> ends_with a ''.''"
      "\<not> contains_sub a ''..''" "CHR ''.'' \<in> set b" "list_all valid_domain_label (split_on CHR ''.'' b)"
    and e: "e = ?low a @ CHR ''@'' # ?low b"
    by (auto simp: normalize_email_def Let_def to_ascii_lowercase_def split: if_splits option.splits)
  have nl: "not_letter CHR ''@''" "not_letter CHR ''.''" by (simp_all add: not_letter_def ascii_defs)
  have t: "?t = a @ CHR ''@'' # b" and at: "CHR ''@'' \<notin> set a" using split_once_Some [OF s] by auto
  have "list_all is_ascii_graphic (a @ CHR ''@'' # b)" using email_graphic [OF ok(3,4)] by (simp add: t)
  then have g: "list_all is_ascii_graphic e" by (auto simp: e list_all_iff ascii_lower_classes)
  have trim: "trim e = e" by (rule trim_graphic [OF g])
  have "\<not> list_ex (\<lambda>g. is_control g \<or> is_whitespace g) (chars e)"
    using graphic_groups [OF g] by (auto simp: list_ex_iff)
  moreover have len: "e \<noteq> []" "length e \<le> MAX_EMAIL_BYTES" using ok by (simp_all add: e t)
  moreover have split: "split_once CHR ''@'' e = Some (?low a, ?low b)"
    using at lower_mem [OF nl(1), of a] unfolding e by (intro split_once_append) (simp add: to_ascii_lowercase_def)
  moreover have "list_all valid_domain_label (split_on CHR ''.'' (?low b))"
    using parts(8) by (auto simp: lower_split [OF nl(2)] list_all_iff lower_label)
  moreover have "\<not> starts_with (?low a) ''.''" "\<not> ends_with (?low a) ''.''" "\<not> contains_sub (?low a) ''..''"
    using parts nl(2) lower_prefix [of "''.''" a] lower_suffix [of "''.''" a] lower_contains [of "''..''" a]
    by (simp_all add: starts_with_def ends_with_def)
  moreover have "CHR ''@'' \<notin> set (?low b)" "CHR ''.'' \<in> set (?low b)"
    using parts lower_mem [OF nl(1), of b] lower_mem [OF nl(2), of b] by (simp_all add: to_ascii_lowercase_def)
  ultimately have "normalize_email e = Inr (to_ascii_lowercase (?low a) @ ''@'' @ to_ascii_lowercase (?low b))"
    using parts graphic_ascii [OF g] by (simp add: normalize_email_def Let_def trim not_less)
  moreover have "to_ascii_lowercase e = e"
    by (simp add: e to_ascii_lowercase_def ascii_lower_not_letter [OF nl(1), THEN iffD2])
  ultimately show ?thesis using len by (simp add: e to_ascii_lowercase_def)
qed

section \<open>Properties\<close>

text \<open>C17: under a key of at least 32 bytes both digests are MACs of texts that determine what they stand for: the text
  behind the fingerprints of two accepted registrations is the same exactly if the registrations agree in everything
  but the request identifier, although the list of interests has no length prefix; the text behind an email alias
  determines the email; and no alias text is a fingerprint text. The hypotheses say that the texts are UTF-8 and that
  serialised URLs hold no zero byte.\<close>

theorem fingerprint_binds_registration:
  assumes "32 \<le> length key"
    and "validate_registration url_parse url_serialize rq host = Inr r"
    and "validate_registration url_parse url_serialize rq' host' = Inr r'"
    and "\<And>u. nul \<notin> set (url_serialize u)"
    and "\<And>q w. q \<in> {rq, rq'} \<Longrightarrow> rq_organization_name q = Some w \<or> rq_display_name q = Some w \<Longrightarrow> utf8 w"
  shows "derive_request_fingerprint mac key r = Inr (mac key (fingerprint_message r)) \<and>
    derive_request_fingerprint mac key r' = Inr (mac key (fingerprint_message r')) \<and>
    (fingerprint_message r = fingerprint_message r' \<longleftrightarrow> r\<lparr>vr_request_id := vr_request_id r'\<rparr> = r') \<and>
    derive_email_alias mac key (vr_email r) = Inr (mac key (alias_message (vr_email r))) \<and>
    (alias_message (vr_email r) = alias_message (vr_email r') \<longleftrightarrow> vr_email r = vr_email r') \<and>
    alias_message e \<noteq> fingerprint_message r"
proof -
  have "clean_texts r" using validated_clean [OF assms(2) assms(4)] assms(5) by blast
  moreover have "clean_texts r'" using validated_clean [OF assms(3) assms(4)] assms(5) by blast
  moreover have "alias_message e \<noteq> fingerprint_message r"
    by (simp add: alias_message_def fingerprint_message_def EMAIL_ALIAS_CONTEXT_def REQUEST_FINGERPRINT_CONTEXT_def)
  moreover have "alias_message (vr_email r) = alias_message (vr_email r') \<longleftrightarrow> vr_email r = vr_email r'"
    by (simp add: alias_message_def field_def)
  ultimately show ?thesis
    using fingerprint_message_inject derive_request_fingerprint_eq [OF assms(1)] derive_email_alias_eq [OF assms(1)] by blast
qed

definition example_registration :: registration_request where
  "example_registration =
     \<lparr>rq_request_id = 1, rq_email = ''Ada@Example.com'', rq_party_type = Individual, rq_organization_name = None,
      rq_interest_areas = [Soc2, ReadinessAssessment], rq_consent_revision = ''v1'', rq_consented_at = ''2026-07-01T00:00:00Z'',
      rq_source_host = ''user.canonical.plus'', rq_locale = Some ''en-US'', rq_referral_code = None,
      rq_display_name = Some ''Ada L'', rq_website_url = None, rq_registration_consent = True, rq_marketing_consent = False,
      rq_marketing_consent_revision = None\<rparr>"

definition example_validated :: validated_registration where
  "example_validated =
     \<lparr>vr_request_id = 1, vr_email = ''ada@example.com'', vr_party_type = Individual, vr_organization_name = None,
      vr_interest_areas = [ReadinessAssessment, Soc2], vr_consent_revision = ''v1'', vr_consented_at = ''2026-07-01T00:00:00Z'',
      vr_source_host = UserHost, vr_locale = Some ''en-US'', vr_referral_code = None, vr_display_name = Some ''Ada L'',
      vr_website_url = None, vr_registration_consent = True, vr_marketing_consent = False,
      vr_marketing_consent_revision = None\<rparr>"

lemma example_validates:
  "validate_registration (\<lambda>_. None) (\<lambda>_. []) example_registration ''user.canonical.plus'' = Inr example_validated"
  by code_simp


theorem fingerprint_binds_registration_witness:
  "derive_request_fingerprint (\<lambda>key text. key @ text) (replicate 32 CHR ''k'') example_validated =
     Inr (replicate 32 CHR ''k'' @ fingerprint_message example_validated) \<and>
   alias_message ''ada@example.com'' \<noteq> fingerprint_message example_validated"
proof -
  have utf: "utf8 w" if "q \<in> {example_registration, example_registration}"
      "rq_organization_name q = Some w \<or> rq_display_name q = Some w" for q w
  proof -
    from that have "w = ''Ada L''" by (auto simp: example_registration_def)
    moreover have "utf8 ''Ada L''" by code_simp
    ultimately show ?thesis by simp
  qed
  show ?thesis
    using fingerprint_binds_registration [OF _ example_validates example_validates, of "replicate 32 CHR ''k''"
      "\<lambda>key text. key @ text" "''ada@example.com''"] utf by (auto simp: example_validated_def)
qed

text \<open>An accepted registration is in canonical form: its email is lower-case, at most 320 bytes and unchanged by
  normalising it again, so that the email alias depends on the address only; host, verified host and party agree, an
  organization name is present exactly for organizations, a marketing revision exactly with marketing consent, and the
  interests are the requested ones, at most nine, sorted and without repetition.\<close>

theorem registration_canonical:
  assumes "validate_registration url_parse url_serialize rq host = Inr r"
  shows "normalize_email (vr_email r) = Inr (vr_email r) \<and> to_ascii_lowercase (vr_email r) = vr_email r \<and>
    length (vr_email r) \<le> 320 \<and>
    host_str (vr_source_host r) = host \<and> rq_source_host rq = host \<and> vr_party_type r = host_party_type (vr_source_host r) \<and>
    (vr_organization_name r \<noteq> None \<longleftrightarrow> vr_party_type r = Organization) \<and>
    rq_registration_consent rq \<and> vr_registration_consent r \<and>
    (vr_marketing_consent_revision r \<noteq> None \<longleftrightarrow> vr_marketing_consent r) \<and>
    set (vr_interest_areas r) = set (rq_interest_areas rq) \<and> sorted (vr_interest_areas r) \<and> distinct (vr_interest_areas r) \<and>
    vr_interest_areas r \<noteq> [] \<and> length (vr_interest_areas r) \<le> 9"
proof -
  from assms have fields:
    "host_parse host = Inr (vr_source_host r)" "rq_source_host rq = host" "rq_party_type rq = host_party_type (vr_source_host r)"
    "rq_registration_consent rq" "vr_registration_consent r" "vr_party_type r = rq_party_type rq"
    "normalize_email (rq_email rq) = Inr (vr_email r)"
    "validate_organization_name (rq_party_type rq) (rq_organization_name rq) = Inr (vr_organization_name r)"
    "validate_interests (rq_interest_areas rq) = Inr (vr_interest_areas r)"
    "validate_marketing (rq_marketing_consent rq) (rq_marketing_consent_revision rq) = Inr (vr_marketing_consent_revision r)"
    "vr_marketing_consent r = rq_marketing_consent rq"
    by (auto simp: validate_registration_def Let_def result_bind_Inr_iff split: if_splits)
  have "host_str (vr_source_host r) = host" using fields(1) by (auto simp: host_parse_def split: if_splits)
  moreover have "vr_organization_name r \<noteq> None \<longleftrightarrow> vr_party_type r = Organization"
    using fields(6,8) by (cases "vr_organization_name r") (auto simp: validate_organization_name_def result_elims split: party_type.splits if_splits)
  moreover have "vr_marketing_consent_revision r \<noteq> None \<longleftrightarrow> vr_marketing_consent r"
    using fields(10,11) by (cases "vr_marketing_consent_revision r") (auto simp: validate_marketing_def Let_def split: bool.splits option.splits if_splits)
  moreover have "set (vr_interest_areas r) = set (rq_interest_areas rq) \<and> sorted (vr_interest_areas r) \<and>
      distinct (vr_interest_areas r) \<and> vr_interest_areas r \<noteq> [] \<and> length (vr_interest_areas r) \<le> 9"
  proof -
    have sorted: "vr_interest_areas r = sort (remdups (rq_interest_areas rq))" "rq_interest_areas rq \<noteq> []"
      and count: "length (rq_interest_areas rq) \<le> 9"
      using fields(9) by (auto simp: validate_interests_def Let_def not_less split: if_splits)
    have "length (remdups (rq_interest_areas rq)) \<le> 9" using count length_remdups_leq [of "rq_interest_areas rq"] by linarith
    moreover have s: "set (sort (remdups (rq_interest_areas rq))) = set (rq_interest_areas rq)" by simp
    moreover have "sort (remdups (rq_interest_areas rq)) \<noteq> []" using s sorted(2) by (metis set_empty)
    ultimately show ?thesis unfolding sorted(1) by simp
  qed
  ultimately show ?thesis using fields normalize_email_idem [OF fields(7)] by simp
qed

theorem registration_canonical_witness:
  "vr_email example_validated = ''ada@example.com'' \<and> normalize_email ''ada@example.com'' = Inr ''ada@example.com''"
  using registration_canonical [OF example_validates] by (simp add: example_validated_def)

end
