(* ===== verification/Observations.thy ===== *)
theory Observations
  imports Webhook Envelope Machine "HOL-Library.AList"
begin

text \<open>
  Signed readiness observations (\<open>src/readiness_observation_ingest.rs\<close>): the key ring, the checks on a delivery, and
  the two stores, the append-only table \<open>canonical_readiness_observation\<close> and the bounded memory store. An instant is
  its number of nanoseconds since the epoch. Parameters, in \<open>ingest_env\<close>: the JSON deserialisers, \<open>Url::parse\<close>, the
  \<open>time\<close> crate's RFC 3339 parser and printer, SHA-256 and HMAC-SHA-256, and the printing of UUIDs.
\<close>

section \<open>Data\<close>

abbreviation OBSERVATION_BODY_BYTES :: nat where "OBSERVATION_BODY_BYTES \<equiv> 262144"
abbreviation MAX_CLOCK_SKEW_SECONDS :: int where "MAX_CLOCK_SKEW_SECONDS \<equiv> 300"
abbreviation MAX_ASSERTIONS :: nat where "MAX_ASSERTIONS \<equiv> 256"
abbreviation MAX_EVIDENCE :: nat where "MAX_EVIDENCE \<equiv> 256"
abbreviation MAX_IDENTIFIER_BYTES :: nat where "MAX_IDENTIFIER_BYTES \<equiv> 128"
abbreviation MAX_STATEMENT_BYTES :: nat where "MAX_STATEMENT_BYTES \<equiv> 2048"
abbreviation MAX_LOCATOR_BYTES :: nat where "MAX_LOCATOR_BYTES \<equiv> 2048"
abbreviation MAX_CONTENT_TYPE_BYTES :: nat where "MAX_CONTENT_TYPE_BYTES \<equiv> 128"
abbreviation MEMORY_CAPACITY :: nat where "MEMORY_CAPACITY \<equiv> 10000"

definition EVENT_SPEC :: string where "EVENT_SPEC = ''canonical.readiness.observation.v1''"
definition RECEIPT_SPEC :: string where "RECEIPT_SPEC = ''canonical.readiness.observation.receipt.v1''"
definition PROBLEM_SPEC :: string where "PROBLEM_SPEC = ''canonical.readiness.observation.problem.v1''"

abbreviation line_feed :: char where "line_feed \<equiv> CHR 0x0A"

definition RECORD_DOMAIN :: string where
  "RECORD_DOMAIN = ''canonical.readiness.observation.record.v1'' @ [line_feed]"

definition ZERO_RECORD_DIGEST :: string where
  "ZERO_RECORD_DIGEST = ''sha256:'' @ replicate 64 CHR ''0''"

datatype reported_status = Observed | NotObserved | Exception | NotApplicableRequested | Unknown

record observation_assertion =
  oa_framework_id :: string
  oa_control_id :: string
  oa_reported_status :: reported_status
  oa_statement :: "string option"
  oa_evidence_ids :: "string list"

record evidence_item =
  ei_evidence_id :: string
  ei_kind :: string
  ei_sha256 :: string
  ei_collected_at :: string
  ei_locator :: "string option"
  ei_content_type :: "string option"
  ei_size_bytes :: "64 word option"

record observation_event =
  oe_spec_version :: string
  oe_event_id :: string
  oe_source_id :: string
  oe_source_sequence :: int
  oe_organization :: string
  oe_observed_at :: string
  oe_assertions :: "observation_assertion list"
  oe_evidence :: "evidence_item list"

record key_input =
  ki_key_id :: string
  ki_source_id :: string
  ki_organization :: string
  ki_owner_subject :: string
  ki_secret :: string
  ki_valid_from :: "string option"
  ki_valid_until :: "string option"

record ingest_key =
  ik_key_id :: string
  ik_organization :: string
  ik_owner_subject :: string
  ik_secret :: string
  ik_valid_from :: "int option"
  ik_valid_until :: "int option"

type_synonym key_ring = "(string \<times> ingest_key list) list"

datatype build_error = InvalidKeyDocument | InvalidSecret | NonUnicodeKeyDocument | TooManyKeys

datatype ingest_error =
    InvalidRequest | BodyTooLarge | InvalidSignature | StaleSignature | EventConflict | SequenceConflict
  | StorageUnavailable | Internal | DatabaseFailure

record ingest_env =
  in_from_slice :: "string \<Rightarrow> observation_event option"
  in_key_document :: "string \<Rightarrow> key_input list option"
  in_url_parse :: url_parser
  in_parse_ts :: "string \<Rightarrow> int option"
  in_format_ts :: "int \<Rightarrow> string option"
  in_sha256 :: "string \<Rightarrow> string"
  in_mac :: "string \<Rightarrow> string \<Rightarrow> string"
  in_uuid_simple :: "uuid \<Rightarrow> string"
  in_event_json :: "observation_event \<Rightarrow> json option"

definition unix_timestamp :: "int \<Rightarrow> int" where
  "unix_timestamp t = t div 1000000000"


section \<open>Texts\<close>

definition portable_identifier :: "string \<Rightarrow> bool" where
  "portable_identifier value \<longleftrightarrow>
     value \<noteq> [] \<and> length value \<le> MAX_IDENTIFIER_BYTES \<and>
     list_all (\<lambda>c. is_ascii_alphanumeric c \<or> c \<in> {CHR ''-'', CHR ''_'', CHR ''.'', CHR '':'', CHR ''/''}) value"

definition valid_owner :: "string \<Rightarrow> bool" where
  "valid_owner value \<longleftrightarrow>
     value \<noteq> [] \<and> length value \<le> 255 \<and>
     list_all (\<lambda>c. is_ascii_alphanumeric c \<or> c \<in> {CHR ''-'', CHR ''_'', CHR '':''}) value"

definition is_lower_hex :: "char \<Rightarrow> bool" where
  "is_lower_hex c \<longleftrightarrow> is_ascii_digit c \<or> 97 \<le> byte c \<and> byte c \<le> 102"

definition valid_sha256 :: "string \<Rightarrow> bool" where
  "valid_sha256 value =
     (case strip_prefix value ''sha256:'' of None \<Rightarrow> False | Some hex \<Rightarrow> length hex = 64 \<and> list_all is_lower_hex hex)"

definition decode_nibble :: "char \<Rightarrow> nat option" where
  "decode_nibble c =
     (if is_ascii_digit c then Some (byte c - 48)
      else if 97 \<le> byte c \<and> byte c \<le> 102 then Some (byte c - 97 + 10) else None)"

fun decode_hex :: "string \<Rightarrow> ingest_error + string" where
  "decode_hex (h # l # rest) =
     result_bind (ok_or (decode_nibble h) InvalidSignature) (\<lambda>high.
     result_bind (ok_or (decode_nibble l) InvalidSignature) (\<lambda>low.
     result_bind (decode_hex rest) (\<lambda>bytes. Inr (char_of (16 * high + low) # bytes))))"
| "decode_hex _ = Inr []"

definition parse_signature :: "string \<Rightarrow> ingest_error + string" where
  "parse_signature value =
     (case strip_prefix value ''v1='' of
        None \<Rightarrow> Inl InvalidSignature
      | Some hex \<Rightarrow> if length hex \<noteq> 64 then Inl InvalidSignature else decode_hex hex)"

definition sha256_label :: "(string \<Rightarrow> string) \<Rightarrow> string \<Rightarrow> string" where
  "sha256_label sha bytes = ''sha256:'' @ hex_lower (sha bytes)"

definition record_message :: "string \<Rightarrow> string \<Rightarrow> string \<Rightarrow> int \<Rightarrow> string" where
  "record_message prior payload event_id sequence =
     RECORD_DOMAIN @ concat (map (\<lambda>v. v @ [line_feed]) [prior, payload, event_id, int_to_string sequence])"

definition record_digest :: "(string \<Rightarrow> string) \<Rightarrow> string \<Rightarrow> string \<Rightarrow> string \<Rightarrow> int \<Rightarrow> string" where
  "record_digest sha prior payload event_id sequence = ''sha256:'' @ hex_lower (sha (record_message prior payload event_id sequence))"

definition ingest_header :: "header_map \<Rightarrow> string \<Rightarrow> ingest_error + string" where
  "ingest_header headers name =
     (case map_option trim (header_str headers name) of
        None \<Rightarrow> Inl InvalidSignature
      | Some v \<Rightarrow> if v \<noteq> [] \<and> length v \<le> 4096 then Inr v else Inl InvalidSignature)"

definition validate_content_type :: "header_map \<Rightarrow> ingest_error + unit" where
  "validate_content_type headers =
     (case map_option trim (header_str headers ''content-type'') of
        None \<Rightarrow> Inl InvalidRequest
      | Some v \<Rightarrow> check (eq_ignore_ascii_case (trim (hd (split_on CHR '';'' v))) ''application/json'') InvalidRequest)"


section \<open>Keys\<close>

text \<open>One entry of the document; \<open>seen\<close> holds the key identifiers before it.\<close>

definition parse_key :: "ingest_env \<Rightarrow> string list \<Rightarrow> key_input \<Rightarrow> build_error + ingest_key" where
  "parse_key env seen i =
     (if \<not> portable_identifier (ki_key_id i) \<or> \<not> portable_identifier (ki_source_id i) \<or>
         \<not> portable_identifier (ki_organization i) \<or> \<not> valid_owner (ki_owner_subject i) \<or> ki_key_id i \<in> set seen
      then Inl InvalidKeyDocument
      else if length (ki_secret i) < 32 \<or> list_ex (\<lambda>c. \<not> is_ascii_graphic c) (ki_secret i) then Inl InvalidSecret
      else
        result_bind (option_try (\<lambda>t. ok_or (in_parse_ts env t) InvalidKeyDocument) (ki_valid_from i)) (\<lambda>from.
        result_bind (option_try (\<lambda>t. ok_or (in_parse_ts env t) InvalidKeyDocument) (ki_valid_until i)) (\<lambda>until.
        if (case (from, until) of (Some start, Some stop) \<Rightarrow> stop \<le> start | _ \<Rightarrow> False) then Inl InvalidKeyDocument
        else Inr \<lparr>ik_key_id = ki_key_id i, ik_organization = ki_organization i, ik_owner_subject = ki_owner_subject i,
                  ik_secret = ki_secret i, ik_valid_from = from, ik_valid_until = until\<rparr>)))"

fun add_keys :: "ingest_env \<Rightarrow> string list \<Rightarrow> key_ring \<Rightarrow> key_input list \<Rightarrow> build_error + key_ring" where
  "add_keys env seen ring [] = Inr ring"
| "add_keys env seen ring (i # is) =
     result_bind (parse_key env seen i) (\<lambda>key.
       add_keys env (ki_key_id i # seen)
         (AList.update (ki_source_id i)
           ((case map_of ring (ki_source_id i) of None \<Rightarrow> [] | Some keys \<Rightarrow> keys) @ [key]) ring) is)"

definition key_ring_parse :: "ingest_env \<Rightarrow> string \<Rightarrow> build_error + key_ring" where
  "key_ring_parse env document =
     result_bind (ok_or (in_key_document env document) InvalidKeyDocument) (\<lambda>keys.
     if 128 < length keys then Inl TooManyKeys else add_keys env [] [] keys)"

record verified_transport =
  vt_key_id :: string
  vt_owner_subject :: string

definition key_applies :: "ingest_key \<Rightarrow> observation_event \<Rightarrow> int \<Rightarrow> bool" where
  "key_applies k event now \<longleftrightarrow>
     ik_organization k = oe_organization event \<and>
     (case ik_valid_from k of None \<Rightarrow> True | Some start \<Rightarrow> start \<le> now) \<and>
     (case ik_valid_until k of None \<Rightarrow> True | Some stop \<Rightarrow> now < stop)"

definition verify ::
    "ingest_env \<Rightarrow> key_ring \<Rightarrow> header_map \<Rightarrow> string \<Rightarrow> observation_event \<Rightarrow> int \<Rightarrow> ingest_error + verified_transport" where
  "verify env ring headers body event now =
     result_bind (ingest_header headers ''x-canonical-webhook-id'') (\<lambda>webhook_id.
     if webhook_id \<noteq> oe_event_id event then Inl InvalidSignature
     else
     result_bind (ingest_header headers ''x-canonical-webhook-timestamp'') (\<lambda>timestamp_text.
     result_bind (ok_or (parse_i64 timestamp_text) InvalidSignature) (\<lambda>timestamp.
     if MAX_CLOCK_SKEW_SECONDS < \<bar>unix_timestamp now - timestamp\<bar> then Inl StaleSignature
     else
     result_bind (ingest_header headers ''x-canonical-webhook-signature'') (\<lambda>signature_text.
     result_bind (parse_signature signature_text) (\<lambda>supplied.
     result_bind (ok_or (map_of ring (oe_source_id event)) InvalidSignature) (\<lambda>candidates.
     case List.find (\<lambda>k. key_applies k event now \<and> in_mac env (ik_secret k) (timestamp_text @ ''.'' @ body) = supplied) candidates of
       Some k \<Rightarrow> Inr \<lparr>vt_key_id = ik_key_id k, vt_owner_subject = ik_owner_subject k\<rparr>
     | None \<Rightarrow> Inl InvalidSignature))))))"


section \<open>Validation of an event\<close>

definition validate_locator :: "ingest_env \<Rightarrow> string \<Rightarrow> ingest_error + unit" where
  "validate_locator env locator =
     (if locator = [] \<or> MAX_LOCATOR_BYTES < length locator then Inl InvalidRequest
      else result_bind (ok_or (in_url_parse env locator) InvalidRequest) (\<lambda>parsed.
        if url_query parsed \<noteq> None \<or> url_fragment parsed \<noteq> None \<or> url_username parsed \<noteq> [] \<or> url_password parsed \<noteq> None
        then Inl InvalidRequest
        else check (url_scheme parsed = ''urn'' \<or> url_scheme parsed = ''https'' \<and> url_host parsed \<noteq> None) InvalidRequest))"

definition evidence_malformed :: "evidence_item \<Rightarrow> bool" where
  "evidence_malformed e \<longleftrightarrow>
     \<not> portable_identifier (ei_evidence_id e) \<or> ei_kind e = [] \<or> 64 < length (ei_kind e) \<or> \<not> valid_sha256 (ei_sha256 e) \<or>
     (case ei_content_type e of None \<Rightarrow> False
      | Some v \<Rightarrow> v = [] \<or> MAX_CONTENT_TYPE_BYTES < length v \<or> list_ex is_ascii_control v) \<or>
     (case ei_size_bytes e of None \<Rightarrow> False | Some n \<Rightarrow> 2 ^ 50 < unat n)"

text \<open>The loops return the set of identifiers they built, as a list.\<close>

fun validate_evidence :: "ingest_env \<Rightarrow> int \<Rightarrow> int \<Rightarrow> string list \<Rightarrow> evidence_item list \<Rightarrow> ingest_error + string list" where
  "validate_evidence env now observed_at ids [] = Inr ids"
| "validate_evidence env now observed_at ids (e # es) =
     (if evidence_malformed e \<or> ei_evidence_id e \<in> set ids then Inl InvalidRequest
      else
        result_bind (ok_or (in_parse_ts env (ei_collected_at e)) InvalidRequest) (\<lambda>collected_at.
        if MAX_CLOCK_SKEW_SECONDS < unix_timestamp collected_at - unix_timestamp now \<or>
           MAX_CLOCK_SKEW_SECONDS < unix_timestamp collected_at - unix_timestamp observed_at
        then Inl InvalidRequest
        else
        result_bind (case ei_locator e of None \<Rightarrow> Inr () | Some locator \<Rightarrow> validate_locator env locator) (\<lambda>_.
        validate_evidence env now observed_at (ids @ [ei_evidence_id e]) es)))"

fun validate_references :: "string list \<Rightarrow> string list \<Rightarrow> string list \<Rightarrow> ingest_error + unit" where
  "validate_references evidence_ids seen [] = Inr ()"
| "validate_references evidence_ids seen (r # rs) =
     (if r \<in> set seen \<or> r \<notin> set evidence_ids then Inl InvalidRequest else validate_references evidence_ids (r # seen) rs)"

fun validate_assertions ::
    "string list \<Rightarrow> (string \<times> string) list \<Rightarrow> observation_assertion list \<Rightarrow> ingest_error + unit" where
  "validate_assertions evidence_ids seen [] = Inr ()"
| "validate_assertions evidence_ids seen (a # rest) =
     (if \<not> portable_identifier (oa_framework_id a) \<or> \<not> portable_identifier (oa_control_id a) \<or>
         (case oa_statement a of None \<Rightarrow> False | Some v \<Rightarrow> v = [] \<or> MAX_STATEMENT_BYTES < length v) \<or>
         128 < length (oa_evidence_ids a) \<or> (oa_framework_id a, oa_control_id a) \<in> set seen
      then Inl InvalidRequest
      else
        result_bind (validate_references evidence_ids [] (oa_evidence_ids a)) (\<lambda>_.
        validate_assertions evidence_ids ((oa_framework_id a, oa_control_id a) # seen) rest))"

definition validate_event :: "ingest_env \<Rightarrow> observation_event \<Rightarrow> int \<Rightarrow> ingest_error + unit" where
  "validate_event env event now =
     (if oe_spec_version event \<noteq> EVENT_SPEC \<or> \<not> portable_identifier (oe_event_id event) \<or>
         \<not> portable_identifier (oe_source_id event) \<or> \<not> portable_identifier (oe_organization event) \<or>
         oe_source_sequence event \<le> 0 \<or> oe_assertions event = [] \<or> MAX_ASSERTIONS < length (oe_assertions event) \<or>
         MAX_EVIDENCE < length (oe_evidence event)
      then Inl InvalidRequest
      else
        result_bind (ok_or (in_parse_ts env (oe_observed_at event)) InvalidRequest) (\<lambda>observed_at.
        if MAX_CLOCK_SKEW_SECONDS < unix_timestamp observed_at - unix_timestamp now then Inl InvalidRequest
        else
        result_bind (validate_evidence env now observed_at [] (oe_evidence event)) (\<lambda>evidence_ids.
        validate_assertions evidence_ids [] (oe_assertions event))))"


section \<open>The table\<close>

record observation_row =
  ob_owner :: string
  ob_source :: string
  ob_event :: string
  ob_sequence :: int
  ob_organization :: string
  ob_observed_at :: string
  ob_payload :: string
  ob_prior :: string
  ob_record :: string
  ob_receipt :: string
  ob_key :: string
  ob_json :: json
  ob_octets :: int
  ob_transport :: string
  ob_review :: string
  ob_received_at :: string

text \<open>The column and table checks of \<open>db/schema.sql\<close>. \<open>char_length\<close> counts characters.\<close>

definition schema_identifier :: "string \<Rightarrow> nat \<Rightarrow> bool" where
  "schema_identifier s low \<longleftrightarrow>
     low \<le> length (chars s) \<and> length (chars s) \<le> 128 \<and> s \<noteq> [] \<and>
     list_all (\<lambda>c. is_ascii_alphanumeric c \<or> c \<in> {CHR ''.'', CHR ''_'', CHR '':'', CHR ''/'', CHR ''-''}) s"

definition observation_row_check :: "observation_row \<Rightarrow> bool" where
  "observation_row_check r \<longleftrightarrow>
     1 \<le> length (chars (ob_owner r)) \<and> length (chars (ob_owner r)) \<le> 255 \<and>
     schema_identifier (ob_source r) 1 \<and> schema_identifier (ob_event r) 1 \<and> 0 < ob_sequence r \<and>
     1 \<le> length (chars (ob_organization r)) \<and> length (chars (ob_organization r)) \<le> 200 \<and>
     valid_sha256 (ob_payload r) \<and> valid_sha256 (ob_prior r) \<and> valid_sha256 (ob_record r) \<and>
     schema_identifier (ob_receipt r) 8 \<and> schema_identifier (ob_key r) 1 \<and>
     as_object (ob_json r) \<noteq> None \<and> 1 \<le> ob_octets r \<and> ob_octets r \<le> 262144 \<and>
     ob_transport r = ''signature-valid'' \<and>
     ob_review r \<in> {''unreviewed'', ''in-review'', ''accepted-as-evidence'', ''rejected'', ''superseded''}"

text \<open>The primary key and the two unique constraints.\<close>

definition observation_unique :: "observation_row list \<Rightarrow> observation_row \<Rightarrow> bool" where
  "observation_unique rows r \<longleftrightarrow>
     list_all (\<lambda>q. ob_receipt q \<noteq> ob_receipt r \<and>
       \<not> (ob_owner q = ob_owner r \<and> ob_source q = ob_source r \<and> (ob_event q = ob_event r \<or> ob_sequence q = ob_sequence r))) rows"

record receipt_identity =
  rc_receipt_id :: string
  rc_received_at :: string

record storage_outcome =
  so_duplicate :: bool
  so_receipt_id :: string
  so_received_at :: string

datatype observation_stmt = OBegin | OSetSubject | OLock | OFind | OCursor | OInsert | OCommit | ORollback

text \<open>Which statements fail, whether a failing commit took effect nevertheless, and \<open>to_char\<close> after \<open>CAST\<close> on the
  stored timestamp.\<close>

record observation_faults =
  of_fails :: "observation_stmt \<Rightarrow> bool"
  of_commit_applied :: bool
  of_to_char :: "string \<Rightarrow> string"

definition observation_cursor :: "observation_row list \<Rightarrow> string \<Rightarrow> string \<Rightarrow> observation_row option" where
  "observation_cursor rows owner source =
     (case sort_key (\<lambda>r. - ob_sequence r) (filter (\<lambda>r. ob_owner r = owner \<and> ob_source r = source) rows) of
        [] \<Rightarrow> None | r # _ \<Rightarrow> Some r)"

definition observation_commit ::
    "observation_faults \<Rightarrow> observation_row list \<Rightarrow> observation_row list \<Rightarrow> 'a \<Rightarrow> (ingest_error + 'a) \<times> observation_row list" where
  "observation_commit d rows rows' x =
     (if of_fails d OCommit then (Inl DatabaseFailure, if of_commit_applied d then rows' else rows) else (Inr x, rows'))"

definition observation_rollback ::
    "observation_faults \<Rightarrow> observation_row list \<Rightarrow> ingest_error \<Rightarrow> (ingest_error + 'a) \<times> observation_row list" where
  "observation_rollback d rows e = (Inl (if of_fails d ORollback then DatabaseFailure else e), rows)"

definition new_observation ::
    "ingest_env \<Rightarrow> verified_transport \<Rightarrow> observation_event \<Rightarrow> string \<Rightarrow> nat \<Rightarrow> receipt_identity \<Rightarrow> string \<Rightarrow> json \<Rightarrow> observation_row" where
  "new_observation env transport event payload body_len candidate prior event_json =
     \<lparr>ob_owner = vt_owner_subject transport, ob_source = oe_source_id event, ob_event = oe_event_id event,
      ob_sequence = oe_source_sequence event, ob_organization = oe_organization event, ob_observed_at = oe_observed_at event,
      ob_payload = payload, ob_prior = prior,
      ob_record = record_digest (in_sha256 env) prior payload (oe_event_id event) (oe_source_sequence event),
      ob_receipt = rc_receipt_id candidate, ob_key = vt_key_id transport, ob_json = event_json, ob_octets = int body_len,
      ob_transport = ''signature-valid'', ob_review = ''unreviewed'', ob_received_at = rc_received_at candidate\<rparr>"

text \<open>The statements before the first decision, \<open>begin\<close> to the search for the event.\<close>

definition observation_opening_fails :: "observation_faults \<Rightarrow> bool" where
  "observation_opening_fails d \<longleftrightarrow> of_fails d OBegin \<or> of_fails d OSetSubject \<or> of_fails d OLock \<or> of_fails d OFind"

definition store_database ::
    "ingest_env \<Rightarrow> observation_faults \<Rightarrow> bool \<Rightarrow> verified_transport \<Rightarrow> observation_event \<Rightarrow> string \<Rightarrow> nat \<Rightarrow> receipt_identity
     \<Rightarrow> observation_row list \<Rightarrow> (ingest_error + storage_outcome) \<times> observation_row list" where
  "store_database env d is_postgres transport event payload body_len candidate rows =
     (if \<not> is_postgres then (Inl StorageUnavailable, rows)
      else if observation_opening_fails d then (Inl DatabaseFailure, rows)
      else
        case List.find (\<lambda>r. ob_owner r = vt_owner_subject transport \<and> ob_source r = oe_source_id event \<and>
               ob_event r = oe_event_id event) rows of
          Some r \<Rightarrow>
            if ob_payload r = payload \<and> ob_sequence r = oe_source_sequence event
            then observation_commit d rows rows
                   \<lparr>so_duplicate = True, so_receipt_id = ob_receipt r, so_received_at = of_to_char d (ob_received_at r)\<rparr>
            else observation_rollback d rows EventConflict
        | None \<Rightarrow>
            if of_fails d OCursor then (Inl DatabaseFailure, rows)
            else
              let (prior_sequence, prior_record) =
                    (case observation_cursor rows (vt_owner_subject transport) (oe_source_id event) of
                       Some r \<Rightarrow> (ob_sequence r, ob_record r) | None \<Rightarrow> (0, ZERO_RECORD_DIGEST))
              in if i64_max < prior_sequence + 1 then (Inl SequenceConflict, rows)
                 else if oe_source_sequence event \<noteq> prior_sequence + 1 then observation_rollback d rows SequenceConflict
                 else
                   (case in_event_json env event of
                      None \<Rightarrow> (Inl Internal, rows)
                    | Some event_json \<Rightarrow>
                        if i64_max < int body_len then (Inl BodyTooLarge, rows)
                        else
                          let row = new_observation env transport event payload body_len candidate prior_record event_json
                          in if of_fails d OInsert \<or> \<not> observation_row_check row \<or> \<not> observation_unique rows row
                             then (Inl DatabaseFailure, rows)
                             else observation_commit d rows (rows @ [row])
                                    \<lparr>so_duplicate = False, so_receipt_id = rc_receipt_id candidate,
                                     so_received_at = rc_received_at candidate\<rparr>))"


section \<open>The memory store\<close>

record memory_record =
  mr_sequence :: int
  mr_payload :: string
  mr_receipt_id :: string
  mr_received_at :: string

record stream_cursor =
  sc_sequence :: int
  sc_record :: string

record memory_store =
  me_events :: "((string \<times> string \<times> string) \<times> memory_record) list"
  me_streams :: "((string \<times> string) \<times> stream_cursor) list"
  me_order :: "(string \<times> string \<times> string) list"

definition memory_store_default :: memory_store where
  "memory_store_default = \<lparr>me_events = [], me_streams = [], me_order = []\<rparr>"

definition store_memory ::
    "ingest_env \<Rightarrow> verified_transport \<Rightarrow> observation_event \<Rightarrow> string \<Rightarrow> receipt_identity \<Rightarrow> memory_store
     \<Rightarrow> (ingest_error + storage_outcome) \<times> memory_store" where
  "store_memory env transport event payload candidate m =
     (let event_key = (vt_owner_subject transport, oe_source_id event, oe_event_id event);
          stream_key = (vt_owner_subject transport, oe_source_id event)
      in case map_of (me_events m) event_key of
           Some existing \<Rightarrow>
             if mr_payload existing = payload \<and> mr_sequence existing = oe_source_sequence event
             then (Inr \<lparr>so_duplicate = True, so_receipt_id = mr_receipt_id existing, so_received_at = mr_received_at existing\<rparr>, m)
             else (Inl EventConflict, m)
         | None \<Rightarrow>
             let (prior_sequence, prior_record) =
                   (case map_of (me_streams m) stream_key of
                      Some c \<Rightarrow> (sc_sequence c, sc_record c) | None \<Rightarrow> (0, ZERO_RECORD_DIGEST))
             in if i64_max < prior_sequence + 1 then (Inl SequenceConflict, m)
                else if oe_source_sequence event \<noteq> prior_sequence + 1 then (Inl SequenceConflict, m)
                else if MEMORY_CAPACITY \<le> length (me_order m) then (Inl StorageUnavailable, m)
                else
                  (Inr \<lparr>so_duplicate = False, so_receipt_id = rc_receipt_id candidate, so_received_at = rc_received_at candidate\<rparr>,
                   \<lparr>me_events = AList.update event_key
                      \<lparr>mr_sequence = oe_source_sequence event, mr_payload = payload, mr_receipt_id = rc_receipt_id candidate,
                       mr_received_at = rc_received_at candidate\<rparr> (me_events m),
                    me_streams = AList.update stream_key
                      \<lparr>sc_sequence = oe_source_sequence event,
                       sc_record = record_digest (in_sha256 env) prior_record payload (oe_event_id event) (oe_source_sequence event)\<rparr>
                      (me_streams m),
                    me_order = me_order m @ [event_key]\<rparr>))"


section \<open>Ingest\<close>

record observation_service =
  os_database :: "observation_row list option"
  os_postgres :: bool
  os_keys :: key_ring
  os_memory :: memory_store
  os_allow_memory :: bool

text \<open>\<open>env::var\<close> of the key document.\<close>

datatype env_var = NotPresent | NotUnicode | Present string

definition observation_service_from_env ::
    "ingest_env \<Rightarrow> env_var \<Rightarrow> observation_row list option \<Rightarrow> bool \<Rightarrow> build_error + observation_service" where
  "observation_service_from_env env document database is_postgres =
     result_bind (case document of
         Present text \<Rightarrow> key_ring_parse env text | NotPresent \<Rightarrow> Inr [] | NotUnicode \<Rightarrow> Inl NonUnicodeKeyDocument) (\<lambda>keys.
     Inr \<lparr>os_database = database, os_postgres = is_postgres, os_keys = keys, os_memory = memory_store_default,
          os_allow_memory = False\<rparr>)"

record observation_receipt =
  or_spec_version :: string
  or_receipt_id :: string
  or_event_id :: string
  or_source_id :: string
  or_source_sequence :: int
  or_status :: string
  or_duplicate :: bool
  or_payload_sha256 :: string
  or_received_at :: string
  or_transport_verification :: string
  or_substantive_review :: string

record ingest_call =
  ic_path_source :: string
  ic_headers :: header_map
  ic_body :: string
  ic_now :: int
  ic_new_uuid :: uuid
  ic_faults :: observation_faults

text \<open>Everything before the stores: the event, its verified transport, the payload digest and the candidate receipt.\<close>

definition admit_observation ::
    "ingest_env \<Rightarrow> key_ring \<Rightarrow> ingest_call \<Rightarrow>
     ingest_error + observation_event \<times> verified_transport \<times> string \<times> receipt_identity" where
  "admit_observation env keys call =
     result_bind (validate_content_type (ic_headers call)) (\<lambda>_.
     if ic_body call = [] then Inl InvalidRequest
     else if OBSERVATION_BODY_BYTES < length (ic_body call) then Inl BodyTooLarge
     else
     result_bind (ok_or (in_from_slice env (ic_body call)) InvalidRequest) (\<lambda>event.
     result_bind (validate_event env event (ic_now call)) (\<lambda>_.
     if ic_path_source call \<noteq> oe_source_id event then Inl InvalidRequest
     else
     result_bind (verify env keys (ic_headers call) (ic_body call) event (ic_now call)) (\<lambda>transport.
     result_bind (ok_or (in_format_ts env (ic_now call)) Internal) (\<lambda>received_at.
     Inr (event, transport, sha256_label (in_sha256 env) (ic_body call),
          \<lparr>rc_receipt_id = ''rcpt_'' @ in_uuid_simple env (ic_new_uuid call), rc_received_at = received_at\<rparr>))))))"

definition observation_receipt_for :: "observation_event \<Rightarrow> string \<Rightarrow> storage_outcome \<Rightarrow> observation_receipt" where
  "observation_receipt_for event payload stored =
     \<lparr>or_spec_version = RECEIPT_SPEC, or_receipt_id = so_receipt_id stored, or_event_id = oe_event_id event,
      or_source_id = oe_source_id event, or_source_sequence = oe_source_sequence event,
      or_status = (if so_duplicate stored then ''duplicate'' else ''accepted''), or_duplicate = so_duplicate stored,
      or_payload_sha256 = payload, or_received_at = so_received_at stored,
      or_transport_verification = ''signature-valid'', or_substantive_review = ''unreviewed''\<rparr>"

definition ingest ::
    "ingest_env \<Rightarrow> ingest_call \<Rightarrow> observation_service \<Rightarrow> (ingest_error + observation_receipt) \<times> observation_service" where
  "ingest env call os =
     (case admit_observation env (os_keys os) call of
        Inl e \<Rightarrow> (Inl e, os)
      | Inr (event, transport, payload, candidate) \<Rightarrow>
          let (stored, os') =
                (case os_database os of
                   Some rows \<Rightarrow>
                     let (r, rows') = store_database env (ic_faults call) (os_postgres os) transport event payload
                                        (length (ic_body call)) candidate rows
                     in (r, os\<lparr>os_database := Some rows'\<rparr>)
                 | None \<Rightarrow>
                     if os_allow_memory os
                     then (let (r, m) = store_memory env transport event payload candidate (os_memory os) in (r, os\<lparr>os_memory := m\<rparr>))
                     else (Inl StorageUnavailable, os))
          in (result_bind stored (\<lambda>x. Inr (observation_receipt_for event payload x)), os'))"

fun ingest_problem :: "ingest_error \<Rightarrow> nat \<times> string \<times> string" where
  "ingest_problem InvalidRequest = (400, ''invalid-request'', ''readiness observation request is invalid'')"
| "ingest_problem BodyTooLarge = (413, ''invalid-request'', ''readiness observation body exceeds the configured limit'')"
| "ingest_problem InvalidSignature = (401, ''invalid-signature'', ''webhook authentication failed'')"
| "ingest_problem StaleSignature = (401, ''stale-signature'', ''webhook timestamp is outside the replay window'')"
| "ingest_problem EventConflict = (409, ''event-conflict'', ''event id was reused with different content'')"
| "ingest_problem SequenceConflict = (409, ''sequence-conflict'', ''source sequence must be the next contiguous value'')"
| "ingest_problem StorageUnavailable = (503, ''storage-unavailable'', ''readiness observation storage is unavailable'')"
| "ingest_problem DatabaseFailure = (503, ''storage-unavailable'', ''readiness observation storage is unavailable'')"
| "ingest_problem Internal = (500, ''internal'', ''readiness observation could not be processed'')"

text \<open>The handler: status 202 with the receipt, or a problem.\<close>

definition ingest_observation ::
    "ingest_env \<Rightarrow> ingest_call \<Rightarrow> observation_service \<Rightarrow>
     ((nat \<times> string \<times> string) + nat \<times> observation_receipt) \<times> observation_service" where
  "ingest_observation env call os =
     (let (r, os') = ingest env call os in (case r of Inl e \<Rightarrow> Inl (ingest_problem e) | Inr receipt \<Rightarrow> Inr (202, receipt), os'))"


text \<open>The two routes, as path segments, and the headers put on every answer.\<close>

fun observation_route :: "string list \<Rightarrow> string option" where
  "observation_route [a, b, c, d, source, e] =
     (if a = ''api'' \<and> b = ''v1'' \<and> c = ''readiness'' \<and> d = ''sources'' \<and> e = ''observations'' then Some source else None)"
| "observation_route [b, c, d, source, e] =
     (if b = ''v1'' \<and> c = ''readiness'' \<and> d = ''sources'' \<and> e = ''observations'' then Some source else None)"
| "observation_route _ = None"

definition OBSERVATION_SECURITY_HEADERS :: "(string \<times> string) list" where
  "OBSERVATION_SECURITY_HEADERS =
     (let none = [CHR 0x27] @ ''none'' @ [CHR 0x27] in
     [(''cache-control'', ''no-store''),
      (''content-security-policy'', ''default-src '' @ none @ ''; base-uri '' @ none @ ''; frame-ancestors '' @ none),
      (''referrer-policy'', ''no-referrer''),
      (''permissions-policy'', ''camera=(), geolocation=(), microphone=()''),
      (''x-content-type-options'', ''nosniff''),
      (''x-frame-options'', ''DENY'')])"

definition observation_security_headers :: "(string \<times> string) list \<Rightarrow> (string \<times> string) list" where
  "observation_security_headers headers = foldl header_insert headers OBSERVATION_SECURITY_HEADERS"

end
