(* ===== verification/Observation_Transport.thy ===== *)
theory Observation_Transport
  imports Observations
begin

text \<open>
  Transport verification of readiness observations: what an accepted signature proves, that a delivery signed as the
  webhook dispatcher signs is accepted, and what the key ring and the checks guarantee of every admitted observation.
\<close>

section \<open>Signatures\<close>

lemma decode_nibble_hex_digit: "d < 16 \<Longrightarrow> decode_nibble (hex_digit d) = Some d"
  by (auto simp: decode_nibble_def is_ascii_digit_def byte_hex_digit)

lemma decode_hex_lower [simp]: "decode_hex (hex_lower bytes) = Inr bytes"
proof (induction bytes)
  case (Cons c cs)
  have "byte c div 16 < 16" using byte_less_256 [of c] by (simp add: less_mult_imp_div_less)
  then show ?case using Cons by (simp add: decode_nibble_hex_digit)
qed simp

lemma decode_nibble_Some: "decode_nibble c = Some d \<Longrightarrow> d < 16 \<and> c = hex_digit d"
proof -
  assume "decode_nibble c = Some d"
  then consider "48 \<le> byte c" "byte c \<le> 57" "d = byte c - 48" | "97 \<le> byte c" "byte c \<le> 102" "d = byte c - 97 + 10"
    by (auto simp: decode_nibble_def is_ascii_digit_def split: if_splits)
  then have "d < 16 \<and> (if d < 10 then 48 + d else 87 + d) = byte c" by cases auto
  then show ?thesis by (metis char_of_char hex_digit_def)
qed

lemma decode_hex_Inr: "decode_hex s = Inr bytes \<Longrightarrow> even (length s) \<Longrightarrow> s = hex_lower bytes"
proof (induction s arbitrary: bytes rule: decode_hex.induct)
  case (1 h l rest)
  from "1.prems"(1) obtain high low bs where d: "decode_nibble h = Some high" "decode_nibble l = Some low"
    and b: "decode_hex rest = Inr bs" "bytes = char_of (16 * high + low) # bs"
    by (auto simp: result_elims)
  have "high < 16" "low < 16" "h = hex_digit high" "l = hex_digit low" using d decode_nibble_Some by blast+
  moreover have "rest = hex_lower bs"
    using "1.IH" [OF b(1)] "1.prems"(2) by simp
  ultimately show ?case by (simp add: b)
qed auto

text \<open>The signatures that parse are the lower-case codes of 32 bytes.\<close>

lemma parse_signature_iff:
  "parse_signature text = Inr bytes \<longleftrightarrow> text = ''v1='' @ hex_lower bytes \<and> length bytes = 32"
proof
  assume p: "parse_signature text = Inr bytes"
  then obtain hex where h: "text = ''v1='' @ hex" "length hex = 64" "decode_hex hex = Inr bytes"
    by (auto simp: parse_signature_def strip_prefix_Some split: option.splits if_splits)
  have "hex = hex_lower bytes" using h decode_hex_Inr by simp
  moreover from this h(2) have "length bytes = 32" by simp
  ultimately show "text = ''v1='' @ hex_lower bytes \<and> length bytes = 32" using h(1) by simp
next
  assume "text = ''v1='' @ hex_lower bytes \<and> length bytes = 32"
  then show "parse_signature text = Inr bytes" by (simp add: parse_signature_def strip_prefix_def)
qed

lemma verify_iff:
  "verify env ring headers body event now = Inr transport \<longleftrightarrow>
     (\<exists>stamp ts mac keys k.
        ingest_header headers ''x-canonical-webhook-id'' = Inr (oe_event_id event) \<and>
        ingest_header headers ''x-canonical-webhook-timestamp'' = Inr stamp \<and> parse_i64 stamp = Some ts \<and>
        \<bar>unix_timestamp now - ts\<bar> \<le> MAX_CLOCK_SKEW_SECONDS \<and>
        ingest_header headers ''x-canonical-webhook-signature'' = Inr (''v1='' @ hex_lower mac) \<and> length mac = 32 \<and>
        map_of ring (oe_source_id event) = Some keys \<and>
        List.find (\<lambda>k. key_applies k event now \<and> in_mac env (ik_secret k) (stamp @ ''.'' @ body) = mac) keys = Some k \<and>
        transport = \<lparr>vt_key_id = ik_key_id k, vt_owner_subject = ik_owner_subject k\<rparr>)"
  unfolding verify_def
  by (auto simp: result_bind_Inr_iff ok_or_iff if_Inl_Inr_iff not_less parse_signature_iff split: option.split_asm)
    (auto simp: hex_lower_inject)


text \<open>What makes a delivery authentic under a key.\<close>

definition authentic :: "ingest_env \<Rightarrow> header_map \<Rightarrow> string \<Rightarrow> observation_event \<Rightarrow> int \<Rightarrow> ingest_key \<Rightarrow> bool" where
  "authentic env headers body event now k \<longleftrightarrow>
     key_applies k event now \<and> ingest_header headers ''x-canonical-webhook-id'' = Inr (oe_event_id event) \<and>
     (case ingest_header headers ''x-canonical-webhook-timestamp'' of
        Inl _ \<Rightarrow> False
      | Inr stamp \<Rightarrow>
          (case parse_i64 stamp of
             None \<Rightarrow> False
           | Some ts \<Rightarrow>
               \<bar>unix_timestamp now - ts\<bar> \<le> 300 \<and>
               ingest_header headers ''x-canonical-webhook-signature'' = Inr (signature (in_mac env) (ik_secret k) stamp body) \<and>
               length (in_mac env (ik_secret k) (stamp @ ''.'' @ body)) = 32))"

definition source_keys :: "key_ring \<Rightarrow> string \<Rightarrow> ingest_key list" where
  "source_keys ring source = (case map_of ring source of None \<Rightarrow> [] | Some keys \<Rightarrow> keys)"

lemma verified_authentic:
  assumes "verify env ring headers body event now = Inr transport"
  obtains k where "k \<in> set (source_keys ring (oe_source_id event))" "authentic env headers body event now k"
    "vt_key_id transport = ik_key_id k" "vt_owner_subject transport = ik_owner_subject k"
proof -
  from assms obtain stamp ts mac keys k where v:
    "ingest_header headers ''x-canonical-webhook-id'' = Inr (oe_event_id event)"
    "ingest_header headers ''x-canonical-webhook-timestamp'' = Inr stamp" "parse_i64 stamp = Some ts"
    "\<bar>unix_timestamp now - ts\<bar> \<le> MAX_CLOCK_SKEW_SECONDS"
    "ingest_header headers ''x-canonical-webhook-signature'' = Inr (''v1='' @ hex_lower mac)" "length mac = 32"
    "map_of ring (oe_source_id event) = Some keys"
    and k: "List.find (\<lambda>k. key_applies k event now \<and> in_mac env (ik_secret k) (stamp @ ''.'' @ body) = mac) keys = Some k"
    and t: "transport = \<lparr>vt_key_id = ik_key_id k, vt_owner_subject = ik_owner_subject k\<rparr>"
    unfolding verify_iff by blast
  from k have "k \<in> set keys" "key_applies k event now" "in_mac env (ik_secret k) (stamp @ ''.'' @ body) = mac"
    by (auto simp: find_Some_iff)
  with v t that [of k] show ?thesis by (simp add: authentic_def source_keys_def signature_def)
qed

lemma authentic_verified:
  assumes "k \<in> set (source_keys ring (oe_source_id event))" and "authentic env headers body event now k"
  shows "\<exists>transport. verify env ring headers body event now = Inr transport"
proof -
  from assms(1) obtain keys where keys: "map_of ring (oe_source_id event) = Some keys" "k \<in> set keys"
    by (cases "map_of ring (oe_source_id event)") (auto simp: source_keys_def)
  from assms(2) obtain stamp ts where h:
    "ingest_header headers ''x-canonical-webhook-id'' = Inr (oe_event_id event)"
    "ingest_header headers ''x-canonical-webhook-timestamp'' = Inr stamp" "parse_i64 stamp = Some ts"
    "\<bar>unix_timestamp now - ts\<bar> \<le> 300"
    "ingest_header headers ''x-canonical-webhook-signature'' = Inr (signature (in_mac env) (ik_secret k) stamp body)"
    "length (in_mac env (ik_secret k) (stamp @ ''.'' @ body)) = 32"
    "key_applies k event now"
    by (auto simp: authentic_def split: sum.splits option.splits)
  let ?mac = "in_mac env (ik_secret k) (stamp @ ''.'' @ body)"
  let ?P = "\<lambda>k. key_applies k event now \<and> in_mac env (ik_secret k) (stamp @ ''.'' @ body) = ?mac"
  have "List.find ?P keys \<noteq> None" using keys h(7) unfolding find_None_iff by blast
  then obtain k' where k': "List.find ?P keys = Some k'" by blast
  show ?thesis
    unfolding verify_iff
    by (rule exI, rule exI [of _ stamp], rule exI [of _ ts], rule exI [of _ ?mac], rule exI [of _ keys], rule exI [of _ k'])
      (use h keys k' in \<open>simp add: signature_def\<close>)
qed

text \<open>C11: transport verification is exact: a delivery is accepted exactly if it is authentic under one of the keys
  configured for the event's source: the key's organization is the event's and the key is valid at this instant, the
  delivery names the event it carries, its timestamp is within 300 seconds of the clock, and its signature is \<open>v1=\<close> and
  the code of the 32-byte MAC of \<open>timestamp.body\<close>. The subject and key identifier it is filed under are that key's.\<close>

theorem verify_exact:
  "case verify env ring headers body event now of
     Inl _ \<Rightarrow> \<not> list_ex (authentic env headers body event now) (source_keys ring (oe_source_id event))
   | Inr transport \<Rightarrow>
       list_ex (\<lambda>k. authentic env headers body event now k \<and> vt_key_id transport = ik_key_id k \<and>
         vt_owner_subject transport = ik_owner_subject k) (source_keys ring (oe_source_id event))"
proof (cases "verify env ring headers body event now")
  case (Inl e)
  then show ?thesis using authentic_verified [of _ ring event env headers body now] by (auto simp: list_ex_iff)
next
  case (Inr transport)
  then show ?thesis using verified_authentic [OF Inr] by (simp add: list_ex_iff) blast
qed


section \<open>A delivery signed as the dispatcher signs\<close>

lemma digits_graphic: "list_all is_ascii_digit s \<Longrightarrow> list_all is_ascii_graphic s"
  by (auto simp: list_all_iff is_ascii_digit_def is_ascii_graphic_def)

lemma int_to_string_graphic: "list_all is_ascii_graphic (int_to_string i) \<and> int_to_string i \<noteq> []"
  using nat_to_string_digits [of "nat i"] nat_to_string_digits [of "nat (- i)"]
  by (auto simp: int_to_string_def digits_graphic is_ascii_graphic_def)

lemma hex_lower_chars: "list_all is_lower_hex (hex_lower bytes)"
proof (induction bytes)
  case (Cons c cs)
  have "byte c div 16 < 16" using byte_less_256 [of c] by (simp add: less_mult_imp_div_less)
  then have "is_lower_hex (hex_digit (byte c div 16))" "is_lower_hex (hex_digit (byte c mod 16))"
    by (auto simp: is_lower_hex_def is_ascii_digit_def byte_hex_digit)
  with Cons show ?case by simp
qed simp

lemma lower_hex_graphic: "list_all is_lower_hex s \<Longrightarrow> list_all is_ascii_graphic s"
  by (auto simp: list_all_iff is_lower_hex_def is_ascii_digit_def is_ascii_graphic_def)

lemma portable_graphic: "portable_identifier s \<Longrightarrow> list_all is_ascii_graphic s \<and> s \<noteq> [] \<and> length s \<le> 128"
  by (auto simp: portable_identifier_def list_all_iff ascii_defs)

lemma graphic_header:
  assumes "header_str headers name = Some v" and "list_all is_ascii_graphic v" and "v \<noteq> []" and "length v \<le> 4096"
  shows "ingest_header headers name = Inr v"
  using assms by (simp add: ingest_header_def trim_graphic)

lemma length_nat_to_string: "0 < k \<Longrightarrow> n < 10 ^ k \<Longrightarrow> length (nat_to_string n) \<le> k"
proof (induction n arbitrary: k rule: nat_to_string.induct)
  case (1 n)
  show ?case
  proof (cases "n < 10")
    case True
    then show ?thesis using "1.prems" by (simp add: nat_to_string.simps [of n])
  next
    case False
    then obtain k' where k: "k = Suc k'" "0 < k'"
      using "1.prems" by (cases k; cases "k - 1") auto
    then have "n div 10 < 10 ^ k'" using "1.prems" by (simp add: less_mult_imp_div_less mult.commute)
    with 1(1) [OF False k(2)] show ?thesis using False k by (simp add: nat_to_string.simps [of n])
  qed
qed

lemma length_int_to_string:
  assumes "i64_min \<le> i" and "i \<le> i64_max"
  shows "length (int_to_string i) \<le> 4096"
proof -
  have "nat i < 10 ^ 19" "nat (- i) < 10 ^ 19" using assms by (simp_all add: nat_less_iff)
  then have "length (nat_to_string (nat i)) \<le> 19" "length (nat_to_string (nat (- i))) \<le> 19"
    by (simp_all add: length_nat_to_string)
  then show ?thesis by (simp add: int_to_string_def)
qed

text \<open>C16: the signing schemes of the two sides agree: whatever the webhook dispatcher delivers is accepted by the ingest's
  transport verification, up to 300 seconds later, if a valid key of the source and organization has the
  dispatcher's secret and the delivery's identifier is the event's. The hypothesis on \<open>mac\<close> is that HMAC-SHA-256
  yields 32 bytes.\<close>

theorem signed_delivery_verifies:
  assumes "\<And>key text. length (in_mac env key text) = 32"
    and "k \<in> set (source_keys ring (oe_source_id event))" and "ik_secret k = wd_secret w" and "key_applies k event now"
    and "portable_identifier (oe_event_id event)" and "we_id we = oe_event_id event"
    and "i64_min \<le> sent" and "sent \<le> i64_max" and "\<bar>unix_timestamp now - sent\<bar> \<le> 300"
  shows "\<exists>transport. verify env ring
      (map (\<lambda>(name, v). ascii_header name v) (dl_headers (delivery_for (in_mac env) w sent we body)))
      (dl_body (delivery_for (in_mac env) w sent we body)) event now = Inr transport"
proof -
  let ?hs = "map (\<lambda>(name, v). ascii_header name v) (dl_headers (delivery_for (in_mac env) w sent we body))"
  let ?sig = "signature (in_mac env) (wd_secret w) (int_to_string sent) body"
  have strs: "header_str ?hs ''x-canonical-webhook-id'' = Some (oe_event_id event)"
    "header_str ?hs ''x-canonical-webhook-timestamp'' = Some (int_to_string sent)"
    "header_str ?hs ''x-canonical-webhook-signature'' = Some ?sig"
    using assms(6) by (simp_all add: header_str_def header_get_def delivery_for_def ascii_header_def Let_def)
  have sig: "list_all is_ascii_graphic ?sig" "?sig \<noteq> []" "length ?sig \<le> 4096"
    using lower_hex_graphic [OF hex_lower_chars] by (simp_all add: signature_def is_ascii_graphic_def assms(1))
  have "authentic env ?hs body event now k"
    using graphic_header [OF strs(1)] graphic_header [OF strs(2)] graphic_header [OF strs(3) sig]
      portable_graphic [OF assms(5)] int_to_string_graphic [of sent] length_int_to_string [OF assms(7,8)] assms(3,4,9,1)
      parse_i64_int_to_string [OF assms(7,8)]
    by (simp add: authentic_def)
  then show ?thesis
    using authentic_verified [OF assms(2)] by (simp add: delivery_for_def Let_def)
qed


definition example_ingest_key :: ingest_key where
  "example_ingest_key =
     \<lparr>ik_key_id = ''key-1'', ik_organization = ''acme'', ik_owner_subject = ''owner-1'', ik_secret = replicate 32 CHR ''k'',
      ik_valid_from = None, ik_valid_until = None\<rparr>"

definition example_event :: observation_event where
  "example_event =
     \<lparr>oe_spec_version = EVENT_SPEC, oe_event_id = ''event-1'', oe_source_id = ''source-1'', oe_source_sequence = 1,
      oe_organization = ''acme'', oe_observed_at = ''t'', oe_assertions =
        [\<lparr>oa_framework_id = ''soc2'', oa_control_id = ''CC6.1'', oa_reported_status = Observed, oa_statement = None, oa_evidence_ids = []\<rparr>],
      oe_evidence = []\<rparr>"

definition example_ingest_env :: ingest_env where
  "example_ingest_env =
     \<lparr>in_from_slice = (\<lambda>b. if b = ''e'' then Some example_event else None), in_key_document = (\<lambda>_. Some
        [\<lparr>ki_key_id = ''key-1'', ki_source_id = ''source-1'', ki_organization = ''acme'', ki_owner_subject = ''owner-1'',
          ki_secret = replicate 32 CHR ''k'', ki_valid_from = None, ki_valid_until = None\<rparr>]), in_url_parse = (\<lambda>_. None),
      in_parse_ts = (\<lambda>_. Some 0), in_format_ts = (\<lambda>_. Some ''t''), in_sha256 = (\<lambda>_. replicate 32 CHR ''s''),
      in_mac = (\<lambda>_ _. replicate 32 CHR ''m''), in_uuid_simple = (\<lambda>u. replicate 31 CHR ''0'' @ [hex_digit (unat u mod 16)]),
      in_event_json = (\<lambda>_. Some (JObject []))\<rparr>"

abbreviation example_ring :: key_ring where
  "example_ring \<equiv> [(''source-1'', [example_ingest_key])]"

definition example_dispatcher :: webhook_dispatcher where
  "example_dispatcher =
     \<lparr>wd_endpoint = \<lparr>url_scheme = ''https'', url_username = [], url_password = None, url_host = Some ''example.com'',
        url_query = None, url_fragment = None\<rparr>, wd_secret = replicate 32 CHR ''k''\<rparr>"

definition example_webhook :: webhook_event where
  "example_webhook =
     \<lparr>we_data = AssessmentData ''a'' [] ''received'', we_id = ''event-1'', we_occurred_at = ''t'', we_source = ''s'',
      we_spec_version = ''1.0'', we_event_type = ''observation''\<rparr>"

theorem signed_delivery_verifies_witness:
  "\<exists>transport. verify example_ingest_env example_ring
     (map (\<lambda>(name, v). ascii_header name v) (dl_headers (delivery_for (in_mac example_ingest_env) example_dispatcher 100 example_webhook ''e'')))
     (dl_body (delivery_for (in_mac example_ingest_env) example_dispatcher 100 example_webhook ''e'')) example_event 0 = Inr transport"
  by (rule signed_delivery_verifies [where k = example_ingest_key])
    (simp_all add: example_dispatcher_def example_webhook_def example_ingest_env_def example_ingest_key_def example_event_def
      source_keys_def key_applies_def portable_identifier_def ascii_defs unix_timestamp_def)


section \<open>The key ring\<close>

definition key_sound :: "string \<Rightarrow> ingest_key \<Rightarrow> bool" where
  "key_sound source k \<longleftrightarrow>
     portable_identifier source \<and> portable_identifier (ik_key_id k) \<and> portable_identifier (ik_organization k) \<and>
     valid_owner (ik_owner_subject k) \<and> 32 \<le> length (ik_secret k) \<and> list_all is_ascii_graphic (ik_secret k) \<and>
     (case (ik_valid_from k, ik_valid_until k) of (Some start, Some stop) \<Rightarrow> start < stop | _ \<Rightarrow> True)"

definition ring_sound :: "key_ring \<Rightarrow> bool" where
  "ring_sound ring \<longleftrightarrow> list_all (\<lambda>(source, keys). list_all (key_sound source) keys) ring"

lemma parse_key_sound:
  assumes "parse_key env seen i = Inr k"
  shows "key_sound (ki_source_id i) k"
proof -
  from assms obtain start stop where c: "portable_identifier (ki_key_id i)" "portable_identifier (ki_source_id i)"
      "portable_identifier (ki_organization i)" "valid_owner (ki_owner_subject i)" "32 \<le> length (ki_secret i)"
      "\<not> list_ex (\<lambda>c. \<not> is_ascii_graphic c) (ki_secret i)"
      "\<not> (case (start, stop) of (Some start, Some stop) \<Rightarrow> stop \<le> start | _ \<Rightarrow> False)"
    and k: "k = \<lparr>ik_key_id = ki_key_id i, ik_organization = ki_organization i, ik_owner_subject = ki_owner_subject i,
                  ik_secret = ki_secret i, ik_valid_from = start, ik_valid_until = stop\<rparr>"
    unfolding parse_key_def by (auto simp: result_bind_Inr_iff not_less split: if_split_asm)
  then show ?thesis by (auto simp: key_sound_def list_ex_iff list_all_iff split: option.split)
qed

lemma source_keys_update:
  "source_keys (AList.update s v ring) source = (if source = s then v else source_keys ring source)"
  by (simp add: source_keys_def update_conv')

lemma ring_sound_source: "k \<in> set (source_keys ring source) \<Longrightarrow> ring_sound ring \<Longrightarrow> key_sound source k"
  by (cases "map_of ring source") (auto simp: source_keys_def ring_sound_def list_all_iff dest!: map_of_SomeD)

lemma ring_sound_update:
  "ring_sound ring \<Longrightarrow> list_all (key_sound s) v \<Longrightarrow> ring_sound (AList.update s v ring)"
  by (induction ring) (auto simp: ring_sound_def)

lemma add_keys_sound: "add_keys env seen ring is = Inr ring' \<Longrightarrow> ring_sound ring \<Longrightarrow> ring_sound ring'"
proof (induction env seen ring "is" rule: add_keys.induct)
  case (2 env seen ring i "is")
  from "2.prems"(1) obtain key where k: "parse_key env seen i = Inr key"
    and rest: "add_keys env (ki_key_id i # seen) (AList.update (ki_source_id i) (source_keys ring (ki_source_id i) @ [key]) ring) is = Inr ring'"
    by (auto simp: result_bind_Inr_iff source_keys_def)
  have "list_all (key_sound (ki_source_id i)) (source_keys ring (ki_source_id i) @ [key])"
    using ring_sound_source [OF _ "2.prems"(2)] parse_key_sound [OF k] by (simp add: list_all_iff)
  with "2.prems"(2) have "ring_sound (AList.update (ki_source_id i) (source_keys ring (ki_source_id i) @ [key]) ring)"
    by (rule ring_sound_update)
  then show ?case using "2.IH" rest unfolding source_keys_def by blast
qed simp

lemma key_ring_parse_sound: "key_ring_parse env document = Inr ring \<Longrightarrow> ring_sound ring"
  by (auto simp: key_ring_parse_def result_bind_Inr_iff ring_sound_def split: if_splits dest: add_keys_sound)

end
