(* ===== verification/Observation_Ledger.thy ===== *)
theory Observation_Ledger
  imports Observation_Transport "HOL-Library.Multiset"
begin

text \<open>
  The observation ledger: every source's stream is numbered without gaps and chained by digests whatever fails, the
  schema never refuses an admitted observation, redelivery returns the first receipt, the chain binds the history, and
  the memory store the tests use answers as the database does: both refine one append-only log per source.
\<close>

section \<open>Admitted observations fit the schema\<close>

text \<open>Documented behaviour of the libraries: SHA-256 digests have 32 bytes, the simple form of a UUID is 32 lower-case
  hexadecimal digits, and an event serialises to an object.\<close>

definition library_ok :: "ingest_env \<Rightarrow> bool" where
  "library_ok env \<longleftrightarrow>
     (\<forall>bytes. length (in_sha256 env bytes) = 32) \<and>
     (\<forall>u. length (in_uuid_simple env u) = 32 \<and> list_all is_lower_hex (in_uuid_simple env u)) \<and>
     (\<forall>e. \<exists>kvs. in_event_json env e = Some (JObject kvs))"

lemma valid_sha256_label: "length (sha bytes) = 32 \<Longrightarrow> valid_sha256 (sha256_label sha bytes)"
  by (simp add: valid_sha256_def sha256_label_def strip_prefix_def hex_lower_chars)

lemma valid_record_digest:
  "(\<And>b. length (sha b) = 32) \<Longrightarrow> valid_sha256 (record_digest sha prior payload event_id sequence)"
  by (simp add: valid_sha256_def record_digest_def strip_prefix_def hex_lower_chars)

lemma valid_zero_digest: "valid_sha256 ZERO_RECORD_DIGEST"
proof -
  have "list_all is_lower_hex (replicate n CHR ''0'')" for n
    by (induction n) (simp_all add: is_lower_hex_def is_ascii_digit_def)
  then show ?thesis
    unfolding valid_sha256_def ZERO_RECORD_DIGEST_def strip_prefix_append option.case length_replicate by blast
qed

lemma portable_schema: "portable_identifier s \<Longrightarrow> schema_identifier s 1"
proof -
  assume p: "portable_identifier s"
  have "length (chars s) = length s"
    using portable_graphic [OF p] by (simp add: chars_ascii [OF graphic_ascii])
  with p show ?thesis
    by (simp add: portable_identifier_def schema_identifier_def list_all_iff Suc_le_eq disj_commute disj_left_commute)
qed

lemma valid_owner_chars: "valid_owner s \<Longrightarrow> length (chars s) = length s \<and> s \<noteq> [] \<and> length s \<le> 255"
proof -
  assume o: "valid_owner s"
  then have "is_ascii s" by (auto simp: valid_owner_def is_ascii_def list_all_iff ascii_defs)
  with o show ?thesis by (simp add: valid_owner_def chars_ascii)
qed

lemma receipt_schema: "list_all is_lower_hex h \<Longrightarrow> length h = 32 \<Longrightarrow> schema_identifier (''rcpt_'' @ h) 8"
proof -
  assume h: "list_all is_lower_hex h" "length h = 32"
  have "list_all is_ascii_graphic (''rcpt_'' @ h)"
    using lower_hex_graphic [OF h(1)] by (simp add: is_ascii_graphic_def)
  then have "length (chars (''rcpt_'' @ h)) = length (''rcpt_'' @ h)" by (subst chars_ascii [OF graphic_ascii]) simp_all
  then have "length (chars (''rcpt_'' @ h)) = 37" using h(2) by (simp del: chars.simps)
  moreover have "list_all is_ascii_alphanumeric h"
    using h(1) by (auto simp: list_all_iff is_lower_hex_def ascii_defs)
  ultimately show ?thesis by (auto simp: schema_identifier_def list_all_iff ascii_defs simp del: chars.simps)
qed

lemma admitted:
  assumes "admit_observation env keys call = Inr (event, transport, payload, candidate)"
  shows "in_from_slice env (ic_body call) = Some event \<and> validate_event env event (ic_now call) = Inr () \<and>
    verify env keys (ic_headers call) (ic_body call) event (ic_now call) = Inr transport \<and>
    payload = sha256_label (in_sha256 env) (ic_body call) \<and> ic_body call \<noteq> [] \<and> length (ic_body call) \<le> 262144 \<and>
    oe_source_id event = ic_path_source call \<and> rc_receipt_id candidate = ''rcpt_'' @ in_uuid_simple env (ic_new_uuid call) \<and>
    in_format_ts env (ic_now call) = Some (rc_received_at candidate)"
  using assms by (auto simp: admit_observation_def result_elims not_less split: if_splits)

lemma valid_event_ids:
  "validate_event env event now = Inr () \<Longrightarrow>
    portable_identifier (oe_event_id event) \<and> portable_identifier (oe_source_id event) \<and>
    portable_identifier (oe_organization event) \<and> 0 < oe_source_sequence event"
  by (auto simp: validate_event_def split: if_splits)

lemma admitted_transport:
  assumes "admit_observation env keys call = Inr (event, transport, payload, candidate)" and "ring_sound keys"
  shows "portable_identifier (vt_key_id transport) \<and> valid_owner (vt_owner_subject transport)"
proof -
  obtain k where k: "k \<in> set (source_keys keys (oe_source_id event))"
    and t: "vt_key_id transport = ik_key_id k" "vt_owner_subject transport = ik_owner_subject k"
    using admitted [OF assms(1)] verified_authentic by metis
  have "key_sound (oe_source_id event) k" by (rule ring_sound_source [OF k assms(2)])
  then show ?thesis by (simp add: t key_sound_def)
qed

lemma admitted_row_fits:
  assumes "library_ok env" and "ring_sound keys"
    and "admit_observation env keys call = Inr (event, transport, payload, candidate)"
    and "valid_sha256 prior" and "in_event_json env event = Some event_json"
  shows "observation_row_check (new_observation env transport event payload (length (ic_body call)) candidate prior event_json) \<and>
    valid_sha256 (ob_record (new_observation env transport event payload (length (ic_body call)) candidate prior event_json))"
proof -
  note a = admitted [OF assms(3)]
  note ids = valid_event_ids [of env event "ic_now call"]
  note t = admitted_transport [OF assms(3,2)]
  have org: "length (chars (oe_organization event)) \<le> 128 \<and> 1 \<le> length (chars (oe_organization event))"
    using portable_schema [of "oe_organization event"] a ids by (simp add: schema_identifier_def)
  have json: "as_object event_json \<noteq> None"
    using assms(1,5) unfolding library_ok_def by (metis as_object.simps(1) option.distinct(1) option.inject)
  have sha: "length (in_sha256 env b) = 32" for b using assms(1) by (simp add: library_ok_def)
  have rcpt: "schema_identifier (rc_receipt_id candidate) 8"
    using a assms(1) receipt_schema by (simp add: library_ok_def)
  show ?thesis
    using a ids t org json assms(4) valid_owner_chars [of "vt_owner_subject transport"] rcpt portable_schema
      valid_sha256_label [of "in_sha256 env" "ic_body call"] valid_record_digest [of "in_sha256 env"] sha
    by (simp add: observation_row_check_def new_observation_def Suc_le_eq)
qed

text \<open>C15: the schema never refuses an admitted observation: with keys from a key document, the row written for it
  satisfies every check of the table, whatever record digest it is chained to.\<close>

theorem admitted_rows_fit_schema:
  assumes "library_ok env" and "key_ring_parse env document = Inr keys"
    and "admit_observation env keys call = Inr (event, transport, payload, candidate)"
    and "valid_sha256 prior" and "in_event_json env event = Some event_json"
  shows "observation_row_check (new_observation env transport event payload (length (ic_body call)) candidate prior event_json) \<and>
    valid_sha256 (ob_record (new_observation env transport event payload (length (ic_body call)) candidate prior event_json))"
  by (rule admitted_row_fits [OF assms(1) key_ring_parse_sound [OF assms(2)] assms(3-5)])


section \<open>The ledger invariant\<close>

abbreviation stream :: "observation_row list \<Rightarrow> string \<Rightarrow> string \<Rightarrow> observation_row list" where
  "stream rows owner source \<equiv> filter (\<lambda>r. ob_owner r = owner \<and> ob_source r = source) rows"

definition chain_end :: "string \<Rightarrow> observation_row list \<Rightarrow> string" where
  "chain_end prior rows = (if rows = [] then prior else ob_record (last rows))"

fun chained :: "(string \<Rightarrow> string) \<Rightarrow> string \<Rightarrow> observation_row list \<Rightarrow> bool" where
  "chained sha prior [] = True"
| "chained sha prior (r # rs) =
     (ob_prior r = prior \<and> ob_record r = record_digest sha prior (ob_payload r) (ob_event r) (ob_sequence r) \<and>
      chained sha (ob_record r) rs)"

lemma chain_end_simps [simp]:
  "chain_end p [] = p" "chain_end p (r # rs) = chain_end (ob_record r) rs" "chain_end p (rs @ [r]) = ob_record r"
  by (simp_all add: chain_end_def)

lemma chained_snoc [simp]:
  "chained sha p (rs @ [r]) \<longleftrightarrow>
     chained sha p rs \<and> ob_prior r = chain_end p rs \<and>
     ob_record r = record_digest sha (ob_prior r) (ob_payload r) (ob_event r) (ob_sequence r)"
  by (induction rs arbitrary: p) auto

definition ledger_ok :: "(string \<Rightarrow> string) \<Rightarrow> observation_row list \<Rightarrow> bool" where
  "ledger_ok sha rows \<longleftrightarrow>
     (\<forall>owner source.
        map ob_sequence (stream rows owner source) = map int [1..<Suc (length (stream rows owner source))] \<and>
        distinct (map ob_event (stream rows owner source)) \<and>
        chained sha ZERO_RECORD_DIGEST (stream rows owner source)) \<and>
     list_all (\<lambda>r. ob_transport r = ''signature-valid'' \<and> ob_review r = ''unreviewed'') rows \<and>
     list_all observation_row_check rows"

lemma ledger_ok_Nil [simp]: "ledger_ok sha []"
  by (simp add: ledger_ok_def)

lemma ledger_ok_stream:
  assumes "ledger_ok sha rows"
  shows "map ob_sequence (stream rows owner source) = map int [1..<Suc (length (stream rows owner source))]"
    and "distinct (map ob_event (stream rows owner source))" and "chained sha ZERO_RECORD_DIGEST (stream rows owner source)"
  using assms unfolding ledger_ok_def by blast+

lemma ledger_ok_snoc:
  assumes ok: "ledger_ok sha rows" and L: "L = stream rows (ob_owner r) (ob_source r)"
    and "ob_sequence r = int (length L) + 1" and "ob_event r \<notin> set (map ob_event L)"
    and "ob_prior r = chain_end ZERO_RECORD_DIGEST L"
    and "ob_record r = record_digest sha (ob_prior r) (ob_payload r) (ob_event r) (ob_sequence r)"
    and "ob_transport r = ''signature-valid''" and "ob_review r = ''unreviewed''" and "observation_row_check r"
  shows "ledger_ok sha (rows @ [r])"
proof -
  have "map ob_sequence (stream (rows @ [r]) o' s') = map int [1..<Suc (length (stream (rows @ [r]) o' s'))] \<and>
      distinct (map ob_event (stream (rows @ [r]) o' s')) \<and> chained sha ZERO_RECORD_DIGEST (stream (rows @ [r]) o' s')" for o' s'
  proof (cases "o' = ob_owner r \<and> s' = ob_source r")
    case True
    then have "stream (rows @ [r]) o' s' = L @ [r]" by (simp add: L)
    with assms(3-6) ledger_ok_stream [OF ok, of "ob_owner r" "ob_source r", folded L] show ?thesis by simp
  next
    case False
    then have "stream (rows @ [r]) o' s' = stream rows o' s'" by auto
    with ledger_ok_stream [OF ok, of o' s'] show ?thesis by simp
  qed
  with ok assms(7-9) show ?thesis unfolding ledger_ok_def by simp
qed

lemma sequence_nth:
  assumes "map ob_sequence L = map int [1..<Suc (length L)]" and "i < length L"
  shows "ob_sequence (L ! i) = int i + 1"
  using arg_cong [OF assms(1), of "\<lambda>xs. xs ! i"] assms(2) by (simp del: upt_Suc)

lemma sort_by_sequence:
  assumes "map ob_sequence L = map int [1..<Suc (length L)]"
  shows "sort_key (\<lambda>r. - ob_sequence r) L = rev L"
proof (rule sort_key_inj_key_eq)
  show "inj_on (\<lambda>r. - ob_sequence r) (set L)"
  proof (rule inj_onI)
    fix x y assume "x \<in> set L" "y \<in> set L" and eq: "- ob_sequence x = - ob_sequence y"
    then obtain i j where ij: "i < length L" "j < length L" "L ! i = x" "L ! j = y" by (auto simp: in_set_conv_nth)
    have "i = j" using eq sequence_nth [OF assms ij(1)] sequence_nth [OF assms ij(2)] ij(3,4) by simp
    with ij show "x = y" by simp
  qed
  have "map (\<lambda>r. - ob_sequence r) (rev L) = rev (map uminus (map ob_sequence L))" by (simp add: rev_map)
  also have "\<dots> = rev (map uminus (map int [1..<Suc (length L)]))" by (simp only: assms)
  finally show "sorted (map (\<lambda>r. - ob_sequence r) (rev L))"
    by (simp add: sorted_rev_iff_nth_mono del: upt_Suc)
qed simp

lemma observation_cursor_last:
  assumes "map ob_sequence (stream rows owner source) = map int [1..<Suc (length (stream rows owner source))]"
  shows "observation_cursor rows owner source =
    (if stream rows owner source = [] then None else Some (last (stream rows owner source)))"
  unfolding observation_cursor_def sort_by_sequence [OF assms]
  by (cases "stream rows owner source" rule: rev_cases) simp_all


lemma cursor_values:
  assumes "ledger_ok sha rows"
  shows "(case observation_cursor rows owner source of
       Some r \<Rightarrow> (ob_sequence r, ob_record r) | None \<Rightarrow> (0, ZERO_RECORD_DIGEST)) =
     (int (length (stream rows owner source)), chain_end ZERO_RECORD_DIGEST (stream rows owner source))"
proof (cases "stream rows owner source" rule: rev_cases)
  case Nil
  then show ?thesis by (simp add: observation_cursor_last [OF ledger_ok_stream(1) [OF assms]])
next
  case (snoc rs r)
  then have "ob_sequence (stream rows owner source ! length rs) = int (length rs) + 1"
    by (intro sequence_nth ledger_ok_stream(1) [OF assms]) simp
  with snoc show ?thesis by (simp add: observation_cursor_last [OF ledger_ok_stream(1) [OF assms]])
qed

lemma find_stream:
  "List.find (\<lambda>r. ob_owner r = owner \<and> ob_source r = source \<and> ob_event r = event) rows =
   List.find (\<lambda>r. ob_event r = event) (stream rows owner source)"
  by (induction rows) auto

lemma store_database_rows:
  assumes ok: "ledger_ok (in_sha256 env) rows"
    and step: "store_database env d is_postgres t e payload n cand rows = (res, rows')"
  shows "rows' = rows \<or>
    (\<exists>json. rows' = rows @ [new_observation env t e payload n cand
          (chain_end ZERO_RECORD_DIGEST (stream rows (vt_owner_subject t) (oe_source_id e))) json] \<and>
       oe_source_sequence e = int (length (stream rows (vt_owner_subject t) (oe_source_id e))) + 1 \<and>
       oe_event_id e \<notin> set (map ob_event (stream rows (vt_owner_subject t) (oe_source_id e))) \<and>
       observation_row_check (last rows'))"
proof (cases "List.find (\<lambda>r. ob_event r = oe_event_id e) (stream rows (vt_owner_subject t) (oe_source_id e))")
  case None
  then have "oe_event_id e \<notin> set (map ob_event (stream rows (vt_owner_subject t) (oe_source_id e)))"
    by (auto simp: find_None_iff)
  with None step show ?thesis
    unfolding store_database_def find_stream cursor_values [OF ok]
    by (auto simp: observation_commit_def observation_rollback_def Let_def split: if_splits option.splits)
next
  case (Some r)
  with step show ?thesis
    unfolding store_database_def find_stream
    by (auto simp: observation_commit_def observation_rollback_def split: if_splits)
qed

lemma store_database_ok:
  assumes ok: "ledger_ok (in_sha256 env) rows"
    and step: "store_database env d is_postgres t e payload n cand rows = (res, rows')"
  shows "ledger_ok (in_sha256 env) rows' \<and> prefix rows rows'"
  using store_database_rows [OF ok step]
proof (elim disjE exE conjE)
  fix json
  assume new: "rows' = rows @ [new_observation env t e payload n cand
        (chain_end ZERO_RECORD_DIGEST (stream rows (vt_owner_subject t) (oe_source_id e))) json]"
    and "oe_source_sequence e = int (length (stream rows (vt_owner_subject t) (oe_source_id e))) + 1"
    and "oe_event_id e \<notin> set (map ob_event (stream rows (vt_owner_subject t) (oe_source_id e)))"
    and "observation_row_check (last rows')"
  then have "ledger_ok (in_sha256 env) rows'"
    unfolding new by (intro ledger_ok_snoc [OF ok refl]) (simp_all add: new_observation_def)
  with new show ?thesis by simp
qed (use ok in simp)

section \<open>Any run keeps the ledger\<close>

text \<open>The rows of a service, and the service as a machine over calls.\<close>

definition service_rows :: "observation_service \<Rightarrow> observation_row list" where
  "service_rows os = (case os_database os of None \<Rightarrow> [] | Some rows \<Rightarrow> rows)"

definition ingest_step :: "ingest_env \<Rightarrow> observation_service \<Rightarrow> ingest_call \<Rightarrow> observation_service" where
  "ingest_step env os call = snd (ingest env call os)"

lemma ingest_rows:
  assumes "ledger_ok (in_sha256 env) (service_rows os)"
  shows "ledger_ok (in_sha256 env) (service_rows (ingest_step env os call)) \<and>
    prefix (service_rows os) (service_rows (ingest_step env os call))"
proof (cases "os_database os")
  case None
  then show ?thesis
    by (auto simp: service_rows_def ingest_step_def ingest_def Let_def split: sum.split prod.split)
next
  case (Some rows)
  then have ok: "ledger_ok (in_sha256 env) rows" using assms by (simp add: service_rows_def)
  show ?thesis
  proof (cases "admit_observation env (os_keys os) call")
    case (Inl err)
    then show ?thesis using assms by (simp add: ingest_step_def ingest_def)
  next
    case (Inr adm)
    then obtain e t payload cand where adm: "admit_observation env (os_keys os) call = Inr (e, t, payload, cand)"
      by (cases adm) auto
    obtain r rows' where step: "store_database env (ic_faults call) (os_postgres os) t e payload (length (ic_body call)) cand rows = (r, rows')"
      by fastforce
    have "service_rows (ingest_step env os call) = rows'"
      by (simp add: ingest_step_def ingest_def adm Some step service_rows_def)
    with store_database_ok [OF ok step] Some show ?thesis by (simp add: service_rows_def)
  qed
qed

interpretation ledger: machine "ingest_step env" "\<lambda>os. ledger_ok (in_sha256 env) (service_rows os)" for env
  by unfold_locales (use ingest_rows in blast)

lemma ingest_run_prefix:
  assumes "ledger_ok (in_sha256 env) (service_rows os)"
  shows "prefix (service_rows os) (service_rows (run (ingest_step env) os calls))"
  by (rule ledger.run_related [OF assms, where R = "\<lambda>a b. prefix (service_rows a) (service_rows b)"])
    (use ingest_rows in blast, simp, rule prefix_order.trans)


lemma from_env_service:
  assumes "observation_service_from_env env document database is_postgres = Inr os"
  shows "os_database os = database \<and> os_postgres os = is_postgres \<and> ring_sound (os_keys os) \<and> \<not> os_allow_memory os"
proof -
  have "ring_sound (os_keys os)"
    using assms by (auto simp: observation_service_from_env_def result_bind_Inr_iff ring_sound_def [of "[]"]
        dest: key_ring_parse_sound split: env_var.splits)
  with assms show ?thesis by (auto simp: observation_service_from_env_def result_bind_Inr_iff)
qed

lemma ingest_step_frame [simp]:
  "os_keys (ingest_step env os call) = os_keys os" "os_postgres (ingest_step env os call) = os_postgres os"
  "os_allow_memory (ingest_step env os call) = os_allow_memory os"
  "os_database (ingest_step env os call) = None \<longleftrightarrow> os_database os = None"
  by (auto simp: ingest_step_def ingest_def Let_def split: sum.split prod.split option.split)

lemma ingest_run_frame [simp]:
  "os_keys (run (ingest_step env) os calls) = os_keys os" "os_postgres (run (ingest_step env) os calls) = os_postgres os"
  "os_allow_memory (run (ingest_step env) os calls) = os_allow_memory os"
  "os_database (run (ingest_step env) os calls) = None \<longleftrightarrow> os_database os = None"
  by (induction calls arbitrary: os) simp_all

text \<open>C9: the ledger stays sound under any sequence of deliveries, whatever statements fail and whatever commits are in
  doubt: the records of every owner and source are numbered 1, 2, 3, ... without gaps, no event occurs twice, each record
  commits to the one before it, all are filed as signature-valid and unreviewed, and nothing is ever changed or
  removed: later ledgers extend earlier ones.\<close>

theorem observation_ledger_chained:
  assumes "observation_service_from_env env document (Some []) is_postgres = Inr os"
  shows "let rows = service_rows (run (ingest_step env) os calls); L = stream rows owner source
    in map ob_sequence L = map int [1..<Suc (length L)] \<and> distinct (map ob_event L) \<and>
       chained (in_sha256 env) ZERO_RECORD_DIGEST L \<and>
       list_all (\<lambda>r. ob_transport r = ''signature-valid'' \<and> ob_review r = ''unreviewed'') rows \<and>
       prefix rows (service_rows (run (ingest_step env) os (calls @ further)))"
proof -
  have "ledger_ok (in_sha256 env) (service_rows os)"
    using from_env_service [OF assms] by (simp add: service_rows_def)
  then have ok: "ledger_ok (in_sha256 env) (service_rows (run (ingest_step env) os calls))" by (rule ledger.inv_run)
  have "list_all (\<lambda>r. ob_transport r = ''signature-valid'' \<and> ob_review r = ''unreviewed'')
      (service_rows (run (ingest_step env) os calls))"
    using ok unfolding ledger_ok_def by blast
  with ledger_ok_stream [OF ok, of owner source] ingest_run_prefix [OF ok, of further] show ?thesis
    unfolding Let_def run_append by blast
qed


section \<open>Receipts\<close>

lemma find_unique:
  assumes "distinct (map f L)" and "q \<in> set L"
  shows "List.find (\<lambda>r. f r = f q) L = Some q"
  using assms
proof (induction L)
  case (Cons x L)
  then show ?case by (cases "f x = f q") auto
qed simp

lemma redelivered:
  assumes ok: "ledger_ok (in_sha256 env) rows" and q: "q \<in> set rows" and pg: "is_postgres"
    and same: "ob_owner q = vt_owner_subject t" "ob_source q = oe_source_id e" "ob_event q = oe_event_id e"
    and calm: "\<And>stmt. \<not> of_fails d stmt"
  shows "store_database env d is_postgres t e payload n cand rows =
    (if ob_payload q = payload \<and> ob_sequence q = oe_source_sequence e
     then Inr \<lparr>so_duplicate = True, so_receipt_id = ob_receipt q, so_received_at = of_to_char d (ob_received_at q)\<rparr>
     else Inl EventConflict, rows)"
proof -
  have "q \<in> set (stream rows (vt_owner_subject t) (oe_source_id e))" using q same by simp
  from find_unique [OF ledger_ok_stream(2) [OF ok] this]
  have "List.find (\<lambda>r. ob_event r = oe_event_id e) (stream rows (vt_owner_subject t) (oe_source_id e)) = Some q"
    by (simp add: same)
  with calm pg show ?thesis
    by (simp add: store_database_def find_stream observation_opening_fails_def observation_commit_def observation_rollback_def)
qed

lemma ingest_database:
  assumes "os_database os = Some rows" and "admit_observation env (os_keys os) call = Inr (e, t, payload, cand)"
    and "store_database env (ic_faults call) (os_postgres os) t e payload (length (ic_body call)) cand rows = (r, rows')"
  shows "ingest env call os = (result_bind r (\<lambda>x. Inr (observation_receipt_for e payload x)), os\<lparr>os_database := Some rows'\<rparr>)"
  using assms by (simp add: ingest_def)

text \<open>C13: redelivery is idempotent: once a record is in the ledger, also when the acknowledgement of its commit was
  lost, then after any further deliveries the same event of the same owner and source is answered, if the database
  works, with the identifier of the first receipt when payload and sequence agree, and with a conflict when
  they do not; the ledger stays as it is.\<close>

theorem redelivery_returns_receipt:
  assumes "observation_service_from_env env document (Some []) True = Inr os"
    and "q \<in> set (service_rows (run (ingest_step env) os calls))"
    and "later = run (ingest_step env) os (calls @ further)"
    and "admit_observation env (os_keys os) call = Inr (e, t, payload, cand)"
    and "vt_owner_subject t = ob_owner q" and "oe_source_id e = ob_source q" and "oe_event_id e = ob_event q"
    and "\<And>stmt. \<not> of_fails (ic_faults call) stmt"
  shows "ingest env call later =
    (if payload = ob_payload q \<and> oe_source_sequence e = ob_sequence q
     then Inr (observation_receipt_for e payload
       \<lparr>so_duplicate = True, so_receipt_id = ob_receipt q, so_received_at = of_to_char (ic_faults call) (ob_received_at q)\<rparr>)
     else Inl EventConflict, later)"
proof -
  note os = from_env_service [OF assms(1)]
  have ok: "ledger_ok (in_sha256 env) (service_rows os)" using os by (simp add: service_rows_def)
  have "os_database later \<noteq> None" using os assms(3) by simp
  then obtain rows where rows: "os_database later = Some rows" by blast
  have "prefix (service_rows (run (ingest_step env) os calls)) (service_rows later)"
    unfolding assms(3) run_append by (rule ingest_run_prefix [OF ledger.inv_run [OF ok]])
  then have "q \<in> set (service_rows later)" using assms(2) set_mono_prefix by blast
  then have q: "q \<in> set rows" by (simp add: service_rows_def rows)
  have "ledger_ok (in_sha256 env) rows"
    using ledger.inv_run [OF ok, of "calls @ further"] rows assms(3) by (simp add: service_rows_def)
  note stored = redelivered [OF this q, of True t e "ic_faults call" payload "length (ic_body call)" cand]
  have keys: "os_keys later = os_keys os" "os_postgres later" using os assms(3) by simp_all
  show ?thesis
    by (subst ingest_database [OF rows, unfolded keys, OF assms(4)]) (use stored assms rows keys in auto)
qed


lemma store_database_Inr:
  assumes "store_database env d is_postgres t e payload n cand rows = (Inr out, rows')"
  shows "\<exists>q \<in> set rows'. ob_owner q = vt_owner_subject t \<and> ob_source q = oe_source_id e \<and> ob_event q = oe_event_id e \<and>
    ob_payload q = payload \<and> ob_sequence q = oe_source_sequence e \<and> so_receipt_id out = ob_receipt q \<and>
    (if so_duplicate out then rows' = rows else rows' = rows @ [q] \<and> ob_key q = vt_key_id t \<and> ob_octets q = int n)"
proof (cases "List.find (\<lambda>r. ob_owner r = vt_owner_subject t \<and> ob_source r = oe_source_id e \<and> ob_event r = oe_event_id e) rows")
  case None
  with assms show ?thesis
    unfolding store_database_def
    by (auto simp: observation_commit_def observation_rollback_def Let_def new_observation_def split: if_splits option.splits prod.splits)
next
  case (Some q)
  then have "q \<in> set rows" "ob_owner q = vt_owner_subject t" "ob_source q = oe_source_id e" "ob_event q = oe_event_id e"
    by (auto simp: find_Some_iff)
  moreover have "ob_payload q = payload \<and> ob_sequence q = oe_source_sequence e \<and> so_receipt_id out = ob_receipt q \<and>
      so_duplicate out \<and> rows' = rows"
    using assms Some unfolding store_database_def
    by (auto simp: observation_commit_def observation_rollback_def split: if_splits)
  ultimately show ?thesis by auto
qed

text \<open>C12: a receipt means stored and authenticated: whenever the handler answers 202, the ledger holds, before the answer,
  the record the receipt describes, with the digest of the very body received, filed for the owner of a key of the
  event's source under which this delivery is authentic; the answer is a duplicate exactly if nothing was
  written. Without a database no receipt is ever given.\<close>

theorem receipt_means_stored:
  assumes "observation_service_from_env env document database is_postgres = Inr start"
    and "os = run (ingest_step env) start calls"
    and "ingest_observation env call os = (Inr (status, receipt), os')"
  shows "database \<noteq> None \<and> status = 202 \<and>
    (\<exists>q event. in_from_slice env (ic_body call) = Some event \<and> q \<in> set (service_rows os') \<and>
       ob_event q = or_event_id receipt \<and> ob_source q = or_source_id receipt \<and> ob_sequence q = or_source_sequence receipt \<and>
       ob_receipt q = or_receipt_id receipt \<and> ob_payload q = or_payload_sha256 receipt \<and>
       ob_payload q = sha256_label (in_sha256 env) (ic_body call) \<and>
       list_ex (\<lambda>k. ik_owner_subject k = ob_owner q \<and> authentic env (ic_headers call) (ic_body call) event (ic_now call) k)
         (source_keys (os_keys os) (ob_source q)) \<and>
       or_substantive_review receipt = ''unreviewed'' \<and>
       service_rows os' = (if or_duplicate receipt then service_rows os else service_rows os @ [q]))"
proof -
  note start = from_env_service [OF assms(1)]
  from assms(3) have i: "ingest env call os = (Inr receipt, os')" and st: "status = 202"
    by (auto simp: ingest_observation_def Let_def split: prod.splits sum.splits)
  then obtain e t payload cand where adm: "admit_observation env (os_keys os) call = Inr (e, t, payload, cand)"
    by (cases "admit_observation env (os_keys os) call") (auto simp: ingest_def)
  have "database \<noteq> None"
  proof
    assume "database = None"
    then have "os_database os = None" "\<not> os_allow_memory os" using start assms(2) by simp_all
    with i adm show False by (simp add: ingest_def)
  qed
  then obtain rows where rows: "os_database os = Some rows" using start assms(2) by (cases "os_database os") simp_all
  obtain r rows' where step: "store_database env (ic_faults call) (os_postgres os) t e payload (length (ic_body call)) cand rows = (r, rows')"
    by fastforce
  from i ingest_database [OF rows adm step] obtain out where out: "r = Inr out"
    and receipt: "receipt = observation_receipt_for e payload out" and os': "os' = os\<lparr>os_database := Some rows'\<rparr>"
    by (auto simp: result_bind_Inr_iff)
  from store_database_Inr [OF step [unfolded out]] obtain q where q: "q \<in> set rows'" "ob_owner q = vt_owner_subject t"
      "ob_source q = oe_source_id e" "ob_event q = oe_event_id e" "ob_payload q = payload" "ob_sequence q = oe_source_sequence e"
      "so_receipt_id out = ob_receipt q" "if so_duplicate out then rows' = rows else rows' = rows @ [q]"
    by (auto split: if_splits)
  note a = admitted [OF adm]
  obtain k where "k \<in> set (source_keys (os_keys os) (oe_source_id e))"
      "authentic env (ic_headers call) (ic_body call) e (ic_now call) k" "vt_owner_subject t = ik_owner_subject k"
    using verified_authentic [of env "os_keys os" "ic_headers call" "ic_body call" e "ic_now call" t] a by blast
  then have "list_ex (\<lambda>k. ik_owner_subject k = ob_owner q \<and> authentic env (ic_headers call) (ic_body call) e (ic_now call) k)
      (source_keys (os_keys os) (ob_source q))"
    using q by (auto simp: list_ex_iff)
  then show ?thesis
    using \<open>database \<noteq> None\<close> st a q
    by (intro conjI exI [of _ q] exI [of _ e]) (auto simp: receipt os' service_rows_def rows observation_receipt_for_def split: if_splits)
qed


section \<open>The chain binds the history\<close>

definition row_message :: "observation_row \<Rightarrow> string" where
  "row_message r = record_message (ob_prior r) (ob_payload r) (ob_event r) (ob_sequence r)"

lemma int_to_string_no_line_feed: "line_feed \<notin> set (int_to_string i)"
  using int_to_string_graphic [of i] by (auto simp: list_all_iff is_ascii_graphic_def)

definition line :: "string \<Rightarrow> string" where "line v = v @ [line_feed]"

lemma line_inject:
  "line_feed \<notin> set v \<Longrightarrow> line_feed \<notin> set v' \<Longrightarrow> line v @ x = line v' @ x' \<longleftrightarrow> v = v' \<and> x = x'"
  using append_sep_inject [of line_feed v v' x x'] by (simp add: line_def)

lemma record_message_lines:
  "record_message p a e i = RECORD_DOMAIN @ line p @ line a @ line e @ line (int_to_string i) @ []"
  by (simp add: record_message_def line_def)

lemma record_message_inject:
  assumes "line_feed \<notin> set p" "line_feed \<notin> set a" "line_feed \<notin> set e"
    and "line_feed \<notin> set p'" "line_feed \<notin> set a'" "line_feed \<notin> set e'"
  shows "record_message p a e i = record_message p' a' e' j \<longleftrightarrow> p = p' \<and> a = a' \<and> e = e' \<and> i = j"
  unfolding record_message_lines
  using assms int_to_string_no_line_feed [of i] int_to_string_no_line_feed [of j]
  by (simp add: line_inject del: append_Nil2) (simp add: line_def int_to_string_inject)

lemma valid_sha256_no_line_feed: "valid_sha256 s \<Longrightarrow> line_feed \<notin> set s"
  by (auto simp: valid_sha256_def strip_prefix_Some list_all_iff is_lower_hex_def is_ascii_digit_def split: option.splits)

lemma row_message_inject:
  assumes "observation_row_check r" and "observation_row_check r'"
  shows "row_message r = row_message r' \<longleftrightarrow>
    ob_prior r = ob_prior r' \<and> ob_payload r = ob_payload r' \<and> ob_event r = ob_event r' \<and> ob_sequence r = ob_sequence r'"
proof -
  have "line_feed \<notin> set (ob_event q)" if "observation_row_check q" for q
    using that by (auto simp: observation_row_check_def schema_identifier_def list_all_iff ascii_defs)
  moreover have "line_feed \<notin> set (ob_prior q) \<and> line_feed \<notin> set (ob_payload q)" if "observation_row_check q" for q
    using that valid_sha256_no_line_feed by (simp add: observation_row_check_def)
  ultimately show ?thesis using assms unfolding row_message_def by (intro record_message_inject) blast+
qed

abbreviation reported :: "observation_row \<Rightarrow> int \<times> string \<times> string" where
  "reported r \<equiv> (ob_sequence r, ob_event r, ob_payload r)"

lemma record_row_message: "chained sha p (rs @ [r]) \<Longrightarrow> ob_record r = ''sha256:'' @ hex_lower (sha (row_message r))"
  by (simp add: record_digest_def row_message_def)

lemma chained_same_end:
  assumes "inj_on sha (row_message ` (set L \<union> set M))" and "chained sha p L" and "chained sha p M"
    and "list_all observation_row_check (L @ M)" and "length L = length M" and "chain_end p L = chain_end p M"
  shows "map reported L = map reported M"
  using assms
proof (induction L arbitrary: M rule: rev_induct)
  case (snoc r L)
  then obtain q N where M: "M = N @ [q]" by (cases M rule: rev_cases) auto
  have "ob_record r = ob_record q" using snoc.prems(6) M by simp
  moreover have "ob_record r = ''sha256:'' @ hex_lower (sha (row_message r))" by (rule record_row_message [OF snoc.prems(2)])
  moreover have "ob_record q = ''sha256:'' @ hex_lower (sha (row_message q))"
    by (rule record_row_message [OF snoc.prems(3) [unfolded M]])
  ultimately have "sha (row_message r) = sha (row_message q)" by (simp add: hex_lower_inject)
  then have "row_message r = row_message q" by (rule inj_onD [OF snoc.prems(1)]) (simp_all add: M)
  then have same: "ob_prior r = ob_prior q" "ob_payload r = ob_payload q" "ob_event r = ob_event q" "ob_sequence r = ob_sequence q"
    using row_message_inject [of r q] snoc.prems(4) M by simp_all
  have "map reported L = map reported N"
  proof (rule snoc.IH)
    show "inj_on sha (row_message ` (set L \<union> set N))" by (rule inj_on_subset [OF snoc.prems(1)]) (auto simp: M)
  qed (use snoc.prems(2-5) M same(1) in simp_all)
  with M same show ?case by simp
qed simp


text \<open>C14: the last record binds the whole history: if the last records of two streams have the same digest, the streams
  report the same events, with the same sequence numbers and payload digests, in the same order, unless two of their
  records collide under the hash.\<close>

theorem chain_binds_history:
  assumes "observation_service_from_env env document (Some []) is_postgres = Inr os"
    and "observation_service_from_env env document' (Some []) is_postgres' = Inr os'"
    and L: "L = stream (service_rows (run (ingest_step env) os calls)) owner source"
    and M: "M = stream (service_rows (run (ingest_step env) os' calls')) owner' source'"
    and "L \<noteq> []" and "M \<noteq> []" and "ob_record (last L) = ob_record (last M)"
    and "inj_on (in_sha256 env) (row_message ` (set L \<union> set M))"
  shows "map reported L = map reported M"
proof -
  have ok: "ledger_ok (in_sha256 env) (service_rows (run (ingest_step env) os calls))"
    "ledger_ok (in_sha256 env) (service_rows (run (ingest_step env) os' calls'))"
    by (rule ledger.inv_run, use from_env_service [OF assms(1)] from_env_service [OF assms(2)] in \<open>simp add: service_rows_def\<close>)+
  note Ls = ledger_ok_stream [OF ok(1), of owner source, folded L]
  note Ms = ledger_ok_stream [OF ok(2), of owner' source', folded M]
  have checks: "list_all observation_row_check (L @ M)"
    using ok unfolding ledger_ok_def L M by (auto simp: list_all_iff)
  have last_in: "last L \<in> set L" "last M \<in> set M" using assms(5,6) by simp_all
  have "ob_record (last L) = ''sha256:'' @ hex_lower (in_sha256 env (row_message (last L)))"
    "ob_record (last M) = ''sha256:'' @ hex_lower (in_sha256 env (row_message (last M)))"
    using record_row_message [of "in_sha256 env" ZERO_RECORD_DIGEST "butlast L" "last L"] Ls(3) assms(5)
      record_row_message [of "in_sha256 env" ZERO_RECORD_DIGEST "butlast M" "last M"] Ms(3) assms(6) by simp_all
  with assms(7) have "in_sha256 env (row_message (last L)) = in_sha256 env (row_message (last M))"
    by (simp add: hex_lower_inject)
  then have "row_message (last L) = row_message (last M)" by (rule inj_onD [OF assms(8)]) (use last_in in simp_all)
  then have "ob_sequence (last L) = ob_sequence (last M)"
    using row_message_inject [of "last L" "last M"] checks last_in by (auto simp: list_all_iff)
  moreover have "ob_sequence (last L) = int (length L)" "ob_sequence (last M) = int (length M)"
    using sequence_nth [OF Ls(1), of "length L - 1"] sequence_nth [OF Ms(1), of "length M - 1"] assms(5,6)
    by (simp_all add: last_conv_nth of_nat_diff Suc_le_eq)
  ultimately have "length L = length M" by simp
  moreover have "chain_end ZERO_RECORD_DIGEST L = chain_end ZERO_RECORD_DIGEST M"
    using assms(5-7) by (simp add: chain_end_def)
  ultimately show ?thesis by (intro chained_same_end [OF assms(8) Ls(3) Ms(3) checks])
qed


section \<open>A delivery\<close>

definition calm :: observation_faults where
  "calm = \<lparr>of_fails = (\<lambda>_. False), of_commit_applied = False, of_to_char = (\<lambda>t. t)\<rparr>"

definition example_observation :: ingest_call where
  "example_observation =
     \<lparr>ic_path_source = ''source-1'',
      ic_headers = [ascii_header ''content-type'' ''application/json'', ascii_header ''x-canonical-webhook-id'' ''event-1'',
        ascii_header ''x-canonical-webhook-timestamp'' ''0'',
        ascii_header ''x-canonical-webhook-signature'' (signature (in_mac example_ingest_env) [] [] [])],
      ic_body = ''e'', ic_now = 0, ic_new_uuid = 7, ic_faults = calm\<rparr>"

definition example_observations :: observation_service where
  "example_observations =
     \<lparr>os_database = Some [], os_postgres = True, os_keys = example_ring, os_memory = memory_store_default, os_allow_memory = False\<rparr>"

lemma example_from_env:
  "observation_service_from_env example_ingest_env (Present []) (Some []) True = Inr example_observations"
  by code_simp

definition example_transport :: verified_transport where
  "example_transport = \<lparr>vt_key_id = ''key-1'', vt_owner_subject = ''owner-1''\<rparr>"

definition example_candidate :: receipt_identity where
  "example_candidate = \<lparr>rc_receipt_id = ''rcpt_'' @ in_uuid_simple example_ingest_env 7, rc_received_at = ''t''\<rparr>"

definition example_payload :: string where
  "example_payload = sha256_label (in_sha256 example_ingest_env) ''e''"

definition example_row :: observation_row where
  "example_row = new_observation example_ingest_env example_transport example_event
     example_payload 1
     example_candidate ZERO_RECORD_DIGEST (JObject [])"

lemma example_event_valid: "validate_event example_ingest_env example_event 0 = Inr ()"
  by (simp add: validate_event_def example_event_def example_ingest_env_def portable_identifier_def ascii_defs unix_timestamp_def)

lemma example_content_type: "validate_content_type (ic_headers example_observation) = Inr ()"
proof -
  have "trim ''application/json'' = ''application/json''" by (rule trim_graphic) (simp add: is_ascii_graphic_def)
  moreover have "split_on CHR '';'' ''application/json'' = [''application/json'']" by simp
  ultimately show ?thesis
    by (simp add: validate_content_type_def example_observation_def header_str_def header_get_def ascii_header_def
      eq_ignore_ascii_case_def)
qed

lemma example_verified: "verify example_ingest_env example_ring (ic_headers example_observation) ''e'' example_event 0 =
   Inr example_transport"
proof -
  let ?hs = "ic_headers example_observation" and ?mac = "replicate 32 CHR ''m''"
  have "list_all is_ascii_graphic (''v1='' @ hex_lower ?mac)"
    using lower_hex_graphic [OF hex_lower_chars] by (simp add: is_ascii_graphic_def)
  then have sig: "ingest_header ?hs ''x-canonical-webhook-signature'' = Inr (''v1='' @ hex_lower ?mac)"
    by (intro graphic_header)
      (simp_all add: example_observation_def header_str_def header_get_def ascii_header_def signature_def example_ingest_env_def del: replicate.simps)
  have hid: "ingest_header ?hs ''x-canonical-webhook-id'' = Inr ''event-1''"
    by (intro graphic_header) (simp_all add: example_observation_def header_str_def header_get_def ascii_header_def is_ascii_graphic_def)
  have ts: "ingest_header ?hs ''x-canonical-webhook-timestamp'' = Inr ''0''"
    by (intro graphic_header) (simp_all add: example_observation_def header_str_def header_get_def ascii_header_def is_ascii_graphic_def)
  show ?thesis
    unfolding verify_def hid ts sig
    by (simp add: example_event_def parse_i64_def parse_digits_def digits_value_def is_ascii_digit_def unix_timestamp_def
      parse_signature_def strip_prefix_def key_applies_def example_ingest_key_def example_ingest_env_def example_transport_def del: replicate.simps)
qed

lemma example_admitted:
  "admit_observation example_ingest_env example_ring example_observation =
    Inr (example_event, example_transport, example_payload,
      example_candidate)"
proof -
  have "ic_body example_observation = ''e''" "ic_now example_observation = 0" "ic_path_source example_observation = ''source-1''"
    "ic_new_uuid example_observation = 7" by (simp_all add: example_observation_def)
  moreover have "in_from_slice example_ingest_env ''e'' = Some example_event" "in_format_ts example_ingest_env 0 = Some ''t''"
    "oe_source_id example_event = ''source-1''"
    by (simp_all add: example_ingest_env_def example_event_def)
  ultimately show ?thesis
    by (simp add: admit_observation_def example_content_type example_event_valid example_verified example_payload_def example_candidate_def)
qed

lemma example_library: "library_ok example_ingest_env"
proof -
  have "is_lower_hex (hex_digit (unat u mod 16))" for u :: uuid
    by (simp add: is_lower_hex_def is_ascii_digit_def byte_hex_digit) linarith
  moreover have "list_all is_lower_hex (replicate n CHR ''0'')" for n
    by (induction n) (simp_all add: is_lower_hex_def is_ascii_digit_def)
  ultimately show ?thesis by (simp add: library_ok_def example_ingest_env_def del: replicate.simps)
qed

lemma example_ring_sound: "ring_sound example_ring"
  using from_env_service [OF example_from_env] by (simp add: example_observations_def)

lemma example_row_check: "observation_row_check example_row"
proof -
  have "in_event_json example_ingest_env example_event = Some (JObject [])" by (simp add: example_ingest_env_def)
  then show ?thesis
    using admitted_row_fits [OF example_library example_ring_sound example_admitted valid_zero_digest]
    by (simp add: example_row_def example_observation_def)
qed

lemma example_ingested:
  "ingest example_ingest_env example_observation example_observations =
    (Inr (observation_receipt_for example_event (ob_payload example_row)
       \<lparr>so_duplicate = False, so_receipt_id = ob_receipt example_row, so_received_at = ''t''\<rparr>),
     example_observations\<lparr>os_database := Some [example_row]\<rparr>)"
proof -
  have step: "store_database example_ingest_env calm True example_transport example_event example_payload 1 example_candidate [] =
    (Inr \<lparr>so_duplicate = False, so_receipt_id = ob_receipt example_row, so_received_at = ''t''\<rparr>, [example_row])"
  proof -
    have "in_event_json example_ingest_env example_event = Some (JObject [])" "oe_source_sequence example_event = 1"
      by (simp_all add: example_ingest_env_def example_event_def)
    moreover have "ob_receipt example_row = rc_receipt_id example_candidate" "rc_received_at example_candidate = ''t''"
      by (simp_all add: example_row_def new_observation_def example_candidate_def)
    moreover have "new_observation example_ingest_env example_transport example_event example_payload (Suc 0) example_candidate
        ZERO_RECORD_DIGEST (JObject []) = example_row"
      by (simp add: example_row_def)
    ultimately show ?thesis
      using example_row_check
      by (simp add: store_database_def observation_opening_fails_def calm_def observation_cursor_def observation_unique_def
          observation_commit_def Let_def)
  qed
  have "os_database example_observations = Some []" by (simp add: example_observations_def)
  moreover have "admit_observation example_ingest_env (os_keys example_observations) example_observation =
      Inr (example_event, example_transport, example_payload, example_candidate)"
    using example_admitted by (simp add: example_observations_def)
  moreover have "store_database example_ingest_env (ic_faults example_observation) (os_postgres example_observations)
      example_transport example_event example_payload (length (ic_body example_observation)) example_candidate [] =
    (Inr \<lparr>so_duplicate = False, so_receipt_id = ob_receipt example_row, so_received_at = ''t''\<rparr>, [example_row])"
    using step by (simp add: example_observation_def example_observations_def)
  moreover have "ob_payload example_row = example_payload" by (simp add: example_row_def new_observation_def)
  ultimately show ?thesis by (simp add: ingest_database)
qed


lemma example_run:
  "run (ingest_step example_ingest_env) example_observations [example_observation] =
    example_observations\<lparr>os_database := Some [example_row]\<rparr>"
  by (simp add: ingest_step_def example_ingested)

lemma example_rows [simp]:
  "service_rows (example_observations\<lparr>os_database := Some [example_row]\<rparr>) = [example_row]"
  "os_keys example_observations = example_ring"
  "ob_owner example_row = ''owner-1''" "ob_source example_row = ''source-1''" "ob_event example_row = ''event-1''"
  "ob_sequence example_row = 1" "ob_payload example_row = example_payload"
  by (simp_all add: service_rows_def example_observations_def example_row_def new_observation_def example_transport_def example_event_def)

theorem admitted_rows_fit_schema_witness: "observation_row_check example_row"
proof -
  have "in_event_json example_ingest_env example_event = Some (JObject [])" by (simp add: example_ingest_env_def)
  moreover have "key_ring_parse example_ingest_env [] = Inr example_ring" by code_simp
  ultimately show ?thesis
    using admitted_rows_fit_schema [OF example_library _ example_admitted valid_zero_digest]
    by (simp add: example_row_def example_observation_def)
qed

theorem observation_ledger_chained_witness:
  "service_rows (run (ingest_step example_ingest_env) example_observations [example_observation]) = [example_row] \<and>
   chained (in_sha256 example_ingest_env) ZERO_RECORD_DIGEST [example_row]"
  using observation_ledger_chained [OF example_from_env, of "[example_observation]" "''owner-1''" "''source-1''" "[]"]
  unfolding example_run by (simp add: Let_def del: chained.simps)

theorem redelivery_returns_receipt_witness:
  "ingest example_ingest_env example_observation (run (ingest_step example_ingest_env) example_observations [example_observation]) =
    (Inr (observation_receipt_for example_event example_payload
       \<lparr>so_duplicate = True, so_receipt_id = ob_receipt example_row, so_received_at = ob_received_at example_row\<rparr>),
     run (ingest_step example_ingest_env) example_observations [example_observation])"
proof -
  have "q \<in> set (service_rows (run (ingest_step example_ingest_env) example_observations [example_observation]))" if "q = example_row" for q
    by (simp add: example_run that del: run.simps)
  moreover have "\<not> of_fails (ic_faults example_observation) stmt" "of_to_char (ic_faults example_observation) x = x" for stmt x
    by (simp_all add: example_observation_def calm_def)
  moreover have "vt_owner_subject example_transport = ''owner-1''" "oe_source_id example_event = ''source-1''"
    "oe_event_id example_event = ''event-1''" "oe_source_sequence example_event = 1"
    by (simp_all add: example_transport_def example_event_def)
  ultimately show ?thesis
    using redelivery_returns_receipt [OF example_from_env, where q = example_row and calls = "[example_observation]" and further = "[]",
      OF _ refl, of example_observation example_event example_transport example_payload example_candidate] example_admitted
    by (simp del: run.simps)
qed

theorem receipt_means_stored_witness:
  "\<exists>receipt os'. ingest_observation example_ingest_env example_observation example_observations = (Inr (202, receipt), os') \<and>
    (\<exists>q \<in> set (service_rows os'). ob_receipt q = or_receipt_id receipt)"
proof -
  obtain receipt os' where r: "ingest_observation example_ingest_env example_observation example_observations = (Inr (202, receipt), os')"
    by (simp add: ingest_observation_def example_ingested)
  with receipt_means_stored [OF example_from_env, of example_observations "[]" example_observation 202 receipt os'] show ?thesis
    by auto
qed

theorem chain_binds_history_witness:
  "map reported (stream (service_rows (run (ingest_step example_ingest_env) example_observations [example_observation]))
     ''owner-1'' ''source-1'') = [(1, ''event-1'', example_payload)]"
  using chain_binds_history [OF example_from_env example_from_env refl refl, where calls = "[example_observation]"
      and owner = "''owner-1''" and source = "''source-1''" and calls' = "[example_observation]"
      and owner' = "''owner-1''" and source' = "''source-1''"]
  unfolding example_run by simp

end
