(* ===== verification/Observation_Stores.thy ===== *)
theory Observation_Stores
  imports Observation_Ledger
begin

text \<open>
  The contract both observation stores implement, an append-only log per owner and source, and the two refinement
  proofs: the database table and the memory store of the tests answer every sequence of deliveries as the log does.
\<close>

section \<open>The abstract log\<close>

record log_entry =
  en_event :: string
  en_payload :: string
  en_receipt :: string
  en_received_at :: string

record log_state =
  lg_streams :: "string \<times> string \<Rightarrow> log_entry list"
  lg_receipts :: "string list"

fun log_find :: "nat \<Rightarrow> log_entry list \<Rightarrow> string \<Rightarrow> (nat \<times> log_entry) option" where
  "log_find i [] event = None"
| "log_find i (x # xs) event = (if en_event x = event then Some (i, x) else log_find (Suc i) xs event)"

text \<open>An event of the log is answered again with its receipt if it is repeated as it was; otherwise only the next
  number of the stream is taken.\<close>

definition log_store ::
    "verified_transport \<Rightarrow> observation_event \<Rightarrow> string \<Rightarrow> receipt_identity \<Rightarrow> log_state
     \<Rightarrow> (ingest_error + storage_outcome) \<times> log_state" where
  "log_store t e payload cand lg =
     (let key = (vt_owner_subject t, oe_source_id e); L = lg_streams lg key
      in case log_find 0 L (oe_event_id e) of
           Some (i, x) \<Rightarrow>
             (if en_payload x = payload \<and> oe_source_sequence e = int i + 1
              then Inr \<lparr>so_duplicate = True, so_receipt_id = en_receipt x, so_received_at = en_received_at x\<rparr>
              else Inl EventConflict, lg)
         | None \<Rightarrow>
             if oe_source_sequence e = int (length L) + 1
             then (Inr \<lparr>so_duplicate = False, so_receipt_id = rc_receipt_id cand, so_received_at = rc_received_at cand\<rparr>,
                   \<lparr>lg_streams = (lg_streams lg)(key := L @ [\<lparr>en_event = oe_event_id e, en_payload = payload,
                      en_receipt = rc_receipt_id cand, en_received_at = rc_received_at cand\<rparr>]),
                    lg_receipts = lg_receipts lg @ [rc_receipt_id cand]\<rparr>)
             else (Inl SequenceConflict, lg))"

definition log_ingest :: "ingest_env \<Rightarrow> key_ring \<Rightarrow> log_state \<Rightarrow> ingest_call \<Rightarrow> (ingest_error + observation_receipt) \<times> log_state" where
  "log_ingest env keys lg call =
     (case admit_observation env keys call of
        Inl err \<Rightarrow> (Inl err, lg)
      | Inr (e, t, payload, cand) \<Rightarrow>
          (let (r, lg') = log_store t e payload cand lg
           in (result_bind r (\<lambda>x. Inr (observation_receipt_for e payload x)), lg')))"

definition log_empty :: log_state where
  "log_empty = \<lparr>lg_streams = (\<lambda>_. []), lg_receipts = []\<rparr>"

lemma log_find_snoc:
  "log_find k (L @ [x]) ev =
     (case log_find k L ev of Some p \<Rightarrow> Some p | None \<Rightarrow> if en_event x = ev then Some (k + length L, x) else None)"
  by (induction L arbitrary: k) (auto split: option.split)

lemma log_store_cases:
  assumes "log_store t e payload cand lg = (r, lg')"
  shows "lg' = lg \<or>
    (\<exists>x. lg_streams lg' = (lg_streams lg)((vt_owner_subject t, oe_source_id e) := lg_streams lg (vt_owner_subject t, oe_source_id e) @ [x])
       \<and> lg_receipts lg' = lg_receipts lg @ [rc_receipt_id cand])"
  using assms by (auto simp: log_store_def Let_def split: option.splits if_splits)

text \<open>What a run must respect for the stores to answer alike: room in the memory store, a fresh receipt, a database that
  works and prints timestamps as it was given them.\<close>

definition call_ok :: "ingest_env \<Rightarrow> log_state \<Rightarrow> ingest_call \<Rightarrow> bool" where
  "call_ok env lg call \<longleftrightarrow>
     length (lg_receipts lg) < MEMORY_CAPACITY \<and>
     ''rcpt_'' @ in_uuid_simple env (ic_new_uuid call) \<notin> set (lg_receipts lg) \<and>
     (\<forall>stmt. \<not> of_fails (ic_faults call) stmt) \<and> (\<forall>x. of_to_char (ic_faults call) x = x)"


section \<open>The table\<close>

definition entry_of :: "observation_row \<Rightarrow> log_entry" where
  "entry_of r = \<lparr>en_event = ob_event r, en_payload = ob_payload r, en_receipt = ob_receipt r, en_received_at = ob_received_at r\<rparr>"

lemma entry_of_simps [simp]:
  "en_event (entry_of r) = ob_event r" "en_payload (entry_of r) = ob_payload r"
  "en_receipt (entry_of r) = ob_receipt r" "en_received_at (entry_of r) = ob_received_at r"
  by (simp_all add: entry_of_def)

lemma log_find_rows:
  assumes "map ob_sequence L = map int [Suc k..<Suc k + length L]"
  shows "log_find k (map entry_of L) ev = map_option (\<lambda>r. (nat (ob_sequence r - 1), entry_of r)) (List.find (\<lambda>r. ob_event r = ev) L)"
  using assms
proof (induction L arbitrary: k)
  case (Cons r L)
  then have "ob_sequence r = int k + 1" and "map ob_sequence L = map int [Suc (Suc k)..<Suc (Suc k) + length L]"
    by (simp_all add: upt_conv_Cons del: upt_Suc)
  with Cons.IH [of "Suc k"] show ?case by simp
qed simp

definition table_sim :: "ingest_env \<Rightarrow> observation_row list \<Rightarrow> log_state \<Rightarrow> bool" where
  "table_sim env rows lg \<longleftrightarrow>
     ledger_ok (in_sha256 env) rows \<and> (\<forall>owner source. lg_streams lg (owner, source) = map entry_of (stream rows owner source)) \<and>
     lg_receipts lg = map ob_receipt rows"


lemma table_find:
  assumes "table_sim env rows lg"
  shows "log_find 0 (lg_streams lg (owner, source)) ev =
    map_option (\<lambda>r. (nat (ob_sequence r - 1), entry_of r)) (List.find (\<lambda>r. ob_event r = ev) (stream rows owner source))"
proof -
  have "ledger_ok (in_sha256 env) rows" using assms by (simp add: table_sim_def)
  from log_find_rows [of "stream rows owner source" 0 ev] ledger_ok_stream(1) [OF this, of owner source] assms
  show ?thesis by (simp add: table_sim_def del: upt_Suc)
qed

lemma table_sequence:
  assumes "table_sim env rows lg" and "List.find (\<lambda>r. ob_event r = ev) (stream rows owner source) = Some r"
  shows "int (nat (ob_sequence r - 1)) + 1 = ob_sequence r"
proof -
  have ok: "ledger_ok (in_sha256 env) rows" using assms(1) by (simp add: table_sim_def)
  obtain i where "i < length (stream rows owner source)" "stream rows owner source ! i = r"
    using assms(2) by (auto simp: find_Some_iff)
  with sequence_nth [OF ledger_ok_stream(1) [OF ok], of i owner source] show ?thesis by simp
qed

lemma table_simulates:
  assumes sim: "table_sim env rows lg" and lib: "library_ok env" and ring: "ring_sound keys"
    and adm: "admit_observation env keys call = Inr (e, t, payload, cand)"
    and calm: "\<And>stmt. \<not> of_fails d stmt" "\<And>x. of_to_char d x = x"
    and fresh: "rc_receipt_id cand \<notin> set (lg_receipts lg)" and range: "oe_source_sequence e \<le> i64_max"
  shows "fst (store_database env d True t e payload (length (ic_body call)) cand rows) = fst (log_store t e payload cand lg) \<and>
    table_sim env (snd (store_database env d True t e payload (length (ic_body call)) cand rows)) (snd (log_store t e payload cand lg))"
proof -
  let ?o = "vt_owner_subject t" and ?s = "oe_source_id e"
  let ?L = "stream rows ?o ?s"
  have ok: "ledger_ok (in_sha256 env) rows" and streams: "lg_streams lg (?o, ?s) = map entry_of ?L"
    and receipts: "lg_receipts lg = map ob_receipt rows" using sim by (simp_all add: table_sim_def)
  note find = table_find [OF sim, of ?o ?s "oe_event_id e"]
  show ?thesis
  proof (cases "List.find (\<lambda>r. ob_event r = oe_event_id e) ?L")
    case (Some r)
    note seq = table_sequence [OF sim Some]
    show ?thesis
      using sim calm seq Some find
      by (simp add: store_database_def find_stream observation_opening_fails_def observation_commit_def observation_rollback_def
          log_store_def Let_def eq_commute [of "ob_sequence r"])
  next
    case None
    then have new: "log_find 0 (lg_streams lg (?o, ?s)) (oe_event_id e) = None" using find by simp
    show ?thesis
    proof (cases "oe_source_sequence e = int (length ?L) + 1")
      case False
      with sim calm None new streams show ?thesis
        unfolding store_database_def find_stream cursor_values [OF ok]
        by (simp add: observation_opening_fails_def observation_rollback_def log_store_def Let_def)
    next
      case True
      obtain kvs where json: "in_event_json env e = Some (JObject kvs)" using lib unfolding library_ok_def by blast
      let ?row = "new_observation env t e payload (length (ic_body call)) cand (chain_end ZERO_RECORD_DIGEST ?L) (JObject kvs)"
      have "valid_sha256 (chain_end ZERO_RECORD_DIGEST ?L)"
      proof (cases ?L rule: rev_cases)
        case Nil
        then show ?thesis by (simp add: valid_zero_digest)
      next
        case (snoc rs r)
        then have "r \<in> set rows" by (metis filter_is_subset in_set_conv_decomp subsetD)
        then have "observation_row_check r" using ok unfolding ledger_ok_def by (auto simp: list_all_iff)
        with snoc show ?thesis by (simp add: observation_row_check_def)
      qed
      then have row: "observation_row_check ?row" using admitted_row_fits [OF lib ring adm _ json] by blast
      have nodup: "oe_event_id e \<notin> set (map ob_event ?L)" using None by (auto simp: find_None_iff)
      have uniq: "observation_unique rows ?row"
        unfolding observation_unique_def list_all_iff
      proof (intro ballI conjI notI)
        fix q assume q: "q \<in> set rows" "ob_receipt q = ob_receipt ?row"
        then have "rc_receipt_id cand \<in> ob_receipt ` set rows" by (auto simp: new_observation_def intro: rev_image_eqI)
        then show False using fresh receipts by simp
      next
        fix q assume q: "q \<in> set rows"
          "ob_owner q = ob_owner ?row \<and> ob_source q = ob_source ?row \<and> (ob_event q = ob_event ?row \<or> ob_sequence q = ob_sequence ?row)"
        then have mem: "q \<in> set ?L" by (simp add: new_observation_def)
        then obtain i where i: "i < length ?L" "?L ! i = q" by (meson in_set_conv_nth)
        have "ob_sequence q = int i + 1" using sequence_nth [OF ledger_ok_stream(1) [OF ok] i(1)] i(2) by simp
        moreover have "ob_event q \<noteq> oe_event_id e" using nodup mem unfolding set_map by (metis imageI)
        ultimately show False using q True i(1) by (simp add: new_observation_def)
      qed
      have bound: "\<not> i64_max < int (length ?L) + 1" "\<not> i64_max < int (length (ic_body call))"
        using range True admitted [OF adm] by simp_all
      have step: "store_database env d True t e payload (length (ic_body call)) cand rows =
        (Inr \<lparr>so_duplicate = False, so_receipt_id = rc_receipt_id cand, so_received_at = rc_received_at cand\<rparr>, rows @ [?row])"
        using calm None True json row uniq bound
        unfolding store_database_def find_stream cursor_values [OF ok]
        by (simp add: observation_opening_fails_def observation_commit_def Let_def)
      have "ledger_ok (in_sha256 env) (rows @ [?row])" using store_database_ok [OF ok step] by simp
      moreover have "entry_of ?row = \<lparr>en_event = oe_event_id e, en_payload = payload, en_receipt = rc_receipt_id cand,
          en_received_at = rc_received_at cand\<rparr>" by (simp add: entry_of_def new_observation_def)
      ultimately show ?thesis
        using sim new True streams unfolding step
        by (auto simp: log_store_def Let_def table_sim_def new_observation_def [of env t e payload])
    qed
  qed
qed


section \<open>The memory store\<close>

text \<open>The record of an event, from its place in the log.\<close>

definition record_of :: "nat \<times> log_entry \<Rightarrow> memory_record" where
  "record_of p = \<lparr>mr_sequence = int (fst p) + 1, mr_payload = en_payload (snd p), mr_receipt_id = en_receipt (snd p),
                mr_received_at = en_received_at (snd p)\<rparr>"

definition memory_sim :: "memory_store \<Rightarrow> log_state \<Rightarrow> bool" where
  "memory_sim m lg \<longleftrightarrow>
     (\<forall>owner source ev. map_of (me_events m) (owner, source, ev) = map_option record_of (log_find 0 (lg_streams lg (owner, source)) ev)) \<and>
     (\<forall>key. map_option sc_sequence (map_of (me_streams m) key) =
        (if lg_streams lg key = [] then None else Some (int (length (lg_streams lg key))))) \<and>
     length (me_order m) = length (lg_receipts lg)"

lemma memory_cursor:
  assumes "memory_sim m lg"
  shows "\<exists>digest. (case map_of (me_streams m) key of Some c \<Rightarrow> (sc_sequence c, sc_record c) | None \<Rightarrow> (0, ZERO_RECORD_DIGEST)) =
    (int (length (lg_streams lg key)), digest)"
proof -
  have "map_option sc_sequence (map_of (me_streams m) key) =
      (if lg_streams lg key = [] then None else Some (int (length (lg_streams lg key))))"
    using assms unfolding memory_sim_def by blast
  then show ?thesis by (cases "map_of (me_streams m) key") (auto split: if_splits)
qed

lemma memory_simulates:
  assumes sim: "memory_sim m lg" and room: "length (lg_receipts lg) < MEMORY_CAPACITY" and range: "oe_source_sequence e \<le> i64_max"
  shows "fst (store_memory env t e payload cand m) = fst (log_store t e payload cand lg) \<and>
    memory_sim (snd (store_memory env t e payload cand m)) (snd (log_store t e payload cand lg))"
proof -
  let ?o = "vt_owner_subject t" and ?s = "oe_source_id e" and ?ev = "oe_event_id e"
  let ?L = "lg_streams lg (?o, ?s)"
  have find: "map_of (me_events m) (owner, source, ev) = map_option record_of (log_find 0 (lg_streams lg (owner, source)) ev)"
    for owner source ev using sim by (simp add: memory_sim_def)
  have cur: "map_option sc_sequence (map_of (me_streams m) key) =
      (if lg_streams lg key = [] then None else Some (int (length (lg_streams lg key))))" for key
    using sim unfolding memory_sim_def by blast
  have ord: "length (me_order m) = length (lg_receipts lg)" using sim by (simp add: memory_sim_def)
  obtain digest where cursor: "(case map_of (me_streams m) (?o, ?s) of Some c \<Rightarrow> (sc_sequence c, sc_record c)
      | None \<Rightarrow> (0, ZERO_RECORD_DIGEST)) = (int (length ?L), digest)"
    using memory_cursor [OF sim] by blast
  show ?thesis
  proof (cases "log_find 0 ?L ?ev")
    case (Some p)
    then show ?thesis
      using sim by (cases p) (auto simp: store_memory_def log_store_def Let_def find record_of_def)
  next
    case None
    show ?thesis
    proof (cases "oe_source_sequence e = int (length ?L) + 1")
      case False
      with None sim show ?thesis
        unfolding store_memory_def Let_def cursor by (simp add: log_store_def Let_def find)
    next
      case True
      let ?x = "\<lparr>en_event = ?ev, en_payload = payload, en_receipt = rc_receipt_id cand, en_received_at = rc_received_at cand\<rparr>"
      let ?m' = "\<lparr>me_events = AList.update (?o, ?s, ?ev)
              \<lparr>mr_sequence = oe_source_sequence e, mr_payload = payload, mr_receipt_id = rc_receipt_id cand,
               mr_received_at = rc_received_at cand\<rparr> (me_events m),
            me_streams = AList.update (?o, ?s)
              \<lparr>sc_sequence = oe_source_sequence e, sc_record = record_digest (in_sha256 env) digest payload ?ev (oe_source_sequence e)\<rparr>
              (me_streams m),
            me_order = me_order m @ [(?o, ?s, ?ev)]\<rparr>"
      let ?lg' = "\<lparr>lg_streams = (lg_streams lg)((?o, ?s) := ?L @ [?x]), lg_receipts = lg_receipts lg @ [rc_receipt_id cand]\<rparr>"
      have "store_memory env t e payload cand m =
          (Inr \<lparr>so_duplicate = False, so_receipt_id = rc_receipt_id cand, so_received_at = rc_received_at cand\<rparr>, ?m')"
        using None True range room ord unfolding store_memory_def Let_def cursor by (simp add: find)
      moreover have "log_store t e payload cand lg =
          (Inr \<lparr>so_duplicate = False, so_receipt_id = rc_receipt_id cand, so_received_at = rc_received_at cand\<rparr>, ?lg')"
        using None True by (simp add: log_store_def Let_def)
      moreover have "memory_sim ?m' ?lg'"
      proof -
        have "map_of (me_events ?m') (owner, source, ev) = map_option record_of (log_find 0 (lg_streams ?lg' (owner, source)) ev)"
          for owner source ev
          using None True by (auto simp: update_conv' find log_find_snoc record_of_def split: option.split)
        moreover have "map_option sc_sequence (map_of (me_streams ?m') key) =
            (if lg_streams ?lg' key = [] then None else Some (int (length (lg_streams ?lg' key))))" for key
          using True cur [of key] by (auto simp: update_conv')
        ultimately show ?thesis using ord unfolding memory_sim_def by simp
      qed
      ultimately show ?thesis by simp
    qed
  qed
qed


section \<open>Both services refine the log\<close>

definition ingest_env_ok :: "ingest_env \<Rightarrow> key_ring \<Rightarrow> bool" where
  "ingest_env_ok env keys \<longleftrightarrow>
     library_ok env \<and> ring_sound keys \<and> (\<forall>b e. in_from_slice env b = Some e \<longrightarrow> oe_source_sequence e \<le> i64_max)"

definition table_service :: "ingest_env \<Rightarrow> key_ring \<Rightarrow> observation_service \<Rightarrow> log_state \<Rightarrow> bool" where
  "table_service env keys os lg \<longleftrightarrow>
     ingest_env_ok env keys \<and> os_keys os = keys \<and> os_postgres os \<and> (\<exists>rows. os_database os = Some rows \<and> table_sim env rows lg)"

definition memory_service :: "ingest_env \<Rightarrow> key_ring \<Rightarrow> observation_service \<Rightarrow> log_state \<Rightarrow> bool" where
  "memory_service env keys os lg \<longleftrightarrow>
     ingest_env_ok env keys \<and> os_keys os = keys \<and> os_database os = None \<and> os_allow_memory os \<and> memory_sim (os_memory os) lg"

interpretation table: refinement "\<lambda>os call. ingest env call os" "log_ingest env keys" "table_service env keys" "call_ok env"
  for env keys
proof
  fix os lg call
  assume sim: "table_service env keys os lg" and ok: "call_ok env lg call"
  then obtain rows where rows: "os_database os = Some rows" "os_keys os = keys" "os_postgres os" "table_sim env rows lg"
    and env: "library_ok env" "ring_sound keys" "ingest_env_ok env keys"
    and range: "\<And>b e. in_from_slice env b = Some e \<Longrightarrow> oe_source_sequence e \<le> i64_max"
    by (auto simp: table_service_def ingest_env_ok_def)
  show "fst (ingest env call os) = fst (log_ingest env keys lg call) \<and>
    table_service env keys (snd (ingest env call os)) (snd (log_ingest env keys lg call))"
  proof (cases "admit_observation env keys call")
    case (Inl err)
    then show ?thesis using sim rows(2) by (simp add: ingest_def log_ingest_def)
  next
    case (Inr adm)
    then obtain e t payload cand where adm: "admit_observation env keys call = Inr (e, t, payload, cand)" by (cases adm) auto
    note a = admitted [OF adm]
    have "fst (store_database env (ic_faults call) True t e payload (length (ic_body call)) cand rows) = fst (log_store t e payload cand lg) \<and>
      table_sim env (snd (store_database env (ic_faults call) True t e payload (length (ic_body call)) cand rows)) (snd (log_store t e payload cand lg))"
      using table_simulates [OF rows(4) env(1,2) adm, of "ic_faults call"] a ok range by (auto simp: call_ok_def)
    then show ?thesis
      using env(3) adm rows by (auto simp: ingest_def log_ingest_def table_service_def Let_def case_prod_beta)
  qed
qed

interpretation memory: refinement "\<lambda>os call. ingest env call os" "log_ingest env keys" "memory_service env keys" "call_ok env"
  for env keys
proof
  fix os lg call
  assume sim: "memory_service env keys os lg" and ok: "call_ok env lg call"
  then have m: "os_database os = None" "os_keys os = keys" "os_allow_memory os" "memory_sim (os_memory os) lg"
    and env: "ingest_env_ok env keys" and range: "\<And>b e. in_from_slice env b = Some e \<Longrightarrow> oe_source_sequence e \<le> i64_max"
    by (auto simp: memory_service_def ingest_env_ok_def)
  show "fst (ingest env call os) = fst (log_ingest env keys lg call) \<and>
    memory_service env keys (snd (ingest env call os)) (snd (log_ingest env keys lg call))"
  proof (cases "admit_observation env keys call")
    case (Inl err)
    then show ?thesis using sim m(2) by (simp add: ingest_def log_ingest_def)
  next
    case (Inr adm)
    then obtain e t payload cand where adm: "admit_observation env keys call = Inr (e, t, payload, cand)" by (cases adm) auto
    have "fst (store_memory env t e payload cand (os_memory os)) = fst (log_store t e payload cand lg) \<and>
      memory_sim (snd (store_memory env t e payload cand (os_memory os))) (snd (log_store t e payload cand lg))"
      using memory_simulates [OF m(4)] admitted [OF adm] ok range by (auto simp: call_ok_def)
    then show ?thesis
      using env adm m by (auto simp: ingest_def log_ingest_def memory_service_def Let_def case_prod_beta)
  qed
qed

lemma log_receipts_step:
  assumes "log_ingest env keys lg call = (r, lg')"
  shows "lg_receipts lg' = lg_receipts lg \<or> lg_receipts lg' = lg_receipts lg @ [''rcpt_'' @ in_uuid_simple env (ic_new_uuid call)]"
proof (cases "admit_observation env keys call")
  case (Inr adm)
  then obtain e t payload cand where adm: "admit_observation env keys call = Inr (e, t, payload, cand)" by (cases adm) auto
  obtain r' where "log_store t e payload cand lg = (r', lg')"
    using assms adm by (auto simp: log_ingest_def Let_def split: prod.splits)
  with log_store_cases [OF this] admitted [OF adm] show ?thesis by auto
qed (use assms in \<open>simp add: log_ingest_def\<close>)

lemma fresh_calls_ok:
  assumes "distinct (map (\<lambda>c. in_uuid_simple env (ic_new_uuid c)) calls)"
    and "\<forall>c \<in> set calls. (\<forall>stmt. \<not> of_fails (ic_faults c) stmt) \<and> (\<forall>x. of_to_char (ic_faults c) x = x)"
    and "\<forall>c \<in> set calls. ''rcpt_'' @ in_uuid_simple env (ic_new_uuid c) \<notin> set (lg_receipts lg)"
    and "length (lg_receipts lg) + length calls \<le> MEMORY_CAPACITY"
  shows "ok_run (log_ingest env keys) (call_ok env) lg calls"
  using assms
proof (induction calls arbitrary: lg)
  case (Cons c calls)
  obtain r lg' where step: "log_ingest env keys lg c = (r, lg')" by fastforce
  have "\<forall>d \<in> set calls. in_uuid_simple env (ic_new_uuid d) \<noteq> in_uuid_simple env (ic_new_uuid c)"
    using Cons.prems(1) by (force simp: image_iff)
  then have "ok_run (log_ingest env keys) (call_ok env) lg' calls"
    using Cons.prems log_receipts_step [OF step] by (intro Cons.IH) auto
  moreover have "call_ok env lg c" using Cons.prems by (simp add: call_ok_def)
  ultimately show ?case using step by simp
qed simp


text \<open>C10: the memory store the tests run on answers every sequence of at most 10000 deliveries exactly as the production
  store does, and both answer as the append-only log: first receipts, duplicates, event conflicts and sequence
  conflicts agree, whatever the deliveries contain and in whatever order they come. The hypotheses are the documented
  behaviour of the libraries, fresh receipt identifiers, and a database that works and prints timestamps unchanged.\<close>

theorem observation_stores_agree:
  assumes "library_ok env" and "\<And>b e. in_from_slice env b = Some e \<Longrightarrow> oe_source_sequence e \<le> i64_max"
    and "observation_service_from_env env document (Some []) True = Inr os"
    and "mem = os\<lparr>os_database := None, os_allow_memory := True\<rparr>"
    and "length calls \<le> 10000" and "distinct (map (\<lambda>c. in_uuid_simple env (ic_new_uuid c)) calls)"
    and "\<And>c stmt. c \<in> set calls \<Longrightarrow> \<not> of_fails (ic_faults c) stmt"
    and "\<And>c x. c \<in> set calls \<Longrightarrow> of_to_char (ic_faults c) x = x"
  shows "fst (run_out (\<lambda>os c. ingest env c os) os calls) = fst (run_out (log_ingest env (os_keys os)) log_empty calls) \<and>
    fst (run_out (\<lambda>os c. ingest env c os) mem calls) = fst (run_out (log_ingest env (os_keys os)) log_empty calls)"
proof -
  note os = from_env_service [OF assms(3)]
  have "os_memory os = memory_store_default"
    using assms(3) by (auto simp: observation_service_from_env_def result_bind_Inr_iff)
  then have "table_service env (os_keys os) os log_empty" "memory_service env (os_keys os) mem log_empty"
    using os assms(1,2)
    by (auto simp: table_service_def memory_service_def ingest_env_ok_def table_sim_def memory_sim_def log_empty_def assms(4)
        memory_store_default_def)
  moreover have "ok_run (log_ingest env (os_keys os)) (call_ok env) log_empty calls"
    using assms(5-8) by (intro fresh_calls_ok) (auto simp: log_empty_def)
  ultimately show ?thesis using table.run_simulates memory.run_simulates by blast
qed

theorem observation_stores_agree_witness:
  "fst (run_out (\<lambda>os c. ingest example_ingest_env c os) example_observations [example_observation]) =
   fst (run_out (\<lambda>os c. ingest example_ingest_env c os) (example_observations\<lparr>os_database := None, os_allow_memory := True\<rparr>)
     [example_observation])"
proof -
  have "oe_source_sequence e \<le> i64_max" if "in_from_slice example_ingest_env b = Some e" for b e
    using that by (auto simp: example_ingest_env_def example_event_def split: if_splits)
  moreover have "\<not> of_fails (ic_faults example_observation) stmt" "of_to_char (ic_faults example_observation) x = x" for stmt x
    by (simp_all add: example_observation_def calm_def)
  ultimately show ?thesis
    using observation_stores_agree [OF example_library _ example_from_env refl, where calls = "[example_observation]"]
    by (simp del: run_out.simps)
qed

end
