(* ===== verification/Flags.thy ===== *)
theory Flags
  imports Wire "HOL-Library.List_Lexorder" "HOL-Library.Char_ord"
begin

text \<open>
  Process configuration (\<open>src/flags.rs\<close>): the layering of command line, environment, configuration file and contract
  defaults, the closed set of file fields, and the help text. The argument parser \<open>flags2env\<close>, the TOML parser, the
  temporary file of the contract and the file system are the fields of \<open>flags_env\<close>. A \<open>BTreeMap\<close> is a map; a parsed
  TOML or JSON table is an association list in the order the code iterates it.
\<close>

section \<open>The contract\<close>

datatype toml =
    TString string | TInteger int | TFloat string | TBoolean bool | TDatetime string
  | TArray "toml list" | TTable "(string \<times> toml) list"

fun toml_str :: "toml \<Rightarrow> string option" where
  "toml_str (TString s) = Some s"
| "toml_str _ = None"

fun toml_table :: "toml \<Rightarrow> (string \<times> toml) list option" where
  "toml_table (TTable kvs) = Some kvs"
| "toml_table _ = None"

fun toml_array :: "toml \<Rightarrow> toml list option" where
  "toml_array (TArray vs) = Some vs"
| "toml_array _ = None"

definition toml_get :: "toml \<Rightarrow> string \<Rightarrow> toml option" where
  "toml_get v name = Option.bind (toml_table v) (\<lambda>kvs. map_of kvs name)"

text \<open>\<open>.cli-flags.toml\<close>, embedded in the program, as the value its text denotes; tables are sorted by key.\<close>

definition contract_flag :: "string \<Rightarrow> string \<Rightarrow> string \<Rightarrow> toml option \<Rightarrow> string option \<Rightarrow> string \<Rightarrow> string \<times> toml" where
  "contract_flag env long type preset short help =
     (long, TTable
       ((case preset of None \<Rightarrow> [] | Some v \<Rightarrow> [(''default'', v)]) @
        [(''env'', TString env), (''help'', TString help), (''long'', TString long)] @
        (case short of None \<Rightarrow> [] | Some s \<Rightarrow> [(''short'', TString s)]) @ [(''type'', TString type)]))"

definition CONTRACT :: toml where
  "CONTRACT = TTable
    [(''env'', TTable
       [(''ignore'', TArray (map TString
          [''CANONICAL_INTERNAL_AUTH_TOKEN'', ''CANONICAL_WEBHOOK_SECRET'', ''DATABASE_URL'', ''GEMINI_API_KEY'',
           ''SHARED_AUTH_INTROSPECT_SECRET''])),
        (''load'', TBoolean False)]),
     (''flags'', TTable
       [contract_flag ''BIND_ADDRESS'' ''bind-address'' ''string'' (Some (TString ''0.0.0.0:8080'')) None
          ''HTTP listener socket address.'',
        contract_flag ''CANONICAL_CONFIG'' ''config'' ''string'' None None ''Path to runtime configuration.'',
        contract_flag ''GEMINI_MODEL'' ''gemini-model'' ''string'' (Some (TString ''gemini-3.6-flash'')) None
          ''Gemini model identifier.'',
        contract_flag ''CLI_HELP_REQUESTED'' ''help'' ''boolean'' (Some (TBoolean False)) (Some ''h'') ''Print command-line help.'',
        contract_flag ''ORES_OTEL_SAMPLE_RATIO'' ''otel-sample-ratio'' ''double'' (Some (TFloat ''1.0'')) None
          ''Trace sampling ratio.'',
        contract_flag ''ORES_OTEL_SERVICE_NAME'' ''otel-service-name'' ''string'' (Some (TString ''canonical-api-server'')) None
          ''Non-secret OpenTelemetry service name.'',
        contract_flag ''RUST_LOG'' ''rust-log'' ''string'' (Some (TString ''info'')) None ''Tracing filter directive.'',
        contract_flag ''SHARED_AUTH_AUDIENCE'' ''shared-auth-audience'' ''string'' (Some (TString ''canonical-plus-api'')) None
          ''Expected Shared Auth audience.'',
        contract_flag ''SHARED_AUTH_BASE'' ''shared-auth-base'' ''string'' None None ''Credential-free Shared Auth base URL.'',
        contract_flag ''SHUTDOWN_GRACE_MS'' ''shutdown-grace-ms'' ''integer'' (Some (TInteger 30000)) None
          ''Graceful-shutdown deadline in milliseconds.'',
        contract_flag ''CLI_VERSION_REQUESTED'' ''version'' ''boolean'' (Some (TBoolean False)) (Some ''V'')
          ''Print the server version.'',
        contract_flag ''CANONICAL_WEBHOOK_URL'' ''webhook-url'' ''string'' None None ''Validated credential-free webhook endpoint.'']),
     (''help'', TTable
       [(''columns'', TArray (map TString [''options'', ''env'', ''type'', ''default'', ''description''])),
        (''url'', TString ''https://github.com/flags-2-env/flags-2-env'')]),
     (''identity'', TTable [(''service'', TString ''canonical-api-server''), (''type_name'', TString ''RuntimeEnv'')]),
     (''parse'', TTable [(''allow_unknown'', TBoolean False)])]"

definition allowed_config_projection_keys :: "toml \<Rightarrow> string list" where
  "allowed_config_projection_keys contract =
     (let flags = (case Option.bind (toml_get contract ''flags'') toml_table of
            None \<Rightarrow> []
          | Some flags \<Rightarrow> List.map_filter (\<lambda>(_, flag). Option.bind (toml_get flag ''env'') toml_str) flags);
          ignored = (case Option.bind (Option.bind (toml_get contract ''env'') (\<lambda>env. toml_get env ''ignore'')) toml_array of
            None \<Rightarrow> [] | Some names \<Rightarrow> List.map_filter toml_str names)
      in removeAll ''CANONICAL_CONFIG'' (flags @ ignored))"


section \<open>The configuration file\<close>

abbreviation MAX_CONFIG_PROJECTION_BYTES :: nat where "MAX_CONFIG_PROJECTION_BYTES \<equiv> 65536"

text \<open>What the file system and the TOML parser say of a path; an error carries its message.\<close>

record config_file =
  cf_metadata :: "string + bool \<times> bool \<times> nat"
  cf_text :: "string + string"
  cf_toml :: "string + toml"

definition projection_value :: "string \<Rightarrow> toml \<Rightarrow> string + string" where
  "projection_value name value =
     (case value of
        TString v \<Rightarrow> Inr v
      | TInteger v \<Rightarrow> Inr (int_to_string v)
      | TFloat v \<Rightarrow> Inr v
      | TBoolean v \<Rightarrow> Inr (if v then ''true'' else ''false'')
      | _ \<Rightarrow> Inl (''config projection field '' @ name @ '' must be scalar''))"

fun projection_fields ::
    "string list \<Rightarrow> (string \<rightharpoonup> string) \<Rightarrow> (string \<times> toml) list \<Rightarrow> string + (string \<rightharpoonup> string)" where
  "projection_fields allowed output [] = Inr output"
| "projection_fields allowed output ((name, value) # table) =
     (if name \<notin> set allowed then Inl (''unknown config projection field: '' @ name)
      else result_bind (projection_value name value) (\<lambda>v. projection_fields allowed (output(name \<mapsto> v)) table))"

definition load_config_projection :: "(string \<Rightarrow> config_file) \<Rightarrow> string \<Rightarrow> string + (string \<rightharpoonup> string)" where
  "load_config_projection files path =
     result_bind (map_err (\<lambda>e. ''cannot inspect config projection '' @ path @ '': '' @ e) (cf_metadata (files path)))
       (\<lambda>(is_symlink, is_file, len).
     if is_symlink \<or> \<not> is_file then Inl (''config projection '' @ path @ '' must be a regular non-symlink file'')
     else if MAX_CONFIG_PROJECTION_BYTES < len
     then Inl (''config projection '' @ path @ '' exceeds '' @ nat_to_string MAX_CONFIG_PROJECTION_BYTES @ '' bytes'')
     else
       result_bind (map_err (\<lambda>e. ''cannot read config projection '' @ path @ '': '' @ e) (cf_text (files path))) (\<lambda>_.
       result_bind (map_err (\<lambda>e. ''cannot parse config projection '' @ path @ '': '' @ e) (cf_toml (files path))) (\<lambda>value.
       result_bind (ok_or (toml_table value) ''config projection root must be a flat TOML table'') (\<lambda>table.
       projection_fields (allowed_config_projection_keys CONTRACT) Map.empty table))))"


section \<open>Resolution\<close>

record parsed_flags =
  pf_unknown_options :: "string list"
  pf_errors :: "string list"
  pf_extras :: "string list"
  pf_provided_flags :: "string \<rightharpoonup> string"
  pf_dotenv :: "string \<rightharpoonup> string"
  pf_dotenv_overrides :: "string \<rightharpoonup> string"

record flags_env =
  fe_contract_file :: "string + unit"
  fe_audit :: "string + unit"
  fe_parse :: "string list \<Rightarrow> string + parsed_flags"
  fe_files :: "string \<Rightarrow> config_file"
  fe_coerce :: "(string \<rightharpoonup> string) \<Rightarrow> string + (string \<times> json) list"
  fe_display :: "toml \<Rightarrow> string"

definition option_name :: "string \<Rightarrow> string" where
  "option_name option =
     (case strip_prefix option ''--'' of
        Some long \<Rightarrow> ''--'' @ hd (split_on CHR ''='' long)
      | None \<Rightarrow> concat (take 2 (chars option)))"

fun number_text :: "json_number \<Rightarrow> string" where
  "number_text (PosInt n) = nat_to_string (unat n)"
| "number_text (NegInt i) = int_to_string i"
| "number_text (FloatNum s) = s"

fun scalar_string :: "string \<Rightarrow> json \<Rightarrow> string + string" where
  "scalar_string name (JString v) = Inr v"
| "scalar_string name (JBool b) = Inr (if b then ''true'' else ''false'')"
| "scalar_string name (JNumber n) = Inr (number_text n)"
| "scalar_string name _ = Inl (''flags-2-env returned a non-scalar value for '' @ name)"

fun insert_typed :: "(string \<rightharpoonup> string) \<Rightarrow> (string \<times> json) list \<Rightarrow> string + (string \<rightharpoonup> string)" where
  "insert_typed resolved [] = Inr resolved"
| "insert_typed resolved ((name, value) # typed) =
     (if value = JNull then insert_typed resolved typed
      else result_bind (scalar_string name value) (\<lambda>v. insert_typed (resolved(name \<mapsto> v)) typed))"

text \<open>The refusals between parsing and layering.\<close>

definition refuse_arguments :: "parsed_flags \<Rightarrow> string + unit" where
  "refuse_arguments p =
     (if pf_unknown_options p \<noteq> []
      then Inl (''unknown command-line option(s): '' @
             join '', '' (sorted_list_of_set (option_name ` set (pf_unknown_options p))))
      else if pf_errors p \<noteq> []
      then Inl (''invalid command-line value(s): '' @ nat_to_string (length (pf_errors p)) @ '' error(s)'')
      else if pf_extras p \<noteq> []
      then Inl (''unexpected positional argument(s): '' @ nat_to_string (length (pf_extras p)))
      else Inr ())"

definition select_projection :: "flags_env \<Rightarrow> (string \<rightharpoonup> string) \<Rightarrow> parsed_flags \<Rightarrow> string + (string \<rightharpoonup> string)" where
  "select_projection fe environment p =
     (case (case pf_provided_flags p ''CANONICAL_CONFIG'' of Some path \<Rightarrow> Some path | None \<Rightarrow> environment ''CANONICAL_CONFIG'') of
        Some path \<Rightarrow> load_config_projection (fe_files fe) path
      | None \<Rightarrow> Inr Map.empty)"

definition raw_layers :: "(string \<rightharpoonup> string) \<Rightarrow> (string \<rightharpoonup> string) \<Rightarrow> parsed_flags \<Rightarrow> string \<rightharpoonup> string" where
  "raw_layers environment projection p =
     (pf_dotenv p ++ projection ++ environment ++ pf_dotenv_overrides p)(''FLAGS2ENV_COMMAND'' := None)
       ++ pf_provided_flags p"

definition resolve_from :: "flags_env \<Rightarrow> string list \<Rightarrow> (string \<times> string) list \<Rightarrow> string + (string \<rightharpoonup> string)" where
  "resolve_from fe argv vars =
     (let environment = map_of (rev vars) in
      result_bind (fe_contract_file fe) (\<lambda>_.
      result_bind (map_err (\<lambda>e. ''flags-2-env contract audit failed: '' @ e) (fe_audit fe)) (\<lambda>_.
      result_bind (map_err (\<lambda>e. ''flags-2-env parsing failed: '' @ e) (fe_parse fe argv)) (\<lambda>p.
      result_bind (refuse_arguments p) (\<lambda>_.
      result_bind (select_projection fe environment p) (\<lambda>projection.
      result_bind (map_err (\<lambda>e. ''flags-2-env typed configuration failed: '' @ e)
                     (fe_coerce fe (raw_layers environment projection p))) (\<lambda>typed.
      insert_typed environment typed)))))))"


section \<open>Help and version\<close>

definition pad_right :: "nat \<Rightarrow> string \<Rightarrow> string" where
  "pad_right width s = s @ replicate (width - length (chars s)) (CHR '' '')"

abbreviation new_line :: string where "new_line \<equiv> [CHR 0x0A]"

definition help_line :: "(toml \<Rightarrow> string) \<Rightarrow> toml \<Rightarrow> string" where
  "help_line display flag =
     (if toml_table flag = None then [] else
      case (case Option.bind (toml_get flag ''long'') toml_str of
              Some long \<Rightarrow> Some long
            | None \<Rightarrow> Option.bind (Option.bind (toml_get flag ''aliases'') toml_array)
                        (\<lambda>aliases. case aliases of [] \<Rightarrow> None | a # _ \<Rightarrow> toml_str a)) of
        None \<Rightarrow> []
      | Some long \<Rightarrow>
          let value_type = (case Option.bind (toml_get flag ''type'') toml_str of None \<Rightarrow> ''string'' | Some t \<Rightarrow> t);
              option = (case Option.bind (toml_get flag ''short'') toml_str of
                          None \<Rightarrow> ''--'' @ long | Some short \<Rightarrow> ''-'' @ short @ '', --'' @ long) @
                       (if value_type \<in> {''bool'', ''boolean''} then [] else '' <VALUE>'');
              description = (case Option.bind (toml_get flag ''help'') toml_str of None \<Rightarrow> [] | Some h \<Rightarrow> h);
              preset = (case toml_get flag ''default'' of None \<Rightarrow> [] | Some v \<Rightarrow> '' [default: '' @ display v @ '']'')
          in ''  '' @ pad_right 28 option @ '' '' @ description @ preset @ new_line)"

definition help_table :: "(toml \<Rightarrow> string) \<Rightarrow> toml \<Rightarrow> string + string" where
  "help_table display contract =
     result_bind (ok_or (Option.bind (toml_get contract ''flags'') toml_table) ''flags-2-env contract has no flags table'') (\<lambda>flags.
     Inr (''Usage: canonical-api-server [OPTIONS]'' @ new_line @ new_line @ ''Options:'' @ new_line @
          concat (map (help_line display \<circ> snd) flags)))"

definition process_control :: "(toml \<Rightarrow> string) \<Rightarrow> (string \<rightharpoonup> string) \<Rightarrow> string + string option" where
  "process_control display values =
     (if values ''CLI_HELP_REQUESTED'' = Some ''true'' then result_bind (help_table display CONTRACT) (\<lambda>h. Inr (Some h))
      else if values ''CLI_VERSION_REQUESTED'' = Some ''true'' then Inr (Some (''canonical-api-server 0.1.0'' @ new_line))
      else Inr None)"


section \<open>Precedence\<close>

fun first_some :: "'a option list \<Rightarrow> 'a option" where
  "first_some [] = None"
| "first_some (Some x # xs) = Some x"
| "first_some (None # xs) = first_some xs"

lemma raw_layers_lookup:
  "n \<noteq> ''FLAGS2ENV_COMMAND'' \<Longrightarrow> raw_layers environment projection p n =
     first_some [pf_provided_flags p n, pf_dotenv_overrides p n, environment n, projection n, pf_dotenv p n]"
  by (cases "pf_dotenv p n") (simp_all add: raw_layers_def map_add_def split: option.split)

lemma insert_typed_lookup:
  "insert_typed m typed = Inr r \<Longrightarrow> distinct (map fst typed) \<Longrightarrow>
     r n = (case map_of typed n of None \<Rightarrow> m n
            | Some v \<Rightarrow> if v = JNull then m n else result_ok (scalar_string n v))"
proof (induction typed arbitrary: m)
  case (Cons entry typed)
  obtain name v where entry: "entry = (name, v)" by (cases entry)
  show ?case
  proof (cases "v = JNull")
    case True
    moreover have "map_of typed name = None" using Cons.prems(2) entry by (simp add: map_of_eq_None_iff)
    ultimately show ?thesis using Cons.IH [of m] Cons.prems entry by (auto split: option.split)
  next
    case False
    then obtain s where "scalar_string name v = Inr s" and "insert_typed (m(name \<mapsto> s)) typed = Inr r"
      using Cons.prems(1) entry by (auto simp: result_bind_Inr_iff)
    moreover have "map_of typed name = None" using Cons.prems(2) entry by (simp add: map_of_eq_None_iff)
    ultimately show ?thesis using Cons.IH Cons.prems(2) entry False by (auto split: option.split)
  qed
qed simp

lemma projection_fields_dom:
  "projection_fields allowed out table = Inr r \<Longrightarrow> dom r \<subseteq> dom out \<union> set allowed"
  by (induction table arbitrary: out) (fastforce simp: result_bind_Inr_iff split: if_splits)+

lemma load_config_projection_dom:
  "load_config_projection files path = Inr r \<Longrightarrow> dom r \<subseteq> set (allowed_config_projection_keys CONTRACT)"
  by (auto simp: load_config_projection_def result_bind_Inr_iff map_err_iff if_Inl_Inr_iff dest!: projection_fields_dom)

lemma select_projection_dom:
  "select_projection fe environment p = Inr r \<Longrightarrow> dom r \<subseteq> set (allowed_config_projection_keys CONTRACT)"
  by (auto simp: select_projection_def dest: load_config_projection_dom split: option.splits)

lemma config_selector_excluded: "''CANONICAL_CONFIG'' \<notin> set (allowed_config_projection_keys c)"
  by (simp add: allowed_config_projection_keys_def Let_def)

text \<open>C26: how settings are layered. The typed conversion is the argument parser's, outside this repository; the hypothesis is
  that it converts each setting by itself, without looking at the others. Then a resolved setting is that conversion of
  the value given by the highest of the command line, the overriding dotenv values, the process environment, the
  configuration file and the dotenv file, or of no value (the contract's default); where the conversion yields nothing,
  it is the raw value of the process environment, if any. The configuration file holds only fields of the contract and
  never names another configuration file. The documents put the process environment directly below the command line;
  the overriding dotenv values, which the code puts in between, are in neither of them.\<close>

theorem flags_precedence:
  assumes "resolve_from fe argv vars = Inr resolved"
    and "\<And>raw typed. fe_coerce fe raw = Inr typed \<Longrightarrow> distinct (map fst typed) \<and> (\<forall>n. map_of typed n = convert n (raw n))"
  shows "\<exists>p projection. fe_parse fe argv = Inr p \<and> pf_unknown_options p = [] \<and> pf_errors p = [] \<and> pf_extras p = [] \<and>
    dom projection \<subseteq> set (allowed_config_projection_keys CONTRACT) \<and> projection ''CANONICAL_CONFIG'' = None \<and>
    (\<forall>n. n \<noteq> ''FLAGS2ENV_COMMAND'' \<longrightarrow> resolved n =
       (case convert n (first_some [pf_provided_flags p n, pf_dotenv_overrides p n, map_of (rev vars) n, projection n, pf_dotenv p n]) of
          None \<Rightarrow> map_of (rev vars) n
        | Some v \<Rightarrow> if v = JNull then map_of (rev vars) n else result_ok (scalar_string n v)))"
proof -
  obtain p projection typed where p: "fe_parse fe argv = Inr p" and args: "refuse_arguments p = Inr ()"
    and projection: "select_projection fe (map_of (rev vars)) p = Inr projection"
    and typed: "fe_coerce fe (raw_layers (map_of (rev vars)) projection p) = Inr typed"
    and resolved: "insert_typed (map_of (rev vars)) typed = Inr resolved"
    using assms(1) unfolding resolve_from_def Let_def by (auto simp: result_bind_Inr_iff map_err_iff)
  have keys: "dom projection \<subseteq> set (allowed_config_projection_keys CONTRACT)"
    using projection by (rule select_projection_dom)
  then have "projection ''CANONICAL_CONFIG'' = None" using config_selector_excluded by blast
  moreover have "pf_unknown_options p = []" "pf_errors p = []" "pf_extras p = []"
    using args by (auto simp: refuse_arguments_def split: if_splits)
  moreover have "resolved n =
       (case convert n (first_some [pf_provided_flags p n, pf_dotenv_overrides p n, map_of (rev vars) n, projection n, pf_dotenv p n]) of
          None \<Rightarrow> map_of (rev vars) n
        | Some v \<Rightarrow> if v = JNull then map_of (rev vars) n else result_ok (scalar_string n v))"
    if "n \<noteq> ''FLAGS2ENV_COMMAND''" for n
    using insert_typed_lookup [OF resolved, of n] assms(2) [OF typed] raw_layers_lookup [OF that] by simp
  ultimately show ?thesis using p keys by blast
qed


section \<open>Redaction\<close>

lemma split_on_first: "CHR ''='' \<notin> set name \<Longrightarrow> hd (split_on CHR ''='' (name @ CHR ''='' # value)) = name"
proof (induction name)
  case (Cons c name)
  then show ?case by (cases "split_on CHR ''='' (name @ CHR ''='' # value)") auto
qed simp

lemma refusal_eq:
  assumes "option_name ` set (pf_unknown_options p) = option_name ` set (pf_unknown_options p')"
    and "length (pf_errors p) = length (pf_errors p')" and "length (pf_extras p) = length (pf_extras p')"
  shows "refuse_arguments p = refuse_arguments p'"
proof -
  have "pf_unknown_options p = [] \<longleftrightarrow> pf_unknown_options p' = []" using assms(1) by (metis image_is_empty set_empty)
  moreover have "pf_errors p = [] \<longleftrightarrow> pf_errors p' = []" "pf_extras p = [] \<longleftrightarrow> pf_extras p' = []"
    using assms(2,3) by (metis length_0_conv)+
  ultimately show ?thesis unfolding refuse_arguments_def using assms by simp
qed

text \<open>A refused command line is reported without its values: the message depends on the names of the unknown
  options and the numbers of invalid values and positional arguments only, not on the environment or on anything behind
  the equals sign of a long option.\<close>

theorem refusal_redacted:
  assumes "fe_parse fe argv = Inr p" and "fe_parse fe argv' = Inr p'" and "refuse_arguments p \<noteq> Inr ()"
    and "option_name ` set (pf_unknown_options p) = option_name ` set (pf_unknown_options p')"
    and "length (pf_errors p) = length (pf_errors p')" and "length (pf_extras p) = length (pf_extras p')"
  shows "resolve_from fe argv vars = resolve_from fe argv' vars' \<and>
    (CHR ''='' \<notin> set name \<longrightarrow> option_name (''--'' @ name @ CHR ''='' # value) = ''--'' @ name)"
proof -
  obtain e where "refuse_arguments p = Inl e" using assms(3) by (cases "refuse_arguments p") auto
  moreover from this have "refuse_arguments p' = Inl e" using refusal_eq [OF assms(4-6)] by simp
  ultimately have "resolve_from fe argv vars = resolve_from fe argv' vars'"
    using assms(1,2) unfolding resolve_from_def Let_def by simp
  moreover have "option_name (''--'' @ name @ CHR ''='' # value) = ''--'' @ name" if "CHR ''='' \<notin> set name"
    unfolding option_name_def strip_prefix_append option.case split_on_first [OF that] ..
  ultimately show ?thesis by blast
qed

definition example_parsed :: parsed_flags where
  "example_parsed = \<lparr>pf_unknown_options = [], pf_errors = [], pf_extras = [], pf_provided_flags = [''RUST_LOG'' \<mapsto> ''debug''],
     pf_dotenv = Map.empty, pf_dotenv_overrides = Map.empty\<rparr>"

definition example_file :: config_file where
  "example_file = \<lparr>cf_metadata = Inr (False, True, 24), cf_text = Inr ''GEMINI_MODEL = 1'',
     cf_toml = Inr (TTable [(''GEMINI_MODEL'', TInteger 1)])\<rparr>"

definition example_flags :: flags_env where
  "example_flags = \<lparr>fe_contract_file = Inr (), fe_audit = Inr (),
     fe_parse = (\<lambda>argv. Inr (if length argv \<le> 1 then example_parsed else example_parsed\<lparr>pf_unknown_options := tl argv\<rparr>)),
     fe_files = (\<lambda>_. example_file),
     fe_coerce = (\<lambda>raw. Inr (case raw ''RUST_LOG'' of None \<Rightarrow> [] | Some v \<Rightarrow> [(''RUST_LOG'', JString v)])),
     fe_display = (\<lambda>_. [])\<rparr>"

theorem flags_precedence_witness:
  "\<exists>p. fe_parse example_flags [''server''] = Inr p \<and> pf_unknown_options p = []"
proof -
  have "resolve_from example_flags [''server''] [(''RUST_LOG'', ''info''), (''CANONICAL_CONFIG'', ''c.toml'')] =
      Inr [''RUST_LOG'' \<mapsto> ''debug'', ''CANONICAL_CONFIG'' \<mapsto> ''c.toml'']"
    by (simp add: resolve_from_def example_flags_def example_parsed_def refuse_arguments_def select_projection_def
        load_config_projection_def example_file_def raw_layers_def projection_value_def
        allowed_config_projection_keys_def CONTRACT_def toml_get_def contract_flag_def map_filter_simps fun_upd_twist)
  from flags_precedence [OF this, where convert = "\<lambda>n v. if n = ''RUST_LOG'' then map_option JString v else None"]
  show ?thesis by (auto simp: example_flags_def split: option.splits)
qed

theorem refusal_redacted_witness:
  "resolve_from example_flags [''server'', ''--key=secret''] [] = resolve_from example_flags [''server'', ''--key=other''] [(''A'', ''b'')]"
proof -
  have "option_name ''--key=secret'' = ''--key''" "option_name ''--key=other'' = ''--key''"
    by (simp_all add: option_name_def strip_prefix_def)
  then show ?thesis
    using refusal_redacted [of example_flags "[''server'', ''--key=secret'']" "example_parsed\<lparr>pf_unknown_options := [''--key=secret'']\<rparr>"
        "[''server'', ''--key=other'']" "example_parsed\<lparr>pf_unknown_options := [''--key=other'']\<rparr>" "[]" "[(''A'', ''b'')]" "[]" "[]"]
    by (simp add: example_flags_def example_parsed_def refuse_arguments_def)
qed

end
