(* ===== verification/Startup.thy ===== *)
theory Startup
  imports Flags Shutdown Quotes Observation_Transport
begin

text \<open>
  Startup: the server's configuration (\<open>Config\<close> in \<open>src/lib.rs\<close>) and the order in which \<open>src/main.rs\<close> resolves
  flags, validates configuration, opens storage, builds the clients and serves. What lies outside (flags, databases,
  sockets, client builders, the shared authority's URL check) is answered by the fields of \<open>startup_env\<close>.
\<close>

section \<open>Configuration\<close>

definition DEFAULT_GEMINI_MODEL :: string where "DEFAULT_GEMINI_MODEL = ''gemini-3.6-flash''"

definition FORBIDDEN_API_PROCESS_CREDENTIALS :: "string list" where
  "FORBIDDEN_API_PROCESS_CREDENTIALS =
     [''MIGRATION_DATABASE_URL'', ''CANONICAL_ADMIN_DATABASE_URL'', ''SUPABASE_SERVICE_ROLE_KEY'']"

datatype config_error =
    ForbiddenProcessCredential string | InvalidGeminiModel | IncompleteWebhookConfiguration
  | IncompleteSharedAuthConfiguration | InvalidSharedAuthAudience | MissingInternalAuthToken | WeakGeminiApiKey
  | WeakInternalAuthToken | WeakSharedAuthIntrospectSecret

fun config_error_text :: "config_error \<Rightarrow> string" where
  "config_error_text (ForbiddenProcessCredential name) = name @ '' is forbidden in the customer API process''"
| "config_error_text InvalidGeminiModel =
     ''GEMINI_MODEL must contain only ASCII letters, digits, '' @ [CHR 0x27] @ ''.'' @ [CHR 0x27] @ '', '' @ [CHR 0x27] @ ''-''
       @ [CHR 0x27] @ '', or '' @ [CHR 0x27] @ ''_'' @ [CHR 0x27]"
| "config_error_text IncompleteWebhookConfiguration =
     ''CANONICAL_WEBHOOK_URL and CANONICAL_WEBHOOK_SECRET must be configured together''"
| "config_error_text IncompleteSharedAuthConfiguration =
     ''SHARED_AUTH_BASE and SHARED_AUTH_INTROSPECT_SECRET must be configured together''"
| "config_error_text InvalidSharedAuthAudience = ''SHARED_AUTH_AUDIENCE must be a bounded portable identifier''"
| "config_error_text MissingInternalAuthToken = ''CANONICAL_INTERNAL_AUTH_TOKEN is required''"
| "config_error_text WeakGeminiApiKey = ''GEMINI_API_KEY is present but is unexpectedly short''"
| "config_error_text WeakInternalAuthToken = ''CANONICAL_INTERNAL_AUTH_TOKEN must contain at least 32 non-whitespace bytes''"
| "config_error_text WeakSharedAuthIntrospectSecret =
     ''SHARED_AUTH_INTROSPECT_SECRET must contain at least 32 non-whitespace bytes''"

record config =
  bind_address :: string
  database_url :: "string option"
  gemini_api_key :: "string option"
  config_gemini_model :: string
  config_internal_auth_token :: string
  shared_auth_audience :: string
  shared_auth_base :: "string option"
  shared_auth_introspect_secret :: "string option"
  webhook_endpoint :: "string option"
  webhook_secret :: "string option"

definition is_valid_model_name :: "string \<Rightarrow> bool" where
  "is_valid_model_name value =
     (let trimmed = trim value
      in trimmed \<noteq> [] \<and> length trimmed \<le> 128 \<and>
         list_all (\<lambda>c. is_ascii_alphanumeric c \<or> c \<in> {CHR ''.'', CHR ''-'', CHR ''_''}) trimmed)"

fun validate_process_role_credentials :: "(string \<Rightarrow> bool) \<Rightarrow> string list \<Rightarrow> config_error + unit" where
  "validate_process_role_credentials is_present [] = Inr ()"
| "validate_process_role_credentials is_present (name # names) =
     (if is_present name then Inl (ForbiddenProcessCredential name)
      else validate_process_role_credentials is_present names)"

definition non_whitespace_bytes :: "string \<Rightarrow> nat" where
  "non_whitespace_bytes s = length (filter (\<lambda>c. \<not> is_ascii_whitespace c) s)"

definition webhook_settings :: "(string \<rightharpoonup> string) \<Rightarrow> config_error + string option \<times> string option" where
  "webhook_settings var =
     (case (var ''CANONICAL_WEBHOOK_URL'', var ''CANONICAL_WEBHOOK_SECRET'') of
        (None, None) \<Rightarrow> Inr (None, None)
      | (Some endpoint, Some secret) \<Rightarrow> Inr (Some endpoint, Some secret)
      | _ \<Rightarrow> Inl IncompleteWebhookConfiguration)"

definition shared_auth_settings :: "(string \<rightharpoonup> string) \<Rightarrow> config_error + string option \<times> string option" where
  "shared_auth_settings var =
     (case (var ''SHARED_AUTH_BASE'', var ''SHARED_AUTH_INTROSPECT_SECRET'') of
        (None, None) \<Rightarrow> Inr (None, None)
      | (Some base, Some secret) \<Rightarrow>
          if 32 \<le> non_whitespace_bytes secret then Inr (Some base, Some secret) else Inl WeakSharedAuthIntrospectSecret
      | _ \<Rightarrow> Inl IncompleteSharedAuthConfiguration)"

definition config_from_env :: "(string \<rightharpoonup> string) \<Rightarrow> config_error + config" where
  "config_from_env var =
     result_bind (validate_process_role_credentials (\<lambda>name. var name \<noteq> None) FORBIDDEN_API_PROCESS_CREDENTIALS) (\<lambda>_.
     result_bind (ok_or (var ''CANONICAL_INTERNAL_AUTH_TOKEN'') MissingInternalAuthToken) (\<lambda>token.
     if length (trim token) < 32 then Inl WeakInternalAuthToken
     else
     let api_key = var ''GEMINI_API_KEY'';
         model = (case var ''GEMINI_MODEL'' of None \<Rightarrow> DEFAULT_GEMINI_MODEL | Some m \<Rightarrow> m)
     in if (case api_key of None \<Rightarrow> False | Some key \<Rightarrow> length (trim key) < 20) then Inl WeakGeminiApiKey
     else if \<not> is_valid_model_name model then Inl InvalidGeminiModel
     else
     result_bind (webhook_settings var) (\<lambda>(endpoint, secret).
     result_bind (shared_auth_settings var) (\<lambda>(base, introspect_secret).
     let audience = (case var ''SHARED_AUTH_AUDIENCE'' of None \<Rightarrow> ''canonical-plus-api'' | Some a \<Rightarrow> a)
     in if \<not> valid_shared_auth_identifier audience then Inl InvalidSharedAuthAudience
     else Inr \<lparr>bind_address = (case var ''BIND_ADDRESS'' of None \<Rightarrow> ''0.0.0.0:8080'' | Some a \<Rightarrow> a),
               database_url = var ''DATABASE_URL'', gemini_api_key = api_key, config_gemini_model = model,
               config_internal_auth_token = token, shared_auth_audience = audience, shared_auth_base = base,
               shared_auth_introspect_secret = introspect_secret, webhook_endpoint = endpoint, webhook_secret = secret\<rparr>))))"

text \<open>\<open>shutdown_grace\<close>, in nanoseconds.\<close>

definition shutdown_grace :: "(string \<rightharpoonup> string) \<Rightarrow> nat" where
  "shutdown_grace var =
     (let milliseconds =
            (case Option.bind (var ''SHUTDOWN_GRACE_MS'') (parse_unsigned u64_max) of
               Some v \<Rightarrow> if 0 < v then v else 30000 | None \<Rightarrow> 30000)
      in milliseconds * 1000000)"


section \<open>The main function\<close>

datatype startup_error =
    FlagsFailed string | ConfigFailed config_error | DualOrmFailed | DatabaseFailed | ObservationKeysFailed build_error
  | BindFailed | GeminiFailed | WebhookFailed webhook_build_error | SharedAuthFailed | ServeFailed | ShutdownForced Shutdown.event

record startup_env =
  su_argv :: "string list"
  su_vars :: "(string \<times> string) list"
  su_flags :: flags_env
  su_dual_orm :: "string \<Rightarrow> bool"
  su_connect :: "string \<Rightarrow> (store \<times> observation_row list \<times> bool) option"
  su_key_document :: env_var
  su_ingest :: ingest_env
  su_bind :: "string \<Rightarrow> bool"
  su_url_parse :: url_parser
  su_gemini_built :: bool
  su_webhook_built :: bool
  su_shared_auth :: "string \<Rightarrow> bool"
  su_terminal :: bool

record server =
  sv_state :: app_state
  sv_webhook :: "webhook_dispatcher option"
  sv_observations :: observation_service
  sv_address :: string
  sv_serve :: serve_config

text \<open>From a validated configuration to the server, in the order of the code: nothing is bound before storage and the key
  document are good, and nothing is served before the clients are built.\<close>

definition build_server :: "startup_env \<Rightarrow> (string \<rightharpoonup> string) \<Rightarrow> config \<Rightarrow> startup_error + server" where
  "build_server su var c =
     result_bind (case database_url c of None \<Rightarrow> Inr () | Some url \<Rightarrow> check (su_dual_orm su url) DualOrmFailed) (\<lambda>_.
     result_bind (option_try (\<lambda>url. ok_or (su_connect su url) DatabaseFailed) (database_url c)) (\<lambda>database.
     result_bind (map_err ObservationKeysFailed (observation_service_from_env (su_ingest su) (su_key_document su)
                   (map_option (\<lambda>(_, rows, _). rows) database) (case database of Some (_, _, pg) \<Rightarrow> pg | None \<Rightarrow> False)))
       (\<lambda>observations.
     result_bind (check (su_bind su (bind_address c)) BindFailed) (\<lambda>_.
     result_bind (case gemini_api_key c of None \<Rightarrow> Inr False
                  | Some _ \<Rightarrow> if su_gemini_built su then Inr True else Inl GeminiFailed) (\<lambda>gemini.
     result_bind (case (webhook_endpoint c, webhook_secret c) of
                    (Some endpoint, Some secret) \<Rightarrow>
                      map_err WebhookFailed (result_bind (webhook_new (su_url_parse su) (su_webhook_built su) endpoint secret)
                        (\<lambda>dispatcher. Inr (Some dispatcher)))
                  | _ \<Rightarrow> Inr None) (\<lambda>dispatcher.
     result_bind (case (shared_auth_base c, shared_auth_introspect_secret c) of
                    (Some base, Some _) \<Rightarrow> if su_shared_auth su base then Inr (Some (shared_auth_audience c)) else Inl SharedAuthFailed
                  | _ \<Rightarrow> Inr None) (\<lambda>audience.
     Inr \<lparr>sv_state = app_state_new \<lparr>internal_auth_token = config_internal_auth_token c, shared_audience = audience\<rparr>
                       (config_gemini_model c) (map_option fst database) gemini (dispatcher \<noteq> None),
          sv_webhook = dispatcher, sv_observations = observations, sv_address = bind_address c,
          sv_serve = \<lparr>grace = shutdown_grace var, config_tty = su_terminal su, watch_stdin_eof = True\<rparr>\<rparr>)))))))"

text \<open>\<open>main\<close> up to \<open>shutdown::serve\<close>: help or version output, or the server, or the error it returns.\<close>

definition start_main :: "startup_env \<Rightarrow> startup_error + (string + server)" where
  "start_main su =
     result_bind (map_err FlagsFailed (resolve_from (su_flags su) (su_argv su) (su_vars su))) (\<lambda>var.
     result_bind (map_err FlagsFailed (process_control (fe_display (su_flags su)) var)) (\<lambda>output.
     case output of
       Some text \<Rightarrow> Inr (Inl text)
     | None \<Rightarrow>
         result_bind (map_err ConfigFailed (config_from_env var)) (\<lambda>c.
         result_bind (build_server su var c) (\<lambda>server. Inr (Inr server)))))"

text \<open>What \<open>main\<close> returns once \<open>shutdown::serve\<close> did.\<close>

definition finish_main :: "outcome option \<Rightarrow> startup_error + unit" where
  "finish_main served =
     (case served of
        None \<Rightarrow> Inl ServeFailed
      | Some Graceful \<Rightarrow> Inr ()
      | Some (Forced cause) \<Rightarrow> Inl (ShutdownForced cause))"


section \<open>What a started server guarantees\<close>

lemma credentials_absent:
  "validate_process_role_credentials is_present names = Inr u \<longleftrightarrow> (\<forall>name \<in> set names. \<not> is_present name)"
  by (induction names) auto

lemma short_key_iff:
  "(case key of None \<Rightarrow> False | Some k \<Rightarrow> length (trim k) < n) \<longleftrightarrow> \<not> (\<forall>k. key = Some k \<longrightarrow> n \<le> length (trim k))"
  by (auto split: option.split)

lemma config_from_env_iff:
  "config_from_env var = Inr c \<longleftrightarrow>
     (\<forall>name \<in> set FORBIDDEN_API_PROCESS_CREDENTIALS. var name = None) \<and>
     (\<exists>token. var ''CANONICAL_INTERNAL_AUTH_TOKEN'' = Some token \<and> 32 \<le> length (trim token) \<and>
        config_internal_auth_token c = token) \<and>
     (\<forall>key. var ''GEMINI_API_KEY'' = Some key \<longrightarrow> 20 \<le> length (trim key)) \<and> gemini_api_key c = var ''GEMINI_API_KEY'' \<and>
     config_gemini_model c = (case var ''GEMINI_MODEL'' of None \<Rightarrow> DEFAULT_GEMINI_MODEL | Some m \<Rightarrow> m) \<and>
     is_valid_model_name (config_gemini_model c) \<and>
     webhook_settings var = Inr (webhook_endpoint c, webhook_secret c) \<and>
     shared_auth_settings var = Inr (shared_auth_base c, shared_auth_introspect_secret c) \<and>
     shared_auth_audience c = (case var ''SHARED_AUTH_AUDIENCE'' of None \<Rightarrow> ''canonical-plus-api'' | Some a \<Rightarrow> a) \<and>
     valid_shared_auth_identifier (shared_auth_audience c) \<and>
     bind_address c = (case var ''BIND_ADDRESS'' of None \<Rightarrow> ''0.0.0.0:8080'' | Some a \<Rightarrow> a) \<and>
     database_url c = var ''DATABASE_URL''"
  (is "?l \<longleftrightarrow> ?r")
proof
  assume ?l
  then show ?r
    by (auto simp: config_from_env_def Let_def result_bind_Inr_iff ok_or_iff credentials_absent not_less short_key_iff
        split: if_splits)
next
  assume r: ?r
  show ?l
  proof (cases c)
    case (fields bind db key model token audience base isecret endpoint secret)
    then show ?thesis using r
      by (auto simp: config_from_env_def Let_def result_bind_Inr_iff ok_or_iff credentials_absent not_less short_key_iff)
  qed
qed

lemma webhook_settings_Inr:
  "webhook_settings var = Inr (endpoint, secret) \<longleftrightarrow>
     endpoint = var ''CANONICAL_WEBHOOK_URL'' \<and> secret = var ''CANONICAL_WEBHOOK_SECRET'' \<and> (endpoint = None \<longleftrightarrow> secret = None)"
  by (auto simp: webhook_settings_def split: option.splits)

lemma shared_auth_settings_Inr:
  "shared_auth_settings var = Inr (base, secret) \<longleftrightarrow>
     base = var ''SHARED_AUTH_BASE'' \<and> secret = var ''SHARED_AUTH_INTROSPECT_SECRET'' \<and> (base = None \<longleftrightarrow> secret = None) \<and>
     (\<forall>s. secret = Some s \<longrightarrow> 32 \<le> non_whitespace_bytes s)"
  by (auto simp: shared_auth_settings_def split: option.splits if_splits)

lemma shutdown_grace_bounds: "1000000 \<le> shutdown_grace var \<and> shutdown_grace var \<le> u64_max * 1000000"
proof -
  have "v \<le> u64_max" if "parse_unsigned u64_max s = Some v" for s v
    using that by (auto simp: parse_unsigned_def split: option.splits if_splits)
  then show ?thesis
    by (cases "var ''SHUTDOWN_GRACE_MS''") (auto simp: shutdown_grace_def Let_def split: option.split)
qed

definition secure_endpoint :: "url \<Rightarrow> bool" where
  "secure_endpoint u \<longleftrightarrow>
     (url_scheme u = ''https'' \<or> url_scheme u = ''http'' \<and> (\<exists>host. url_host u = Some host \<and> loopback_host host)) \<and>
     url_username u = [] \<and> url_password u = None"

lemma webhook_new_sound:
  "webhook_new parse built endpoint secret = Inr d \<Longrightarrow>
     parse endpoint = Some (wd_endpoint d) \<and> wd_secret d = secret \<and> secure_endpoint (wd_endpoint d) \<and>
     32 \<le> non_whitespace_bytes secret"
  by (auto simp: webhook_new_def result_bind_Inr_iff ok_or_iff validate_endpoint_def secure_endpoint_def
      non_whitespace_bytes_def split: if_splits)

lemma build_server_stages:
  assumes "build_server su var c = Inr server"
  obtains database observations dispatcher audience gemini where
    "\<forall>url. database_url c = Some url \<longrightarrow> su_dual_orm su url"
    and "option_try (\<lambda>url. ok_or (su_connect su url) DatabaseFailed) (database_url c) = Inr database"
    and "observation_service_from_env (su_ingest su) (su_key_document su) (map_option (\<lambda>(_, rows, _). rows) database)
          (case database of Some (_, _, pg) \<Rightarrow> pg | None \<Rightarrow> False) = Inr observations"
    and "(case (webhook_endpoint c, webhook_secret c) of
            (Some endpoint, Some secret) \<Rightarrow>
              map_err WebhookFailed (result_bind (webhook_new (su_url_parse su) (su_webhook_built su) endpoint secret)
                (\<lambda>dispatcher. Inr (Some dispatcher)))
          | _ \<Rightarrow> Inr None) = Inr dispatcher"
    and "(case (shared_auth_base c, shared_auth_introspect_secret c) of
            (Some base, Some _) \<Rightarrow> if su_shared_auth su base then Inr (Some (shared_auth_audience c)) else Inl SharedAuthFailed
          | _ \<Rightarrow> Inr None) = Inr audience"
    and "server = \<lparr>sv_state = app_state_new \<lparr>internal_auth_token = config_internal_auth_token c, shared_audience = audience\<rparr>
                       (config_gemini_model c) (map_option fst database) gemini (dispatcher \<noteq> None),
          sv_webhook = dispatcher, sv_observations = observations, sv_address = bind_address c,
          sv_serve = \<lparr>grace = shutdown_grace var, config_tty = su_terminal su, watch_stdin_eof = True\<rparr>\<rparr>"
proof -
  have dual: "\<forall>url. database_url c = Some url \<longrightarrow> su_dual_orm su url"
    if "(case database_url c of None \<Rightarrow> Inr () | Some url \<Rightarrow> check (su_dual_orm su url) DualOrmFailed) = Inr u" for u
    using that by (simp add: check_iff split: option.splits)
  show thesis
    using assms unfolding build_server_def
    by (elim result_bind_Inr_iff [THEN iffD1, elim_format] map_err_iff(1) [THEN iffD1, elim_format] exE conjE)
       (rule that [OF dual], assumption+, simp only: sum.inject, erule sym)
qed

lemma built_audience:
  assumes "build_server su var c = Inr server" and "config_from_env var = Inr c"
  shows "shared_audience (ap_auth (sv_state server)) = None \<longleftrightarrow> var ''SHARED_AUTH_BASE'' = None"
proof -
  from assms(1) obtain audience where audience: "(case (shared_auth_base c, shared_auth_introspect_secret c) of
            (Some base, Some _) \<Rightarrow> if su_shared_auth su base then Inr (Some (shared_auth_audience c)) else Inl SharedAuthFailed
          | _ \<Rightarrow> Inr None) = Inr audience" and "shared_audience (ap_auth (sv_state server)) = audience"
    by (rule build_server_stages) (simp add: app_state_new_def)
  moreover have "shared_auth_base c = var ''SHARED_AUTH_BASE''"
      "shared_auth_introspect_secret c = var ''SHARED_AUTH_INTROSPECT_SECRET''"
      "shared_auth_base c = None \<longleftrightarrow> shared_auth_introspect_secret c = None"
    using assms(2) unfolding config_from_env_iff shared_auth_settings_Inr by blast+
  ultimately show ?thesis
    by (cases "var ''SHARED_AUTH_BASE''"; cases "var ''SHARED_AUTH_INTROSPECT_SECRET''";
        cases "shared_audience (ap_auth (sv_state server))") (auto split: if_splits)
qed

lemma start_main_stages:
  assumes "start_main su = Inr (Inr server)"
  obtains var c where "resolve_from (su_flags su) (su_argv su) (su_vars su) = Inr var"
    and "config_from_env var = Inr c" and "build_server su var c = Inr server"
proof -
  obtain var out where var: "resolve_from (su_flags su) (su_argv su) (su_vars su) = Inr var"
    and out: "(case out of Some text \<Rightarrow> Inr (Inl text)
      | None \<Rightarrow> result_bind (map_err ConfigFailed (config_from_env var)) (\<lambda>c.
          result_bind (build_server su var c) (\<lambda>server. Inr (Inr server)))) = (Inr (Inr server) :: startup_error + string + server)"
    using assms unfolding start_main_def by (auto simp only: result_bind_Inr_iff map_err_iff)
  then show thesis using that [OF var] by (cases out) (auto simp: result_bind_Inr_iff map_err_iff)
qed

lemma observation_service_sound:
  assumes "observation_service_from_env env document database pg = Inr os"
  shows "os_database os = database \<and> \<not> os_allow_memory os \<and> ring_sound (os_keys os)"
  using assms
  by (auto simp: observation_service_from_env_def result_bind_Inr_iff ring_sound_def split: env_var.splits
      dest: key_ring_parse_sound)

text \<open>C21: a server that starts is configured safely. Its settings contain none of the forbidden credentials; the internal
  token has 32 bytes after trimming; storage is attached, for quotes and for observations, exactly when a database is
  configured, and only after the catalog check of that database; observations are never kept in memory; every ingest
  key is sound; webhooks are sent exactly when both settings are given, to a secure endpoint under a secret of 32 bytes;
  bearer tokens are accepted exactly when the shared authority is configured; the grace period lies between
  one millisecond and the largest 64-bit number of milliseconds.\<close>

theorem started_server_sound:
  assumes "start_main su = Inr (Inr server)"
  shows "\<exists>var. resolve_from (su_flags su) (su_argv su) (su_vars su) = Inr var \<and>
    (\<forall>name \<in> set FORBIDDEN_API_PROCESS_CREDENTIALS. var name = None) \<and>
    var ''CANONICAL_INTERNAL_AUTH_TOKEN'' = Some (internal_auth_token (ap_auth (sv_state server))) \<and>
    32 \<le> length (trim (internal_auth_token (ap_auth (sv_state server)))) \<and>
    (ap_database (sv_state server) = None \<longleftrightarrow> var ''DATABASE_URL'' = None) \<and>
    (os_database (sv_observations server) = None \<longleftrightarrow> var ''DATABASE_URL'' = None) \<and>
    (\<forall>url. var ''DATABASE_URL'' = Some url \<longrightarrow> su_dual_orm su url) \<and>
    \<not> os_allow_memory (sv_observations server) \<and> ring_sound (os_keys (sv_observations server)) \<and>
    (case sv_webhook server of
       None \<Rightarrow> var ''CANONICAL_WEBHOOK_URL'' = None \<and> var ''CANONICAL_WEBHOOK_SECRET'' = None
     | Some d \<Rightarrow> Option.bind (var ''CANONICAL_WEBHOOK_URL'') (su_url_parse su) = Some (wd_endpoint d) \<and>
         var ''CANONICAL_WEBHOOK_SECRET'' = Some (wd_secret d) \<and> secure_endpoint (wd_endpoint d) \<and>
         32 \<le> non_whitespace_bytes (wd_secret d)) \<and>
    (shared_audience (ap_auth (sv_state server)) = None \<longleftrightarrow> var ''SHARED_AUTH_BASE'' = None) \<and>
    1000000 \<le> grace (sv_serve server) \<and> grace (sv_serve server) \<le> u64_max * 1000000"
proof -
  from assms obtain var c where var: "resolve_from (su_flags su) (su_argv su) (su_vars su) = Inr var"
    and c: "config_from_env var = Inr c" and built: "build_server su var c = Inr server" by (rule start_main_stages)
  from built obtain database observations dispatcher audience gemini where
    dual: "\<forall>url. database_url c = Some url \<longrightarrow> su_dual_orm su url"
    and database: "option_try (\<lambda>url. ok_or (su_connect su url) DatabaseFailed) (database_url c) = Inr database"
    and observations: "observation_service_from_env (su_ingest su) (su_key_document su)
          (map_option (\<lambda>(_, rows, _). rows) database) (case database of Some (_, _, pg) \<Rightarrow> pg | None \<Rightarrow> False) = Inr observations"
    and dispatcher: "(case (webhook_endpoint c, webhook_secret c) of
            (Some endpoint, Some secret) \<Rightarrow>
              map_err WebhookFailed (result_bind (webhook_new (su_url_parse su) (su_webhook_built su) endpoint secret)
                (\<lambda>dispatcher. Inr (Some dispatcher)))
          | _ \<Rightarrow> Inr None) = Inr dispatcher"
    and server: "server = \<lparr>sv_state = app_state_new \<lparr>internal_auth_token = config_internal_auth_token c, shared_audience = audience\<rparr>
                       (config_gemini_model c) (map_option fst database) gemini (dispatcher \<noteq> None),
          sv_webhook = dispatcher, sv_observations = observations, sv_address = bind_address c,
          sv_serve = \<lparr>grace = shutdown_grace var, config_tty = su_terminal su, watch_stdin_eof = True\<rparr>\<rparr>"
    by (rule build_server_stages)
  note conf = c [unfolded config_from_env_iff webhook_settings_Inr shared_auth_settings_Inr]
  have urls: "database_url c = var ''DATABASE_URL''"
    and token: "var ''CANONICAL_INTERNAL_AUTH_TOKEN'' = Some (config_internal_auth_token c)"
      "32 \<le> length (trim (config_internal_auth_token c))"
    and settings: "webhook_endpoint c = var ''CANONICAL_WEBHOOK_URL''" "webhook_secret c = var ''CANONICAL_WEBHOOK_SECRET''"
      "webhook_endpoint c = None \<longleftrightarrow> webhook_secret c = None"
    and forbidden: "\<forall>name \<in> set FORBIDDEN_API_PROCESS_CREDENTIALS. var name = None"
    using conf by blast+
  have db: "database = None \<longleftrightarrow> var ''DATABASE_URL'' = None"
    using database urls by (cases "var ''DATABASE_URL''") (auto simp: result_bind_Inr_iff)
  have webhook: "case dispatcher of
       None \<Rightarrow> var ''CANONICAL_WEBHOOK_URL'' = None \<and> var ''CANONICAL_WEBHOOK_SECRET'' = None
     | Some d \<Rightarrow> Option.bind (var ''CANONICAL_WEBHOOK_URL'') (su_url_parse su) = Some (wd_endpoint d) \<and>
         var ''CANONICAL_WEBHOOK_SECRET'' = Some (wd_secret d) \<and> secure_endpoint (wd_endpoint d) \<and>
         32 \<le> non_whitespace_bytes (wd_secret d)"
    using dispatcher settings
    by (cases "var ''CANONICAL_WEBHOOK_URL''"; cases "var ''CANONICAL_WEBHOOK_SECRET''")
       (auto simp: map_err_iff result_bind_Inr_iff dest!: webhook_new_sound)
  have shared: "audience = None \<longleftrightarrow> var ''SHARED_AUTH_BASE'' = None"
    using built_audience [OF built c] by (simp add: server app_state_new_def)
  have os: "os_database observations = map_option (\<lambda>(_, rows, _). rows) database \<and> \<not> os_allow_memory observations \<and>
      ring_sound (os_keys observations)"
    using observations by (rule observation_service_sound)
  show ?thesis
    using var forbidden token db dual urls webhook shared os shutdown_grace_bounds [of var]
    by (simp add: server app_state_new_def)
qed

text \<open>An environment under which the server starts, without storage or integrations.\<close>

definition example_token :: string where "example_token = replicate 40 CHR ''k''"

definition example_startup :: startup_env where
  "example_startup =
     \<lparr>su_argv = [''server''], su_vars = [(''CANONICAL_INTERNAL_AUTH_TOKEN'', example_token)], su_flags = example_flags,
      su_dual_orm = (\<lambda>_. True), su_connect = (\<lambda>_. None), su_key_document = NotPresent, su_ingest = example_ingest_env,
      su_bind = (\<lambda>_. True), su_url_parse = (\<lambda>_. None), su_gemini_built = True, su_webhook_built = True,
      su_shared_auth = (\<lambda>_. True), su_terminal = False\<rparr>"

lemma example_token_trim: "trim example_token = example_token"
  by (rule trim_graphic) (simp add: example_token_def list_all_iff is_ascii_graphic_def)

lemma example_model: "is_valid_model_name DEFAULT_GEMINI_MODEL"
proof -
  have "trim DEFAULT_GEMINI_MODEL = DEFAULT_GEMINI_MODEL"
    by (rule trim_graphic) (simp add: DEFAULT_GEMINI_MODEL_def is_ascii_graphic_def)
  then show ?thesis by (simp add: is_valid_model_name_def DEFAULT_GEMINI_MODEL_def ascii_defs)
qed

lemma example_config:
  assumes "\<And>n. n \<noteq> ''CANONICAL_INTERNAL_AUTH_TOKEN'' \<Longrightarrow> n \<noteq> ''RUST_LOG'' \<Longrightarrow> var n = None"
    and "var ''CANONICAL_INTERNAL_AUTH_TOKEN'' = Some example_token"
  shows "\<exists>c. config_from_env var = Inr c \<and> database_url c = None \<and> gemini_api_key c = None \<and> webhook_endpoint c = None \<and>
    shared_auth_base c = None"
proof -
  have "length (trim example_token) = 40" unfolding example_token_trim by (simp add: example_token_def)
  moreover have "valid_shared_auth_identifier ''canonical-plus-api''"
    by (simp add: valid_shared_auth_identifier_def ascii_defs)
  ultimately show ?thesis using example_model
    by (simp add: config_from_env_def Let_def FORBIDDEN_API_PROCESS_CREDENTIALS_def assms webhook_settings_def
        shared_auth_settings_def)
qed

theorem started_server_sound_witness: "\<exists>server. start_main example_startup = Inr (Inr server) \<and> 1000000 \<le> grace (sv_serve server)"
proof -
  let ?var = "[''RUST_LOG'' \<mapsto> ''debug'', ''CANONICAL_INTERNAL_AUTH_TOKEN'' \<mapsto> example_token]"
  have "resolve_from example_flags [''server''] [(''CANONICAL_INTERNAL_AUTH_TOKEN'', example_token)] = Inr ?var"
    by (simp add: resolve_from_def example_flags_def example_parsed_def refuse_arguments_def select_projection_def
        raw_layers_def fun_upd_twist)
  moreover obtain c where "config_from_env ?var = Inr c" "database_url c = None" "gemini_api_key c = None"
      "webhook_endpoint c = None" "shared_auth_base c = None"
    using example_config [of ?var] by auto
  ultimately obtain server where started: "start_main example_startup = Inr (Inr server)"
    by (simp add: start_main_def example_startup_def process_control_def build_server_def observation_service_from_env_def)
  then show ?thesis using started_server_sound [OF started] by blast
qed


section \<open>A token no request can carry\<close>

text \<open>Documented behaviour of \<open>HeaderValue::to_str\<close>: it yields visible ASCII, spaces and tabs only.\<close>

definition visible_headers :: "header_map \<Rightarrow> bool" where
  "visible_headers headers \<longleftrightarrow>
     (\<forall>h \<in> set headers. \<forall>v. hv_str (snd h) = Some v \<longrightarrow> list_all (\<lambda>c. 32 \<le> byte c \<and> byte c < 127 \<or> byte c = 9) v)"

lemma header_str_visible:
  "visible_headers headers \<Longrightarrow> header_str headers name = Some v \<Longrightarrow> line_feed \<notin> set v"
  by (fastforce simp: visible_headers_def header_str_def header_get_def bind_eq_Some_conv list_all_iff dest!: map_of_SomeD)

lemma chars_snoc_line_feed: "chars (s @ [line_feed]) = chars s @ [[line_feed]]"
proof (induction s rule: chars.induct)
  case (2 c cs)
  have "\<not> is_continuation line_feed" by (simp add: is_continuation_def)
  then have "takeWhile is_continuation (cs @ [line_feed]) = takeWhile is_continuation cs"
    and "dropWhile is_continuation (cs @ [line_feed]) = dropWhile is_continuation cs @ [line_feed]"
    by (induction cs) simp_all
  then show ?case using 2 by simp
qed simp

lemma trim_snoc_line_feed: "trim (s @ [line_feed]) = trim s"
proof -
  have "dropWhile is_whitespace (rev (dropWhile is_whitespace (xs @ [[line_feed]]))) =
      dropWhile is_whitespace (rev (dropWhile is_whitespace xs))" for xs
  proof (cases "\<forall>x \<in> set xs. is_whitespace x")
    case True
    then have empty: "dropWhile is_whitespace xs = []" "dropWhile is_whitespace (xs @ [[line_feed]]) = []"
      by simp_all
    show ?thesis unfolding empty ..
  next
    case False
    then show ?thesis by (auto simp: dropWhile_append)
  qed
  then show ?thesis by (simp add: trim_def chars_snoc_line_feed)
qed

text \<open>A token with a final newline locks the proxy out: adding one to an accepted token keeps the configuration
  accepted, since only its trimmed length is checked, but then no request that carries a proxy header is ever authenticated,
  because the untrimmed token is compared and no header value contains a newline.\<close>

theorem newline_token_locks_out:
  assumes "config_from_env var = Inr c"
  shows "\<exists>c'. config_from_env (var(''CANONICAL_INTERNAL_AUTH_TOKEN'' \<mapsto> config_internal_auth_token c @ [line_feed])) = Inr c' \<and>
    (\<forall>headers introspect scopes (st :: auth_state). visible_headers headers \<and> proxy_headers headers \<and>
       internal_auth_token st = config_internal_auth_token c' \<longrightarrow>
       authenticate introspect headers st scopes =
         Inl (unauthorized_error ''unauthorized'' ''trusted proxy authentication failed''))"
proof (intro exI conjI allI impI)
  let ?token = "config_internal_auth_token c @ [line_feed]"
  let ?c = "c\<lparr>config_internal_auth_token := ?token\<rparr>"
  note conf = assms [unfolded config_from_env_iff webhook_settings_def shared_auth_settings_def]
  have "config_from_env (var(''CANONICAL_INTERNAL_AUTH_TOKEN'' \<mapsto> ?token)) = Inr ?c"
    unfolding config_from_env_iff webhook_settings_def shared_auth_settings_def
    using conf by (auto simp: FORBIDDEN_API_PROCESS_CREDENTIALS_def trim_snoc_line_feed)
  then show "config_from_env (var(''CANONICAL_INTERNAL_AUTH_TOKEN'' \<mapsto> ?token)) = Inr ?c" .
  fix headers introspect scopes and st :: auth_state
  assume h: "visible_headers headers \<and> proxy_headers headers \<and> internal_auth_token st = config_internal_auth_token ?c"
  then have "header_str headers ''x-canonical-internal-token'' \<noteq> Some (internal_auth_token st)"
    using header_str_visible [of headers "''x-canonical-internal-token''"] by auto
  with h show "authenticate introspect headers st scopes =
      Inl (unauthorized_error ''unauthorized'' ''trusted proxy authentication failed'')"
    unfolding authenticate_def Let_def proxy_headers_def by auto
qed

theorem newline_token_locks_out_witness:
  "\<exists>c. config_from_env [''CANONICAL_INTERNAL_AUTH_TOKEN'' \<mapsto> example_token @ [line_feed]] = Inr c"
proof -
  let ?var = "[''CANONICAL_INTERNAL_AUTH_TOKEN'' \<mapsto> example_token]"
  obtain c where c: "config_from_env ?var = Inr c" using example_config [of ?var] by auto
  then have "config_internal_auth_token c = example_token" unfolding config_from_env_iff by auto
  then show ?thesis using newline_token_locks_out [OF c] by auto
qed

end
