(* ===== verification/Telemetry.thy ===== *)
theory Telemetry
  imports Main "HOL-Library.Multiset"
begin

text \<open>
  The restartable logger of \<open>src/telemetry.rs\<close> as a step relation of the threads that run \<open>with_ores_logger\<close>,
  \<open>begin_telemetry_lifetime\<close> and \<open>end_telemetry_lifetime\<close>. A step is what a thread does between two lock operations.
  The state holds the slot \<open>ORES_LOGGER\<close>, the count \<open>ACTIVE_TELEMETRY_GUARDS\<close>, the number of builds
  \<open>LOGGER_BUILDS\<close>, and the multiset of the running threads' positions. Loggers are numbered as they are built. The two locks
  are not stored: a position says which of them its thread holds. \<open>std\<close>'s read/write lock may also hold a reader back behind
  a waiting writer; that only removes steps of readers.
\<close>

section \<open>Threads and state\<close>

text \<open>The flag of an emission says whether it is the one of \<open>init\<close>, which returns a guard afterwards.\<close>

datatype pc =
    EmitWantRead bool | EmitReading bool | EmitSending bool nat | EmitWantWrite bool | EmitBuilding bool
  | InitWantMutex | InitCounting
  | DropWantMutex | DropCounting | RetireWantWrite | RetireTaking | RetireClosing "nat option"

fun reads :: "pc \<Rightarrow> bool" where
  "reads (EmitReading _) = True"
| "reads (EmitSending _ _) = True"
| "reads _ = False"

fun writes :: "pc \<Rightarrow> bool" where
  "writes (EmitBuilding _) = True"
| "writes RetireTaking = True"
| "writes _ = False"

fun locks_lifecycle :: "pc \<Rightarrow> bool" where
  "locks_lifecycle InitCounting = True"
| "locks_lifecycle DropCounting = True"
| "locks_lifecycle RetireWantWrite = True"
| "locks_lifecycle RetireTaking = True"
| "locks_lifecycle (RetireClosing _) = True"
| "locks_lifecycle _ = False"

record telemetry =
  slot :: "nat option"
  threads :: "pc multiset"
  active_guards :: nat
  live_guards :: nat
  builds :: nat
  closed :: "nat list"

definition telemetry_init :: telemetry where
  "telemetry_init = \<lparr>slot = None, threads = {#}, active_guards = 0, live_guards = 0, builds = 0, closed = []\<rparr>"

text \<open>How many threads are at a position of a kind.\<close>

definition number :: "(pc \<Rightarrow> bool) \<Rightarrow> pc multiset \<Rightarrow> nat" where
  "number f P = size (filter_mset f P)"

lemma number_simps [simp]:
  "number f {#} = 0"
  "number f (add_mset p P) = (if f p then Suc (number f P) else number f P)"
  by (simp_all add: number_def)

lemma number_none: "number f P = 0 \<longleftrightarrow> (\<forall>p. p \<in># P \<longrightarrow> \<not> f p)"
  by (induction P) auto

text \<open>Calls from outside: an RPC failure is logged, telemetry is initialised, a live guard is dropped.\<close>

inductive telemetry_call :: "telemetry \<Rightarrow> telemetry \<Rightarrow> bool" where
  call_log: "telemetry_call s (s\<lparr>threads := add_mset (EmitWantRead False) (threads s)\<rparr>)"
| call_init: "telemetry_call s (s\<lparr>threads := add_mset InitWantMutex (threads s)\<rparr>)"
| call_drop: "live_guards s = Suc n \<Longrightarrow>
    telemetry_call s (s\<lparr>live_guards := n, threads := add_mset DropWantMutex (threads s)\<rparr>)"

text \<open>\<open>with_ores_logger\<close>: look under the read lock and emit under it, or build under the write lock and look again.\<close>

inductive emit_step :: "telemetry \<Rightarrow> telemetry \<Rightarrow> bool" where
  emit_read: "threads s = add_mset (EmitWantRead g) P \<Longrightarrow> number writes P = 0 \<Longrightarrow>
    emit_step s (s\<lparr>threads := add_mset (EmitReading g) P\<rparr>)"
| emit_found: "threads s = add_mset (EmitReading g) P \<Longrightarrow> slot s = Some l \<Longrightarrow>
    emit_step s (s\<lparr>threads := add_mset (EmitSending g l) P\<rparr>)"
| emit_sent: "threads s = add_mset (EmitSending g l) P \<Longrightarrow>
    emit_step s (s\<lparr>threads := P, live_guards := live_guards s + (if g then 1 else 0)\<rparr>)"
| emit_empty: "threads s = add_mset (EmitReading g) P \<Longrightarrow> slot s = None \<Longrightarrow>
    emit_step s (s\<lparr>threads := add_mset (EmitWantWrite g) P\<rparr>)"
| emit_write: "threads s = add_mset (EmitWantWrite g) P \<Longrightarrow> number reads P = 0 \<Longrightarrow> number writes P = 0 \<Longrightarrow>
    emit_step s (s\<lparr>threads := add_mset (EmitBuilding g) P\<rparr>)"
| emit_build: "threads s = add_mset (EmitBuilding g) P \<Longrightarrow> slot s = None \<Longrightarrow>
    emit_step s (s\<lparr>slot := Some (builds s), builds := Suc (builds s), threads := add_mset (EmitWantRead g) P\<rparr>)"
| emit_built: "threads s = add_mset (EmitBuilding g) P \<Longrightarrow> slot s = Some l \<Longrightarrow>
    emit_step s (s\<lparr>threads := add_mset (EmitWantRead g) P\<rparr>)"

text \<open>\<open>begin_telemetry_lifetime\<close> in \<open>init\<close>: the owner is registered before the logger is touched.\<close>

inductive init_step :: "telemetry \<Rightarrow> telemetry \<Rightarrow> bool" where
  init_lock: "threads s = add_mset InitWantMutex P \<Longrightarrow> number locks_lifecycle P = 0 \<Longrightarrow>
    init_step s (s\<lparr>threads := add_mset InitCounting P\<rparr>)"
| init_count: "threads s = add_mset InitCounting P \<Longrightarrow>
    init_step s (s\<lparr>active_guards := Suc (active_guards s), threads := add_mset (EmitWantRead True) P\<rparr>)"

text \<open>\<open>end_telemetry_lifetime\<close> and \<open>retire_logger\<close>: the lifecycle mutex is held until the logger is closed, the write lock
  only while the logger is taken out of the slot.\<close>

inductive drop_step :: "telemetry \<Rightarrow> telemetry \<Rightarrow> bool" where
  drop_lock: "threads s = add_mset DropWantMutex P \<Longrightarrow> number locks_lifecycle P = 0 \<Longrightarrow>
    drop_step s (s\<lparr>threads := add_mset DropCounting P\<rparr>)"
| drop_underflow: "threads s = add_mset DropCounting P \<Longrightarrow> active_guards s = 0 \<Longrightarrow>
    drop_step s (s\<lparr>threads := P\<rparr>)"
| drop_shared: "threads s = add_mset DropCounting P \<Longrightarrow> active_guards s = Suc (Suc n) \<Longrightarrow>
    drop_step s (s\<lparr>active_guards := Suc n, threads := P\<rparr>)"
| drop_last: "threads s = add_mset DropCounting P \<Longrightarrow> active_guards s = Suc 0 \<Longrightarrow>
    drop_step s (s\<lparr>active_guards := 0, threads := add_mset RetireWantWrite P\<rparr>)"
| retire_write: "threads s = add_mset RetireWantWrite P \<Longrightarrow> number reads P = 0 \<Longrightarrow> number writes P = 0 \<Longrightarrow>
    drop_step s (s\<lparr>threads := add_mset RetireTaking P\<rparr>)"
| retire_take: "threads s = add_mset RetireTaking P \<Longrightarrow>
    drop_step s (s\<lparr>slot := None, threads := add_mset (RetireClosing (slot s)) P\<rparr>)"
| retire_close: "threads s = add_mset (RetireClosing retired) P \<Longrightarrow>
    drop_step s (s\<lparr>closed := closed s @ (case retired of None \<Rightarrow> [] | Some l \<Rightarrow> [l]), threads := P\<rparr>)"

definition telemetry_step :: "telemetry \<Rightarrow> telemetry \<Rightarrow> bool" where
  "telemetry_step s t \<longleftrightarrow> emit_step s t \<or> init_step s t \<or> drop_step s t"

inductive telemetry_reachable :: "telemetry \<Rightarrow> bool" where
  reach_init: "telemetry_reachable telemetry_init"
| reach_call: "telemetry_reachable s \<Longrightarrow> telemetry_call s t \<Longrightarrow> telemetry_reachable t"
| reach_step: "telemetry_reachable s \<Longrightarrow> telemetry_step s t \<Longrightarrow> telemetry_reachable t"


section \<open>Invariant\<close>

fun sends_to :: "nat option \<Rightarrow> pc \<Rightarrow> bool" where
  "sends_to current (EmitSending _ l) = (current = Some l)"
| "sends_to current _ = True"

fun initialising :: "pc \<Rightarrow> bool" where
  "initialising (EmitWantRead g) = g"
| "initialising (EmitReading g) = g"
| "initialising (EmitSending g _) = g"
| "initialising (EmitWantWrite g) = g"
| "initialising (EmitBuilding g) = g"
| "initialising _ = False"

fun dropping :: "pc \<Rightarrow> bool" where
  "dropping DropWantMutex = True"
| "dropping DropCounting = True"
| "dropping _ = False"

fun retiring :: "pc \<Rightarrow> bool" where
  "retiring RetireWantWrite = True"
| "retiring RetireTaking = True"
| "retiring (RetireClosing _) = True"
| "retiring _ = False"

fun retired :: "pc \<Rightarrow> nat multiset" where
  "retired (RetireClosing (Some l)) = {#l#}"
| "retired _ = {#}"

abbreviation slot_loggers :: "nat option \<Rightarrow> nat multiset" where
  "slot_loggers v \<equiv> (case v of None \<Rightarrow> {#} | Some l \<Rightarrow> {#l#})"

text \<open>The read/write lock and the mutex exclude as they should; emissions run on the logger in the slot; the count is the
  number of guards that exist, are being handed out, or are about to be released, and is zero during a retirement; every
  logger ever built is at exactly one place: the slot, a thread that closes it, or the closed ones.\<close>

definition telemetry_inv :: "telemetry \<Rightarrow> bool" where
  "telemetry_inv s \<longleftrightarrow>
     number writes (threads s) \<le> 1 \<and> (number writes (threads s) = 0 \<or> number reads (threads s) = 0) \<and>
     number locks_lifecycle (threads s) \<le> 1 \<and>
     (\<forall>p \<in># threads s. sends_to (slot s) p) \<and>
     active_guards s = live_guards s + number initialising (threads s) + number dropping (threads s) \<and>
     (number retiring (threads s) = 0 \<or> active_guards s = 0) \<and>
     slot_loggers (slot s) + (\<Sum>p \<in># threads s. retired p) + mset (closed s) = mset [0..<builds s]"

lemma retiring_locks: "retiring p \<Longrightarrow> locks_lifecycle p"
  by (cases p) auto

lemma no_retirement: "number locks_lifecycle P = 0 \<Longrightarrow> number retiring P = 0"
  unfolding number_none using retiring_locks by blast

lemma no_reader_sends: "number reads P = 0 \<Longrightarrow> p \<in># P \<Longrightarrow> sends_to v p"
  unfolding number_none by (cases p) auto

lemma call_inv: "telemetry_call s t \<Longrightarrow> telemetry_inv s \<Longrightarrow> telemetry_inv t"
  by (induction rule: telemetry_call.induct) (auto simp: telemetry_inv_def)

lemma emit_inv: "emit_step s t \<Longrightarrow> telemetry_inv s \<Longrightarrow> telemetry_inv t"
proof (induction rule: emit_step.induct)
  case (emit_build s g P)
  then have "number reads P = 0" by (auto simp: telemetry_inv_def)
  then have "\<forall>p \<in># P. sends_to (Some (builds s)) p" using no_reader_sends by blast
  with emit_build show ?case by (auto simp: telemetry_inv_def)
qed (auto simp: telemetry_inv_def)

lemma init_inv: "init_step s t \<Longrightarrow> telemetry_inv s \<Longrightarrow> telemetry_inv t"
proof (induction rule: init_step.induct)
  case (init_lock s P)
  then show ?case by (auto simp: telemetry_inv_def)
next
  case (init_count s P)
  then have "number retiring P = 0" by (intro no_retirement) (simp add: telemetry_inv_def)
  with init_count show ?case by (simp add: telemetry_inv_def)
qed

lemma drop_inv: "drop_step s t \<Longrightarrow> telemetry_inv s \<Longrightarrow> telemetry_inv t"
proof (induction rule: drop_step.induct)
  case (drop_lock s P)
  then show ?case by (auto simp: telemetry_inv_def)
next
  case (drop_underflow s P)
  then show ?case by (auto simp: telemetry_inv_def)
next
  case (drop_shared s P n)
  then show ?case by (auto simp: telemetry_inv_def)
next
  case (drop_last s P)
  then show ?case by (auto simp: telemetry_inv_def)
next
  case (retire_write s P)
  then show ?case by (auto simp: telemetry_inv_def)
next
  case (retire_take s P)
  have "retired (RetireClosing (slot s)) = slot_loggers (slot s)" by (cases "slot s") simp_all
  with retire_take show ?case by (auto simp: telemetry_inv_def dest: no_reader_sends)
next
  case (retire_close s r P)
  have "retired (RetireClosing r) = mset (case r of None \<Rightarrow> [] | Some l \<Rightarrow> [l])" by (cases r) simp_all
  with retire_close show ?case by (auto simp: telemetry_inv_def ac_simps)
qed

lemma telemetry_init_inv: "telemetry_inv telemetry_init"
  by (simp add: telemetry_inv_def telemetry_init_def)

lemma reachable_inv: "telemetry_reachable s \<Longrightarrow> telemetry_inv s"
  by (induction rule: telemetry_reachable.induct)
     (auto simp: telemetry_step_def telemetry_init_inv intro: call_inv emit_inv init_inv drop_inv)


section \<open>Loggers in use\<close>

lemma closed_distinct:
  assumes "telemetry_inv s"
  shows "distinct (closed s) \<and> (\<forall>l. slot s = Some l \<longrightarrow> l \<notin> set (closed s) \<and> l < builds s)"
proof -
  have all: "slot_loggers (slot s) + (\<Sum>p \<in># threads s. retired p) + mset (closed s) = mset [0..<builds s]"
    using assms unfolding telemetry_inv_def by blast
  obtain ys where ys: "mset ys = (\<Sum>p \<in># threads s. retired p)" using ex_mset by blast
  let ?xs = "(case slot s of None \<Rightarrow> [] | Some l \<Rightarrow> [l]) @ ys @ closed s"
  have "mset ?xs = mset [0..<builds s]" unfolding all [symmetric] by (cases "slot s") (simp_all add: ys)
  then have "distinct ?xs" and "set ?xs = set [0..<builds s]"
    by (metis mset_eq_imp_distinct_iff distinct_upt, metis mset_eq_setD)
  then show ?thesis by (cases "slot s") auto
qed

text \<open>C24: no record is ever written to a closed logger: however calls interleave, an emission that found a logger holds the
  read lock on a slot that still contains that logger, and no closed logger; no logger is closed twice. A retirement runs
  only when no guard is live, and the underflow branch of \<open>end_telemetry_lifetime\<close> is never taken.\<close>

theorem emits_on_open_logger:
  assumes "telemetry_reachable s"
  shows "(\<forall>g l. EmitSending g l \<in># threads s \<longrightarrow> slot s = Some l \<and> l \<notin> set (closed s)) \<and> distinct (closed s) \<and>
    (\<forall>p \<in># threads s. retiring p \<longrightarrow> live_guards s = 0) \<and>
    (DropCounting \<in># threads s \<longrightarrow> 0 < active_guards s)"
proof -
  have inv: "telemetry_inv s" using assms by (rule reachable_inv)
  have sends: "slot s = Some l" if "EmitSending g l \<in># threads s" for g l
    using inv that unfolding telemetry_inv_def by fastforce
  have guards: "active_guards s = live_guards s + number initialising (threads s) + number dropping (threads s)"
    and retiring: "number retiring (threads s) = 0 \<or> active_guards s = 0"
    using inv by (auto simp: telemetry_inv_def)
  have "live_guards s = 0" if "p \<in># threads s" "retiring p" for p
    using retiring guards that unfolding number_none by auto
  moreover have "0 < active_guards s" if "DropCounting \<in># threads s"
  proof -
    have "number dropping (threads s) \<noteq> 0" unfolding number_none using that by auto
    then show ?thesis using guards by simp
  qed
  ultimately show ?thesis using sends closed_distinct [OF inv] by blast
qed

text \<open>A run in which a logger is built, used and retired.\<close>

lemma emitting_reachable:
  "telemetry_reachable \<lparr>slot = Some 0, threads = {#EmitSending False 0#}, active_guards = 0, live_guards = 0, builds = 1, closed = []\<rparr>"
proof -
  let ?st = "\<lambda>v P n. \<lparr>slot = v, threads = P, active_guards = 0, live_guards = 0, builds = n, closed = []\<rparr>"
  have step: "telemetry_reachable s \<Longrightarrow> emit_step s t \<Longrightarrow> telemetry_reachable t" for s t
    using reach_step unfolding telemetry_step_def by blast
  have "telemetry_reachable (?st None {#EmitWantRead False#} 0)"
    using reach_call [OF reach_init call_log] by (simp add: telemetry_init_def)
  then have "telemetry_reachable (?st None {#EmitReading False#} 0)"
    by (rule step) (use emit_read [of "?st None {#EmitWantRead False#} 0" False "{#}"] in simp)
  then have "telemetry_reachable (?st None {#EmitWantWrite False#} 0)"
    by (rule step) (use emit_empty [of "?st None {#EmitReading False#} 0" False "{#}"] in simp)
  then have "telemetry_reachable (?st None {#EmitBuilding False#} 0)"
    by (rule step) (use emit_write [of "?st None {#EmitWantWrite False#} 0" False "{#}"] in simp)
  then have "telemetry_reachable (?st (Some 0) {#EmitWantRead False#} 1)"
    by (rule step) (use emit_build [of "?st None {#EmitBuilding False#} 0" False "{#}"] in simp)
  then have "telemetry_reachable (?st (Some 0) {#EmitReading False#} 1)"
    by (rule step) (use emit_read [of "?st (Some 0) {#EmitWantRead False#} 1" False "{#}"] in simp)
  then show ?thesis
    by (rule step) (use emit_found [of "?st (Some 0) {#EmitReading False#} 1" False "{#}" 0] in simp)
qed

theorem emits_on_open_logger_witness:
  "\<exists>s. telemetry_reachable s \<and> EmitSending False 0 \<in># threads s \<and> 0 \<notin> set (closed s)"
  using emits_on_open_logger [OF emitting_reachable] emitting_reachable
  by (intro exI [of _ "\<lparr>slot = Some 0, threads = {#EmitSending False 0#}, active_guards = 0, live_guards = 0, builds = 1, closed = []\<rparr>"]) simp


section \<open>One logger per lifetime\<close>

definition telemetry_next :: "telemetry \<Rightarrow> telemetry \<Rightarrow> bool" where
  "telemetry_next s t \<longleftrightarrow> telemetry_call s t \<or> telemetry_step s t"

lemma emit_keeps_logger: "emit_step s t \<Longrightarrow> slot s = Some l \<Longrightarrow> slot t = Some l \<and> builds t = builds s"
  by (induction rule: emit_step.induct) auto

lemma drop_keeps_logger:
  "drop_step s t \<Longrightarrow> telemetry_inv s \<Longrightarrow> slot s = Some l \<Longrightarrow> 0 < active_guards t \<Longrightarrow> slot t = Some l \<and> builds t = builds s"
  by (induction rule: drop_step.induct) (auto simp: telemetry_inv_def)

lemma next_keeps_logger:
  assumes "telemetry_next s t" and "telemetry_inv s" and "slot s = Some l" and "0 < active_guards t"
  shows "slot t = Some l \<and> builds t = builds s"
  using assms(1) unfolding telemetry_next_def telemetry_step_def
proof (elim disjE)
  assume "telemetry_call s t"
  then show ?thesis using assms(3) by (induction rule: telemetry_call.induct) auto
next
  assume "init_step s t"
  then show ?thesis using assms(3) by (induction rule: init_step.induct) auto
qed (use assms emit_keeps_logger drop_keeps_logger in blast)+

text \<open>One logger serves a whole telemetry lifetime: as long as the guard count stays positive, whatever else runs, the
  logger in the slot stays there and no other is built.\<close>

theorem logger_shared_per_lifetime:
  assumes "telemetry_reachable s" and "slot s = Some l"
    and "(\<lambda>u v. telemetry_next u v \<and> 0 < active_guards v)\<^sup>*\<^sup>* s t"
  shows "slot t = Some l \<and> builds t = builds s"
proof -
  have "telemetry_reachable t \<and> slot t = Some l \<and> builds t = builds s"
    using assms(3)
  proof (induction rule: rtranclp_induct)
    case (step u v)
    then have "telemetry_reachable v"
      unfolding telemetry_next_def using reach_call reach_step by blast
    with step next_keeps_logger [of u v l] show ?case using reachable_inv by auto
  qed (use assms in simp)
  then show ?thesis by blast
qed

theorem logger_shared_per_lifetime_witness:
  "\<exists>s. telemetry_reachable s \<and> slot s = Some 0 \<and> builds s = 1"
  using logger_shared_per_lifetime [OF emitting_reachable, of 0] emitting_reachable
  by (intro exI [of _ "\<lparr>slot = Some 0, threads = {#EmitSending False 0#}, active_guards = 0, live_guards = 0, builds = 1, closed = []\<rparr>"]) simp


section \<open>Every call ends\<close>

text \<open>Steps a thread of \<open>init\<close> or of a drop still has to make, and steps of an emission given the slot.\<close>

fun lifecycle_rank :: "pc \<Rightarrow> nat" where
  "lifecycle_rank InitWantMutex = 2"
| "lifecycle_rank InitCounting = 1"
| "lifecycle_rank DropWantMutex = 5"
| "lifecycle_rank DropCounting = 4"
| "lifecycle_rank RetireWantWrite = 3"
| "lifecycle_rank RetireTaking = 2"
| "lifecycle_rank (RetireClosing _) = 1"
| "lifecycle_rank _ = 0"

fun emit_rank :: "bool \<Rightarrow> pc \<Rightarrow> nat" where
  "emit_rank present (EmitSending _ _) = 1"
| "emit_rank present (EmitReading _) = (if present then 2 else 6)"
| "emit_rank present (EmitWantRead _) = (if present then 3 else 7)"
| "emit_rank present (EmitBuilding _) = 4"
| "emit_rank present (EmitWantWrite _) = 5"
| "emit_rank present _ = 0"

definition telemetry_measures :: "(telemetry \<Rightarrow> nat) list" where
  "telemetry_measures =
     [\<lambda>s. \<Sum>p \<in># threads s. lifecycle_rank p, \<lambda>s. if slot s = None then 1 else 0,
      \<lambda>s. \<Sum>p \<in># threads s. emit_rank (slot s \<noteq> None) p]"

lemma step_decreases: "telemetry_step s t \<Longrightarrow> (t, s) \<in> measures telemetry_measures"
  unfolding telemetry_step_def telemetry_measures_def
proof (elim disjE)
  assume "emit_step s t"
  then show "(t, s) \<in> measures [\<lambda>s. \<Sum>p \<in># threads s. lifecycle_rank p, \<lambda>s. if slot s = None then 1 else 0,
      \<lambda>s. \<Sum>p \<in># threads s. emit_rank (slot s \<noteq> None) p]"
    by (induction rule: emit_step.induct) auto
next
  assume "init_step s t"
  then show "(t, s) \<in> measures [\<lambda>s. \<Sum>p \<in># threads s. lifecycle_rank p, \<lambda>s. if slot s = None then 1 else 0,
      \<lambda>s. \<Sum>p \<in># threads s. emit_rank (slot s \<noteq> None) p]"
    by (induction rule: init_step.induct) auto
next
  assume "drop_step s t"
  then show "(t, s) \<in> measures [\<lambda>s. \<Sum>p \<in># threads s. lifecycle_rank p, \<lambda>s. if slot s = None then 1 else 0,
      \<lambda>s. \<Sum>p \<in># threads s. emit_rank (slot s \<noteq> None) p]"
    by (induction rule: drop_step.induct) auto
qed

lemma writer_moves:
  assumes "p \<in># threads s" and "writes p"
  shows "\<exists>t. telemetry_step s t"
proof -
  obtain P where P: "threads s = add_mset p P" using assms(1) by (metis multi_member_split)
  show ?thesis
    using assms(2) P emit_build [of s _ P] emit_built [of s _ P] retire_take [of s P]
    by (cases p; cases "slot s") (auto simp: telemetry_step_def)
qed

lemma reader_moves:
  assumes "p \<in># threads s" and "reads p"
  shows "\<exists>t. telemetry_step s t"
proof -
  obtain P where P: "threads s = add_mset p P" using assms(1) by (metis multi_member_split)
  show ?thesis
    using assms(2) P emit_found [of s _ P] emit_empty [of s _ P] emit_sent [of s _ _ P]
    by (cases p; cases "slot s") (auto simp: telemetry_step_def)
qed

fun waits_for_logger :: "pc \<Rightarrow> bool" where
  "waits_for_logger (EmitWantRead _) = True"
| "waits_for_logger (EmitWantWrite _) = True"
| "waits_for_logger RetireWantWrite = True"
| "waits_for_logger _ = False"

lemma waiting_moves:
  assumes "p \<in># threads s" and "waits_for_logger p" and "number reads (threads s) = 0" and "number writes (threads s) = 0"
  shows "\<exists>t. telemetry_step s t"
proof -
  obtain P where P: "threads s = add_mset p P" using assms(1) by (metis multi_member_split)
  moreover have "number reads P = 0" "number writes P = 0" using assms(3,4) P by (simp_all split: if_splits)
  ultimately show ?thesis
    using assms(2) emit_read [of s _ P] emit_write [of s _ P] retire_write [of s P]
    by (cases p) (auto simp: telemetry_step_def)
qed

lemma lifecycle_moves:
  assumes "p \<in># threads s" and "locks_lifecycle p" and "\<not> waits_for_logger p" and "\<not> writes p"
  shows "\<exists>t. telemetry_step s t"
proof -
  obtain P where P: "threads s = add_mset p P" using assms(1) by (metis multi_member_split)
  consider "active_guards s = 0" | "active_guards s = Suc 0" | n where "active_guards s = Suc (Suc n)"
    by (metis not0_implies_Suc)
  then show ?thesis
  proof cases
    case 1
    then show ?thesis using assms(2-4) P init_count [of s P] drop_underflow [of s P] retire_close [of s _ P]
      by (cases p) (auto simp: telemetry_step_def)
  next
    case 2
    then show ?thesis using assms(2-4) P init_count [of s P] drop_last [of s P] retire_close [of s _ P]
      by (cases p) (auto simp: telemetry_step_def)
  next
    case 3
    then show ?thesis using assms(2-4) P init_count [of s P] drop_shared [of s P n] retire_close [of s _ P]
      by (cases p) (auto simp: telemetry_step_def)
  qed
qed

lemma queued_moves:
  assumes "p \<in># threads s" and "p = InitWantMutex \<or> p = DropWantMutex" and "number locks_lifecycle (threads s) = 0"
  shows "\<exists>t. telemetry_step s t"
proof -
  obtain P where P: "threads s = add_mset p P" using assms(1) by (metis multi_member_split)
  moreover have "number locks_lifecycle P = 0" using assms(3) P by (simp split: if_splits)
  ultimately show ?thesis
    using assms(2) init_lock [of s P] drop_lock [of s P] by (auto simp: telemetry_step_def)
qed

lemma pc_kinds:
  "reads p \<or> writes p \<or> waits_for_logger p \<or> locks_lifecycle p \<or> p = InitWantMutex \<or> p = DropWantMutex"
  by (cases p) auto

lemma telemetry_progress:
  assumes "threads s \<noteq> {#}"
  shows "\<exists>t. telemetry_step s t"
proof (rule ccontr)
  assume stuck: "\<not> ?thesis"
  have no_readers: "number reads (threads s) = 0" and no_writers: "number writes (threads s) = 0"
    unfolding number_none using stuck reader_moves writer_moves by blast+
  then have "\<not> waits_for_logger p" if "p \<in># threads s" for p
    using stuck that waiting_moves by blast
  then have no_locks: "number locks_lifecycle (threads s) = 0"
    unfolding number_none using stuck lifecycle_moves no_writers [unfolded number_none] by blast
  obtain p where "p \<in># threads s" using assms by blast
  with stuck no_readers no_writers no_locks show False
    using pc_kinds [of p] reader_moves writer_moves waiting_moves lifecycle_moves queued_moves by blast
qed

text \<open>C25: logging neither deadlocks nor livelocks: as long as a call is running some thread can move, and no run of
  the threads is infinite, so that, without new calls, every run that goes on for as long as it can completes all calls.
  A thread whose logger is retired under it before it got the read lock looks again, but only as often as there
  are drops.\<close>

theorem telemetry_quiesces:
  "wf {(t, s). telemetry_step s t} \<and> ((\<exists>u. telemetry_step t u) \<longleftrightarrow> threads t \<noteq> {#})"
proof
  show "wf {(t, s). telemetry_step s t}"
    by (rule wf_subset [OF wf_measures [of telemetry_measures]]) (auto dest: step_decreases)
  have "\<not> telemetry_step t u" if "threads t = {#}" for u
    using that unfolding telemetry_step_def by (auto elim!: emit_step.cases init_step.cases drop_step.cases)
  then show "(\<exists>u. telemetry_step t u) \<longleftrightarrow> threads t \<noteq> {#}"
    using telemetry_progress [of t] by blast
qed


section \<open>Records and the bridge\<close>

text \<open>The fields \<open>log_rpc_error\<close> adds to its record, and its two static identifiers.\<close>

definition rpc_error_fields :: "string \<Rightarrow> string \<Rightarrow> (string \<times> string) list" where
  "rpc_error_fields operation_key error_code =
     [(''service.name'', ''canonical-api-server''), (''service.namespace'', ''canonical-cloud''),
      (''rpc.system'', ''ores.rpc.v1''), (''rpc.operation'', operation_key), (''rpc.error_code'', error_code),
      (''rpc.layer'', ''dispatch'')]"

datatype log_level = LogTrace | LogDebug | LogInfo | LogWarn | LogError | LogFatal

text \<open>What \<open>write\<close> of the bridge emits: a line on standard error, or an event of the current tracing dispatcher with its
  level, its record and its message.\<close>

datatype bridge_event = StderrLine string | TracingEvent log_level string string

fun bridge_level :: "log_level \<Rightarrow> log_level" where
  "bridge_level LogFatal = LogError"
| "bridge_level l = l"

definition bridge_write :: "bool \<Rightarrow> log_level \<Rightarrow> 'e + string \<Rightarrow> 'e + bridge_event" where
  "bridge_write listening level record_json =
     (case record_json of
        Inl e \<Rightarrow> Inl e
      | Inr encoded \<Rightarrow>
          if \<not> listening then Inr (StderrLine encoded)
          else Inr (TracingEvent (bridge_level level) encoded
                 (if level = LogFatal then ''Ores fatal structured log'' else ''Ores structured log'')))"

text \<open>No encoded record is lost: with or without a subscriber exactly one event carries it.\<close>

lemma bridge_keeps_record:
  "bridge_write listening level (Inr encoded) = Inr ev \<Longrightarrow>
     (case ev of StderrLine text \<Rightarrow> \<not> listening \<and> text = encoded | TracingEvent _ text _ \<Rightarrow> listening \<and> text = encoded)"
  by (auto simp: bridge_write_def split: if_splits)

end
