(* ===== verification/Work_Queue.thy ===== *)
theory Work_Queue
  imports Auth "HOL-Library.Product_Lexorder" "HOL-Library.Multiset"
begin

text \<open>
  The tenant's action queue (\<open>src/grc_work_queue.rs\<close>): the query over the compliance tables and the handler around
  it. Each \<open>SELECT\<close> of the query is a function of the tables; a column the query may find \<open>NULL\<close> is an option, and a
  comparison with \<open>NULL\<close> does not hold. The tables' own definitions are not part of the repository: columns that are only
  copied are taken to be present. An instant is its number of microseconds since the epoch. Parameters: the authority,
  the \<open>uuid\<close> crate, the database's collation as a sort key, \<open>to_char\<close>, and which statements fail.
\<close>

section \<open>Tables\<close>

record vendor =
  vn_tenant :: uuid
  vn_id :: uuid
  vn_display_name :: string

record vendor_assessment =
  va_tenant :: uuid
  va_id :: uuid
  va_vendor :: uuid
  va_state :: string
  va_kind :: string
  va_next_review :: "int option"
  va_residual_risk :: "int option"

record access_campaign =
  ac_tenant :: uuid
  ac_id :: uuid
  ac_state :: string
  ac_due :: "int option"

record access_item =
  ai_tenant :: uuid
  ai_id :: uuid
  ai_campaign :: uuid
  ai_decision :: string
  ai_remediation :: string
  ai_principal :: string
  ai_entitlement :: string

record questionnaire =
  sq_tenant :: uuid
  sq_id :: uuid
  sq_vendor :: "uuid option"
  sq_state :: string
  sq_title :: string
  sq_due :: "int option"

record risk =
  rk_tenant :: uuid
  rk_id :: uuid
  rk_scope :: "uuid option"
  rk_state :: string
  rk_title :: string
  rk_review_due :: "int option"
  rk_likelihood :: int
  rk_impact :: int

record risk_treatment =
  rt_tenant :: uuid
  rt_risk :: uuid
  rt_state :: string

record trust_request =
  tr_tenant :: uuid
  tr_id :: uuid
  tr_center :: uuid
  tr_state :: string
  tr_nda :: string
  tr_name :: string
  tr_company :: "string option"
  tr_expires :: "int option"
  tr_requested :: int

record evidence_request =
  er_tenant :: uuid
  er_id :: uuid
  er_engagement :: uuid
  er_state :: string
  er_title :: string
  er_due :: "int option"

record policy =
  po_tenant :: uuid
  po_id :: uuid
  po_state :: string
  po_title :: string
  po_next_review :: "int option"

record training_course =
  tc_tenant :: uuid
  tc_id :: uuid
  tc_title :: string

record training_assignment =
  ta_tenant :: uuid
  ta_id :: uuid
  ta_course :: uuid
  ta_state :: string
  ta_due :: "int option"

record automation_job =
  aj_tenant :: uuid
  aj_id :: uuid
  aj_name :: string

record automation_run =
  ar_tenant :: uuid
  ar_id :: uuid
  ar_job :: uuid
  ar_state :: string
  ar_started :: "int option"

record ai_system =
  as_tenant :: uuid
  as_sys_id :: uuid
  as_asset :: "uuid option"
  as_deployment :: string
  as_name :: string
  as_next_review :: "int option"
  as_tier :: string

record grc_tables =
  vendors :: "vendor list"
  vendor_assessments :: "vendor_assessment list"
  access_campaigns :: "access_campaign list"
  access_items :: "access_item list"
  questionnaires :: "questionnaire list"
  risks :: "risk list"
  risk_treatments :: "risk_treatment list"
  trust_requests :: "trust_request list"
  evidence_requests :: "evidence_request list"
  policies :: "policy list"
  training_courses :: "training_course list"
  training_assignments :: "training_assignment list"
  automation_jobs :: "automation_job list"
  automation_runs :: "automation_run list"
  ai_systems :: "ai_system list"


section \<open>The query\<close>

record work_row =
  wr_kind :: string
  wr_id :: uuid
  wr_parent :: "uuid option"
  wr_state :: string
  wr_title :: string
  wr_due :: "int option"
  wr_priority :: string
  wr_action :: string

text \<open>\<open>left(text, 240)\<close> counts characters; \<open>t < bound\<close> and \<open>t <= bound\<close> of a possibly missing instant; days in microseconds.\<close>

definition left_240 :: "string \<Rightarrow> string" where
  "left_240 s = concat (take 240 (chars s))"

definition before :: "int option \<Rightarrow> int \<Rightarrow> bool" where
  "before t bound \<longleftrightarrow> (case t of None \<Rightarrow> False | Some v \<Rightarrow> v < bound)"

definition not_after :: "int option \<Rightarrow> int \<Rightarrow> bool" where
  "not_after t bound \<longleftrightarrow> (case t of None \<Rightarrow> False | Some v \<Rightarrow> v \<le> bound)"

definition days :: "int \<Rightarrow> int" where
  "days n = n * 86400000000"

definition vendor_assessment_items :: "int \<Rightarrow> uuid \<Rightarrow> grc_tables \<Rightarrow> work_row list" where
  "vendor_assessment_items now tenant db =
     [\<lparr>wr_kind = ''vendor_assessment'', wr_id = va_id a, wr_parent = Some (va_vendor a), wr_state = va_state a,
       wr_title = left_240 (vn_display_name v @ '': '' @ va_kind a), wr_due = va_next_review a,
       wr_priority = (if (case va_residual_risk a of None \<Rightarrow> False | Some r \<Rightarrow> 7500 \<le> r) then ''high''
                      else if before (va_next_review a) now then ''high'' else ''medium''),
       wr_action = ''review_vendor_assessment''\<rparr>.
      a \<leftarrow> vendor_assessments db, v \<leftarrow> vendors db,
      vn_tenant v = va_tenant a \<and> vn_id v = va_vendor a \<and> va_tenant a = tenant \<and>
      (va_state a \<in> {''planned'', ''collecting'', ''in_review''} \<or> not_after (va_next_review a) (now + days 14))]"

definition access_review_items :: "int \<Rightarrow> uuid \<Rightarrow> grc_tables \<Rightarrow> work_row list" where
  "access_review_items now tenant db =
     [\<lparr>wr_kind = ''access_review_item'', wr_id = ai_id i, wr_parent = Some (ai_campaign i),
       wr_state = (if ai_decision i = ''pending'' then ''pending_decision'' else ai_remediation i),
       wr_title = left_240 (ai_principal i @ '' / '' @ ai_entitlement i), wr_due = ac_due c,
       wr_priority = (if before (ac_due c) now then ''high''
                      else if ai_remediation i = ''failed'' then ''high'' else ''medium''),
       wr_action = (if ai_decision i = ''pending'' then ''decide_access'' else ''remediate_access'')\<rparr>.
      i \<leftarrow> access_items db, c \<leftarrow> access_campaigns db,
      ac_tenant c = ai_tenant i \<and> ac_id c = ai_campaign i \<and> ai_tenant i = tenant \<and>
      (ai_decision i = ''pending'' \<or> ai_remediation i \<in> {''pending'', ''in_progress'', ''failed''}) \<and>
      ac_state c \<notin> {''complete'', ''cancelled''}]"

definition questionnaire_items :: "int \<Rightarrow> uuid \<Rightarrow> grc_tables \<Rightarrow> work_row list" where
  "questionnaire_items now tenant db =
     [\<lparr>wr_kind = ''security_questionnaire'', wr_id = sq_id q, wr_parent = sq_vendor q, wr_state = sq_state q,
       wr_title = left_240 (sq_title q), wr_due = sq_due q,
       wr_priority = (if before (sq_due q) now then ''high''
                      else if sq_state q = ''in_review'' then ''medium'' else ''low''),
       wr_action = (if sq_state q = ''in_review'' then ''approve_questionnaire'' else ''complete_questionnaire'')\<rparr>.
      q \<leftarrow> questionnaires db,
      sq_tenant q = tenant \<and> sq_state q \<in> {''draft'', ''open'', ''in_progress'', ''in_review'', ''received''}]"

text \<open>The \<open>NOT EXISTS\<close> subquery.\<close>

definition untreated :: "grc_tables \<Rightarrow> risk \<Rightarrow> bool" where
  "untreated db r \<longleftrightarrow>
     \<not> list_ex (\<lambda>t. rt_tenant t = rk_tenant r \<and> rt_risk t = rk_id r \<and> rt_state t \<in> {''planned'', ''in_progress'', ''implemented''})
         (risk_treatments db)"

definition risk_items :: "int \<Rightarrow> uuid \<Rightarrow> grc_tables \<Rightarrow> work_row list" where
  "risk_items now tenant db =
     [\<lparr>wr_kind = ''risk'', wr_id = rk_id r, wr_parent = rk_scope r, wr_state = rk_state r, wr_title = left_240 (rk_title r),
       wr_due = rk_review_due r,
       wr_priority = (if 16 \<le> rk_likelihood r * rk_impact r then ''high''
                      else if before (rk_review_due r) now then ''high''
                      else if 9 \<le> rk_likelihood r * rk_impact r then ''medium'' else ''low''),
       wr_action = (if untreated db r then ''choose_risk_treatment'' else ''review_risk'')\<rparr>.
      r \<leftarrow> risks db,
      rk_tenant r = tenant \<and> rk_state r \<in> {''open'', ''monitoring''} \<and>
      (not_after (rk_review_due r) (now + days 14) \<or> untreated db r)]"

definition trust_items :: "int \<Rightarrow> uuid \<Rightarrow> grc_tables \<Rightarrow> work_row list" where
  "trust_items now tenant db =
     [\<lparr>wr_kind = ''trust_center_access'', wr_id = tr_id r, wr_parent = Some (tr_center r),
       wr_state = (if tr_nda r = ''pending'' then ''nda_pending'' else tr_state r),
       wr_title = left_240 (tr_name r @
         (case tr_company r of None \<Rightarrow> [] | Some c \<Rightarrow> '' '' @ [CHR 0xE2, CHR 0x80, CHR 0x94] @ '' '' @ c)),
       wr_due = tr_expires r,
       wr_priority = (if tr_requested r < now - days 2 then ''high'' else ''medium''),
       wr_action = (if tr_nda r = ''pending'' then ''complete_nda'' else ''decide_trust_access'')\<rparr>.
      r \<leftarrow> trust_requests db, tr_tenant r = tenant \<and> (tr_state r = ''pending'' \<or> tr_nda r = ''pending'')]"

definition evidence_request_items :: "int \<Rightarrow> uuid \<Rightarrow> grc_tables \<Rightarrow> work_row list" where
  "evidence_request_items now tenant db =
     [\<lparr>wr_kind = ''audit_evidence_request'', wr_id = er_id r, wr_parent = Some (er_engagement r), wr_state = er_state r,
       wr_title = left_240 (er_title r), wr_due = er_due r,
       wr_priority = (if before (er_due r) now then ''high''
                      else if er_state r = ''rejected'' then ''high'' else ''medium''),
       wr_action = (if er_state r = ''rejected'' then ''resubmit_evidence'' else ''submit_evidence'')\<rparr>.
      r \<leftarrow> evidence_requests db, er_tenant r = tenant \<and> er_state r \<in> {''open'', ''in_progress'', ''rejected''}]"

definition policy_items :: "int \<Rightarrow> uuid \<Rightarrow> grc_tables \<Rightarrow> work_row list" where
  "policy_items now tenant db =
     [\<lparr>wr_kind = ''policy_review'', wr_id = po_id p, wr_parent = None, wr_state = po_state p, wr_title = left_240 (po_title p),
       wr_due = po_next_review p,
       wr_priority = (if before (po_next_review p) now then ''high'' else ''medium''),
       wr_action = (if po_state p = ''draft'' then ''publish_policy'' else ''review_policy'')\<rparr>.
      p \<leftarrow> policies db,
      po_tenant p = tenant \<and>
      (po_state p = ''draft'' \<or> po_state p = ''active'' \<and> not_after (po_next_review p) (now + days 14))]"

definition training_items :: "int \<Rightarrow> uuid \<Rightarrow> grc_tables \<Rightarrow> work_row list" where
  "training_items now tenant db =
     [\<lparr>wr_kind = ''training_assignment'', wr_id = ta_id a, wr_parent = Some (ta_course a), wr_state = ta_state a,
       wr_title = left_240 (tc_title c), wr_due = ta_due a,
       wr_priority = (if ta_state a = ''overdue'' \<or> before (ta_due a) now then ''high'' else ''low''),
       wr_action = ''complete_training''\<rparr>.
      a \<leftarrow> training_assignments db, c \<leftarrow> training_courses db,
      tc_tenant c = ta_tenant a \<and> tc_id c = ta_course a \<and> ta_tenant a = tenant \<and>
      ta_state a \<in> {''assigned'', ''in_progress'', ''overdue''} \<and>
      (ta_state a = ''overdue'' \<or> not_after (ta_due a) (now + days 7))]"

definition automation_items :: "int \<Rightarrow> uuid \<Rightarrow> grc_tables \<Rightarrow> work_row list" where
  "automation_items now tenant db =
     [\<lparr>wr_kind = ''automation_run'', wr_id = ar_id r, wr_parent = Some (ar_job r), wr_state = ar_state r,
       wr_title = left_240 (aj_name j), wr_due = None,
       wr_priority = (if ar_state r = ''failed'' then ''high'' else ''medium''), wr_action = ''inspect_automation_run''\<rparr>.
      r \<leftarrow> automation_runs db, j \<leftarrow> automation_jobs db,
      aj_tenant j = ar_tenant r \<and> aj_id j = ar_job r \<and> ar_tenant r = tenant \<and> ar_state r \<in> {''failed'', ''partial''} \<and>
      (case ar_started r of None \<Rightarrow> False | Some t \<Rightarrow> now - days 30 \<le> t)]"

definition ai_system_items :: "int \<Rightarrow> uuid \<Rightarrow> grc_tables \<Rightarrow> work_row list" where
  "ai_system_items now tenant db =
     [\<lparr>wr_kind = ''ai_system_review'', wr_id = as_sys_id s, wr_parent = as_asset s, wr_state = as_deployment s,
       wr_title = left_240 (as_name s), wr_due = as_next_review s,
       wr_priority = (if as_tier s = ''prohibited'' then ''high'' else if as_tier s = ''high'' then ''high'' else ''medium''),
       wr_action = ''review_ai_system''\<rparr>.
      s \<leftarrow> ai_systems db,
      as_tenant s = tenant \<and> as_deployment s \<in> {''discovered'', ''proposed'', ''approved'', ''active''} \<and>
      (as_tier s \<in> {''high'', ''prohibited''} \<or> not_after (as_next_review s) (now + days 30))]"

definition work_items :: "int \<Rightarrow> uuid \<Rightarrow> grc_tables \<Rightarrow> work_row list" where
  "work_items now tenant db =
     vendor_assessment_items now tenant db @ access_review_items now tenant db @ questionnaire_items now tenant db @
     risk_items now tenant db @ trust_items now tenant db @ evidence_request_items now tenant db @
     policy_items now tenant db @ training_items now tenant db @ automation_items now tenant db @ ai_system_items now tenant db"

text \<open>\<open>ORDER BY\<close>: priority, due instant with missing ones last, kind under the database's collation, identifier.\<close>

definition urgency :: "(string \<Rightarrow> nat) \<Rightarrow> work_row \<Rightarrow> nat \<times> (nat \<times> int) \<times> nat \<times> nat" where
  "urgency collate r =
     (if wr_priority r = ''high'' then 0 else if wr_priority r = ''medium'' then 1 else 2,
      case wr_due r of None \<Rightarrow> (1, 0) | Some t \<Rightarrow> (0, t), collate (wr_kind r), unat (wr_id r))"

definition work_queue_query :: "(string \<Rightarrow> nat) \<Rightarrow> int \<Rightarrow> uuid \<Rightarrow> grc_tables \<Rightarrow> (work_row \<times> nat) list" where
  "work_queue_query collate now tenant db =
     (let rows = work_items now tenant db in map (\<lambda>r. (r, length rows)) (take 500 (sort_key (urgency collate) rows)))"


section \<open>The handler\<close>

record work_item =
  wi_kind :: string
  wi_id :: uuid
  wi_parent :: "uuid option"
  wi_state :: string
  wi_title :: string
  wi_due :: "string option"
  wi_priority :: string
  wi_action :: string

record work_queue_response =
  wq_schema_version :: string
  wq_tenant :: uuid
  wq_total_matching :: nat
  wq_returned :: nat
  wq_truncated :: bool
  wq_items :: "work_item list"

datatype grc_stmt = GBegin | GSetTenant | GQuery | GCommit

record grc_env =
  ge_introspect :: introspector
  ge_uuid_parse :: "string \<Rightarrow> uuid option"
  ge_uuid_str :: "uuid \<Rightarrow> string"
  ge_collate :: "string \<Rightarrow> nat"
  ge_to_char :: "int \<Rightarrow> string"
  ge_fails :: "grc_stmt \<Rightarrow> bool"
  ge_now :: int

definition database_error :: api_error where
  "database_error = service_unavailable ''grc_storage_unavailable'' ''GRC persistence is temporarily unavailable''"

definition work_item_of :: "grc_env \<Rightarrow> work_row \<Rightarrow> work_item" where
  "work_item_of env r =
     \<lparr>wi_kind = wr_kind r, wi_id = wr_id r, wi_parent = wr_parent r, wi_state = wr_state r, wi_title = wr_title r,
      wi_due = map_option (ge_to_char env) (wr_due r), wi_priority = wr_priority r, wi_action = wr_action r\<rparr>"

text \<open>The loop over the rows; the count of each row overwrites the total.\<close>

fun collect_items :: "grc_env \<Rightarrow> nat \<Rightarrow> work_item list \<Rightarrow> (work_row \<times> nat) list \<Rightarrow> nat \<times> work_item list" where
  "collect_items env amount items [] = (amount, items)"
| "collect_items env amount items ((r, matching) # rows) = collect_items env matching (items @ [work_item_of env r]) rows"

text \<open>The database is its tables and whether it is PostgreSQL.\<close>

definition list_work_items ::
    "grc_env \<Rightarrow> auth_state \<Rightarrow> (grc_tables \<times> bool) option \<Rightarrow> header_map \<Rightarrow> api_error + work_queue_response" where
  "list_work_items env st database headers =
     result_bind (authenticate_tenant (ge_introspect env) (ge_uuid_parse env) (ge_uuid_str env) headers st [''grc:read'']) (\<lambda>tenant.
     result_bind (ok_or database (service_unavailable ''grc_storage_unavailable'' ''GRC persistence is not configured'')) (\<lambda>(db, postgres).
     if \<not> postgres then Inl (service_unavailable ''grc_storage_unavailable'' ''GRC persistence requires PostgreSQL'')
     else if ge_fails env GBegin \<or> ge_fails env GSetTenant \<or> ge_fails env GQuery then Inl database_error
     else
     let (amount, items) = collect_items env 0 [] (work_queue_query (ge_collate env) (ge_now env) tenant db)
     in if ge_fails env GCommit then Inl database_error
        else Inr \<lparr>wq_schema_version = ''canonical.grc.work-queue.v1'', wq_tenant = tenant, wq_total_matching = amount,
                  wq_returned = length items, wq_truncated = (length items < amount), wq_items = items\<rparr>))"


section \<open>Tenant isolation\<close>

definition restrict_tenant :: "uuid \<Rightarrow> grc_tables \<Rightarrow> grc_tables" where
  "restrict_tenant t db =
     \<lparr>vendors = filter (\<lambda>r. vn_tenant r = t) (vendors db),
      vendor_assessments = filter (\<lambda>r. va_tenant r = t) (vendor_assessments db),
      access_campaigns = filter (\<lambda>r. ac_tenant r = t) (access_campaigns db),
      access_items = filter (\<lambda>r. ai_tenant r = t) (access_items db),
      questionnaires = filter (\<lambda>r. sq_tenant r = t) (questionnaires db),
      risks = filter (\<lambda>r. rk_tenant r = t) (risks db),
      risk_treatments = filter (\<lambda>r. rt_tenant r = t) (risk_treatments db),
      trust_requests = filter (\<lambda>r. tr_tenant r = t) (trust_requests db),
      evidence_requests = filter (\<lambda>r. er_tenant r = t) (evidence_requests db),
      policies = filter (\<lambda>r. po_tenant r = t) (policies db),
      training_courses = filter (\<lambda>r. tc_tenant r = t) (training_courses db),
      training_assignments = filter (\<lambda>r. ta_tenant r = t) (training_assignments db),
      automation_jobs = filter (\<lambda>r. aj_tenant r = t) (automation_jobs db),
      automation_runs = filter (\<lambda>r. ar_tenant r = t) (automation_runs db),
      ai_systems = filter (\<lambda>r. as_tenant r = t) (ai_systems db)\<rparr>"

lemma concat_map_skip: "(\<And>x. \<not> T x \<Longrightarrow> f x = []) \<Longrightarrow> concat (map f (filter T xs)) = concat (map f xs)"
  by (induction xs) auto

lemma joined_skip:
  "(\<And>x. \<not> T x \<Longrightarrow> (\<forall>y. f x y = [])) \<Longrightarrow> (\<And>x y. \<not> U y \<Longrightarrow> f x y = []) \<Longrightarrow>
   concat (map (\<lambda>x. concat (map (f x) (filter U ys))) (filter T xs)) = concat (map (\<lambda>x. concat (map (f x) ys)) xs)"
  by (subst concat_map_skip) (simp_all add: concat_map_skip)

lemma untreated_restrict: "rk_tenant r = t \<Longrightarrow> untreated (restrict_tenant t db) r = untreated db r"
  unfolding untreated_def restrict_tenant_def list_ex_iff by auto

lemma items_restrict:
  "vendor_assessment_items now t (restrict_tenant t db) = vendor_assessment_items now t db"
  "access_review_items now t (restrict_tenant t db) = access_review_items now t db"
  "questionnaire_items now t (restrict_tenant t db) = questionnaire_items now t db"
  "trust_items now t (restrict_tenant t db) = trust_items now t db"
  "evidence_request_items now t (restrict_tenant t db) = evidence_request_items now t db"
  "policy_items now t (restrict_tenant t db) = policy_items now t db"
  "training_items now t (restrict_tenant t db) = training_items now t db"
  "automation_items now t (restrict_tenant t db) = automation_items now t db"
  "ai_system_items now t (restrict_tenant t db) = ai_system_items now t db"
  unfolding vendor_assessment_items_def access_review_items_def questionnaire_items_def trust_items_def
    evidence_request_items_def policy_items_def training_items_def automation_items_def ai_system_items_def
    restrict_tenant_def grc_tables.select_convs
  by (rule joined_skip concat_map_skip; simp)+

lemma risk_items_restrict: "risk_items now t (restrict_tenant t db) = risk_items now t db"
proof -
  let ?f = "\<lambda>db r. if rk_tenant r = t \<and> rk_state r \<in> {''open'', ''monitoring''} \<and>
      (not_after (rk_review_due r) (now + days 14) \<or> untreated db r)
    then [\<lparr>wr_kind = ''risk'', wr_id = rk_id r, wr_parent = rk_scope r, wr_state = rk_state r, wr_title = left_240 (rk_title r),
       wr_due = rk_review_due r,
       wr_priority = (if 16 \<le> rk_likelihood r * rk_impact r then ''high''
                      else if before (rk_review_due r) now then ''high''
                      else if 9 \<le> rk_likelihood r * rk_impact r then ''medium'' else ''low''),
       wr_action = (if untreated db r then ''choose_risk_treatment'' else ''review_risk'')\<rparr>] else []"
  have same: "?f (restrict_tenant t db) = ?f db"
    by (rule ext) (use untreated_restrict in auto)
  have "risk_items now t (restrict_tenant t db) = concat (map (?f db) (filter (\<lambda>r. rk_tenant r = t) (risks db)))"
    unfolding risk_items_def same [symmetric] by (simp add: restrict_tenant_def)
  also have "\<dots> = concat (map (?f db) (risks db))" by (rule concat_map_skip) simp
  finally show ?thesis unfolding risk_items_def .
qed

lemma work_items_restrict: "work_items now t (restrict_tenant t db) = work_items now t db"
  unfolding work_items_def items_restrict risk_items_restrict ..

text \<open>C22: no tenant sees another's compliance data: the answer depends on the rows of the authenticated tenant only. Two
  databases that agree on them give the same answer, in its items, its count and its errors.\<close>

theorem work_queue_isolated:
  assumes "authenticate_tenant (ge_introspect env) (ge_uuid_parse env) (ge_uuid_str env) headers st [''grc:read''] = Inr tenant"
    and "restrict_tenant tenant db = restrict_tenant tenant db'"
  shows "list_work_items env st (Some (db, pg)) headers = list_work_items env st (Some (db', pg)) headers"
proof -
  have "work_items (ge_now env) tenant db = work_items (ge_now env) tenant db'"
    using assms(2) work_items_restrict [of "ge_now env" tenant db] work_items_restrict [of "ge_now env" tenant db'] by simp
  then show ?thesis unfolding list_work_items_def assms(1) work_queue_query_def by simp
qed


section \<open>The page\<close>

lemma collect_items_eq: "collect_items env amount items rows =
    (if rows = [] then amount else snd (last rows), items @ map (work_item_of env \<circ> fst) rows)"
  by (induction env amount items rows rule: collect_items.induct) auto

lemma list_work_items_Inr:
  assumes "list_work_items env st database headers = Inr resp"
  obtains tenant db where
    "authenticate_tenant (ge_introspect env) (ge_uuid_parse env) (ge_uuid_str env) headers st [''grc:read''] = Inr tenant"
    "database = Some (db, True)"
    "resp = (let (amount, items) = collect_items env 0 [] (work_queue_query (ge_collate env) (ge_now env) tenant db)
       in \<lparr>wq_schema_version = ''canonical.grc.work-queue.v1'', wq_tenant = tenant, wq_total_matching = amount,
           wq_returned = length items, wq_truncated = (length items < amount), wq_items = items\<rparr>)"
proof -
  obtain tenant db pg where facts: "authenticate_tenant (ge_introspect env) (ge_uuid_parse env) (ge_uuid_str env) headers st [''grc:read''] = Inr tenant"
      "database = Some (db, pg)"
    using assms unfolding list_work_items_def by (auto simp: result_bind_Inr_iff ok_or_iff)
  obtain amount items where items: "collect_items env 0 [] (work_queue_query (ge_collate env) (ge_now env) tenant db) = (amount, items)"
    by fastforce
  have pg and "resp = (let (amount, items) = collect_items env 0 [] (work_queue_query (ge_collate env) (ge_now env) tenant db)
       in \<lparr>wq_schema_version = ''canonical.grc.work-queue.v1'', wq_tenant = tenant, wq_total_matching = amount,
           wq_returned = length items, wq_truncated = (length items < amount), wq_items = items\<rparr>)"
    using assms unfolding list_work_items_def by (simp_all add: facts items split: if_splits)
  with facts that show thesis by simp
qed

text \<open>What the response holds of the ranked matches.\<close>

lemma list_work_items_page:
  assumes "list_work_items env st database headers = Inr resp"
  obtains db ranked where "database = Some (db, True)"
    and "mset ranked = mset (work_items (ge_now env) (wq_tenant resp) db)" and "sorted (map (urgency (ge_collate env)) ranked)"
    and "wq_items resp = map (work_item_of env) (take 500 ranked)" and "wq_returned resp = min (length ranked) 500"
    and "wq_total_matching resp = length ranked" and "wq_truncated resp \<longleftrightarrow> 500 < length ranked"
proof -
  from assms obtain tenant db where database: "database = Some (db, True)"
    and resp: "resp = (let (amount, items) = collect_items env 0 [] (work_queue_query (ge_collate env) (ge_now env) tenant db)
       in \<lparr>wq_schema_version = ''canonical.grc.work-queue.v1'', wq_tenant = tenant, wq_total_matching = amount,
           wq_returned = length items, wq_truncated = (length items < amount), wq_items = items\<rparr>)"
    by (rule list_work_items_Inr)
  define ranked where "ranked = sort_key (urgency (ge_collate env)) (work_items (ge_now env) tenant db)"
  have query: "work_queue_query (ge_collate env) (ge_now env) tenant db = map (\<lambda>r. (r, length ranked)) (take 500 ranked)"
    by (simp add: work_queue_query_def Let_def ranked_def)
  have "collect_items env 0 [] (work_queue_query (ge_collate env) (ge_now env) tenant db) =
      (length ranked, map (work_item_of env) (take 500 ranked))"
    unfolding query collect_items_eq by (auto simp: last_map)
  then have fields: "wq_tenant resp = tenant" "wq_items resp = map (work_item_of env) (take 500 ranked)"
      "wq_returned resp = min (length ranked) 500" "wq_total_matching resp = length ranked"
      "wq_truncated resp \<longleftrightarrow> 500 < length ranked"
    unfolding resp by (auto simp: min_def)
  show thesis
    by (rule that [of db ranked]) (simp_all only: fields database, simp_all add: ranked_def)
qed

text \<open>C23: the page is exact: the items are the most urgent of everything that matches, in order, at most 500, none left
  out is more urgent than one shown, the total counts every match, and truncation is announced exactly when some are left out.\<close>

theorem work_queue_page:
  assumes "list_work_items env st database headers = Inr resp"
  shows "\<exists>db shown hidden. database = Some (db, True) \<and>
    mset (shown @ hidden) = mset (work_items (ge_now env) (wq_tenant resp) db) \<and>
    wq_items resp = map (work_item_of env) shown \<and> sorted (map (urgency (ge_collate env)) shown) \<and>
    (\<forall>x \<in> set shown. \<forall>y \<in> set hidden. urgency (ge_collate env) x \<le> urgency (ge_collate env) y) \<and>
    wq_returned resp = length shown \<and> length shown \<le> 500 \<and>
    wq_total_matching resp = length (work_items (ge_now env) (wq_tenant resp) db) \<and>
    (wq_truncated resp \<longleftrightarrow> hidden \<noteq> []) \<and> (hidden \<noteq> [] \<longrightarrow> length shown = 500)"
proof -
  from assms obtain db ranked where p: "database = Some (db, True)"
      "mset ranked = mset (work_items (ge_now env) (wq_tenant resp) db)" "sorted (map (urgency (ge_collate env)) ranked)"
      "wq_items resp = map (work_item_of env) (take 500 ranked)" "wq_returned resp = min (length ranked) 500"
      "wq_total_matching resp = length ranked" "wq_truncated resp \<longleftrightarrow> 500 < length ranked"
    by (rule list_work_items_page)
  have "sorted (map (urgency (ge_collate env)) (take 500 ranked @ drop 500 ranked))" using p(3) by simp
  then have order: "sorted (map (urgency (ge_collate env)) (take 500 ranked))"
      "\<forall>x \<in> set (take 500 ranked). \<forall>y \<in> set (drop 500 ranked). urgency (ge_collate env) x \<le> urgency (ge_collate env) y"
    unfolding map_append sorted_append by auto
  have len: "length ranked = length (work_items (ge_now env) (wq_tenant resp) db)" using p(2) by (rule mset_eq_length)
  have all: "mset (take 500 ranked @ drop 500 ranked) = mset (work_items (ge_now env) (wq_tenant resp) db)"
    using p(2) by (simp only: append_take_drop_id)
  show ?thesis
    by (intro exI [of _ db] exI [of _ "take 500 ranked"] exI [of _ "drop 500 ranked"] conjI p(1) all p(4) order)
       (use p len in auto)
qed

section \<open>Priorities\<close>

lemma items_kinds:
  "r \<in> set (trust_items now tenant db) \<Longrightarrow> wr_kind r = ''trust_center_access''"
  "r \<in> set (ai_system_items now tenant db) \<Longrightarrow> wr_kind r = ''ai_system_review''"
  "r \<in> set (automation_items now tenant db) \<Longrightarrow> wr_due r = None"
  by (auto simp: trust_items_def ai_system_items_def automation_items_def)

lemma items_overdue:
  "r \<in> set (vendor_assessment_items now tenant db) \<Longrightarrow> before (wr_due r) now \<Longrightarrow> wr_priority r = ''high''"
  "r \<in> set (access_review_items now tenant db) \<Longrightarrow> before (wr_due r) now \<Longrightarrow> wr_priority r = ''high''"
  "r \<in> set (questionnaire_items now tenant db) \<Longrightarrow> before (wr_due r) now \<Longrightarrow> wr_priority r = ''high''"
  "r \<in> set (risk_items now tenant db) \<Longrightarrow> before (wr_due r) now \<Longrightarrow> wr_priority r = ''high''"
  "r \<in> set (evidence_request_items now tenant db) \<Longrightarrow> before (wr_due r) now \<Longrightarrow> wr_priority r = ''high''"
  "r \<in> set (policy_items now tenant db) \<Longrightarrow> before (wr_due r) now \<Longrightarrow> wr_priority r = ''high''"
  "r \<in> set (training_items now tenant db) \<Longrightarrow> before (wr_due r) now \<Longrightarrow> wr_priority r = ''high''"
  subgoal by (auto simp: vendor_assessment_items_def)
  subgoal by (auto simp: access_review_items_def)
  subgoal by (auto simp: questionnaire_items_def)
  subgoal by (auto simp: risk_items_def)
  subgoal by (auto simp: evidence_request_items_def)
  subgoal by (auto simp: policy_items_def)
  subgoal by (auto simp: training_items_def)
  done

lemma overdue_high:
  assumes "r \<in> set (work_items now tenant db)" and "before (wr_due r) now"
    and "wr_kind r \<noteq> ''trust_center_access''" and "wr_kind r \<noteq> ''ai_system_review''"
  shows "wr_priority r = ''high''"
proof -
  have "r \<notin> set (automation_items now tenant db)"
    using assms(2) items_kinds(3) [of r now tenant db] by (auto simp: before_def)
  then show ?thesis
    using assms items_kinds(1,2) [of r now tenant db] items_overdue [of r now tenant db]
    unfolding work_items_def set_append Un_iff by blast
qed

text \<open>Overdue obligations come first: as soon as the page shows anything below high priority, it shows every overdue
  item of the tenant, apart from access requests to the trust center and reviews of AI systems, whose priority does not
  depend on their due date.\<close>

theorem overdue_shown_first:
  assumes "list_work_items env st (Some (db, True)) headers = Inr resp" and "i \<in> set (wq_items resp)" and "wi_priority i \<noteq> ''high''"
    and "r \<in> set (work_items (ge_now env) (wq_tenant resp) db)" and "before (wr_due r) (ge_now env)"
    and "wr_kind r \<noteq> ''trust_center_access''" and "wr_kind r \<noteq> ''ai_system_review''"
  shows "work_item_of env r \<in> set (wq_items resp)"
proof -
  from assms(1) obtain ranked where ranked: "mset ranked = mset (work_items (ge_now env) (wq_tenant resp) db)"
      "sorted (map (urgency (ge_collate env)) ranked)" and items: "wq_items resp = map (work_item_of env) (take 500 ranked)"
    by (rule list_work_items_page) simp
  obtain x where x: "x \<in> set (take 500 ranked)" "wr_priority x \<noteq> ''high''"
    using assms(2,3) unfolding items by (auto simp: work_item_of_def)
  have high: "wr_priority r = ''high''" using overdue_high [OF assms(4-7)] .
  have "\<not> urgency (ge_collate env) x \<le> urgency (ge_collate env) r"
    using x(2) high by (simp add: urgency_def)
  moreover have "sorted (map (urgency (ge_collate env)) (take 500 ranked @ drop 500 ranked))" using ranked(2) by simp
  ultimately have "r \<notin> set (drop 500 ranked)"
    using x(1) unfolding map_append sorted_append by auto
  moreover have "r \<in> set ranked" using assms(4) ranked(1) by (metis set_mset_mset)
  then have "r \<in> set (take 500 ranked) \<union> set (drop 500 ranked)"
    unfolding set_append [symmetric] by (simp only: append_take_drop_id)
  ultimately show ?thesis unfolding items by auto
qed


section \<open>Instances\<close>

definition example_tables :: grc_tables where
  "example_tables =
     \<lparr>vendors = [], vendor_assessments = [], access_campaigns = [], access_items = [],
      questionnaires = [\<lparr>sq_tenant = 1, sq_id = 7, sq_vendor = None, sq_state = ''open'', sq_title = ''q'', sq_due = None\<rparr>],
      risks = [], risk_treatments = [], trust_requests = [], evidence_requests = [],
      policies = [\<lparr>po_tenant = 1, po_id = 5, po_state = ''active'', po_title = ''p'', po_next_review = Some 10\<rparr>,
                  \<lparr>po_tenant = 2, po_id = 6, po_state = ''draft'', po_title = ''x'', po_next_review = None\<rparr>],
      training_courses = [], training_assignments = [], automation_jobs = [], automation_runs = [], ai_systems = []\<rparr>"

definition example_grc :: grc_env where
  "example_grc = \<lparr>ge_introspect = (\<lambda>_ _ _. None), ge_uuid_parse = (\<lambda>_. Some 1), ge_uuid_str = (\<lambda>_. ''t''), ge_collate = (\<lambda>_. 0),
     ge_to_char = int_to_string, ge_fails = (\<lambda>_. False), ge_now = 20\<rparr>"

definition example_tenant_headers :: header_map where
  "example_tenant_headers = [ascii_header ''x-canonical-internal-token'' ''tok'', ascii_header ''x-canonical-subject'' ''alice'',
     ascii_header ''x-canonical-tenant-id'' ''t'']"

abbreviation example_grc_auth :: auth_state where
  "example_grc_auth \<equiv> \<lparr>internal_auth_token = ''tok'', shared_audience = None\<rparr>"

lemma example_tenant:
  "authenticate_tenant (ge_introspect example_grc) (ge_uuid_parse example_grc) (ge_uuid_str example_grc)
     example_tenant_headers example_grc_auth [''grc:read''] = Inr 1"
proof -
  have "trim ''alice'' = ''alice''" "trim ''t'' = ''t''" by (rule trim_graphic, simp add: is_ascii_graphic_def)+
  then show ?thesis
    by (simp add: authenticate_tenant_def example_grc_def example_tenant_headers_def header_str_def header_get_def
        ascii_header_def valid_subject_def parse_tenant_id_def ascii_defs)
qed

definition example_policy_row :: work_row where
  "example_policy_row = \<lparr>wr_kind = ''policy_review'', wr_id = 5, wr_parent = None, wr_state = ''active'', wr_title = ''p'',
     wr_due = Some 10, wr_priority = ''high'', wr_action = ''review_policy''\<rparr>"

definition example_question_row :: work_row where
  "example_question_row = \<lparr>wr_kind = ''security_questionnaire'', wr_id = 7, wr_parent = None, wr_state = ''open'',
     wr_title = ''q'', wr_due = None, wr_priority = ''low'', wr_action = ''complete_questionnaire''\<rparr>"

lemma example_work_items: "work_items 20 1 example_tables = [example_question_row, example_policy_row]"
  by (simp add: work_items_def example_tables_def vendor_assessment_items_def access_review_items_def questionnaire_items_def
      risk_items_def trust_items_def evidence_request_items_def policy_items_def training_items_def automation_items_def
      ai_system_items_def example_policy_row_def example_question_row_def before_def not_after_def days_def left_240_def)

lemma example_ranked:
  "work_queue_query (\<lambda>_. 0) 20 1 example_tables = [(example_policy_row, 2), (example_question_row, 2)]"
  by (simp add: work_queue_query_def example_work_items urgency_def example_policy_row_def example_question_row_def)

definition example_page :: work_queue_response where
  "example_page = \<lparr>wq_schema_version = ''canonical.grc.work-queue.v1'', wq_tenant = 1, wq_total_matching = 2, wq_returned = 2,
     wq_truncated = False, wq_items = [work_item_of example_grc example_policy_row, work_item_of example_grc example_question_row]\<rparr>"

lemma example_response:
  "list_work_items example_grc example_grc_auth (Some (example_tables, True)) example_tenant_headers = Inr example_page"
proof -
  have query: "work_queue_query (ge_collate example_grc) (ge_now example_grc) 1 example_tables =
      [(example_policy_row, 2), (example_question_row, 2)]"
    using example_ranked by (simp add: example_grc_def)
  show ?thesis unfolding list_work_items_def example_tenant
    by (simp add: query example_page_def) (simp add: example_grc_def)
qed

theorem work_queue_isolated_witness:
  "list_work_items example_grc example_grc_auth (Some (example_tables\<lparr>policies := take 1 (policies example_tables)\<rparr>, True))
     example_tenant_headers =
   list_work_items example_grc example_grc_auth (Some (example_tables, True)) example_tenant_headers"
  by (rule work_queue_isolated [OF example_tenant]) (simp add: restrict_tenant_def example_tables_def)

theorem work_queue_page_witness:
  "\<exists>shown. wq_items example_page = map (work_item_of example_grc) shown \<and>
     sorted (map (urgency (ge_collate example_grc)) shown) \<and> length shown = 2"
proof -
  obtain shown where shown: "wq_items example_page = map (work_item_of example_grc) shown"
      "sorted (map (urgency (ge_collate example_grc)) shown)"
    using work_queue_page [OF example_response] by blast
  from shown(1) [THEN arg_cong, of length] have "length shown = 2" by (simp add: example_page_def)
  with shown show ?thesis by blast
qed

theorem overdue_shown_first_witness: "work_item_of example_grc example_policy_row \<in> set (wq_items example_page)"
  by (rule overdue_shown_first [OF example_response, of "work_item_of example_grc example_question_row"])
     (simp_all add: example_page_def work_item_of_def example_question_row_def example_policy_row_def before_def
       example_work_items [unfolded example_question_row_def example_policy_row_def] example_grc_def)

end
