(* ===== verification/Capabilities.thy ===== *)
theory Capabilities
  imports Envelope Observations
begin

text \<open>
  The compliance capability catalogue (\<open>src/grc.rs\<close>), the routes \<open>src/main.rs\<close> merges into one server, and how the
  catalogue relates to the tables the action queue (\<open>Work_Queue\<close>) reads and to the paths the server answers.
\<close>

section \<open>The catalogue\<close>

record grc_capability =
  gc_key :: string
  gc_api_path :: string
  gc_app_path :: string
  gc_persistence_tables :: "string list"
  gc_continuous_monitoring :: bool
  gc_evidence_provenance :: bool
  gc_human_approval :: bool

abbreviation capability ::
    "string \<Rightarrow> string \<Rightarrow> string \<Rightarrow> string list \<Rightarrow> bool \<Rightarrow> bool \<Rightarrow> bool \<Rightarrow> grc_capability" where
  "capability key api app tables monitoring provenance approval \<equiv>
     \<lparr>gc_key = key, gc_api_path = api, gc_app_path = app, gc_persistence_tables = tables,
      gc_continuous_monitoring = monitoring, gc_evidence_provenance = provenance, gc_human_approval = approval\<rparr>"

definition CAPABILITIES :: "grc_capability list" where
  "CAPABILITIES = [
     capability ''controls_evidence'' ''/v1/grc/controls'' ''/app/compliance/controls''
        [''control_implementations'', ''control_exceptions'', ''control_tests'', ''control_test_runs'',
         ''evidence_records'', ''evidence_control_links'']
        True True True,
     capability ''framework_crosswalks'' ''/v1/grc/frameworks'' ''/app/compliance/frameworks''
        [''framework_releases'', ''control_references'', ''audit_engagement_frameworks'',
         ''framework_coverage_snapshots'']
        True True True,
     capability ''policies_people_training'' ''/v1/grc/policies'' ''/app/compliance/policies''
        [''policies'', ''policy_versions'', ''policy_acknowledgements'', ''personnel_records'', ''training_courses'',
         ''training_assignments'']
        True True True,
     capability ''risk_management'' ''/v1/grc/risks'' ''/app/compliance/risks''
        [''risks'', ''risk_controls'', ''risk_treatments'']
        True True True,
     capability ''asset_vulnerability'' ''/v1/grc/assets'' ''/app/compliance/assets''
        [''assets'', ''asset_relationships'', ''vulnerabilities'']
        True True False,
     capability ''vendor_risk'' ''/v1/grc/vendors'' ''/app/compliance/vendors''
        [''vendors'', ''vendor_assessments'', ''vendor_assessment_evidence'', ''vendor_monitor_events'']
        True True True,
     capability ''access_reviews'' ''/v1/grc/access-reviews'' ''/app/compliance/access-reviews''
        [''access_review_campaigns'', ''access_review_items'']
        True True True,
     capability ''audit_collaboration'' ''/v1/grc/audits'' ''/app/compliance/audits''
        [''audit_engagements'', ''audit_phases'', ''audit_evidence_requests'', ''audit_evidence_request_items'',
         ''findings'', ''recommendations'']
        False True True,
     capability ''trust_center'' ''/v1/grc/trust-centers'' ''/app/compliance/trust-center''
        [''trust_centers'', ''trust_center_resources'', ''trust_center_access_requests'']
        True True True,
     capability ''security_questionnaires'' ''/v1/grc/questionnaires'' ''/app/compliance/questionnaires''
        [''security_questionnaires'', ''security_questionnaire_questions'', ''security_questionnaire_answers'',
         ''questionnaire_answer_sources'', ''knowledge_base_entries'']
        False True True,
     capability ''integrations_automation'' ''/v1/grc/automations'' ''/app/compliance/automations''
        [''integration_connections'', ''connection_permission_snapshots'', ''automation_jobs'', ''automation_runs'']
        True True False,
     capability ''ai_governance'' ''/v1/grc/ai-systems'' ''/app/compliance/ai-governance''
        [''ai_systems'', ''ai_system_controls'', ''ai_monitor_events'']
        True True True,
     capability ''commercial_entitlements'' ''/v1/grc/subscription'' ''/app/compliance/subscription''
        [''commercial_plan_catalog'', ''commercial_plan_features'', ''tenant_subscriptions'']
        False True False
]"

text \<open>The answer of \<open>capabilities\<close>: the schema version and the catalogue.\<close>

definition capability_catalog :: "nat \<times> grc_capability list" where
  "capability_catalog = (1, CAPABILITIES)"


section \<open>Routes\<close>

text \<open>The tables the work queue reads.\<close>

definition work_queue_tables :: "string list" where
  "work_queue_tables =
     [''vendor_assessments'', ''vendors'', ''access_review_items'', ''access_review_campaigns'', ''security_questionnaires'',
      ''risks'', ''risk_treatments'', ''trust_center_access_requests'', ''audit_evidence_requests'', ''policies'',
      ''training_assignments'', ''training_courses'', ''automation_runs'', ''automation_jobs'', ''ai_systems'']"

definition grc_route :: "string list \<Rightarrow> bool" where
  "grc_route path \<longleftrightarrow>
     path = [''v1'', ''grc'', ''capabilities''] \<or> path = [''api'', ''v1'', ''grc'', ''capabilities'']"

definition rpc_http_route :: "string list \<Rightarrow> bool" where
  "rpc_http_route path \<longleftrightarrow> path \<in> {[''v1'', ''version''], [''v1'', ''find-users''], [''v1'', ''find-user-by-id'']}"

text \<open>The routers \<open>main\<close> merges, apart from the RPC endpoint of the \<open>ores_api_docs\<close> package.\<close>

definition server_route :: "string list \<Rightarrow> bool" where
  "server_route path \<longleftrightarrow>
     (\<exists>m \<in> {GET, POST}. build_router path m \<noteq> NotFound) \<or> grc_route path \<or> rpc_http_route path \<or>
     path = [''readyz''] \<or> observation_route path \<noteq> None"

text \<open>A path as its segments.\<close>

definition segments :: "string \<Rightarrow> string list" where
  "segments path = split_on CHR ''/'' (tl path)"


section \<open>The catalogue, the queue and the routes\<close>

lemma catalogue_keys:
  "length CAPABILITIES = 13" "distinct (map gc_key CAPABILITIES)" "distinct (map gc_api_path CAPABILITIES)"
  "distinct (map gc_app_path CAPABILITIES)"
  by code_simp+

lemma catalogue_tables: "distinct (concat (map gc_persistence_tables CAPABILITIES))"
  by code_simp

lemma catalogue_roots:
  "list_all (\<lambda>c. starts_with (gc_api_path c) ''/v1/grc/'' \<and> starts_with (gc_app_path c) ''/app/compliance/'' \<and>
     gc_persistence_tables c \<noteq> []) CAPABILITIES"
  by code_simp

lemma queue_tables_listed: "list_all (\<lambda>t. t \<in> set (concat (map gc_persistence_tables CAPABILITIES))) work_queue_tables"
  by code_simp

text \<open>The catalogue is consistent: its 13 capabilities have distinct keys and distinct paths below the two roots, no table
  belongs to two capabilities, and every table the action queue reads is listed by one.\<close>

theorem catalogue_consistent:
  "length CAPABILITIES = 13 \<and> distinct (map gc_key CAPABILITIES) \<and> distinct (map gc_api_path CAPABILITIES) \<and>
   distinct (map gc_app_path CAPABILITIES) \<and> distinct (concat (map gc_persistence_tables CAPABILITIES)) \<and>
   list_all (\<lambda>c. starts_with (gc_api_path c) ''/v1/grc/'' \<and> starts_with (gc_app_path c) ''/app/compliance/'' \<and>
     gc_persistence_tables c \<noteq> []) CAPABILITIES \<and>
   list_all (\<lambda>t. t \<in> set (concat (map gc_persistence_tables CAPABILITIES))) work_queue_tables"
  by (intro conjI catalogue_keys catalogue_tables catalogue_roots queue_tables_listed)

text \<open>The catalogue advertises paths the server does not serve: none of its API paths is a route of the routers
  \<open>main\<close> merges, with the \<open>/api\<close> prefix or without.\<close>

theorem catalogue_unrouted:
  "list_all (\<lambda>c. \<not> server_route (segments (gc_api_path c)) \<and> \<not> server_route (''api'' # segments (gc_api_path c))) CAPABILITIES"
proof -
  have route: "\<not> server_route [''v1'', ''grc'', c] \<and> \<not> server_route [''api'', ''v1'', ''grc'', c]"
    if "c \<noteq> ''capabilities''" "c \<noteq> ''work-items''" for c
    using that by (simp add: server_route_def build_router_def grc_route_def rpc_http_route_def)
  define advertised where "advertised c \<longleftrightarrow>
      (\<exists>name. segments (gc_api_path c) = [''v1'', ''grc'', name] \<and> name \<noteq> ''capabilities'' \<and> name \<noteq> ''work-items'')"
    for c :: grc_capability
  have "\<not> server_route (segments (gc_api_path c)) \<and> \<not> server_route (''api'' # segments (gc_api_path c))"
    if known: "advertised c" for c
  proof -
    obtain name where name: "segments (gc_api_path c) = [''v1'', ''grc'', name]" "name \<noteq> ''capabilities''" "name \<noteq> ''work-items''"
      using known unfolding advertised_def by blast
    show ?thesis unfolding name(1) using route [OF name(2,3)] .
  qed
  moreover have "list_all advertised CAPABILITIES" by (simp add: CAPABILITIES_def segments_def advertised_def)
  ultimately show ?thesis unfolding list_all_iff by blast
qed

end
