(* ===== verification/Users.thy ===== *)
theory Users
  imports Wire
begin

text \<open>
  User lookup (\<open>src/rpc_routes/user\<close>) and the version operation (\<open>src/rpc_routes/version\<close>): the handlers, their HTTP
  projections and the generated dispatch table. The directory's answers (\<open>SharedAuthClient\<close>), the process environment and
  what the RPC runtime supplies as headers and body are arguments; the runtime itself, including its dispatcher, is not
  part of the repository. A handler returns the failures it logs, as (operation, code, trace id), beside its result.
\<close>

section \<open>Data\<close>

record user_lookup_error =
  ue_code :: string
  ue_message :: string

record user_summary =
  us_id :: string
  us_user_name :: "string option"
  us_display_name :: "string option"
  us_active :: "bool option"

record find_users_request =
  fu_query :: string
  fu_limit :: "16 word"

record 'a traced =
  tr_result :: 'a
  tr_trace_ids :: "string list"

type_synonym rpc_log = "string \<times> string \<times> string"

text \<open>What a lookup finds outside: the environment of the process at that moment (\<open>std::env::var\<close>), the client's constructor, and
  the directory's \<open>scim_list_users\<close> and \<open>scim_get_user\<close> under a bearer token.\<close>

record directory =
  dr_env :: "string \<rightharpoonup> string"
  dr_try_new :: "string \<Rightarrow> string + unit"
  dr_list :: "string \<Rightarrow> json option"
  dr_get :: "string \<Rightarrow> string \<Rightarrow> json option"

definition rpc_error :: "string \<Rightarrow> string \<Rightarrow> user_lookup_error" where
  "rpc_error code message = \<lparr>ue_code = code, ue_message = message\<rparr>"

definition prepend_trace_id :: "string \<Rightarrow> 'a traced \<Rightarrow> 'a traced" where
  "prepend_trace_id trace r = r\<lparr>tr_trace_ids := trace # tr_trace_ids r\<rparr>"


section \<open>Pieces of the handlers\<close>

definition directory_client :: "directory \<Rightarrow> user_lookup_error + unit" where
  "directory_client dir =
     result_bind (ok_or (dr_env dir ''SHARED_AUTH_BASE'') (rpc_error ''directory_not_configured'' ''SHARED_AUTH_BASE is not configured'')) (\<lambda>base.
     map_err (\<lambda>e. rpc_error ''directory_not_configured'' e) (dr_try_new dir base))"

definition user_bearer_token :: "string \<Rightarrow> user_lookup_error + string" where
  "user_bearer_token value =
     result_bind (ok_or (case strip_prefix value ''Bearer '' of
                           Some token \<Rightarrow> if token \<noteq> [] \<and> length token \<le> 8192 then Some token else None
                         | None \<Rightarrow> None)
                   (rpc_error ''authorization_required'' ''Authorization: Bearer <token> is required'')) (\<lambda>token.
     if list_ex is_whitespace (chars token) \<or> list_ex is_control (chars token)
     then Inl (rpc_error ''authorization_invalid'' ''bearer token is malformed'') else Inr token)"

definition user_summary_of :: "json \<Rightarrow> string option \<Rightarrow> user_lookup_error + user_summary" where
  "user_summary_of raw fallback =
     (case (case Option.bind (json_get raw ''id'') as_str of Some v \<Rightarrow> Some v | None \<Rightarrow> fallback) of
        Some v \<Rightarrow>
          if trim v \<noteq> []
          then Inr \<lparr>us_id = v, us_user_name = Option.bind (json_get raw ''userName'') as_str,
                    us_display_name = Option.bind (json_get raw ''displayName'') as_str,
                    us_active = Option.bind (json_get raw ''active'') as_bool\<rparr>
          else Inl (rpc_error ''directory_response_invalid'' ''SCIM user is missing id'')
      | None \<Rightarrow> Inl (rpc_error ''directory_response_invalid'' ''SCIM user is missing id''))"

definition user_matches :: "string \<Rightarrow> user_summary \<Rightarrow> bool" where
  "user_matches query s =
     list_ex (\<lambda>candidate. contains_sub (to_ascii_lowercase candidate) query)
       (List.map_filter id [Some (us_id s), us_user_name s, us_display_name s])"

fun collect_users :: "string \<Rightarrow> nat \<Rightarrow> user_summary list \<Rightarrow> json list \<Rightarrow> user_lookup_error + user_summary list" where
  "collect_users query limit results [] = Inr results"
| "collect_users query limit results (value # resources) =
     result_bind (user_summary_of value None) (\<lambda>summary.
     if user_matches query summary
     then (if limit \<le> length (results @ [summary]) then Inr (results @ [summary])
           else collect_users query limit (results @ [summary]) resources)
     else collect_users query limit results resources)"

text \<open>A fallible step whose failure the handler logs under the operation's key before it returns it. The code writes the
  logged code out at some places; it is the code of the error there too.\<close>

definition logging ::
    "string \<Rightarrow> string \<Rightarrow> user_lookup_error + 'a \<Rightarrow> ('a \<Rightarrow> rpc_log list \<times> (user_lookup_error + 'b))
     \<Rightarrow> rpc_log list \<times> (user_lookup_error + 'b)" where
  "logging key trace m f = (case m of Inl e \<Rightarrow> ([(key, ue_code e, trace)], Inl e) | Inr x \<Rightarrow> f x)"


section \<open>The operations\<close>

definition FIND_USERS_KEY :: string where "FIND_USERS_KEY = ''canonical_cloud.user.find_users''"
definition FIND_USER_BY_ID_KEY :: string where "FIND_USER_BY_ID_KEY = ''canonical_cloud.user.find_user_by_id''"
definition VERSION_KEY :: string where "VERSION_KEY = ''canonical_cloud.version.get_version''"

definition find_users ::
    "directory \<Rightarrow> string + string \<Rightarrow> string + find_users_request \<Rightarrow> rpc_log list \<times> (user_lookup_error + user_summary list traced)" where
  "find_users dir headers body =
     logging FIND_USERS_KEY ''ores-trace-tzj7oJNQM2avNZhKJXVcK'' (map_err (rpc_error ''headers_missing'') headers) (\<lambda>authorization.
     logging FIND_USERS_KEY ''ores-trace-BNIOcMqTnLKaHIulhw3sU'' (map_err (rpc_error ''body_missing'') body) (\<lambda>body.
     logging FIND_USERS_KEY ''ores-trace-QRF9Bg2esRK-VVeJCNBPh'' (user_bearer_token authorization) (\<lambda>token.
     let query = to_ascii_lowercase (trim (fu_query body)) in
     logging FIND_USERS_KEY ''ores-trace-V_i5iRASStxbqjIlWv6Ay''
       (check (query \<noteq> [] \<and> length query \<le> 256) (rpc_error ''invalid_query'' ''query must contain 1..=256 characters'')) (\<lambda>_.
     logging FIND_USERS_KEY ''ores-trace-P1JOzMmivi4GiQ8oOijNs''
       (check (1 \<le> unat (fu_limit body) \<and> unat (fu_limit body) \<le> 100)
         (rpc_error ''invalid_limit'' ''limit must be between 1 and 100'')) (\<lambda>_.
     logging FIND_USERS_KEY ''ores-trace-4sshHDTpvQNXckEtU3uAg'' (directory_client dir) (\<lambda>_.
     logging FIND_USERS_KEY ''ores-trace-O1puWJbp3phvd76AxfuPi''
       (ok_or (dr_list dir token) (rpc_error ''user_lookup_failed'' ''user directory lookup failed'')) (\<lambda>raw.
     logging FIND_USERS_KEY ''ores-trace-plBJhDgBC5ULeZvR9XxWR''
       (ok_or (Option.bind (json_get raw ''Resources'') as_array)
         (rpc_error ''directory_response_invalid'' ''user directory response is invalid'')) (\<lambda>resources.
     logging FIND_USERS_KEY ''ores-trace--93w7g_d7_t5aYxhNoY0N''
       (collect_users query (unat (fu_limit body)) [] resources) (\<lambda>results.
     ([], Inr \<lparr>tr_result = results, tr_trace_ids = [''ores-trace-canonical-users-handler-f3Qm7vN2rKs'']\<rparr>))))))))))"

definition find_user_by_id ::
    "directory \<Rightarrow> string + string \<Rightarrow> string + string \<Rightarrow> rpc_log list \<times> (user_lookup_error + user_summary traced)" where
  "find_user_by_id dir headers body =
     logging FIND_USER_BY_ID_KEY ''ores-trace-XN3gidMD78zRwqHAS4itB'' (map_err (rpc_error ''headers_missing'') headers) (\<lambda>authorization.
     logging FIND_USER_BY_ID_KEY ''ores-trace-B9q2NtXlcrnBdkfaEkYLY'' (map_err (rpc_error ''body_missing'') body) (\<lambda>body.
     logging FIND_USER_BY_ID_KEY ''ores-trace-AHaK7juQYPcAYILHfjraJ'' (user_bearer_token authorization) (\<lambda>token.
     let user_id = trim body in
     logging FIND_USER_BY_ID_KEY ''ores-trace-X0Il7xHrNBFGTJkyjeUpi''
       (check (user_id \<noteq> [] \<and> length user_id \<le> 256)
         (rpc_error ''invalid_user_id'' ''user_id must contain 1..=256 characters'')) (\<lambda>_.
     logging FIND_USER_BY_ID_KEY ''ores-trace-vfwF7NYajm1zwkp6qdFo4'' (directory_client dir) (\<lambda>_.
     logging FIND_USER_BY_ID_KEY ''ores-trace-axC5IDkLj9e8XpUFoT6nN''
       (ok_or (dr_get dir token user_id) (rpc_error ''user_lookup_failed'' ''user directory lookup failed'')) (\<lambda>raw.
     logging FIND_USER_BY_ID_KEY ''ores-trace-7WyadH5kJXJJ-K0ewD090'' (user_summary_of raw (Some user_id)) (\<lambda>summary.
     ([], Inr \<lparr>tr_result = summary, tr_trace_ids = [''ores-trace-canonical-user-handler-b7Qm3vN5rKs'']\<rparr>))))))))"

definition get_version :: "(string \<times> string) traced" where
  "get_version = \<lparr>tr_result = (''canonical-api-server'', ''0.1.0''),
     tr_trace_ids = [''ores-trace-canonical-version-handler-k8Qm4vN2rTx'']\<rparr>"


section \<open>HTTP projections and dispatch\<close>

definition request_headers :: "header_map \<Rightarrow> string" where
  "request_headers headers = (case header_str headers ''authorization'' of None \<Rightarrow> [] | Some v \<Rightarrow> v)"

text \<open>Status, body, and the \<open>cache-control\<close> header of the answer.\<close>

definition project :: "string \<Rightarrow> user_lookup_error + 'a traced \<Rightarrow> nat \<times> (user_lookup_error + 'a traced) \<times> string" where
  "project trace r =
     (case r of
        Inr output \<Rightarrow> (200, Inr (prepend_trace_id trace output), ''no-store'')
      | Inl e \<Rightarrow> (400, Inl e, ''no-store''))"

definition post_find_users ::
    "directory \<Rightarrow> header_map \<Rightarrow> find_users_request \<Rightarrow> rpc_log list \<times> nat \<times> (user_lookup_error + user_summary list traced) \<times> string" where
  "post_find_users dir headers body =
     (let (logs, r) = find_users dir (Inr (request_headers headers)) (Inr body)
      in (logs, project ''ores-trace-canonical-users-http-k5Vm2qP8sNx'' r))"

definition post_find_user_by_id ::
    "directory \<Rightarrow> header_map \<Rightarrow> string \<Rightarrow> rpc_log list \<times> nat \<times> (user_lookup_error + user_summary traced) \<times> string" where
  "post_find_user_by_id dir headers user_id =
     (let (logs, r) = find_user_by_id dir (Inr (request_headers headers)) (Inr user_id)
      in (logs, project ''ores-trace-canonical-user-http-k6Vm3qP9sNx'' r))"

definition http_get_version :: "nat \<times> (string \<times> string) traced \<times> string" where
  "http_get_version = (200, prepend_trace_id ''ores-trace-canonical-version-http-p7Xn2mR9vQs'' get_version, ''no-store'')"

text \<open>The route map and the dispatcher's cases; \<open>None\<close> is \<open>unreachable!\<close>.\<close>

definition route_map :: "(string \<times> string \<times> string \<times> string \<times> string) list" where
  "route_map =
     [(''version_get'', ''/v1/version'', ''GET'', ''canonical_cloud.version.get_version'', ''public''),
      (''user_find_users'', ''/v1/find-users'', ''POST'', ''canonical_cloud.user.find_users'', ''authenticated''),
      (''user_find_by_id'', ''/v1/find-user-by-id'', ''POST'', ''canonical_cloud.user.find_user_by_id'', ''authenticated'')]"

datatype rpc_operation = GetVersion | FindUsers | FindUserById

definition rpc_dispatch :: "string \<Rightarrow> rpc_operation option" where
  "rpc_dispatch key =
     (if key = VERSION_KEY then Some GetVersion
      else if key = FIND_USERS_KEY then Some FindUsers
      else if key = FIND_USER_BY_ID_KEY then Some FindUserById
      else None)"

lemma route_map_dispatched:
  "list_all (\<lambda>(_, _, _, key, _). rpc_dispatch key \<noteq> None) route_map \<and>
   distinct (map (\<lambda>(_, _, _, key, _). rpc_dispatch key) route_map)"
  by (simp add: route_map_def rpc_dispatch_def VERSION_KEY_def FIND_USERS_KEY_def FIND_USER_BY_ID_KEY_def)


section \<open>Every failure is logged once\<close>

text \<open>A result whose log holds its error, and nothing else.\<close>

definition logged_once :: "string \<Rightarrow> rpc_log list \<times> (user_lookup_error + 'a) \<Rightarrow> bool" where
  "logged_once key r \<longleftrightarrow>
     (case snd r of Inl e \<Rightarrow> (\<exists>trace. fst r = [(key, ue_code e, trace)]) | Inr _ \<Rightarrow> fst r = [])"

lemma logged_once_rules:
  "(\<And>x. m = Inr x \<Longrightarrow> logged_once key (f x)) \<Longrightarrow> logged_once key (logging key trace m f)"
  "logged_once key ([], Inr x)"
  by (auto simp: logged_once_def logging_def split: sum.split)

lemma logging_Inr: "snd (logging key trace m f) = Inr y \<longleftrightarrow> (\<exists>x. m = Inr x \<and> snd (f x) = Inr y)"
  by (cases m) (simp_all add: logging_def)

lemma find_users_logged: "logged_once FIND_USERS_KEY (find_users dir headers body)"
  unfolding find_users_def Let_def by (intro logged_once_rules)

lemma find_user_by_id_logged: "logged_once FIND_USER_BY_ID_KEY (find_user_by_id dir headers body)"
  unfolding find_user_by_id_def Let_def by (intro logged_once_rules)

text \<open>Failures are reported and logged consistently: a failed lookup logs exactly one record, with its operation's key and
  the code the caller is sent, and answers 400; a successful one logs nothing and answers 200, with the projection's
  trace identifier in front of the handler's; no answer may be cached.\<close>

theorem lookup_failures_logged:
  "case post_find_users dir headers body of (logs, status, r, cache) \<Rightarrow>
     cache = ''no-store'' \<and>
     (case r of
        Inl e \<Rightarrow> status = 400 \<and> (\<exists>trace. logs = [(FIND_USERS_KEY, ue_code e, trace)])
      | Inr output \<Rightarrow> status = 200 \<and> logs = [] \<and> tr_trace_ids output =
          [''ores-trace-canonical-users-http-k5Vm2qP8sNx'', ''ores-trace-canonical-users-handler-f3Qm7vN2rKs''])"
proof -
  obtain logs r where fu: "find_users dir (Inr (request_headers headers)) (Inr body) = (logs, r)" by fastforce
  have "logged_once FIND_USERS_KEY (logs, r)" using find_users_logged [of dir "Inr (request_headers headers)" "Inr body"] fu by simp
  moreover have "tr_trace_ids out = [''ores-trace-canonical-users-handler-f3Qm7vN2rKs'']" if "r = Inr out" for out
  proof -
    have "snd (find_users dir (Inr (request_headers headers)) (Inr body)) = Inr out" using fu that by simp
    then show ?thesis unfolding find_users_def Let_def logging_Inr by auto
  qed
  ultimately show ?thesis
    by (cases r) (auto simp: post_find_users_def fu project_def prepend_trace_id_def logged_once_def)
qed


section \<open>What a lookup returns\<close>

lemma collect_users_Inr:
  assumes "collect_users query limit results resources = Inr found" and "length results < limit"
  shows "\<exists>n ss. list_try (\<lambda>v. user_summary_of v None) (take n resources) = Inr ss \<and>
    found = results @ filter (user_matches query) ss \<and> length found \<le> limit \<and>
    (length resources \<le> n \<or> length found = limit)"
  using assms
proof (induction resources arbitrary: results)
  case Nil
  then show ?case by (intro exI [of _ 0]) auto
next
  case (Cons v vs)
  then obtain s where s: "user_summary_of v None = Inr s" by (auto simp: result_bind_Inr_iff)
  show ?case
  proof (cases "user_matches query s \<and> limit \<le> Suc (length results)")
    case True
    then have "found = results @ [s]" using Cons.prems(1) s by simp
    moreover have "list_try (\<lambda>v. user_summary_of v None) (take 1 (v # vs)) = Inr [s]" by (simp add: s)
    ultimately show ?thesis using True Cons.prems(2) by (intro exI [of _ 1] exI [of _ "[s]"]) simp
  next
    case False
    let ?results = "if user_matches query s then results @ [s] else results"
    have "collect_users query limit ?results vs = Inr found" and "length ?results < limit"
      using False Cons.prems s by (auto split: if_splits)
    from Cons.IH [OF this] obtain n ss where ih: "list_try (\<lambda>v. user_summary_of v None) (take n vs) = Inr ss"
        "found = ?results @ filter (user_matches query) ss" "length found \<le> limit" "length vs \<le> n \<or> length found = limit"
      by blast
    have "list_try (\<lambda>v. user_summary_of v None) (take (Suc n) (v # vs)) = Inr (s # ss)" using s ih(1) by simp
    with ih show ?thesis by (intro exI [of _ "Suc n"] exI [of _ "s # ss"]) auto
  qed
qed

text \<open>C29: a search returns the first matches in directory order: the directory was asked with exactly the caller's bearer
  token, which has no white space or control character; the results are the users among its first entries, all
  readable, whose identifier, user name or display name contains the trimmed lower-case query, at most as many as were
  asked for, and the whole directory was searched unless that many were found.\<close>

theorem find_users_first_matches:
  assumes "snd (find_users dir (Inr authorization) (Inr body)) = Inr output"
  shows "\<exists>token raw resources n ss. authorization = ''Bearer '' @ token \<and> token \<noteq> [] \<and>
    list_all (\<lambda>g. \<not> is_whitespace g \<and> \<not> is_control g) (chars token) \<and>
    dr_list dir token = Some raw \<and> json_get raw ''Resources'' = Some (JArray resources) \<and>
    list_try (\<lambda>v. user_summary_of v None) (take n resources) = Inr ss \<and>
    tr_result output = filter (user_matches (to_ascii_lowercase (trim (fu_query body)))) ss \<and>
    length (tr_result output) \<le> unat (fu_limit body) \<and>
    (length resources \<le> n \<or> length (tr_result output) = unat (fu_limit body))"
proof -
  from assms obtain token raw resources where token: "user_bearer_token authorization = Inr token"
    and limit: "1 \<le> unat (fu_limit body)" and raw: "dr_list dir token = Some raw"
    and resources: "Option.bind (json_get raw ''Resources'') as_array = Some resources"
    and found: "collect_users (to_ascii_lowercase (trim (fu_query body))) (unat (fu_limit body)) [] resources = Inr (tr_result output)"
    unfolding find_users_def Let_def logging_Inr by (auto simp: map_err_iff check_iff ok_or_iff)
  have "authorization = ''Bearer '' @ token" and "token \<noteq> []"
    and "list_all (\<lambda>g. \<not> is_whitespace g \<and> \<not> is_control g) (chars token)"
    using token by (auto simp: user_bearer_token_def result_bind_Inr_iff ok_or_iff list_ex_iff list_all_iff strip_prefix_def
        prefix_def split: option.splits if_splits)
  moreover have "json_get raw ''Resources'' = Some (JArray resources)"
    using resources by (auto simp: bind_eq_Some_conv)
  moreover obtain n ss where "list_try (\<lambda>v. user_summary_of v None) (take n resources) = Inr ss"
      "tr_result output = filter (user_matches (to_ascii_lowercase (trim (fu_query body)))) ss"
      "length (tr_result output) \<le> unat (fu_limit body)"
      "length resources \<le> n \<or> length (tr_result output) = unat (fu_limit body)"
    using collect_users_Inr [OF found, unfolded append_Nil] limit by fastforce
  ultimately show ?thesis using raw by blast
qed

text \<open>A directory with two users, for concrete instances.\<close>

definition example_directory :: directory where
  "example_directory = \<lparr>dr_env = [''SHARED_AUTH_BASE'' \<mapsto> ''base''], dr_try_new = (\<lambda>_. Inr ()),
     dr_list = (\<lambda>_. Some (JObject [(''Resources'', JArray [JObject [(''id'', JString ''u1'')],
        JObject [(''id'', JString ''u2''), (''userName'', JString ''Ann'')]])])),
     dr_get = (\<lambda>_ _. None)\<rparr>"

theorem find_users_first_matches_witness:
  "\<exists>out. snd (find_users example_directory (Inr ''Bearer tok'') (Inr \<lparr>fu_query = ''ann'', fu_limit = 5\<rparr>)) = Inr out \<and>
     length (tr_result out) \<le> 5"
proof -
  have texts: "trim ''ann'' = ''ann''" "trim ''u1'' = ''u1''" "trim ''u2'' = ''u2''"
    by (rule trim_graphic, simp add: is_ascii_graphic_def)+
  have "user_bearer_token ''Bearer tok'' = Inr ''tok''"
    by (simp add: user_bearer_token_def strip_prefix_def is_continuation_def)
  moreover have lower: "to_ascii_lowercase ''ann'' = ''ann''" by code_simp
  moreover have "\<not> user_matches ''ann'' \<lparr>us_id = ''u1'', us_user_name = None, us_display_name = None, us_active = None\<rparr>"
    and "user_matches ''ann'' \<lparr>us_id = ''u2'', us_user_name = Some ''Ann'', us_display_name = None, us_active = None\<rparr>"
    by code_simp+
  then have "collect_users ''ann'' 5 []
      [JObject [(''id'', JString ''u1'')], JObject [(''id'', JString ''u2''), (''userName'', JString ''Ann'')]] =
    Inr [\<lparr>us_id = ''u2'', us_user_name = Some ''Ann'', us_display_name = None, us_active = None\<rparr>]"
    by (simp add: user_summary_of_def json_get_def obj_get_def texts)
  ultimately obtain out where out: "snd (find_users example_directory (Inr ''Bearer tok'') (Inr \<lparr>fu_query = ''ann'', fu_limit = 5\<rparr>)) = Inr out"
    by (simp add: find_users_def Let_def logging_def directory_client_def example_directory_def json_get_def obj_get_def
        texts lower del: collect_users.simps)
  then show ?thesis using find_users_first_matches [OF out] by fastforce
qed

end
