(* ===== verification/Readiness.thy ===== *)
theory Readiness
  imports Main
begin

text \<open>
  The readiness probe (\<open>src/readiness.rs\<close>): the query over PostgreSQL's catalogs and the answer of \<open>/readyz\<close>. The catalogs
  are lists of rows with the columns the query reads; the privilege inquiry functions answer per question, with
  \<open>None\<close> when the object does not exist, which makes the query fail.
\<close>

section \<open>Catalogs\<close>

record pg_role =
  rolname :: string
  rolcanlogin :: bool
  rolsuper :: bool
  rolcreatedb :: bool
  rolcreaterole :: bool
  rolinherit :: bool
  rolreplication :: bool
  rolbypassrls :: bool

record pg_relation =
  rel_schema :: string
  relname :: string
  relkind :: char
  rel_owner :: string
  relrowsecurity :: bool
  relforcerowsecurity :: bool

record pg_policy =
  pol_schema :: string
  pol_table :: string
  policyname :: string

record pg_constraint =
  con_schema :: string
  con_table :: string
  conname :: string
  convalidated :: bool

datatype privilege =
    SchemaPrivilege string string | TablePrivilege string string | SequencePrivilege string string
  | FunctionPrivilege string string

record pg_catalog =
  pg_current_user :: string
  pg_roles :: "pg_role list"
  pg_member_of :: "string \<Rightarrow> bool"
  pg_schemas :: "string list"
  pg_relations :: "pg_relation list"
  pg_policies :: "pg_policy list"
  pg_constraints :: "pg_constraint list"
  pg_privilege :: "privilege \<Rightarrow> bool option"


section \<open>The contract\<close>

definition QUOTE_SCHEMA :: string where "QUOTE_SCHEMA = ''canonical_cloud__quote''"
definition QUOTE_RUNTIME_ROLE :: string where "QUOTE_RUNTIME_ROLE = ''canonical_cloud__quote__api_rw''"
definition QUOTE_MIGRATOR :: string where "QUOTE_MIGRATOR = ''canonical_cloud__quote__migrator''"

definition RLS_TABLES :: "string list" where
  "RLS_TABLES =
    [''canonical_context'', ''canonical_quote'', ''canonical_quote_operation'', ''canonical_quote_event'',
     ''canonical_model_attempt'', ''canonical_readiness_observation'']"

definition OWNER_POLICIES :: "string list" where
  "OWNER_POLICIES =
    [''canonical_context_owner_policy'', ''canonical_quote_owner_policy'', ''canonical_quote_operation_owner_policy'',
     ''canonical_quote_event_owner_policy'', ''canonical_model_attempt_owner_policy'',
     ''canonical_readiness_observation_owner_policy'']"

definition REQUIRED_CONSTRAINTS :: "string list" where
  "REQUIRED_CONSTRAINTS =
    [''canonical_context_json_object_check'', ''canonical_context_id_owner_unique'',
     ''canonical_quote_request_json_object_check'', ''canonical_quote_context_snapshot_json_object_check'',
     ''canonical_quote_analysis_json_object_check'', ''canonical_quote_id_owner_unique'',
     ''canonical_quote_context_owner_fk'', ''canonical_quote_operation_owner_key_pk'',
     ''canonical_quote_operation_key_check'', ''canonical_quote_operation_request_check'',
     ''canonical_quote_operation_request_json_object_check'', ''canonical_quote_operation_quote_owner_fk'',
     ''canonical_quote_event_details_json_object_check'', ''canonical_quote_event_quote_owner_fk'',
     ''canonical_model_attempt_status_finished_check'', ''canonical_model_attempt_time_order_check'',
     ''canonical_model_attempt_quote_owner_fk'', ''canonical_readiness_observation_owner_source_event_pk'',
     ''canonical_readiness_observation_owner_source_sequence_unique'',
     ''canonical_readiness_observation_receipt_id_unique'', ''canonical_readiness_observation_source_id_check'',
     ''canonical_readiness_observation_event_id_check'', ''canonical_readiness_observation_source_sequence_check'',
     ''canonical_readiness_observation_payload_sha256_check'',
     ''canonical_readiness_observation_prior_record_sha256_check'',
     ''canonical_readiness_observation_record_sha256_check'', ''canonical_readiness_observation_receipt_id_check'',
     ''canonical_readiness_observation_key_id_check'', ''canonical_readiness_observation_event_json_object_check'',
     ''canonical_readiness_observation_raw_body_octets_check'',
     ''canonical_readiness_observation_transport_verification_check'',
     ''canonical_readiness_observation_substantive_review_check'']"

definition REQUIRED_INDEXES :: "string list" where
  "REQUIRED_INDEXES =
    [''canonical_context_owner_active_idx'', ''canonical_context_one_active_per_owner_idx'',
     ''canonical_quote_owner_created_idx'', ''canonical_quote_operation_quote_created_idx'',
     ''canonical_quote_event_quote_sequence_idx'', ''canonical_model_attempt_quote_started_idx'',
     ''canonical_readiness_observation_owner_received_idx'']"

definition RUNTIME_PRIVILEGES :: "(privilege \<times> bool) list" where
  "RUNTIME_PRIVILEGES =
    [(SchemaPrivilege ''canonical_cloud__quote'' ''USAGE'', True),
     (SchemaPrivilege ''canonical_cloud__quote'' ''CREATE'', False), (SchemaPrivilege ''public'' ''CREATE'', False),
     (TablePrivilege ''canonical_cloud__quote.canonical_context'' ''SELECT'', True),
     (TablePrivilege ''canonical_cloud__quote.canonical_context'' ''INSERT'', True),
     (TablePrivilege ''canonical_cloud__quote.canonical_context'' ''UPDATE'', True),
     (TablePrivilege ''canonical_cloud__quote.canonical_context'' ''DELETE'', False),
     (TablePrivilege ''canonical_cloud__quote.canonical_context'' ''TRUNCATE'', False),
     (TablePrivilege ''canonical_cloud__quote.canonical_quote'' ''SELECT'', True),
     (TablePrivilege ''canonical_cloud__quote.canonical_quote'' ''INSERT'', True),
     (TablePrivilege ''canonical_cloud__quote.canonical_quote'' ''UPDATE'', True),
     (TablePrivilege ''canonical_cloud__quote.canonical_quote'' ''DELETE'', False),
     (TablePrivilege ''canonical_cloud__quote.canonical_quote'' ''TRUNCATE'', False),
     (TablePrivilege ''canonical_cloud__quote.canonical_quote_operation'' ''SELECT'', True),
     (TablePrivilege ''canonical_cloud__quote.canonical_quote_operation'' ''INSERT'', True),
     (TablePrivilege ''canonical_cloud__quote.canonical_quote_operation'' ''UPDATE'', False),
     (TablePrivilege ''canonical_cloud__quote.canonical_quote_operation'' ''DELETE'', False),
     (TablePrivilege ''canonical_cloud__quote.canonical_quote_operation'' ''TRUNCATE'', False),
     (TablePrivilege ''canonical_cloud__quote.canonical_quote_event'' ''SELECT'', True),
     (TablePrivilege ''canonical_cloud__quote.canonical_quote_event'' ''INSERT'', True),
     (TablePrivilege ''canonical_cloud__quote.canonical_quote_event'' ''UPDATE'', False),
     (TablePrivilege ''canonical_cloud__quote.canonical_quote_event'' ''DELETE'', False),
     (TablePrivilege ''canonical_cloud__quote.canonical_quote_event'' ''TRUNCATE'', False),
     (TablePrivilege ''canonical_cloud__quote.canonical_model_attempt'' ''SELECT'', True),
     (TablePrivilege ''canonical_cloud__quote.canonical_model_attempt'' ''INSERT'', True),
     (TablePrivilege ''canonical_cloud__quote.canonical_model_attempt'' ''UPDATE'', True),
     (TablePrivilege ''canonical_cloud__quote.canonical_model_attempt'' ''DELETE'', False),
     (TablePrivilege ''canonical_cloud__quote.canonical_model_attempt'' ''TRUNCATE'', False),
     (TablePrivilege ''canonical_cloud__quote.canonical_readiness_observation'' ''SELECT'', True),
     (TablePrivilege ''canonical_cloud__quote.canonical_readiness_observation'' ''INSERT'', True),
     (TablePrivilege ''canonical_cloud__quote.canonical_readiness_observation'' ''UPDATE'', False),
     (TablePrivilege ''canonical_cloud__quote.canonical_readiness_observation'' ''DELETE'', False),
     (TablePrivilege ''canonical_cloud__quote.canonical_readiness_observation'' ''TRUNCATE'', False),
     (SequencePrivilege ''canonical_cloud__quote.canonical_quote_event_sequence_id_seq'' ''USAGE'', True),
     (FunctionPrivilege ''canonical_cloud__quote.canonical_set_updated_at()'' ''EXECUTE'', True)]"


section \<open>The query\<close>

definition runtime_role :: "pg_catalog \<Rightarrow> bool" where
  "runtime_role db =
     (case filter (\<lambda>r. rolname r = pg_current_user db) (pg_roles db) of
        [r] \<Rightarrow> rolname r = QUOTE_RUNTIME_ROLE \<and> rolcanlogin r \<and> \<not> rolsuper r \<and> \<not> rolcreatedb r \<and> \<not> rolcreaterole r \<and>
               \<not> rolinherit r \<and> \<not> rolreplication r \<and> \<not> rolbypassrls r \<and> \<not> pg_member_of db QUOTE_MIGRATOR
      | _ \<Rightarrow> False)"

definition search_path_contract :: "pg_catalog \<Rightarrow> bool" where
  "search_path_contract db \<longleftrightarrow> pg_schemas db = [''pg_catalog'', QUOTE_SCHEMA]"

definition object_ownership :: "pg_catalog \<Rightarrow> bool" where
  "object_ownership db \<longleftrightarrow>
     length (filter (\<lambda>r. rel_schema r = QUOTE_SCHEMA \<and> relkind r \<in> {CHR ''r'', CHR ''p'', CHR ''S''} \<and>
       rel_owner r = QUOTE_MIGRATOR) (pg_relations db)) = 7"

definition rls_enforced :: "pg_relation \<Rightarrow> bool" where
  "rls_enforced r \<longleftrightarrow>
     rel_schema r = QUOTE_SCHEMA \<and> relname r \<in> set RLS_TABLES \<and> relkind r \<in> {CHR ''r'', CHR ''p''} \<and>
     relrowsecurity r \<and> relforcerowsecurity r"

definition rls_tables :: "pg_catalog \<Rightarrow> bool" where
  "rls_tables db \<longleftrightarrow> length (filter rls_enforced (pg_relations db)) = 6"

definition owner_policies :: "pg_catalog \<Rightarrow> bool" where
  "owner_policies db \<longleftrightarrow>
     length (filter (\<lambda>p. pol_schema p = QUOTE_SCHEMA \<and> policyname p \<in> set OWNER_POLICIES) (pg_policies db)) = 6"

definition required_constraints :: "pg_catalog \<Rightarrow> bool" where
  "required_constraints db \<longleftrightarrow>
     length (filter (\<lambda>c. con_schema c = QUOTE_SCHEMA \<and> conname c \<in> set REQUIRED_CONSTRAINTS \<and> convalidated c)
       (pg_constraints db)) = 32"

definition required_indexes :: "pg_catalog \<Rightarrow> bool" where
  "required_indexes db \<longleftrightarrow>
     list_all (\<lambda>i. list_ex (\<lambda>r. rel_schema r = QUOTE_SCHEMA \<and> relname r = i) (pg_relations db)) REQUIRED_INDEXES"

definition runtime_privileges :: "pg_catalog \<Rightarrow> bool option" where
  "runtime_privileges db =
     (if list_ex (\<lambda>(q, _). pg_privilege db q = None) RUNTIME_PRIVILEGES then None
      else Some (list_all (\<lambda>(q, expected). pg_privilege db q = Some expected) RUNTIME_PRIVILEGES))"

definition readiness_query :: "pg_catalog \<Rightarrow> bool option" where
  "readiness_query db =
     (case runtime_privileges db of
        None \<Rightarrow> None
      | Some privileges \<Rightarrow>
          Some (runtime_role db \<and> search_path_contract db \<and> object_ownership db \<and> rls_tables db \<and> owner_policies db \<and>
                required_constraints db \<and> required_indexes db \<and> privileges))"


section \<open>The answer\<close>

text \<open>The configured database: whether it is PostgreSQL and what a query sees, \<open>None\<close> when it cannot be reached.\<close>

definition check_database :: "bool \<times> pg_catalog option \<Rightarrow> bool" where
  "check_database d =
     (case d of (postgres, seen) \<Rightarrow>
        postgres \<and> (case seen of None \<Rightarrow> False | Some db \<Rightarrow> readiness_query db = Some True))"

datatype readiness_answer = Ready | NotReady string string

definition readiness :: "(bool \<times> pg_catalog option) option \<Rightarrow> nat \<times> readiness_answer" where
  "readiness database =
     (case database of
        None \<Rightarrow> (503, NotReady ''database_not_configured''
                        ''PostgreSQL is required before the Canonical quote API can receive traffic'')
      | Some d \<Rightarrow>
          if check_database d then (200, Ready)
          else (503, NotReady ''database_not_ready''
                       ''PostgreSQL is reachable but the quote/readiness schema or runtime role is not ready''))"


section \<open>What a ready answer means\<close>

text \<open>Documented behaviour of PostgreSQL: role names are unique, and so are relation names within a schema.\<close>

definition unique_names :: "pg_catalog \<Rightarrow> bool" where
  "unique_names db \<longleftrightarrow>
     distinct (map rolname (pg_roles db)) \<and> distinct (map (\<lambda>r. (rel_schema r, relname r)) (pg_relations db))"

text \<open>Counting distinct keys within a list of names finds all of them.\<close>

lemma counted_names:
  assumes "length (filter P xs) = length names" and "distinct (map f (filter P xs))"
    and "\<And>x. P x \<Longrightarrow> f x \<in> set names" and "n \<in> set names"
  shows "\<exists>x \<in> set xs. P x \<and> f x = n"
proof -
  have "f ` set (filter P xs) \<subseteq> set names" using assms(3) by auto
  moreover have "card (f ` set (filter P xs)) = length names"
    using assms(1,2) by (metis distinct_card length_map list.set_map)
  ultimately have "f ` set (filter P xs) = set names"
    using card_length [of names] by (metis card_seteq finite_set)
  then have "n \<in> f ` set (filter P xs)" using assms(4) by simp
  then show ?thesis by auto
qed

lemma ready_query:
  "fst (readiness (Some (True, Some db))) = 200 \<longleftrightarrow>
     runtime_role db \<and> search_path_contract db \<and> object_ownership db \<and> rls_tables db \<and> owner_policies db \<and>
     required_constraints db \<and> required_indexes db \<and> runtime_privileges db = Some True"
  by (auto simp: readiness_def check_database_def readiness_query_def split: option.split)

lemma rls_tables_complete:
  assumes "rls_tables db" and "unique_names db" and "t \<in> set RLS_TABLES"
  shows "\<exists>r \<in> set (pg_relations db). rls_enforced r \<and> relname r = t"
proof -
  have "length RLS_TABLES = 6" by (simp add: RLS_TABLES_def)
  then have "length (filter rls_enforced (pg_relations db)) = length RLS_TABLES"
    using assms(1) by (simp add: rls_tables_def)
  moreover have "distinct (map relname (filter rls_enforced (pg_relations db)))"
  proof -
    let ?L = "filter rls_enforced (pg_relations db)"
    have "distinct (map (\<lambda>r. (rel_schema r, relname r)) ?L)"
      using assms(2) by (simp add: unique_names_def distinct_map_filter)
    then have "inj_on (\<lambda>r. (rel_schema r, relname r)) (set ?L)" and "distinct ?L" by (simp_all add: distinct_map)
    then show ?thesis by (auto simp: distinct_map inj_on_def rls_enforced_def)
  qed
  moreover have "rls_enforced r \<Longrightarrow> relname r \<in> set RLS_TABLES" for r by (simp add: rls_enforced_def)
  ultimately show ?thesis using counted_names [of rls_enforced "pg_relations db" RLS_TABLES relname t] assms(3) by blast
qed

lemma privileges_cover:
  "list_all (\<lambda>t. (TablePrivilege (QUOTE_SCHEMA @ ''.'' @ t) ''DELETE'', False) \<in> set RUNTIME_PRIVILEGES \<and>
     (TablePrivilege (QUOTE_SCHEMA @ ''.'' @ t) ''TRUNCATE'', False) \<in> set RUNTIME_PRIVILEGES) RLS_TABLES"
  "list_all (\<lambda>t. (TablePrivilege (QUOTE_SCHEMA @ ''.'' @ t) ''UPDATE'', False) \<in> set RUNTIME_PRIVILEGES)
     [''canonical_quote_operation'', ''canonical_quote_event'', ''canonical_readiness_observation'']"
  by code_simp+

text \<open>C28: a ready database confines the server: when \<open>/readyz\<close> answers 200, the session runs as the runtime role, which is no
  superuser, cannot bypass row-level security and is no member of the migrator; each of the six tables exists with
  row-level security on and forced; and the role holds exactly the listed privileges, in particular it can neither delete
  from nor truncate any of the tables, nor update operations, events or observations.\<close>

theorem ready_confines_server:
  assumes "fst (readiness (Some (True, Some db))) = 200" and "unique_names db" and "t \<in> set RLS_TABLES"
  shows "(\<exists>r \<in> set (pg_roles db). rolname r = pg_current_user db \<and> rolname r = QUOTE_RUNTIME_ROLE \<and> \<not> rolsuper r \<and>
      \<not> rolbypassrls r \<and> \<not> pg_member_of db QUOTE_MIGRATOR) \<and>
    (\<exists>r \<in> set (pg_relations db). rel_schema r = QUOTE_SCHEMA \<and> relname r = t \<and> relrowsecurity r \<and> relforcerowsecurity r) \<and>
    pg_privilege db (TablePrivilege (QUOTE_SCHEMA @ ''.'' @ t) ''DELETE'') = Some False \<and>
    pg_privilege db (TablePrivilege (QUOTE_SCHEMA @ ''.'' @ t) ''TRUNCATE'') = Some False \<and>
    (t \<in> {''canonical_quote_operation'', ''canonical_quote_event'', ''canonical_readiness_observation''} \<longrightarrow>
       pg_privilege db (TablePrivilege (QUOTE_SCHEMA @ ''.'' @ t) ''UPDATE'') = Some False)"
proof -
  have ok: "runtime_role db" "rls_tables db" "runtime_privileges db = Some True"
    using assms(1) unfolding ready_query by blast+
  obtain r where r: "filter (\<lambda>r. rolname r = pg_current_user db) (pg_roles db) = [r]"
    and role: "rolname r = QUOTE_RUNTIME_ROLE" "\<not> rolsuper r" "\<not> rolbypassrls r" "\<not> pg_member_of db QUOTE_MIGRATOR"
    using ok(1) by (auto simp: runtime_role_def split: list.splits)
  have "r \<in> set (filter (\<lambda>r. rolname r = pg_current_user db) (pg_roles db))" unfolding r by simp
  then have "r \<in> set (pg_roles db)" "rolname r = pg_current_user db" by simp_all
  moreover have privileges: "pg_privilege db q = Some expected" if "(q, expected) \<in> set RUNTIME_PRIVILEGES" for q expected
    using ok(3) that by (auto simp: runtime_privileges_def list_all_iff split: if_splits)
  have "(TablePrivilege (QUOTE_SCHEMA @ ''.'' @ t) ''DELETE'', False) \<in> set RUNTIME_PRIVILEGES"
    "(TablePrivilege (QUOTE_SCHEMA @ ''.'' @ t) ''TRUNCATE'', False) \<in> set RUNTIME_PRIVILEGES"
    using privileges_cover(1) [unfolded list_all_iff, THEN bspec, OF assms(3)] by simp_all
  moreover have "(TablePrivilege (QUOTE_SCHEMA @ ''.'' @ t) ''UPDATE'', False) \<in> set RUNTIME_PRIVILEGES"
    if "t \<in> {''canonical_quote_operation'', ''canonical_quote_event'', ''canonical_readiness_observation''}"
    using privileges_cover(2) [unfolded list_all_iff list.set, THEN bspec, OF that] .
  moreover obtain rel where "rel \<in> set (pg_relations db)" "rls_enforced rel" "relname rel = t"
    using rls_tables_complete [OF ok(2) assms(2,3)] by blast
  ultimately show ?thesis using role privileges unfolding rls_enforced_def by blast
qed

text \<open>A catalog that satisfies the contract.\<close>

definition example_catalog :: pg_catalog where
  "example_catalog =
     \<lparr>pg_current_user = QUOTE_RUNTIME_ROLE,
      pg_roles = [\<lparr>rolname = QUOTE_RUNTIME_ROLE, rolcanlogin = True, rolsuper = False, rolcreatedb = False, rolcreaterole = False,
        rolinherit = False, rolreplication = False, rolbypassrls = False\<rparr>],
      pg_member_of = (\<lambda>_. False), pg_schemas = [''pg_catalog'', QUOTE_SCHEMA],
      pg_relations =
        map (\<lambda>t. \<lparr>rel_schema = QUOTE_SCHEMA, relname = t, relkind = CHR ''r'', rel_owner = QUOTE_MIGRATOR,
          relrowsecurity = True, relforcerowsecurity = True\<rparr>) RLS_TABLES @
        [\<lparr>rel_schema = QUOTE_SCHEMA, relname = ''canonical_quote_event_sequence_id_seq'', relkind = CHR ''S'',
          rel_owner = QUOTE_MIGRATOR, relrowsecurity = False, relforcerowsecurity = False\<rparr>] @
        map (\<lambda>i. \<lparr>rel_schema = QUOTE_SCHEMA, relname = i, relkind = CHR ''i'', rel_owner = QUOTE_MIGRATOR,
          relrowsecurity = False, relforcerowsecurity = False\<rparr>) REQUIRED_INDEXES,
      pg_policies = map (\<lambda>(t, p). \<lparr>pol_schema = QUOTE_SCHEMA, pol_table = t, policyname = p\<rparr>) (zip RLS_TABLES OWNER_POLICIES),
      pg_constraints = map (\<lambda>c. \<lparr>con_schema = QUOTE_SCHEMA, con_table = ''t'', conname = c, convalidated = True\<rparr>) REQUIRED_CONSTRAINTS,
      pg_privilege = map_of RUNTIME_PRIVILEGES\<rparr>"

lemma example_catalog_parts:
  "runtime_role example_catalog" "search_path_contract example_catalog" "object_ownership example_catalog"
  "rls_tables example_catalog" "owner_policies example_catalog" "required_indexes example_catalog"
  by code_simp+

lemma example_catalog_constraints: "required_constraints example_catalog"
  by code_simp

lemma example_catalog_privileges: "runtime_privileges example_catalog = Some True"
  by code_simp

lemma example_catalog_ready: "fst (readiness (Some (True, Some example_catalog))) = 200"
  unfolding ready_query by (intro conjI example_catalog_parts example_catalog_constraints example_catalog_privileges)

lemma example_catalog_names: "unique_names example_catalog"
  by code_simp

theorem ready_confines_server_witness:
  "pg_privilege example_catalog (TablePrivilege (QUOTE_SCHEMA @ ''.'' @ ''canonical_quote'') ''DELETE'') = Some False"
  using ready_confines_server [OF example_catalog_ready example_catalog_names, of "''canonical_quote''"]
  by (simp add: RLS_TABLES_def)


section \<open>What a ready answer does not mean\<close>

text \<open>The same catalog, with the policy of the quotes missing and the policy name of the contexts used for a second table.\<close>

definition unprotected_catalog :: pg_catalog where
  "unprotected_catalog = example_catalog\<lparr>pg_policies :=
     map (\<lambda>(t, p). \<lparr>pol_schema = QUOTE_SCHEMA, pol_table = t, policyname = p\<rparr>)
       (zip (''canonical_quote_event'' # removeAll ''canonical_quote'' RLS_TABLES)
         (''canonical_context_owner_policy'' # removeAll ''canonical_quote_owner_policy'' OWNER_POLICIES))\<rparr>"

lemma unprotected_parts: "owner_policies unprotected_catalog" "unique_names unprotected_catalog"
  "distinct (map (\<lambda>p. (pol_schema p, pol_table p, policyname p)) (pg_policies unprotected_catalog))"
  "filter (\<lambda>p. pol_table p = ''canonical_quote'') (pg_policies unprotected_catalog) = []"
  by code_simp+

lemma policies_irrelevant:
  "runtime_role (db\<lparr>pg_policies := ps\<rparr>) = runtime_role db"
  "search_path_contract (db\<lparr>pg_policies := ps\<rparr>) = search_path_contract db"
  "object_ownership (db\<lparr>pg_policies := ps\<rparr>) = object_ownership db"
  "rls_tables (db\<lparr>pg_policies := ps\<rparr>) = rls_tables db"
  "required_constraints (db\<lparr>pg_policies := ps\<rparr>) = required_constraints db"
  "required_indexes (db\<lparr>pg_policies := ps\<rparr>) = required_indexes db"
  "runtime_privileges (db\<lparr>pg_policies := ps\<rparr>) = runtime_privileges db"
  by (simp_all add: runtime_role_def search_path_contract_def object_ownership_def rls_tables_def required_constraints_def
      required_indexes_def runtime_privileges_def cong: list.case_cong)

lemma unprotected_ready: "fst (readiness (Some (True, Some unprotected_catalog))) = 200"
proof -
  have "runtime_role unprotected_catalog \<and> search_path_contract unprotected_catalog \<and> object_ownership unprotected_catalog \<and>
      rls_tables unprotected_catalog \<and> required_constraints unprotected_catalog \<and> required_indexes unprotected_catalog \<and>
      runtime_privileges unprotected_catalog = Some True"
    unfolding unprotected_catalog_def policies_irrelevant
    using example_catalog_parts example_catalog_constraints example_catalog_privileges by blast
  with unprotected_parts(1) show ?thesis unfolding ready_query by blast
qed

text \<open>Counting policies by name is not enough: a policy name is unique per table only, so there is a catalog, with all names
  unique as PostgreSQL keeps them, for which \<open>/readyz\<close> answers 200 although the table of quotes has no owner policy.\<close>

theorem ready_without_policy:
  "\<exists>db. unique_names db \<and> distinct (map (\<lambda>p. (pol_schema p, pol_table p, policyname p)) (pg_policies db)) \<and>
     fst (readiness (Some (True, Some db))) = 200 \<and> filter (\<lambda>p. pol_table p = ''canonical_quote'') (pg_policies db) = []"
  using unprotected_parts unprotected_ready by blast

end
