(* ===== verification/Analysis_Schema.thy ===== *)
theory Analysis_Schema
  imports Gemini
begin

text \<open>
  The response schema the model is given (\<open>analysis_schema\<close> in \<open>src/gemini.rs\<close>) against the validation of what it
  returns. Both object schemas of the source require exactly their properties and admit no others, which is what
  \<open>SObject\<close> says; \<open>conforms\<close> is the JSON Schema meaning of the keywords used.
\<close>

section \<open>The schema\<close>

datatype shape = SString "string list option" | SInteger nat | SArray shape | SObject "(string \<times> shape) list"

fun schema_json :: "shape \<Rightarrow> json" where
  "schema_json (SString None) = JObject [(''type'', JString ''string'')]"
| "schema_json (SString (Some names)) = JObject [(''type'', JString ''string''), (''enum'', JArray (map JString names))]"
| "schema_json (SInteger m) = JObject [(''type'', JString ''integer''), (''minimum'', JNumber (PosInt (of_nat m)))]"
| "schema_json (SArray s) = JObject [(''type'', JString ''array''), (''items'', schema_json s)]"
| "schema_json (SObject ps) =
     JObject [(''type'', JString ''object''), (''additionalProperties'', JBool False),
       (''properties'', JObject (map (\<lambda>(n, s). (n, schema_json s)) ps)), (''required'', JArray (map (\<lambda>(n, _). JString n) ps))]"

definition service_shape :: shape where
  "service_shape = SObject
     [(''framework'', SString None), (''phase'', SString None), (''scope'', SString None),
      (''estimated_weeks_low'', SInteger 1), (''estimated_weeks_high'', SInteger 1),
      (''estimated_fee_low'', SInteger 0), (''estimated_fee_high'', SInteger 0),
      (''confidence'', SString (Some [''low'', ''medium'', ''high''])), (''rationale'', SString None)]"

definition analysis_shape :: shape where
  "analysis_shape = SObject
     [(''summary'', SString None), (''currency'', SString (Some [''USD''])),
      (''estimated_total_fee_low'', SInteger 0), (''estimated_total_fee_high'', SInteger 0),
      (''estimated_total_weeks_low'', SInteger 1), (''estimated_total_weeks_high'', SInteger 1),
      (''recommended_services'', SArray service_shape), (''assumptions'', SArray (SString None)),
      (''risks'', SArray (SString None)), (''missing_information'', SArray (SString None)), (''disclaimer'', SString None)]"

definition analysis_schema :: json where
  "analysis_schema = schema_json analysis_shape"

text \<open>An integer of \<open>serde_json\<close> that is at least a minimum of zero or one is a \<open>u64\<close>.\<close>

fun conforms :: "shape \<Rightarrow> json \<Rightarrow> bool" where
  "conforms (SString names) (JString s) = (case names of None \<Rightarrow> True | Some ns \<Rightarrow> s \<in> set ns)"
| "conforms (SInteger m) (JNumber (PosInt n)) = (m \<le> unat n)"
| "conforms (SArray s) (JArray vs) = list_all (conforms s) vs"
| "conforms (SObject ps) (JObject kvs) =
     (list_all (\<lambda>(n, _). n \<in> set (map fst ps)) kvs \<and>
      list_all (\<lambda>(n, s). case obj_get kvs n of None \<Rightarrow> False | Some v \<Rightarrow> conforms s v) ps)"
| "conforms _ _ = False"


section \<open>The schema and the validation\<close>

lemma conforms_string: "conforms (SString None) v \<longleftrightarrow> (\<exists>s. v = JString s)"
  by (cases v) auto

lemma conforms_choice: "conforms (SString (Some names)) v \<longleftrightarrow> (\<exists>s. v = JString s \<and> s \<in> set names)"
  by (cases v) auto

lemma conforms_integer: "conforms (SInteger m) v \<longleftrightarrow> (\<exists>n. v = JNumber (PosInt n) \<and> m \<le> unat n)"
  by (cases "(SInteger m, v)" rule: conforms.cases) auto

lemma conforms_array: "conforms (SArray s) v \<longleftrightarrow> (\<exists>vs. v = JArray vs \<and> list_all (conforms s) vs)"
  by (cases v) auto

lemma conforms_object:
  "conforms (SObject ps) v \<longleftrightarrow> (\<exists>kvs. v = JObject kvs \<and> list_all (\<lambda>(n, _). n \<in> set (map fst ps)) kvs \<and>
     list_all (\<lambda>(n, s). \<exists>x. obj_get kvs n = Some x \<and> conforms s x) ps)"
  by (cases v) (auto simp: list_all_iff split: option.splits)

lemmas conforms_iff = conforms_string conforms_choice conforms_integer conforms_array

lemma conforming_fields:
  assumes "conforms analysis_shape a"
  obtains obj summary disclaimer fl fh wl wh services assumptions risks missing where "a = JObject obj"
    "obj_get obj ''summary'' = Some (JString summary)" "obj_get obj ''currency'' = Some (JString ''USD'')"
    "obj_get obj ''disclaimer'' = Some (JString disclaimer)"
    "obj_get obj ''estimated_total_fee_low'' = Some (JNumber (PosInt fl))"
    "obj_get obj ''estimated_total_fee_high'' = Some (JNumber (PosInt fh))"
    "obj_get obj ''estimated_total_weeks_low'' = Some (JNumber (PosInt wl))" "1 \<le> unat wl"
    "obj_get obj ''estimated_total_weeks_high'' = Some (JNumber (PosInt wh))"
    "obj_get obj ''recommended_services'' = Some (JArray services)" "obj_get obj ''assumptions'' = Some (JArray assumptions)"
    "obj_get obj ''risks'' = Some (JArray risks)" "obj_get obj ''missing_information'' = Some (JArray missing)"
proof -
  obtain obj where a: "a = JObject obj"
    and fields: "list_all (\<lambda>(n, s). \<exists>x. obj_get obj n = Some x \<and> conforms s x)
     [(''summary'', SString None), (''currency'', SString (Some [''USD''])),
      (''estimated_total_fee_low'', SInteger 0), (''estimated_total_fee_high'', SInteger 0),
      (''estimated_total_weeks_low'', SInteger 1), (''estimated_total_weeks_high'', SInteger 1),
      (''recommended_services'', SArray service_shape), (''assumptions'', SArray (SString None)),
      (''risks'', SArray (SString None)), (''missing_information'', SArray (SString None)), (''disclaimer'', SString None)]"
    using assms unfolding analysis_shape_def conforms_object by blast
  show thesis
    using fields unfolding list.pred_inject prod.case conforms_iff
    by (elim conjE exE) (rule that [OF a]; simp)
qed

text \<open>What the schema leaves to the validation: an analysis that conforms to it is accepted exactly if its summary and
  disclaimer are not empty, the fees and the weeks are ordered. In particular the validation never refuses a conforming
  analysis for a missing field or a wrong type.\<close>

theorem schema_leaves_ordering:
  assumes "conforms analysis_shape a"
  shows "\<exists>obj summary disclaimer fl fh wl wh. a = JObject obj \<and>
    obj_get obj ''summary'' = Some (JString summary) \<and> obj_get obj ''disclaimer'' = Some (JString disclaimer) \<and>
    obj_get obj ''estimated_total_fee_low'' = Some (JNumber (PosInt fl)) \<and>
    obj_get obj ''estimated_total_fee_high'' = Some (JNumber (PosInt fh)) \<and>
    obj_get obj ''estimated_total_weeks_low'' = Some (JNumber (PosInt wl)) \<and>
    obj_get obj ''estimated_total_weeks_high'' = Some (JNumber (PosInt wh)) \<and>
    (validate_analysis a = Inr () \<longleftrightarrow> summary \<noteq> [] \<and> disclaimer \<noteq> [] \<and> fl \<le> fh \<and> wl \<le> wh)"
proof -
  from assms obtain obj summary disclaimer fl fh wl wh services assumptions risks missing where f: "a = JObject obj"
    "obj_get obj ''summary'' = Some (JString summary)" "obj_get obj ''currency'' = Some (JString ''USD'')"
    "obj_get obj ''disclaimer'' = Some (JString disclaimer)"
    "obj_get obj ''estimated_total_fee_low'' = Some (JNumber (PosInt fl))"
    "obj_get obj ''estimated_total_fee_high'' = Some (JNumber (PosInt fh))"
    "obj_get obj ''estimated_total_weeks_low'' = Some (JNumber (PosInt wl))" "1 \<le> unat wl"
    "obj_get obj ''estimated_total_weeks_high'' = Some (JNumber (PosInt wh))"
    "obj_get obj ''recommended_services'' = Some (JArray services)" "obj_get obj ''assumptions'' = Some (JArray assumptions)"
    "obj_get obj ''risks'' = Some (JArray risks)" "obj_get obj ''missing_information'' = Some (JArray missing)"
    by (rule conforming_fields)
  have "wl \<noteq> 0" using f(8) by auto
  then have "validate_analysis a = Inr () \<longleftrightarrow> summary \<noteq> [] \<and> disclaimer \<noteq> [] \<and> fl \<le> fh \<and> wl \<le> wh"
    by (auto simp: validate_analysis_def f(1-7,9-13) not_less)
  with f show ?thesis by blast
qed

end
