(* ===== verification/Interruption.thy ===== *)
theory Interruption
  imports Quote_Memory
begin

text \<open>
  Requests that are cut short, and restarts. The deadline of \<open>enforce_request_envelope\<close>, the outer timeout layer and
  a client that hangs up all drop the future of a handler of \<open>src/lib.rs\<close>: it stops at the await it is in, runs no
  further statement, and drops what it owns, its analysis permit included. The awaits of \<open>create_quote\<close> and
  \<open>retry_quote\<close> are the cut points here. Spawned workers go on; a restart drops them too and keeps only the database.
\<close>

section \<open>Cut points\<close>

text \<open>While authenticating; in the database transaction or at the read guard of the keys; at the write guard of the
  keys, which only the memory mode takes; at the write guard of the cached quotes.\<close>

datatype cut_point = AtAuthentication | AtDecision | AtKey | AtCache

text \<open>A transaction that is cut ends like one whose commit fails: rolled back, or applied unseen when the commit was
  already on its way.\<close>

definition lost_commit :: "call_env \<Rightarrow> call_env" where
  "lost_commit env = env\<lparr>ce_faults := (ce_faults env)\<lparr>fails := (fails (ce_faults env))(Commit := True)\<rparr>\<rparr>"

text \<open>What \<open>create_quote\<close> leaves of its decision. A cut point the request does not come to is the one before it.\<close>

definition create_cut ::
    "cut_point \<Rightarrow> call_env \<Rightarrow> app_state \<Rightarrow> string \<Rightarrow> string \<Rightarrow> accepted_quote_request \<Rightarrow> json \<Rightarrow> app_state" where
  "create_cut p env st subject key req request_json =
     (case p of
        AtCache \<Rightarrow> snd (create_decide env st subject key req request_json)
      | AtDecision \<Rightarrow> if ap_database st = None then st else snd (create_decide (lost_commit env) st subject key req request_json)
      | AtKey \<Rightarrow>
          (case now_rfc3339 env of
             Inr timestamp \<Rightarrow>
               if ap_database st = None \<and> map_of (ap_idempotency st) (subject, key) = None
               then snd (memory_event st (new_record st (ce_new_uuid env) subject (wire req) timestamp)) else st
           | Inl _ \<Rightarrow> st)
      | AtAuthentication \<Rightarrow> st)"

definition create_quote_cut :: "cut_point \<Rightarrow> call_env \<Rightarrow> header_map \<Rightarrow> json \<Rightarrow> app_state \<Rightarrow> app_state" where
  "create_quote_cut p env headers payload st =
     (if p = AtAuthentication then st
      else case authenticate (ce_introspect env) headers (ap_auth st) [''quotes:write''] of
        Inl _ \<Rightarrow> st
      | Inr subject \<Rightarrow>
        (case required_idempotency_key headers of
           Inl _ \<Rightarrow> st
         | Inr key \<Rightarrow>
           (case parse_quote_request (ce_from_value env) (ce_is_accepted env) (ce_markdown env) payload of
              Inl _ \<Rightarrow> st
            | Inr req \<Rightarrow>
              (case admit env st subject of
                 (Inl _, st1) \<Rightarrow> st1
               | (Inr _, st1) \<Rightarrow>
                 (case ce_to_value env (wire req) of
                    None \<Rightarrow> release_permit st1
                  | Some request_json \<Rightarrow> release_permit (create_cut p env st1 subject key req request_json))))))"

definition retry_cut :: "cut_point \<Rightarrow> call_env \<Rightarrow> app_state \<Rightarrow> string \<Rightarrow> string \<Rightarrow> uuid \<Rightarrow> app_state" where
  "retry_cut p env st subject key qid =
     (case p of
        AtCache \<Rightarrow> snd (retry_decide env st subject key qid)
      | AtDecision \<Rightarrow> if ap_database st = None then st else snd (retry_decide (lost_commit env) st subject key qid)
      | AtKey \<Rightarrow>
          (case (now_rfc3339 env, map_of (ap_quotes st) qid) of
             (Inr timestamp, Some record) \<Rightarrow>
               if ap_database st = None \<and> map_of (ap_idempotency st) (subject, key) = None \<and>
                 owner_subject record = subject \<and> qstatus record = ''failed''
               then snd (memory_event st (record\<lparr>qstatus := ''queued'', analysis := None, error_code := None, updated_at := timestamp\<rparr>))
               else st
           | _ \<Rightarrow> st)
      | AtAuthentication \<Rightarrow> st)"

definition retry_quote_cut :: "cut_point \<Rightarrow> call_env \<Rightarrow> header_map \<Rightarrow> uuid \<Rightarrow> app_state \<Rightarrow> app_state" where
  "retry_quote_cut p env headers qid st =
     (if p = AtAuthentication then st
      else case authenticate (ce_introspect env) headers (ap_auth st) [''quotes:write''] of
        Inl _ \<Rightarrow> st
      | Inr subject \<Rightarrow>
        (case required_idempotency_key headers of
           Inl _ \<Rightarrow> st
         | Inr key \<Rightarrow>
           (case admit env st subject of
              (Inl _, st1) \<Rightarrow> st1
            | (Inr _, st1) \<Rightarrow> release_permit (retry_cut p env st1 subject key qid))))"

text \<open>A restart builds the state anew over the same database, as \<open>main\<close> does from the same settings.\<close>

definition restarted :: "app_state \<Rightarrow> app_state" where
  "restarted st = app_state_new (ap_auth st) (ap_model st) (ap_database st) (ap_gemini st) (ap_webhook st)"

datatype life_input =
    Serve app_input
  | CutCreate cut_point call_env header_map json
  | CutRetry cut_point call_env header_map uuid
  | Restart

fun life_step :: "app_state \<Rightarrow> life_input \<Rightarrow> app_state" where
  "life_step st (Serve p) = app_step st p"
| "life_step st (CutCreate p env headers payload) = create_quote_cut p env headers payload st"
| "life_step st (CutRetry p env headers qid) = retry_quote_cut p env headers qid st"
| "life_step st Restart = restarted st"


section \<open>Permits survive cancellation\<close>

lemma slots_create_cut: "slots (create_cut p env st subject key req j) = slots st"
  using slots_create_decide [OF prod.collapse [symmetric]]
  by (auto simp: create_cut_def split: cut_point.split sum.split)

lemma slots_retry_cut: "slots (retry_cut p env st subject key qid) = slots st"
  using slots_retry_decide [OF prod.collapse [symmetric]]
  by (auto simp: retry_cut_def split: cut_point.split sum.split option.split)

lemma cut_permits:
  assumes "permits_ok st"
  shows "permits_ok (create_quote_cut p env headers payload st)" "permits_ok (retry_quote_cut p env headers qid st)"
  using assms one_held_pieces [OF slots_create_cut] one_held_pieces [OF slots_retry_cut]
  by (auto simp: create_quote_cut_def retry_quote_cut_def split: sum.splits prod.splits option.splits dest: admit_permits)

interpretation life_permits: machine life_step permits_ok
proof
  fix st i assume ok: "permits_ok st"
  show "permits_ok (life_step st i)"
  proof (cases i)
    case Restart
    then show ?thesis by (simp add: restarted_def app_state_new_def permits_ok_def)
  qed (use ok in \<open>auto intro: permits.inv_step cut_permits\<close>)
qed

text \<open>Analysis capacity is neither exceeded nor leaked: after any sequence of requests, requests cut short at any of
  their awaits, worker steps and restarts, in either storage mode and under any database failures, the free permits
  and the running workers add up to four.\<close>

theorem permits_survive_cancellation:
  "let st = run life_step (app_state_new auth model database gemini webhook) inputs
   in ap_permits st + length (ap_workers st) = QUOTE_ANALYSIS_MAX_CONCURRENCY"
  using life_permits.inv_run [of "app_state_new auth model database gemini webhook" inputs]
  by (simp add: permits_ok_def app_state_new_def)


section \<open>Rows the store keeps\<close>

abbreviation record_key :: "quote_record \<Rightarrow> string \<times> uuid" where
  "record_key r \<equiv> (owner_subject r, quote_id r)"

lemma quote_row_append:
  "quote_row (s\<lparr>quote_rows := quote_rows s @ rows\<rparr>) owner q =
     (case quote_row s owner q of Some r \<Rightarrow> Some r | None \<Rightarrow> List.find (\<lambda>r. qr_id r = q \<and> qr_owner r = owner) rows)"
  by (simp add: quote_row_def find_append)

lemma find_map_other:
  "(\<And>x. P (f x) = P x) \<Longrightarrow> (\<And>x. P x \<Longrightarrow> f x = x) \<Longrightarrow> List.find P (map f xs) = List.find P xs"
  by (induction xs) auto

lemma quote_row_set_other:
  assumes "(subject, qid) \<noteq> (owner, q)" and "\<And>r. qr_id (f r) = qr_id r \<and> qr_owner (f r) = qr_owner r"
  shows "quote_row (set_quote_row s subject qid f) owner q = quote_row s owner q"
  unfolding quote_row_def set_quote_row_def using assms by (simp, intro find_map_other) auto

lemma quote_row_fields [simp]:
  "quote_row (s\<lparr>operations := ops\<rparr>) = quote_row s"
  "quote_row (s\<lparr>event_rows := es\<rparr>) = quote_row s"
  "quote_row (s\<lparr>next_sequence := n\<rparr>) = quote_row s"
  "quote_row (s\<lparr>attempts := as\<rparr>) = quote_row s"
  by (simp_all add: quote_row_def fun_eq_iff)

text \<open>A new quote takes no row from another, and its identifier is new.\<close>

lemma create_new_effect:
  assumes "create_quote_new d env subject key req record j s = Inr (Created ctx ev rec, s')"
  shows "quote_row s owner q = Some r \<Longrightarrow> quote_row s' owner q = Some r"
    and "\<forall>r \<in> set (quote_rows s). qr_id r \<noteq> quote_id rec"
    and "quote_id rec = quote_id record" "owner_subject rec = owner_subject record"
  using assms
  by (auto simp: create_quote_new_def result_bind_Inr_iff Let_def list_ex_iff quote_row_append
      split: if_splits dest!: insert_operation_Inr insert_event_Inr)

lemma create_new_created: "create_quote_new d env subject key req record j s = Inr (x, s') \<Longrightarrow> \<exists>ctx ev rec. x = Created ctx ev rec"
  by (auto simp: create_quote_new_def result_bind_Inr_iff Let_def split: if_splits)

lemma create_body_cases:
  assumes "create_quote_body d env subject key req record s = Inr (x, s')"
  obtains (existing) r where "x = CreateExisting r" "s' = s"
  | (created) j ctx ev rec where "x = Created ctx ev rec" "create_quote_new d env subject key req record j s = Inr (Created ctx ev rec, s')"
proof (cases "find_operation s subject key")
  case None
  then obtain j where "create_quote_new d env subject key req record j s = Inr (x, s')"
    using assms by (auto simp: create_quote_body_def result_bind_Inr_iff)
  with create_new_created [OF this] show ?thesis by (auto intro: created)
qed (use assms in \<open>auto simp: create_quote_body_def result_bind_Inr_iff split: if_splits intro: existing\<close>)

lemma transact_committed: "transact d body s = (Inr x, s') \<Longrightarrow> body s = Inr (x, s')"
  by (auto simp: transact_def split: if_splits sum.splits)

lemma create_keeps_row:
  "quote_row s owner q = Some r \<Longrightarrow> quote_row (snd (create_quote d env subject key req record s)) owner q = Some r"
  unfolding create_quote_def
  by (rule transact_inv) (auto elim!: create_body_cases dest: create_new_effect(1))

lemma created_fresh:
  assumes "create_quote d env subject key req record s = (Inr (Created ctx ev rec), s')"
  shows "quote_row s owner q \<noteq> None \<Longrightarrow> quote_id rec \<noteq> q"
    and "quote_id rec = quote_id record" "owner_subject rec = owner_subject record"
  using assms unfolding create_quote_def
  by (auto dest!: transact_committed elim!: create_body_cases dest: create_new_effect(2-4) quote_row_Some)

lemma retry_new_effect:
  assumes "retry_quote_new d env subject qid key s = Inr (Retried ctx ev rec, s')"
  shows "\<exists>row. quote_row s subject qid = Some row \<and> qr_status row = ''failed''"
    and "(subject, qid) \<noteq> (owner, q) \<Longrightarrow> quote_row s' owner q = quote_row s owner q"
    and "record_key rec = (subject, qid)"
proof -
  show "\<exists>row. quote_row s subject qid = Some row \<and> qr_status row = ''failed''"
    using assms by (auto simp: retry_quote_new_def quote_from_row_def result_bind_Inr_iff ok_or_iff Let_def split: if_splits)
qed (use assms in \<open>auto simp: retry_quote_new_def quote_from_row_def result_bind_Inr_iff ok_or_iff Let_def quote_row_set_other
      split: if_splits dest!: insert_operation_Inr insert_event_Inr dest: quote_row_Some\<close>)

lemma retry_new_retried: "retry_quote_new d env subject qid key s = Inr (x, s') \<Longrightarrow> \<exists>ctx ev rec. x = Retried ctx ev rec"
  by (auto simp: retry_quote_new_def result_bind_Inr_iff Let_def split: if_splits)

lemma retry_body_cases:
  assumes "retry_quote_body d env subject qid key s = Inr (x, s')"
  obtains (existing) r where "x = RetryExisting r" "s' = s"
  | (retried) ctx ev rec where "x = Retried ctx ev rec" "retry_quote_new d env subject qid key s = Inr (Retried ctx ev rec, s')"
proof (cases "find_operation s subject key")
  case None
  then have "retry_quote_new d env subject qid key s = Inr (x, s')"
    using assms by (auto simp: retry_quote_body_def)
  with retry_new_retried [OF this] show ?thesis by (auto intro: retried)
qed (use assms in \<open>auto simp: retry_quote_body_def result_bind_Inr_iff split: if_splits intro: existing\<close>)

lemma retry_keeps_row:
  assumes "quote_row s owner q = Some r" and "qr_status r \<noteq> ''failed''"
  shows "quote_row (snd (retry_quote d env subject qid key s)) owner q = Some r"
  unfolding retry_quote_def
proof (rule transact_inv [where P = "\<lambda>s. quote_row s owner q = Some r", OF assms(1)])
  fix x s' assume "retry_quote_body d env subject qid key s = Inr (x, s')"
  then show "quote_row s' owner q = Some r"
  proof (cases rule: retry_body_cases)
    case (retried ctx ev rec)
    then have "(subject, qid) \<noteq> (owner, q)" using retry_new_effect(1) [OF retried(2)] assms by auto
    then show ?thesis using retry_new_effect(2) [OF retried(2)] assms(1) by simp
  qed (use assms(1) in simp)
qed

lemma retried_failed:
  assumes "retry_quote d env subject qid key s = (Inr (Retried ctx ev rec), s')"
  shows "record_key rec = (subject, qid) \<and> (\<exists>row. quote_row s subject qid = Some row \<and> qr_status row = ''failed'')"
proof -
  have "retry_quote_body d env subject qid key s = Inr (Retried ctx ev rec, s')"
    using assms unfolding retry_quote_def by (rule transact_committed)
  then have "retry_quote_new d env subject qid key s = Inr (Retried ctx ev rec, s')"
    by (cases rule: retry_body_cases) auto
  then show ?thesis by (intro conjI retry_new_effect)
qed

lemma update_keeps_row:
  assumes "quote_row s owner q = Some r" and "record_key record \<noteq> (owner, q)"
  shows "quote_row (snd (update_quote d env record s)) owner q = Some r"
  unfolding update_quote_def
  by (rule transact_inv [where P = "\<lambda>s. quote_row s owner q = Some r", OF assms(1)])
    (use assms in \<open>auto simp: result_bind_Inr_iff Let_def quote_row_set_other split: if_splits dest!: insert_event_Inr\<close>)

lemma updated_key: "update_quote d env record s = (Inr (ev, record'), s') \<Longrightarrow> record_key record' = record_key record"
  unfolding update_quote_def
  by (auto dest!: transact_committed simp: result_bind_Inr_iff Let_def split: if_splits)

lemma attempts_keep_row:
  "quote_row s owner q = Some r \<Longrightarrow> quote_row (snd (start_model_attempt d aid record s)) owner q = Some r"
  "quote_row s owner q = Some r \<Longrightarrow> quote_row (snd (finish_model_attempt d env record aid s)) owner q = Some r"
  unfolding start_model_attempt_def finish_model_attempt_def
  by (rule transact_inv, assumption, auto simp: Let_def split: if_splits)+


section \<open>A quote nobody works on\<close>

definition holds_row :: "string \<Rightarrow> uuid \<Rightarrow> QuoteRow \<Rightarrow> app_state \<Rightarrow> bool" where
  "holds_row owner q r st \<longleftrightarrow> (case ap_database st of None \<Rightarrow> False | Some s \<Rightarrow> quote_row s owner q = Some r)"

text \<open>The database has the quote, not as failed, and no worker of the process has it.\<close>

definition unattended :: "string \<Rightarrow> uuid \<Rightarrow> QuoteRow \<Rightarrow> app_state \<Rightarrow> bool" where
  "unattended owner q r st \<longleftrightarrow>
     holds_row owner q r st \<and> qr_status r \<noteq> ''failed'' \<and>
     (\<forall>w \<in> set (ap_workers st). record_key (wk_record w) \<noteq> (owner, q))"

lemma holds_row_pieces [simp]:
  "holds_row owner q r (publish_event st e) = holds_row owner q r st"
  "holds_row owner q r (cache_quote st x) = holds_row owner q r st"
  "holds_row owner q r (release_permit st) = holds_row owner q r st"
  "holds_row owner q r (snd (memory_event st x)) = holds_row owner q r st"
  "holds_row owner q r (st\<lparr>ap_workers := ws\<rparr>) = holds_row owner q r st"
  "holds_row owner q r (st\<lparr>ap_quotes := qs\<rparr>) = holds_row owner q r st"
  "holds_row owner q r (st\<lparr>ap_database := Some s\<rparr>) = (quote_row s owner q = Some r)"
  by (simp_all add: holds_row_def publish_event_def cache_quote_def release_permit_def memory_event_def)

lemma workers_pieces [simp]:
  "ap_workers (publish_event st e) = ap_workers st"
  "ap_workers (cache_quote st x) = ap_workers st"
  "ap_workers (release_permit st) = ap_workers st"
  "ap_workers (snd (memory_event st x)) = ap_workers st"
  by (simp_all add: publish_event_def cache_quote_def release_permit_def memory_event_def)

lemma slots_workers: "slots st' = slots st \<Longrightarrow> ap_workers st' = ap_workers st"
  by (simp add: slots_def)

lemma holds_row_admit: "admit env st subject = (x, st1) \<Longrightarrow> holds_row owner q r st1 = holds_row owner q r st \<and> ap_workers st1 = ap_workers st"
  by (auto simp: admit_def holds_row_def split: if_splits prod.splits sum.splits)

lemma holds_row_find: "find_quote env st qid subject = (x, st1) \<Longrightarrow> holds_row owner q r st1 = holds_row owner q r st"
  by (auto simp: find_quote_def holds_row_def split: option.splits prod.splits sum.splits if_splits
      dest: arg_cong [where f = snd] simp: read_operations_unchanged)

lemma create_decide_row:
  assumes "create_decide env st subject key req j = (x, st1)" and "holds_row owner q r st"
  shows "holds_row owner q r st1" and "x = Inr dc \<Longrightarrow> dc_analyze dc \<Longrightarrow> record_key (dc_record dc) \<noteq> (owner, q)"
proof -
  obtain s where s: "ap_database st = Some s" and row: "quote_row s owner q = Some r"
    using assms(2) by (auto simp: holds_row_def split: option.splits)
  have keep: "quote_row s' owner q = Some r" if "create_quote d e su k rq rec s = (y, s')" for d e su k rq rec y s'
    using create_keeps_row [OF row] that by (metis snd_conv)
  show "holds_row owner q r st1"
    using assms s by (auto simp: create_decide_def split: sum.splits prod.splits create_quote_outcome.splits dest: keep)
  show "record_key (dc_record dc) \<noteq> (owner, q)" if "x = Inr dc" "dc_analyze dc"
    using that assms(1) s row by (auto simp: create_decide_def split: sum.splits prod.splits create_quote_outcome.splits
        dest!: created_fresh(1) [of _ _ _ _ _ _ _ _ _ _ _ owner q])
qed

lemma retry_decide_row:
  assumes "retry_decide env st subject key qid = (x, st1)" and "holds_row owner q r st" and "qr_status r \<noteq> ''failed''"
  shows "holds_row owner q r st1" and "x = Inr dc \<Longrightarrow> dc_analyze dc \<Longrightarrow> record_key (dc_record dc) \<noteq> (owner, q)"
proof -
  obtain s where s: "ap_database st = Some s" and row: "quote_row s owner q = Some r"
    using assms(2) by (auto simp: holds_row_def split: option.splits)
  have keep: "quote_row s' owner q = Some r" if "retry_quote d e su qi k s = (y, s')" for d e su qi k y s'
    using retry_keeps_row [OF row assms(3)] that by (metis snd_conv)
  show "holds_row owner q r st1"
    using assms s by (auto simp: retry_decide_def split: sum.splits prod.splits retry_quote_outcome.splits dest: keep)
  show "record_key (dc_record dc) \<noteq> (owner, q)" if "x = Inr dc" "dc_analyze dc"
    using that assms(1,3) s row by (auto simp: retry_decide_def split: sum.splits prod.splits retry_quote_outcome.splits
        dest!: retried_failed)
qed

lemma submit_finish_row:
  assumes "submit_finish st dc req = (x, st1)"
  shows "holds_row owner q r st1 = holds_row owner q r st"
    and "w \<in> set (ap_workers st1) \<Longrightarrow> w \<in> set (ap_workers st) \<or> dc_analyze dc \<and> wk_record w = dc_record dc"
  using assms by (auto simp: submit_finish_def Let_def split: if_splits option.splits)

lemma update_state_row:
  assumes "update_quote_state env st record = ((b, record'), st1)"
  shows "holds_row owner q r st \<Longrightarrow> record_key record \<noteq> (owner, q) \<Longrightarrow> holds_row owner q r st1"
    and "record_key record' = record_key record" "ap_workers st1 = ap_workers st"
proof -
  show "ap_workers st1 = ap_workers st" using slots_update_quote_state [OF assms] by (rule slots_workers)
  show "record_key record' = record_key record"
    using assms by (auto simp: update_quote_state_def memory_event_def Let_def split: option.splits prod.splits sum.splits dest: updated_key)
  assume row: "holds_row owner q r st" and other: "record_key record \<noteq> (owner, q)"
  then obtain s where s: "ap_database st = Some s" and row: "quote_row s owner q = Some r"
    by (auto simp: holds_row_def split: option.splits)
  have keep: "quote_row s' owner q = Some r" if "update_quote d e rc s = (y, s')" "record_key rc \<noteq> (owner, q)" for d e rc y s'
    using update_keeps_row [OF row that(2)] that(1) by (metis snd_conv)
  show "holds_row owner q r st1"
    using assms s other by (auto simp: update_quote_state_def split: sum.splits prod.splits dest!: keep)
qed


lemma worker_begin_row:
  assumes "worker_begin env st w = (x, st1)" and "holds_row owner q r st" and "record_key (wk_record w) \<noteq> (owner, q)"
  shows "holds_row owner q r st1" and "x = Some w' \<Longrightarrow> record_key (wk_record w') = record_key (wk_record w)"
proof -
  let ?begun = "(wk_record w)\<lparr>qstatus := ''analyzing'', error_code := None, analysis := None\<rparr>"
  obtain b record1 st2 where u: "update_quote_state env st ?begun = ((b, record1), st2)" by (metis surj_pair)
  have key: "record_key record1 = record_key (wk_record w)" using update_state_row(2) [OF u] by simp
  have row: "holds_row owner q r st2" using update_state_row(1) [OF u] assms(2,3) by simp
  show "x = Some w' \<Longrightarrow> record_key (wk_record w') = record_key (wk_record w)"
    using assms(1) key by (auto simp: worker_begin_def u split: bool.splits if_splits prod.splits option.splits sum.splits)
  have failed: "holds_row owner q r st3"
    if "update_quote_state env st2 (record1\<lparr>qstatus := ''failed'', error_code := c\<rparr>) = (y, st3)" for c y st3
    using update_state_row(1) [of env st2 "record1\<lparr>qstatus := ''failed'', error_code := c\<rparr>" "fst y" "snd y" st3 owner q r]
      that row key assms(3) by simp
  have start: "quote_row s' owner q = Some r"
    if "ap_database st2 = Some s" "start_model_attempt d aid rc s = (y, s')" for s d aid rc y s'
    using attempts_keep_row(1) [of s owner q r d aid rc] row that by (simp add: holds_row_def)
  show "holds_row owner q r st1"
    using assms(1) row by (auto simp: worker_begin_def u Let_def split: bool.splits if_splits prod.splits option.splits sum.splits
        dest!: failed start)
qed

lemma worker_finish_row:
  assumes "holds_row owner q r st" and "record_key (wk_record w) \<noteq> (owner, q)"
  shows "holds_row owner q r (worker_finish env st w result)"
proof -
  obtain b record1 st1 where u: "update_quote_state env st (analyzed_record (wk_record w) result) = ((b, record1), st1)"
    by (metis surj_pair)
  have "record_key (analyzed_record (wk_record w) result) = record_key (wk_record w)"
    by (simp add: analyzed_record_def split: sum.split)
  then have row: "holds_row owner q r st1" using update_state_row(1) [OF u] assms by simp
  have finish: "ap_database st1 = Some s \<Longrightarrow> quote_row (snd (finish_model_attempt d e rc aid s)) owner q = Some r" for s d e rc aid
    using attempts_keep_row(2) row by (simp add: holds_row_def)
  show ?thesis using row by (auto simp: worker_finish_def u finish split: option.split)
qed

lemma unattended_less:
  "unattended owner q r st \<Longrightarrow> holds_row owner q r st1 \<Longrightarrow>
     (\<And>w. w \<in> set (ap_workers st1) \<Longrightarrow> w \<in> set (ap_workers st) \<or> record_key (wk_record w) \<noteq> (owner, q)) \<Longrightarrow>
   unattended owner q r st1"
  unfolding unattended_def by blast


lemma unattended_pieces [simp]: "unattended owner q r (release_permit st) = unattended owner q r st"
  "unattended owner q r (snd (memory_event st x)) = unattended owner q r st"
  "unattended owner q r (publish_event st e) = unattended owner q r st"
  "unattended owner q r (cache_quote st x) = unattended owner q r st"
  by (simp_all add: unattended_def)

lemma unattended_admit: "admit env st subject = (x, st1) \<Longrightarrow> unattended owner q r st \<Longrightarrow> unattended owner q r st1"
  using holds_row_admit [of env st subject x st1 owner q r] by (simp add: unattended_def)

lemma unattended_create_decide:
  assumes "create_decide env st subject key req j = (x, st1)" and "unattended owner q r st"
  shows "unattended owner q r st1" and "x = Inr dc \<Longrightarrow> dc_analyze dc \<Longrightarrow> record_key (dc_record dc) \<noteq> (owner, q)"
  using create_decide_row [OF assms(1), of owner q r] slots_workers [OF slots_create_decide [OF assms(1)]] assms(2)
  by (auto simp: unattended_def)

lemma unattended_retry_decide:
  assumes "retry_decide env st subject key qid = (x, st1)" and "unattended owner q r st"
  shows "unattended owner q r st1" and "x = Inr dc \<Longrightarrow> dc_analyze dc \<Longrightarrow> record_key (dc_record dc) \<noteq> (owner, q)"
  using retry_decide_row [OF assms(1), of owner q r] slots_workers [OF slots_retry_decide [OF assms(1)]] assms(2)
  by (auto simp: unattended_def)

lemma unattended_finish:
  assumes "submit_finish st dc req = (x, st1)" and "unattended owner q r st"
    and "dc_analyze dc \<Longrightarrow> record_key (dc_record dc) \<noteq> (owner, q)"
  shows "unattended owner q r st1"
proof (rule unattended_less [OF assms(2)])
  show "holds_row owner q r st1" using submit_finish_row(1) [OF assms(1)] assms(2) by (simp add: unattended_def)
  show "w \<in> set (ap_workers st) \<or> record_key (wk_record w) \<noteq> (owner, q)" if "w \<in> set (ap_workers st1)" for w
    using submit_finish_row(2) [OF assms(1) that] assms(3) by auto
qed

lemma unattended_create:
  assumes "unattended owner q r st"
  shows "unattended owner q r (snd (create_quote_handler env headers payload st))"
proof -
  have decided: "unattended owner q r st3"
    if "create_decide env st1 su key req j = (Inr dc, st2)" "submit_finish st2 dc req = (y, st3)" "unattended owner q r st1"
    for st1 su key req j dc st2 y st3
    using unattended_finish [OF that(2)] unattended_create_decide [OF that(1,3)] by blast
  show ?thesis using assms unfolding create_quote_handler_def
    by (auto split: sum.splits prod.splits option.splits dest: unattended_admit unattended_create_decide(1) decided)
qed

lemma unattended_retry:
  assumes "unattended owner q r st"
  shows "unattended owner q r (snd (retry_quote_handler env headers qid st))"
proof -
  have decided: "unattended owner q r st3"
    if "retry_decide env st1 su key qi = (Inr dc, st2)" "submit_finish st2 dc req = (y, st3)" "unattended owner q r st1"
    for st1 su key qi dc st2 req y st3
    using unattended_finish [OF that(2)] unattended_retry_decide [OF that(1,3)] by blast
  show ?thesis using assms unfolding retry_quote_handler_def Let_def
    by (auto split: sum.splits prod.splits option.splits if_splits dest: unattended_admit unattended_retry_decide(1) decided)
qed

lemma list_handler_unchanged: "snd (list_quotes_handler env headers limit cursor st) = st"
proof -
  have same: "s' = s" if "list_quotes d e su l c s = (y, s')" for d e su l c s y s'
    using read_operations_unchanged(2) [of d e su l c s] that by simp
  show ?thesis
    by (auto simp: list_quotes_handler_def Let_def split: sum.splits option.splits prod.splits dest!: same)
qed

lemma unattended_reads:
  assumes "unattended owner q r st"
  shows "unattended owner q r (snd (get_quote_handler env headers qid st))"
    and "unattended owner q r (snd (list_quotes_handler env headers limit cursor st))"
proof -
  show "unattended owner q r (snd (get_quote_handler env headers qid st))"
  proof (rule unattended_less [OF assms])
    show "holds_row owner q r (snd (get_quote_handler env headers qid st))"
      using assms by (auto simp: get_quote_handler_def unattended_def split: sum.splits prod.splits dest: holds_row_find)
  qed (use slots_workers [OF get_handler_slots] in auto)
  have "snd (list_quotes_handler env headers limit cursor st) = st" by (rule list_handler_unchanged)
  then show "unattended owner q r (snd (list_quotes_handler env headers limit cursor st))" using assms by simp
qed

lemma unattended_cut:
  assumes "unattended owner q r st"
  shows "unattended owner q r (create_quote_cut p env headers payload st)" "unattended owner q r (retry_quote_cut p env headers qid st)"
proof -
  have create: "unattended owner q r (create_cut p env st1 su key req j)" if "unattended owner q r st1" for st1 su key req j
    using that unattended_create_decide(1) [OF prod.collapse [symmetric] that] by (simp add: create_cut_def split: cut_point.split sum.split)
  have retry: "unattended owner q r (retry_cut p env st1 su key qi)" if "unattended owner q r st1" for st1 su key qi
    using that unattended_retry_decide(1) [OF prod.collapse [symmetric] that] by (simp add: retry_cut_def split: cut_point.split sum.split option.split)
  show "unattended owner q r (create_quote_cut p env headers payload st)" "unattended owner q r (retry_quote_cut p env headers qid st)"
    using assms by (auto simp: create_quote_cut_def retry_quote_cut_def split: sum.splits prod.splits option.splits
        dest: unattended_admit intro!: create retry)
qed

lemma unattended_worker:
  assumes "unattended owner q r st"
  shows "unattended owner q r (app_step st (InBegin env i))" "unattended owner q r (app_step st (InFinish env i result))"
proof -
  let ?w = "ap_workers st ! i"
  have other: "record_key (wk_record ?w) \<noteq> (owner, q)" if "i < length (ap_workers st)"
    using assms nth_mem [OF that] by (simp add: unattended_def)
  have fewer: "w \<in> set (ap_workers st)" if "w \<in> set (remove_nth i (ap_workers st))" for w
    using set_remove_nth that by (rule subsetD)
  have row: "holds_row owner q r st" and status: "qr_status r \<noteq> ''failed''" using assms by (simp_all add: unattended_def)
  show "unattended owner q r (app_step st (InFinish env i result))"
  proof (cases "i < length (ap_workers st) \<and> wk_started ?w")
    case True
    then have "holds_row owner q r (worker_finish env st ?w result)" using worker_finish_row [OF row other] by simp
    then show ?thesis using True fewer by (simp, intro unattended_less [OF assms]) auto
  qed (use assms in auto)
  show "unattended owner q r (app_step st (InBegin env i))"
  proof (cases "i < length (ap_workers st) \<and> \<not> wk_started ?w")
    case True
    obtain x st1 where b: "worker_begin env st ?w = (x, st1)" by fastforce
    note keep = worker_begin_row [OF b row other]
    show ?thesis
    proof (cases x)
      case None
      then show ?thesis using True b keep(1) fewer by (simp, intro unattended_less [OF assms]) auto
    next
      case (Some w)
      have "record_key (wk_record w) \<noteq> (owner, q)" using keep(2) [OF _ Some] other True by auto
      then show ?thesis using True b keep(1) Some
        by (simp, intro unattended_less [OF assms]) (auto dest!: subsetD [OF set_update_subset_insert])
    qed
  qed (use assms in auto)
qed

interpretation forsaken: machine life_step "unattended owner q r"
proof
  fix st i assume u: "unattended owner q r st"
  show "unattended owner q r (life_step st i)"
  proof (cases i)
    case (Serve p)
    then show ?thesis using u by (cases p) (simp_all only: life_step.simps app_step.simps unattended_create unattended_retry unattended_reads
          unattended_worker [unfolded app_step.simps])
  next
    case Restart
    then show ?thesis using u by (simp add: restarted_def app_state_new_def unattended_def holds_row_def)
  qed (use u in \<open>simp_all add: unattended_cut\<close>)
qed


section \<open>A submission that is cut is never analysed\<close>

lemma created_row:
  assumes "create_quote_body d env subject key req record s = Inr (Created ctx ev rec, s')"
  shows "\<exists>r. quote_row s' subject (quote_id record) = Some r \<and> qr_status r = qstatus record \<and> record_key rec = (owner_subject record, quote_id record)"
proof -
  obtain j where new: "create_quote_new d env subject key req record j s = Inr (Created ctx ev rec, s')"
    using assms by (cases rule: create_body_cases) auto
  have "quote_row s subject (quote_id record) = None"
    using create_new_effect(2,3) [OF new] by (auto simp: quote_row_None)
  then show ?thesis
    using new by (auto simp: create_quote_new_def result_bind_Inr_iff Let_def new_quote_row_def quote_row_append
        dest!: insert_operation_Inr insert_event_Inr split: if_splits)
qed

lemma body_lost_commit:
  "create_quote_body (ce_faults (lost_commit env)) e subject key req record s = create_quote_body (ce_faults env) e subject key req record s"
  by (simp add: lost_commit_def create_quote_body_def create_quote_new_def rollback_with_def exec_def insert_operation_def
      insert_event_def get_quote_in_transaction_def cong: if_cong option.case_cong)

text \<open>Cut after the transaction, or within a commit that is applied unseen.\<close>

definition created_unseen :: "cut_point \<Rightarrow> call_env \<Rightarrow> bool" where
  "created_unseen p env \<longleftrightarrow> p = AtCache \<or> (p = AtDecision \<and> commit_applied (ce_faults env))"

lemma create_cut_leaves_row:
  assumes "create_decide env st subject key req j = (Inr dc, st2)" and "dc_analyze dc" and "ap_database st = Some s"
    and "created_unseen p env"
  shows "\<exists>r. holds_row subject (ce_new_uuid env) r (create_cut p env st subject key req j) \<and> qr_status r = ''queued'' \<and>
    record_key (dc_record dc) = (subject, ce_new_uuid env)"
proof -
  obtain t where t: "now_rfc3339 env = Inr t" using assms(1,3) by (auto simp: create_decide_def split: sum.splits)
  let ?begun = "new_record st (ce_new_uuid env) subject (wire req) t"
  let ?create = "\<lambda>d. create_quote d (ce_store_env env) subject key req ?begun s"
  obtain ctx ev rec s' where c: "?create (ce_faults env) = (Inr (Created ctx ev rec), s')" and dc: "dc_record dc = rec"
    and st2: "st2 = st\<lparr>ap_database := Some s'\<rparr>"
    using assms(1-3) t by (auto simp: create_decide_def split: sum.splits prod.splits create_quote_outcome.splits)
  have body: "create_quote_body (ce_faults env) (ce_store_env env) subject key req ?begun s = Inr (Created ctx ev rec, s')"
    using c unfolding create_quote_def by (rule transact_committed)
  have keys: "quote_id ?begun = ce_new_uuid env" "qstatus ?begun = ''queued''" "owner_subject ?begun = subject"
    by (simp_all add: new_record_def)
  obtain r where r: "quote_row s' subject (ce_new_uuid env) = Some r" "qr_status r = ''queued''"
    "record_key rec = (subject, ce_new_uuid env)"
    using created_row [OF body] keys by auto
  have opened: "\<not> fails (ce_faults env) Begin" using c by (auto simp: create_quote_def transact_def split: if_splits)
  have lost: "?create (ce_faults (lost_commit env)) = (Inl Database, s')" if "commit_applied (ce_faults env)"
    using opened that by (simp add: create_quote_def transact_def body_lost_commit body) (simp add: lost_commit_def)
  have same: "ce_store_env (lost_commit env) = ce_store_env env" "ce_new_uuid (lost_commit env) = ce_new_uuid env"
    "now_rfc3339 (lost_commit env) = now_rfc3339 env" by (simp_all add: lost_commit_def now_rfc3339_def)
  have "holds_row subject (ce_new_uuid env) r (create_cut p env st subject key req j)"
    using assms(1,3,4) r(1) st2 t lost
    by (auto simp: create_cut_def created_unseen_def create_decide_def [of "lost_commit env"] same)
  then show ?thesis using r dc by blast
qed

text \<open>C5: a submission whose caller is gone is never analysed: take a request that, left alone, is answered 202 and gets its
  worker, and cut it once its quote is committed, while it waits to cache the record, or with the acknowledgement of
  the commit still on its way. Then whatever follows - replays, retries, other requests, further cuts, restarts -
  the quote stays queued in the database, its row unchanged, and no worker ever takes it up.\<close>

theorem cut_submission_stuck:
  assumes "create_quote_handler env headers payload st = (Inr (202, resp), st')" and "ap_workers st' = ap_workers st @ [w]"
    and "ap_database st = Some s" and "created_unseen p env"
    and "ce_new_uuid env \<notin> quote_id ` wk_record ` set (ap_workers st)"
  shows "\<exists>r. (qr_owner r, qr_id r) = record_key (wk_record w) \<and> qr_status r = ''queued'' \<and>
    (\<forall>is. unattended (qr_owner r) (qr_id r) r (run life_step (create_quote_cut p env headers payload st) is))"
proof -
  obtain subject key req st1 j dc st2 where
    path: "authenticate (ce_introspect env) headers (ap_auth st) [''quotes:write''] = Inr subject"
      "required_idempotency_key headers = Inr key"
      "parse_quote_request (ce_from_value env) (ce_is_accepted env) (ce_markdown env) payload = Inr req"
      "admit env st subject = (Inr (), st1)" "ce_to_value env (wire req) = Some j"
    and decide: "create_decide env st1 subject key req j = (Inr dc, st2)" and finish: "submit_finish st2 dc req = (Inr (), st')"
    using assms(1) by (auto simp: create_quote_handler_def split: sum.splits prod.splits option.splits)
  have db: "ap_database st1 = Some s" using path(4) assms(3) by (auto simp: admit_def split: if_splits prod.splits sum.splits)
  have workers: "ap_workers st2 = ap_workers st"
    using slots_workers [OF slots_create_decide [OF decide]] holds_row_admit [OF path(4)] by simp
  have new: "dc_analyze dc \<and> wk_record w = dc_record dc"
    using finish workers assms(2) by (auto simp: submit_finish_def Let_def split: if_splits option.splits)
  let ?cut = "create_cut p env st1 subject key req j"
  obtain r where r: "holds_row subject (ce_new_uuid env) r ?cut" "qr_status r = ''queued''"
    "record_key (dc_record dc) = (subject, ce_new_uuid env)"
    using create_cut_leaves_row [OF decide conjunct1 [OF new] db assms(4)] by blast
  have "ap_workers ?cut = ap_workers st"
    using slots_workers [OF slots_create_cut] holds_row_admit [OF path(4)] by simp
  moreover have "create_quote_cut p env headers payload st = release_permit ?cut"
    using path assms(4) by (auto simp: create_quote_cut_def created_unseen_def)
  moreover have "record_key (wk_record w') \<noteq> (subject, ce_new_uuid env)" if "w' \<in> set (ap_workers st)" for w'
    using assms(5) that by (auto simp: image_iff)
  ultimately have "unattended subject (ce_new_uuid env) r (create_quote_cut p env headers payload st)"
    using r by (simp add: unattended_def)
  moreover have "qr_id r = ce_new_uuid env \<and> qr_owner r = subject"
    using r(1) by (auto simp: holds_row_def split: option.splits dest: quote_row_Some)
  ultimately show ?thesis using r new forsaken.inv_run by (intro exI [of _ r]) auto
qed

text \<open>Without a database the key is recorded before the quote is: a first submission cut between the two leaves a key whose
  replays are answered as a storage failure.\<close>

theorem cut_submission_ghost_key:
  assumes "ap_database st = None" and "create_decide env st subject key req j = (Inr dc, st1)" and "dc_analyze dc"
    and "map_of (ap_quotes st) (ce_new_uuid env) = None"
  shows "let cut = create_cut AtCache env st subject key req j
    in create_decide env' cut subject key req' j = (Inl storage_unavailable, cut)"
proof -
  obtain t where t: "now_rfc3339 env = Inr t" and key: "map_of (ap_idempotency st) (subject, key) = None"
    using assms(1-3) by (auto simp: create_decide_def Let_def split: option.splits sum.splits memory_operation.splits if_splits)
  let ?cut = "create_cut AtCache env st subject key req j"
  have "map_of (ap_idempotency ?cut) (subject, key) = Some (MCreate (ce_new_uuid env) j)" "ap_quotes ?cut = ap_quotes st"
    "ap_database ?cut = None"
    using t key assms(1) by (simp_all add: create_cut_def create_decide_def memory_event_def new_record_def Let_def update_conv')
  then show ?thesis using assms(4) by (simp add: create_decide_def [of env'])
qed

text \<open>A submission against a healthy database with one context, cut while it waits to cache its record.\<close>

definition cut_state :: app_state where
  "cut_state = app_state_new \<lparr>internal_auth_token = ''tok'', shared_audience = None\<rparr> ''m'' (Some example_store) True False"

definition cut_call :: call_env where
  "cut_call = example_call\<lparr>ce_store_env := example_env\<lparr>request_to_value := (\<lambda>_. Some JNull)\<rparr>\<rparr>"

lemma cut_call_create:
  "\<exists>ctx ev rec s'. create_quote healthy (ce_store_env cut_call) ''alice'' ''key-00001'' example_accepted
      (new_record st 1 ''alice'' (wire example_accepted) ''t'') example_store = (Inr (Created ctx ev rec), s') \<and> quote_id rec = 1"
  by (simp add: cut_call_def example_call_def create_quote_def transact_def healthy_def create_quote_body_def create_quote_new_def
      exec_def find_operation_def example_store_def empty_store_def example_env_def active_context_def new_record_def
      context_validate_def context_from_row_def insert_operation_def insert_event_def quote_row_def new_quote_row_def
      event_from_row_def Let_def schema_key_check_def ascii_defs)

lemma cut_call_accepted:
  "\<exists>resp st' w. create_quote_handler cut_call example_headers (JObject []) cut_state = (Inr (202, resp), st') \<and>
     ap_workers st' = ap_workers cut_state @ [w] \<and> quote_id (wk_record w) = 1"
proof -
  have auth: "authenticate i example_headers (ap_auth cut_state) scopes = Inr ''alice''" for i scopes
    using example_head(1) by (simp add: cut_state_def example_memory_def app_state_new_def)
  have parse: "parse_quote_request (ce_from_value cut_call) (ce_is_accepted cut_call) (ce_markdown cut_call) (JObject []) = Inr example_accepted"
    using example_parse by (simp add: cut_call_def)
  have admitted: "admit cut_call cut_state ''alice'' =
     (Inr (), cut_state\<lparr>ap_windows := \<lparr>all_subjects = [0], by_subject = [(''alice'', [0])]\<rparr>, ap_permits := 3\<rparr>)"
    using example_windows by (simp add: admit_def cut_state_def app_state_new_def cut_call_def example_call_def)
  have c: "ce_to_value cut_call q = Some JNull" "now_rfc3339 cut_call = Inr ''t''" "ce_new_uuid cut_call = 1" "ce_faults cut_call = healthy" for q
    by (simp_all add: cut_call_def example_call_def now_rfc3339_def)
  let ?st1 = "cut_state\<lparr>ap_windows := \<lparr>all_subjects = [0], by_subject = [(''alice'', [0])]\<rparr>, ap_permits := 3\<rparr>"
  obtain ctx ev rec s' where created: "create_quote healthy (ce_store_env cut_call) ''alice'' ''key-00001'' example_accepted
      (new_record ?st1 1 ''alice'' (wire example_accepted) ''t'') example_store = (Inr (Created ctx ev rec), s')" "quote_id rec = 1"
    using cut_call_create by blast
  have m: "ap_database cut_state = Some example_store" by (simp add: cut_state_def app_state_new_def)
  show ?thesis
    by (simp add: create_quote_handler_def auth example_head(2) parse admitted c create_decide_def m created submit_finish_def
        cache_quote_def publish_event_def Let_def)
qed

theorem cut_submission_stuck_witness:
  "\<exists>r. qr_id r = 1 \<and> qr_status r = ''queued'' \<and>
     (\<forall>is. unattended (qr_owner r) 1 r (run life_step (create_quote_cut AtCache cut_call example_headers (JObject []) cut_state) is))"
proof -
  obtain resp st' w where h: "create_quote_handler cut_call example_headers (JObject []) cut_state = (Inr (202, resp), st')"
    and w: "ap_workers st' = ap_workers cut_state @ [w]" "quote_id (wk_record w) = 1"
    using cut_call_accepted by blast
  show ?thesis
    using cut_submission_stuck [OF h w(1), of example_store AtCache] w(2)
    by (auto simp: cut_state_def app_state_new_def created_unseen_def)
qed

end
