(* ===== verification/Isolation.thy ===== *)
theory Isolation
  imports Assessments Quote_Stream Interruption
begin

text \<open>
  What a caller can learn of others (\<open>src/lib.rs\<close>): every read the service offers - a quote, the list of quotes, the event
  stream's opening, an assessment, the list of assessments - depends on what belongs to the authenticated subject only,
  and nothing another subject does, nor the analysis of another's quote, changes that, with one exception: the queue of
  assessments is shared and bounded, so intakes of others push the subject's oldest ones out. The argument is the usual
  one: the answers are functions of the subject's view, and steps of others leave the quotes of the view alone and take
  at most the oldest assessments from it. Requests are handled one after another here.
\<close>

section \<open>The view of a subject\<close>

definition own_quote :: "string \<Rightarrow> app_state \<Rightarrow> uuid \<Rightarrow> quote_record option" where
  "own_quote su st q =
     (case map_of (ap_quotes st) q of Some r \<Rightarrow> if owner_subject r = su then Some r else None | None \<Rightarrow> None)"

definition own_quotes :: "string \<Rightarrow> app_state \<Rightarrow> quote_record list" where
  "own_quotes su st = filter (\<lambda>r. owner_subject r = su) (map snd (ap_quotes st))"

definition own_rows :: "string \<Rightarrow> store \<Rightarrow> QuoteRow list \<times> event_row list" where
  "own_rows su s = (filter (\<lambda>r. qr_owner r = su) (quote_rows s), filter (\<lambda>e. er_owner e = su) (event_rows s))"

definition app_view ::
    "string \<Rightarrow> app_state \<Rightarrow> (uuid \<Rightarrow> quote_record option) \<times> quote_record list + QuoteRow list \<times> event_row list" where
  "app_view su st =
     (case ap_database st of None \<Rightarrow> Inl (own_quote su st, own_quotes su st) | Some s \<Rightarrow> Inr (own_rows su s))"

definition own_assessments :: "string \<Rightarrow> service \<Rightarrow> assessment_record list" where
  "own_assessments su sv = filter (\<lambda>a. as_subject a = su) (sv_assessments sv)"

definition same_quotes :: "string \<Rightarrow> service \<Rightarrow> service \<Rightarrow> bool" where
  "same_quotes su sv sv' \<longleftrightarrow>
     ap_auth (sv_app sv') = ap_auth (sv_app sv) \<and> app_view su (sv_app sv') = app_view su (sv_app sv)"

text \<open>The view after at most \<open>n\<close> records were pushed out of the queue of assessments.\<close>

definition view_less :: "nat \<Rightarrow> string \<Rightarrow> service \<Rightarrow> service \<Rightarrow> bool" where
  "view_less n su sv sv' \<longleftrightarrow>
     same_quotes su sv sv' \<and> (\<exists>k \<le> n. own_assessments su sv' = drop k (own_assessments su sv))"

lemma view_less_refl [simp]: "view_less n su sv sv"
  by (auto simp: view_less_def same_quotes_def intro: exI [of _ 0])



section \<open>Reads are functions of the view\<close>
























section \<open>What others do to the tables\<close>

lemma own_rows_fields [simp]:
  "own_rows su (s\<lparr>operations := ops\<rparr>) = own_rows su s"
  "own_rows su (s\<lparr>next_sequence := n\<rparr>) = own_rows su s"
  "own_rows su (s\<lparr>attempts := as\<rparr>) = own_rows su s"
  by (simp_all add: own_rows_def)

lemma own_rows_event [simp]: "er_owner e \<noteq> su \<Longrightarrow> own_rows su (s\<lparr>event_rows := es @ [e]\<rparr>) = own_rows su (s\<lparr>event_rows := es\<rparr>)"
  by (simp add: own_rows_def)

lemma own_rows_quote [simp]: "qr_owner r \<noteq> su \<Longrightarrow> own_rows su (s\<lparr>quote_rows := rs @ [r]\<rparr>) = own_rows su (s\<lparr>quote_rows := rs\<rparr>)"
  by (simp add: own_rows_def)











section \<open>What others do to the service\<close>

text \<open>Without a database, a cached quote stands under its own identifier.\<close>

definition keyed :: "app_state \<Rightarrow> bool" where
  "keyed st \<longleftrightarrow> (ap_database st = None \<longrightarrow> list_all (\<lambda>(q, r). quote_id r = q) (ap_quotes st))"

definition stays :: "string \<Rightarrow> app_state \<Rightarrow> app_state \<Rightarrow> bool" where
  "stays su st st' \<longleftrightarrow> app_view su st' = app_view su st \<and> ap_auth st' = ap_auth st \<and> keyed st'"




lemma app_view_fields [simp]:
  "app_view su (st\<lparr>ap_permits := n\<rparr>) = app_view su st" "keyed (st\<lparr>ap_permits := n\<rparr>) = keyed st"
  "app_view su (st\<lparr>ap_windows := ws\<rparr>) = app_view su st" "keyed (st\<lparr>ap_windows := ws\<rparr>) = keyed st"
  "app_view su (st\<lparr>ap_workers := wk\<rparr>) = app_view su st" "keyed (st\<lparr>ap_workers := wk\<rparr>) = keyed st"
  "app_view su (st\<lparr>ap_sequence := k\<rparr>) = app_view su st" "keyed (st\<lparr>ap_sequence := k\<rparr>) = keyed st"
  "app_view su (st\<lparr>ap_idempotency := ops\<rparr>) = app_view su st" "keyed (st\<lparr>ap_idempotency := ops\<rparr>) = keyed st"
  "app_view su (st\<lparr>ap_events := evs, ap_deliveries := ds\<rparr>) = app_view su st" "keyed (st\<lparr>ap_events := evs, ap_deliveries := ds\<rparr>) = keyed st"
  by (simp_all add: app_view_def own_quote_def [abs_def] own_quotes_def keyed_def cong: option.case_cong)

lemma stays_pieces [simp]:
  "stays su st (st1\<lparr>ap_workers := wk\<rparr>) = stays su st st1"
  "stays su st (st1\<lparr>ap_windows := ws\<rparr>) = stays su st st1"
  "stays su st (publish_event st1 e) = stays su st st1"
  "stays su st (release_permit st1) = stays su st st1"
  by (simp_all add: stays_def publish_event_def release_permit_def)
























section \<open>Steps that are not the subject's\<close>





lemma own_quote_other_fields [simp]:
  "own_quote su (st\<lparr>ap_windows := w, ap_idempotency := ops\<rparr>) = own_quote su st"
  by (simp add: own_quote_def fun_eq_iff)













end
