(* ===== verification/Server.thy ===== *)
theory Server
  imports Isolation Envelope Work_Queue
begin

text \<open>
  The router of \<open>build_router\<close> (\<open>src/lib.rs\<close>) as a whole: a request passes the response headers and the envelope, is
  routed, has its arguments extracted, and reaches its handler, which may be cut at the deadline. The extractors belong
  to \<open>axum\<close>: what they make of the path, the query, the body and the upgrade of a request is part of the request here,
  a rejection being its status and its text. The routers that \<open>main\<close> merges beside this one have no part in it.
  A request is one step here; what other requests do between the awaits of a handler is the matter of \<open>Quotes\<close>,
  \<open>Quote_Memory\<close> and \<open>Interruption\<close>.
\<close>

section \<open>Requests and answers\<close>

text \<open>A request carries the answers of its extractors (\<open>rq_path_text\<close> for an identifier that does not parse), the moments
  in milliseconds at which it enters the outermost layer and the envelope and at which its handler would be done, and
  where its handler stands if it is cut.\<close>

record http_request =
  rq_method :: http_method
  rq_path :: "string list"
  rq_headers :: header_map
  rq_path_text :: string
  rq_body :: "nat \<times> string + json"
  rq_query :: "nat \<times> string + int option \<times> string option"
  rq_upgrade :: "nat \<times> string + unit"
  rq_arrival :: nat
  rq_now :: nat
  rq_finish :: nat
  rq_cut :: cut_point

datatype answer_body =
    EmptyBody | TextBody string | ProblemBody string string | HealthBody health_response | DataPlaneBody
  | QuotesBody QuoteListResponse | SubmittedBody QuoteSubmissionResponse | QuoteBody QuoteDetail
  | RetriedBody QuoteRetryResponse | StreamBody string quote_event_record
  | FrameworksBody string "framework_descriptor list" | FrameworkBody framework_descriptor
  | AssessmentsBody "assessment_record list" | AssessmentBody assessment_record | WorkItemsBody work_queue_response

text \<open>The service, the free websocket permits and the open streams that hold the others, and the compliance tables.\<close>

record server_world =
  wd_service :: service
  wd_sockets :: nat
  wd_streams :: nat
  wd_tables :: "(grc_tables \<times> bool) option"

record environment =
  en_call :: call_env
  en_grc :: grc_env

type_synonym answer = "response \<times> answer_body"

definition problem :: "api_error \<Rightarrow> answer" where
  "problem e = (\<lparr>rsp_status = err_status e, rsp_headers = resp_headers (into_response e)\<rparr>, ProblemBody (err_code e) (err_message e))"

definition rejected :: "nat \<times> string \<Rightarrow> answer" where
  "rejected r = (status_response (fst r), TextBody (snd r))"

definition bare :: "nat \<Rightarrow> answer" where
  "bare status = (status_response status, EmptyBody)"

definition answered :: "('a \<Rightarrow> nat \<times> answer_body) \<Rightarrow> api_error + 'a \<Rightarrow> answer" where
  "answered f r = (case r of Inl e \<Rightarrow> problem e | Inr x \<Rightarrow> (status_response (fst (f x)), snd (f x)))"

abbreviation wd_app :: "server_world \<Rightarrow> app_state" where
  "wd_app w \<equiv> sv_app (wd_service w)"

definition set_app :: "server_world \<Rightarrow> app_state \<Rightarrow> server_world" where
  "set_app w st = w\<lparr>wd_service := (wd_service w)\<lparr>sv_app := st\<rparr>\<rparr>"


section \<open>Dispatch\<close>

text \<open>The arguments of a handler are extracted in the order of its parameters, the body last; a UUID in the path that
  does not parse is \<open>400\<close>.\<close>

definition with_uuid ::
    "environment \<Rightarrow> http_request \<Rightarrow> server_world \<Rightarrow> string \<Rightarrow> (uuid \<Rightarrow> answer \<times> server_world) \<Rightarrow> answer \<times> server_world" where
  "with_uuid env rq w s f =
     (case ce_uuid_parse (en_call env) s of None \<Rightarrow> (rejected (400, rq_path_text rq), w) | Some q \<Rightarrow> f q)"

definition extracted :: "server_world \<Rightarrow> nat \<times> string + 'a \<Rightarrow> ('a \<Rightarrow> answer \<times> server_world) \<Rightarrow> answer \<times> server_world" where
  "extracted w x f = (case x of Inl r \<Rightarrow> (rejected r, w) | Inr v \<Rightarrow> f v)"

fun route_request :: "environment \<Rightarrow> http_request \<Rightarrow> handler \<Rightarrow> server_world \<Rightarrow> answer \<times> server_world" where
  "route_request env rq Health w = ((status_response 200, HealthBody (health (wd_app w))), w)"
| "route_request env rq Capabilities w = ((status_response 200, DataPlaneBody), w)"
| "route_request env rq ListQuotes w =
     extracted w (rq_query rq) (\<lambda>(limit, cursor).
       let (r, st) = list_quotes_handler (en_call env) (rq_headers rq) limit cursor (wd_app w)
       in (answered (\<lambda>x. (200, QuotesBody x)) r, set_app w st))"
| "route_request env rq CreateQuote w =
     extracted w (rq_body rq) (\<lambda>payload.
       let (r, st) = create_quote_handler (en_call env) (rq_headers rq) payload (wd_app w)
       in (answered (\<lambda>(status, x). (status, SubmittedBody x)) r, set_app w st))"
| "route_request env rq (GetQuote s) w =
     with_uuid env rq w s (\<lambda>q.
       let (r, st) = get_quote_handler (en_call env) (rq_headers rq) q (wd_app w)
       in (answered (\<lambda>x. (200, QuoteBody x)) r, set_app w st))"
| "route_request env rq (RetryQuote s) w =
     with_uuid env rq w s (\<lambda>q.
       let (r, st) = retry_quote_handler (en_call env) (rq_headers rq) q (wd_app w)
       in (answered (\<lambda>(status, x). (status, RetriedBody x)) r, set_app w st))"
| "route_request env rq (QuoteEvents s) w =
     with_uuid env rq w s (\<lambda>q. extracted w (rq_upgrade rq) (\<lambda>_.
       let (r, st, sockets) = quote_events (en_call env) (rq_headers rq) q (wd_app w) (wd_sockets w)
       in (answered (\<lambda>(subject, ev). (101, StreamBody subject ev)) r, (set_app w st)\<lparr>wd_sockets := sockets, wd_streams := wd_streams w + (if isl r then 0 else 1)\<rparr>)))"
| "route_request env rq ListFrameworks w = ((status_response 200, FrameworksBody (fst list_frameworks_handler) (snd list_frameworks_handler)), w)"
| "route_request env rq (GetFramework s) w = (answered (\<lambda>x. (200, FrameworkBody x)) (get_framework_handler s), w)"
| "route_request env rq ListAssessments w =
     (answered (\<lambda>x. (200, AssessmentsBody x)) (list_assessments_handler (en_call env) (rq_headers rq) (wd_service w)), w)"
| "route_request env rq handler.CreateAssessment w =
     extracted w (rq_body rq) (\<lambda>payload.
       let (r, sv) = create_assessment_handler (en_call env) (rq_headers rq) payload (wd_service w)
       in (answered (\<lambda>(status, x). (status, AssessmentBody x)) r, w\<lparr>wd_service := sv\<rparr>))"
| "route_request env rq (GetAssessment s) w =
     with_uuid env rq w s (\<lambda>a.
       (answered (\<lambda>x. (200, AssessmentBody x)) (get_assessment_handler (en_call env) (rq_headers rq) a (wd_service w)), w))"
| "route_request env rq ListWorkItems w =
     (answered (\<lambda>x. (200, WorkItemsBody x))
        (list_work_items (en_grc env) (ap_auth (wd_app w)) (wd_tables w) (rq_headers rq)), w)"

text \<open>What a handler that is cut leaves behind. Of \<open>create_assessment\<close> that is at most the counted submission: the write
  guard of the keys is its last await. \<open>quote_events\<close> may be cut after it has cached the record it looked up.\<close>

definition create_assessment_cut :: "call_env \<Rightarrow> header_map \<Rightarrow> json \<Rightarrow> service \<Rightarrow> service" where
  "create_assessment_cut env headers payload sv =
     (case authenticate (ce_introspect env) headers (ap_auth (sv_app sv)) [] of
        Inl _ \<Rightarrow> sv
      | Inr subject \<Rightarrow>
        (case (required_idempotency_key headers, parse_assessment_request payload) of
           (Inr _, Inr _) \<Rightarrow> set_windows sv (snd (check_submission (ap_windows (sv_app sv)) (ce_instant env, subject)))
         | _ \<Rightarrow> sv))"

fun route_cut :: "environment \<Rightarrow> http_request \<Rightarrow> handler \<Rightarrow> server_world \<Rightarrow> server_world" where
  "route_cut env rq CreateQuote w =
     (case rq_body rq of
        Inl _ \<Rightarrow> w
      | Inr payload \<Rightarrow> set_app w (create_quote_cut (rq_cut rq) (en_call env) (rq_headers rq) payload (wd_app w)))"
| "route_cut env rq (RetryQuote s) w =
     (case ce_uuid_parse (en_call env) s of
        None \<Rightarrow> w
      | Some q \<Rightarrow> set_app w (retry_quote_cut (rq_cut rq) (en_call env) (rq_headers rq) q (wd_app w)))"
| "route_cut env rq handler.CreateAssessment w =
     (case (rq_body rq, rq_cut rq) of
        (Inr payload, AtKey) \<Rightarrow> w\<lparr>wd_service := create_assessment_cut (en_call env) (rq_headers rq) payload (wd_service w)\<rparr>
      | _ \<Rightarrow> w)"
| "route_cut env rq (QuoteEvents s) w =
     (case (ce_uuid_parse (en_call env) s, rq_upgrade rq,
            authenticate (ce_introspect (en_call env)) (rq_headers rq) (ap_auth (wd_app w)) [''quotes:read''], rq_cut rq) of
        (Some q, Inr _, Inr subject, AtCache) \<Rightarrow> set_app w (snd (find_quote (en_call env) (wd_app w) q subject))
      | _ \<Rightarrow> w)"
| "route_cut env rq _ w = w"


section \<open>The layers\<close>

text \<open>The answer to \<open>HEAD\<close> has no body.\<close>

definition inner :: "environment \<Rightarrow> http_request \<Rightarrow> server_world \<Rightarrow> answer \<times> server_world" where
  "inner env rq w =
     (case build_router (rq_path rq) (rq_method rq) of
        Handle h \<Rightarrow>
          let ((ready, body), after) = route_request env rq h w
          in ((ready, if rq_method rq = HEAD then EmptyBody else body), after)
      | MethodNotAllowed \<Rightarrow> (bare 405, w)
      | NotFound \<Rightarrow> (bare 404, w))"

definition inner_cut :: "environment \<Rightarrow> http_request \<Rightarrow> server_world \<Rightarrow> server_world" where
  "inner_cut env rq w = (case build_router (rq_path rq) (rq_method rq) of Handle h \<Rightarrow> route_cut env rq h w | _ \<Rightarrow> w)"

definition admitted :: "header_map \<Rightarrow> bool" where
  "admitted headers \<longleftrightarrow>
     request_headers_within_budget headers \<and> request_encoding_supported headers \<and> \<not> isl (request_duration headers)"

text \<open>The moment of the answer, the answer, and the world it leaves. The \<open>TimeoutLayer\<close> of 90 seconds is outside the security
  headers, which are outside the envelope. Its clock starts when the request arrives, the envelope's when the request
  gets there. What each leaves is the world untouched when the envelope refuses the request or is not reached in time,
  the handler's when it is ready in time, and what its cut leaves otherwise.\<close>

definition serve :: "environment \<Rightarrow> http_request \<Rightarrow> server_world \<Rightarrow> (nat \<times> answer) \<times> server_world" where
  "serve env rq w =
     (let ((ready, body), after) = inner env rq w;
          (finished, response) = enforce_request_envelope (\<lambda>_. (rq_finish rq, ready)) (rq_now rq) (rq_headers rq);
          expires = rq_now rq + (case request_duration (rq_headers rq) of Inl _ \<Rightarrow> 0 | Inr d \<Rightarrow> d);
          in_time = (admitted (rq_headers rq) \<and> rq_finish rq \<le> expires);
          timeout = rq_arrival rq + MAX_REQUEST_DURATION
      in if finished \<le> timeout
         then ((finished, security_headers response, if in_time then body else EmptyBody),
               if \<not> admitted (rq_headers rq) then w else if in_time then after else inner_cut env rq w)
         else ((timeout, status_response 408, EmptyBody),
               if admitted (rq_headers rq) \<and> rq_now rq \<le> timeout then inner_cut env rq w else w))"


lemma inner_handle:
  "build_router (rq_path rq) (rq_method rq) = Handle h \<Longrightarrow>
   inner env rq w =
     ((fst (fst (route_request env rq h w)), if rq_method rq = HEAD then EmptyBody else snd (fst (route_request env rq h w))),
      snd (route_request env rq h w))"
  by (simp add: inner_def Let_def case_prod_beta)


section \<open>Without credentials nothing happens\<close>

text \<open>Who is asking, for each kind of route.\<close>

fun public :: "handler \<Rightarrow> bool" where
  "public Health = True"
| "public Capabilities = True"
| "public ListFrameworks = True"
| "public (GetFramework s) = True"
| "public _ = False"

definition anonymous :: "environment \<Rightarrow> header_map \<Rightarrow> auth_state \<Rightarrow> bool" where
  "anonymous env headers st \<longleftrightarrow>
     list_all (\<lambda>scopes. isl (authenticate (ce_introspect (en_call env)) headers st scopes))
       [[], [''quotes:read''], [''quotes:write'']] \<and>
     isl (authenticate_tenant (ge_introspect (en_grc env)) (ge_uuid_parse (en_grc env)) (ge_uuid_str (en_grc env)) headers st [''grc:read''])"

lemma anonymous_D:
  assumes "anonymous env headers st"
  obtains e1 e2 e3 where
    "authenticate (ce_introspect (en_call env)) headers st [] = Inl e1"
    "authenticate (ce_introspect (en_call env)) headers st [''quotes:read''] = Inl e2"
    "authenticate (ce_introspect (en_call env)) headers st [''quotes:write''] = Inl e3"
  using assms unfolding anonymous_def by (auto simp: isl_def)

lemma set_app_same [simp]: "set_app w (wd_app w) = w"
  by (simp add: set_app_def)

lemma anonymous_dispatch:
  assumes "anonymous env (rq_headers rq) (ap_auth (wd_app w))"
  shows "snd (route_request env rq h w) = w" and "route_cut env rq h w = w"
proof -
  obtain e1 e2 e3 where auth: "authenticate (ce_introspect (en_call env)) (rq_headers rq) (ap_auth (wd_app w)) [] = Inl e1"
    "authenticate (ce_introspect (en_call env)) (rq_headers rq) (ap_auth (wd_app w)) [''quotes:read''] = Inl e2"
    "authenticate (ce_introspect (en_call env)) (rq_headers rq) (ap_auth (wd_app w)) [''quotes:write''] = Inl e3"
    using assms by (rule anonymous_D)
  show "snd (route_request env rq h w) = w"
    by (cases h) (auto simp: extracted_def with_uuid_def auth list_quotes_handler_def create_quote_handler_def get_quote_handler_def
        retry_quote_handler_def quote_events_def create_assessment_handler_def split: sum.split option.split)
  show "route_cut env rq h w = w"
    by (cases h) (auto simp: auth create_quote_cut_def retry_quote_cut_def create_assessment_cut_def
        split: sum.split option.split cut_point.split)
qed


lemma authenticate_refused: "authenticate i headers st scopes = Inl e \<Longrightarrow> err_status e = 401"
  by (auto simp: authenticate_def authenticate_bearer_def Let_def result_bind_Inl_iff ok_or_iff unauthorized_def
      api_error_defs split: if_splits)

lemma authenticate_tenant_refused: "authenticate_tenant i up us headers st scopes = Inl e \<Longrightarrow> err_status e = 401"
  by (auto simp: authenticate_tenant_def Let_def result_bind_Inl_iff ok_or_iff tenant_unauthorized_def api_error_defs split: if_splits)

text \<open>A refusal says nothing but what an extractor made of the request itself, or that the credentials are missing.\<close>

definition refusal :: "http_request \<Rightarrow> answer \<Rightarrow> bool" where
  "refusal rq a \<longleftrightarrow>
     (case snd a of
        EmptyBody \<Rightarrow> True
      | TextBody text \<Rightarrow> text = rq_path_text rq \<or>
          (\<exists>status. rq_body rq = Inl (status, text) \<or> rq_query rq = Inl (status, text) \<or> rq_upgrade rq = Inl (status, text))
      | ProblemBody code message \<Rightarrow> rsp_status (fst a) = 401
      | _ \<Rightarrow> False)"

lemma refusal_problem: "err_status e = 401 \<Longrightarrow> refusal rq (answered f (Inl e))"
  by (simp add: refusal_def answered_def problem_def)

lemma refusal_rejected:
  "refusal rq (rejected (400, rq_path_text rq))" "rq_body rq = Inl r \<Longrightarrow> refusal rq (rejected r)"
  "rq_query rq = Inl r \<Longrightarrow> refusal rq (rejected r)" "rq_upgrade rq = Inl r \<Longrightarrow> refusal rq (rejected r)"
  by (cases r; auto simp: refusal_def rejected_def)+

lemma anonymous_refused:
  assumes "anonymous env (rq_headers rq) (ap_auth (wd_app w))" and "\<not> public h"
  shows "refusal rq (fst (route_request env rq h w))"
proof -
  obtain e1 e2 e3 where auth: "authenticate (ce_introspect (en_call env)) (rq_headers rq) (ap_auth (wd_app w)) [] = Inl e1"
    "authenticate (ce_introspect (en_call env)) (rq_headers rq) (ap_auth (wd_app w)) [''quotes:read''] = Inl e2"
    "authenticate (ce_introspect (en_call env)) (rq_headers rq) (ap_auth (wd_app w)) [''quotes:write''] = Inl e3"
    using assms(1) by (rule anonymous_D)
  obtain e4 where tenant: "authenticate_tenant (ge_introspect (en_grc env)) (ge_uuid_parse (en_grc env)) (ge_uuid_str (en_grc env))
      (rq_headers rq) (ap_auth (wd_app w)) [''grc:read''] = Inl e4"
    using assms(1) by (auto simp: anonymous_def isl_def)
  have refused: "refusal rq (answered f (Inl e1))" "refusal rq (answered f' (Inl e2))" "refusal rq (answered f'' (Inl e3))"
      "refusal rq (answered g (Inl e4))"
    for f :: "'a \<Rightarrow> _" and f' :: "'b \<Rightarrow> _" and f'' :: "'c \<Rightarrow> _" and g :: "'d \<Rightarrow> _"
    using auth [THEN authenticate_refused] authenticate_tenant_refused [OF tenant] by (simp_all add: refusal_problem)
  show ?thesis
    using assms(2)
    by (cases h) (auto simp: extracted_def with_uuid_def refusal_rejected refused auth tenant list_quotes_handler_def create_quote_handler_def
        get_quote_handler_def retry_quote_handler_def quote_events_def create_assessment_handler_def list_assessments_handler_def
        get_assessment_handler_def list_work_items_def split: sum.split option.split)
qed

text \<open>And it does not depend on what the server holds.\<close>

lemma anonymous_same:
  assumes "anonymous env (rq_headers rq) (ap_auth (wd_app w))" and "\<not> public h" and "ap_auth (wd_app v) = ap_auth (wd_app w)"
  shows "fst (route_request env rq h v) = fst (route_request env rq h w)"
proof -
  obtain e1 e2 e3 where auth: "authenticate (ce_introspect (en_call env)) (rq_headers rq) (ap_auth (wd_app w)) [] = Inl e1"
    "authenticate (ce_introspect (en_call env)) (rq_headers rq) (ap_auth (wd_app w)) [''quotes:read''] = Inl e2"
    "authenticate (ce_introspect (en_call env)) (rq_headers rq) (ap_auth (wd_app w)) [''quotes:write''] = Inl e3"
    using assms(1) by (rule anonymous_D)
  obtain e4 where tenant: "authenticate_tenant (ge_introspect (en_grc env)) (ge_uuid_parse (en_grc env)) (ge_uuid_str (en_grc env))
      (rq_headers rq) (ap_auth (wd_app w)) [''grc:read''] = Inl e4"
    using assms(1) by (auto simp: anonymous_def isl_def)
  show ?thesis
    using assms(2)
    by (cases h) (simp_all add: assms(3) extracted_def with_uuid_def auth tenant list_quotes_handler_def create_quote_handler_def
        get_quote_handler_def retry_quote_handler_def quote_events_def create_assessment_handler_def list_assessments_handler_def
        get_assessment_handler_def list_work_items_def split: sum.split option.split)
qed

lemma envelope_refused:
  assumes "\<not> admitted headers"
  obtains status where "enforce_request_envelope next now headers = (now, status_response status)" "status \<in> {400, 408, 415, 431}"
proof -
  have err: "status \<in> {400, 408}" if "request_duration headers = Inl status" for status
    using that by (auto simp: request_duration_def result_bind_Inl_iff ok_or_iff split: option.splits if_splits)
  show ?thesis
  proof (cases "request_headers_within_budget headers \<and> request_encoding_supported headers")
    case True
    then obtain status where "request_duration headers = Inl status" using assms by (auto simp: admitted_def isl_def)
    then show ?thesis using True err by (intro that [of status]) (auto simp: enforce_request_envelope_def)
  next
    case False
    then show ?thesis
      by (intro that [of "if request_headers_within_budget headers then 415 else 431"]) (auto simp: enforce_request_envelope_def)
  qed
qed

lemma envelope_admitted:
  assumes "admitted headers"
  obtains d where "request_duration headers = Inr d"
    "enforce_request_envelope next now headers =
       (if fst (next (now + d)) \<le> now + d then next (now + d) else (now + d, status_response 408))"
proof -
  obtain d where d: "request_duration headers = Inr d"
    using assms by (cases "request_duration headers") (simp_all add: admitted_def)
  show ?thesis
    by (rule that [OF d]) (use assms d in \<open>auto simp: admitted_def enforce_request_envelope_def Let_def split: prod.split\<close>)
qed

text \<open>How a request ends: refused by the envelope, done by its handler, cut by the envelope, or timed out.\<close>

lemma serve_parts:
  assumes "serve env rq w = ((finished, response, body), w')"
  obtains (refused) status where "\<not> admitted (rq_headers rq)" "w' = w" "body = EmptyBody" "finished = rq_now rq"
      "response = security_headers (status_response status)" "status \<in> {400, 408, 415, 431}" "finished \<le> rq_arrival rq + MAX_REQUEST_DURATION"
  | (completed) ready d where "admitted (rq_headers rq)" "request_duration (rq_headers rq) = Inr d" "rq_finish rq \<le> rq_now rq + d"
      "inner env rq w = ((ready, body), w')" "response = security_headers ready" "finished = rq_finish rq"
      "finished \<le> rq_arrival rq + MAX_REQUEST_DURATION"
  | (cut) d where "admitted (rq_headers rq)" "request_duration (rq_headers rq) = Inr d" "rq_now rq + d < rq_finish rq"
      "w' = inner_cut env rq w" "body = EmptyBody" "response = security_headers (status_response 408)" "finished = rq_now rq + d"
      "finished \<le> rq_arrival rq + MAX_REQUEST_DURATION"
  | (unreached) "rq_arrival rq + MAX_REQUEST_DURATION < rq_now rq" "w' = w" "body = EmptyBody" "response = status_response 408"
      "finished = rq_arrival rq + MAX_REQUEST_DURATION"
  | (timeout) d where "admitted (rq_headers rq)" "request_duration (rq_headers rq) = Inr d"
      "rq_now rq \<le> rq_arrival rq + MAX_REQUEST_DURATION" "rq_arrival rq + MAX_REQUEST_DURATION < min (rq_finish rq) (rq_now rq + d)"
      "w' = inner_cut env rq w" "body = EmptyBody" "response = status_response 408" "finished = rq_arrival rq + MAX_REQUEST_DURATION"
proof -
  obtain ready b after where i: "inner env rq w = ((ready, b), after)" by (metis surj_pair)
  let ?timeout = "rq_arrival rq + MAX_REQUEST_DURATION"
  show ?thesis
  proof (cases "admitted (rq_headers rq)")
    case True
    obtain d where d: "request_duration (rq_headers rq) = Inr d"
      and e: "enforce_request_envelope (\<lambda>_. (rq_finish rq, ready)) (rq_now rq) (rq_headers rq) =
        (if rq_finish rq \<le> rq_now rq + d then (rq_finish rq, ready) else (rq_now rq + d, status_response 408))"
      using envelope_admitted [OF True, of "\<lambda>_. (rq_finish rq, ready)" "rq_now rq"] by auto
    consider "rq_finish rq \<le> rq_now rq + d" "rq_finish rq \<le> ?timeout" | "rq_now rq + d < rq_finish rq" "rq_now rq + d \<le> ?timeout"
      | "?timeout < rq_now rq" "?timeout < min (rq_finish rq) (rq_now rq + d)"
      | "rq_now rq \<le> ?timeout" "?timeout < min (rq_finish rq) (rq_now rq + d)"
      by linarith
    then show ?thesis
    proof cases
      case 1
      then show ?thesis using assms i d e True by (intro completed [of d ready]) (auto simp: serve_def Let_def)
    next
      case 2
      then show ?thesis using assms i d e True by (intro cut [of d]) (auto simp: serve_def Let_def)
    next
      case 3
      then show ?thesis using assms i d e True by (intro unreached) (auto simp: serve_def Let_def split: if_splits)
    next
      case 4
      then show ?thesis using assms i d e True by (intro timeout [of d]) (auto simp: serve_def Let_def split: if_splits)
    qed
  next
    case False
    obtain status where e: "enforce_request_envelope (\<lambda>_. (rq_finish rq, ready)) (rq_now rq) (rq_headers rq) = (rq_now rq, status_response status)"
      and status: "status \<in> {400, 408, 415, 431}"
      using False by (rule envelope_refused)
    show ?thesis
    proof (cases "rq_now rq \<le> ?timeout")
      case True
      then show ?thesis using assms i e False status by (intro refused [of status]) (auto simp: serve_def Let_def)
    next
      case late: False
      then show ?thesis using assms i e False by (intro unreached) (auto simp: serve_def Let_def)
    qed
  qed
qed

lemma anonymous_inner:
  assumes "anonymous env (rq_headers rq) (ap_auth (wd_app w))"
    and "\<And>h. build_router (rq_path rq) (rq_method rq) = Handle h \<Longrightarrow> \<not> public h"
  shows "snd (inner env rq w) = w" and "refusal rq (fst (inner env rq w))"
    and "ap_auth (wd_app v) = ap_auth (wd_app w) \<Longrightarrow> fst (inner env rq v) = fst (inner env rq w)"
proof -
  have "snd (inner env rq w) = w \<and> refusal rq (fst (inner env rq w)) \<and>
      (ap_auth (wd_app v) = ap_auth (wd_app w) \<longrightarrow> fst (inner env rq v) = fst (inner env rq w))"
  proof (cases "build_router (rq_path rq) (rq_method rq)")
    case (Handle h)
    have "refusal rq (r, if rq_method rq = HEAD then EmptyBody else b)" if "refusal rq (r, b)" for r b
      using that by (simp add: refusal_def)
    then show ?thesis
      using Handle anonymous_dispatch(1) [OF assms(1)] anonymous_refused [OF assms(1) assms(2) [OF Handle]]
        anonymous_same [OF assms(1) assms(2) [OF Handle], of v]
      by (simp add: inner_handle)
  qed (simp_all add: inner_def bare_def refusal_def)
  then show "snd (inner env rq w) = w" "refusal rq (fst (inner env rq w))"
    "ap_auth (wd_app v) = ap_auth (wd_app w) \<Longrightarrow> fst (inner env rq v) = fst (inner env rq w)" by blast+
qed

lemma serve_answer_same: "fst (inner env rq v) = fst (inner env rq w) \<Longrightarrow> fst (serve env rq v) = fst (serve env rq w)"
  by (cases "inner env rq v"; cases "inner env rq w") (auto simp: serve_def Let_def split: prod.split)

text \<open>C18: without credentials nothing happens and nothing is told: a request to \<open>build_router\<close> that neither the proxy headers
  nor a bearer token authenticate leaves the world as it was, whatever its route and method, even when it is cut. Unless
  the route is public, its answer is the same whatever the server holds, and has an empty body, the text an extractor
  made of the request itself, or a problem with status 401.\<close>

theorem anonymous_inert:
  assumes "anonymous env (rq_headers rq) (ap_auth (wd_app w))" and "serve env rq w = ((finished, response, body), w')"
  shows "w' = w \<and>
    ((\<exists>h. build_router (rq_path rq) (rq_method rq) = Handle h \<and> public h) \<or>
     refusal rq (response, body) \<and> (\<forall>v. ap_auth (wd_app v) = ap_auth (wd_app w) \<longrightarrow> fst (serve env rq v) = (finished, response, body)))"
proof -
  have "snd (inner env rq w) = w \<and> inner_cut env rq w = w"
    using anonymous_dispatch [OF assms(1)]
    by (cases "build_router (rq_path rq) (rq_method rq)") (simp_all add: inner_def inner_cut_def Let_def case_prod_beta)
  then have same: "w' = w"
    using assms(2) by (elim serve_parts) auto
  have "refusal rq (response, body) \<and> (\<forall>v. ap_auth (wd_app v) = ap_auth (wd_app w) \<longrightarrow> fst (serve env rq v) = (finished, response, body))"
    if "\<And>h. build_router (rq_path rq) (rq_method rq) = Handle h \<Longrightarrow> \<not> public h"
  proof
    note inner = anonymous_inner [OF assms(1) that]
    show "refusal rq (response, body)"
      using assms(2)
    proof (cases rule: serve_parts)
      case (completed ready d)
      then have "refusal rq (ready, body)" using inner(2) by simp
      then show ?thesis using completed(5) by (auto simp: refusal_def security_headers_def split: answer_body.splits)
    qed (simp_all add: refusal_def)
    show "\<forall>v. ap_auth (wd_app v) = ap_auth (wd_app w) \<longrightarrow> fst (serve env rq v) = (finished, response, body)"
      using serve_answer_same [OF inner(3)] assms(2) by fastforce
  qed
  with same show ?thesis by blast
qed

text \<open>A listing without any header, and a submission that announces five milliseconds and takes ten.\<close>

definition example_environment :: environment where
  "example_environment = \<lparr>en_call = example_call, en_grc = example_grc\<rparr>"

definition example_world :: server_world where
  "example_world = \<lparr>wd_service = service_new example_memory, wd_sockets = 5, wd_streams = 0, wd_tables = None\<rparr>"

definition anonymous_request :: http_request where
  "anonymous_request = \<lparr>rq_method = GET, rq_path = [''v1'', ''quotes''], rq_headers = [], rq_path_text = [],
     rq_body = Inl (415, ''no content type''), rq_query = Inr (None, None), rq_upgrade = Inl (426, ''no upgrade''), rq_arrival = 9, rq_now = 10, rq_finish = 20, rq_cut = AtCache\<rparr>"

definition hasty_request :: http_request where
  "hasty_request = \<lparr>rq_method = POST, rq_path = [''v1'', ''quotes''], rq_headers = ascii_header ''x-ores-deadline-ms'' ''5'' # example_headers,
     rq_path_text = [], rq_body = Inr (JObject []), rq_query = Inr (None, None), rq_upgrade = Inl (426, ''no upgrade''), rq_arrival = 9, rq_now = 10, rq_finish = 20, rq_cut = AtCache\<rparr>"

theorem anonymous_inert_witness:
  "\<exists>finished response body. serve example_environment anonymous_request example_world = ((finished, response, body), example_world) \<and>
     refusal anonymous_request (response, body)"
proof -
  have anonymous: "anonymous example_environment (rq_headers anonymous_request) (ap_auth (wd_app example_world))"
    by (simp add: anonymous_def anonymous_request_def authenticate_def authenticate_bearer_def authenticate_tenant_def bearer_token_def
        header_str_def header_get_def Let_def)
  obtain finished response body w where run: "serve example_environment anonymous_request example_world = ((finished, response, body), w)"
    by (metis surj_pair)
  have route: "build_router (rq_path anonymous_request) (rq_method anonymous_request) = Handle ListQuotes"
    by (simp add: anonymous_request_def build_router_def methods_def)
  from anonymous_inert [OF anonymous run] run show ?thesis by (simp add: route)
qed

text \<open>When the envelope would answer, and what the answer and the world then are.\<close>

definition due :: "http_request \<Rightarrow> nat" where
  "due rq =
     (if admitted (rq_headers rq)
      then min (rq_finish rq) (rq_now rq + (case request_duration (rq_headers rq) of Inl _ \<Rightarrow> 0 | Inr d \<Rightarrow> d))
      else rq_now rq)"

text \<open>C39: every request to \<open>build_router\<close> is answered within the layers: not before it arrives and at most 90 seconds later.
  If the envelope's answer is due by then, it is the answer, with each of the seven security headers exactly once: a
  refusal with 431, 415, 400 or 408 that changes nothing, the handler's answer if that is ready within the announced
  milliseconds, or 408, leaving what a handler cut at that moment leaves. Otherwise, and only for a request whose
  announced duration and time before the envelope exceed 90 seconds together, the outer layer answers 408 without any
  header at 90 seconds, and the handler is cut if it has begun.\<close>

theorem served_within_layers:
  assumes "serve env rq w = ((finished, response, body), w')" and "rq_arrival rq \<le> rq_now rq" and "rq_now rq \<le> rq_finish rq"
  shows "rq_arrival rq \<le> finished \<and> finished = min (due rq) (rq_arrival rq + MAX_REQUEST_DURATION) \<and>
    (if due rq \<le> rq_arrival rq + MAX_REQUEST_DURATION
     then list_all (\<lambda>(name, v). map snd (filter (\<lambda>h. fst h = name) (rsp_headers response)) = [v]) SECURITY_HEADERS \<and>
       length SECURITY_HEADERS = 7 \<and>
       (case request_duration (rq_headers rq) of
          Inr d \<Rightarrow>
            if admitted (rq_headers rq)
            then finished \<le> rq_now rq + d \<and>
              (if rq_finish rq \<le> rq_now rq + d
               then w' = snd (inner env rq w) \<and> body = snd (fst (inner env rq w)) \<and> rsp_status response = rsp_status (fst (fst (inner env rq w)))
               else w' = inner_cut env rq w \<and> body = EmptyBody \<and> rsp_status response = 408)
            else w' = w \<and> body = EmptyBody \<and> rsp_status response \<in> {431, 415, 400, 408}
        | Inl _ \<Rightarrow> w' = w \<and> body = EmptyBody \<and> rsp_status response \<in> {431, 415, 400, 408})
     else response = status_response 408 \<and> body = EmptyBody \<and>
       w' = (if admitted (rq_headers rq) \<and> rq_now rq \<le> rq_arrival rq + MAX_REQUEST_DURATION then inner_cut env rq w else w) \<and>
       MAX_REQUEST_DURATION < (rq_now rq - rq_arrival rq) + (case request_duration (rq_headers rq) of Inl _ \<Rightarrow> 0 | Inr d \<Rightarrow> d))"
proof -
  have headers: "list_all (\<lambda>(name, v). map snd (filter (\<lambda>h. fst h = name) (rsp_headers (security_headers r))) = [v]) SECURITY_HEADERS" for r
  proof -
    have "map_of SECURITY_HEADERS name = Some v" if "(name, v) \<in> set SECURITY_HEADERS" for name v
      using that by (intro map_of_is_SomeI) (simp_all add: SECURITY_HEADERS_def)
    then show ?thesis using security_headers_enforced [of _ r] by (auto simp: list_all_iff)
  qed
  have status: "rsp_status (security_headers r) = rsp_status r" for r by (simp add: security_headers_def)
  have seven: "length SECURITY_HEADERS = 7" by (simp add: SECURITY_HEADERS_def)
  from assms(1) show ?thesis
  proof (cases rule: serve_parts)
    case (refused s)
    then show ?thesis using headers seven status assms(2) by (auto simp: due_def admitted_def status_response_def split: sum.split)
  next
    case (completed ready d)
    then show ?thesis using headers seven status assms(2,3) by (simp add: due_def)
  next
    case (cut d)
    then show ?thesis using headers seven status assms(2,3) by (simp add: due_def status_response_def)
  next
    case unreached
    then show ?thesis using assms(2,3) by (auto simp: due_def split: sum.split)
  next
    case (timeout d)
    then show ?thesis using assms(2,3) by (simp add: due_def less_diff_conv)
  qed
qed

text \<open>The submission that announces five milliseconds and takes ten.\<close>

theorem served_within_layers_witness:
  "\<exists>response w'. serve example_environment hasty_request example_world = ((15, response, EmptyBody), w') \<and> rsp_status response = 408 \<and>
     w' = inner_cut example_environment hasty_request example_world"
proof -
  have budget: "request_headers_within_budget (rq_headers hasty_request)" "request_encoding_supported (rq_headers hasty_request)"
    "request_duration (rq_headers hasty_request) = Inr 5"
    by (simp_all add: hasty_request_def example_headers_def request_headers_within_budget_def request_encoding_supported_def
        header_get_all_def request_duration_def header_get_def ascii_header_def parse_unsigned_def parse_digits_def
        digits_value_def is_ascii_digit_def)
  have times: "rq_arrival hasty_request = 9" "rq_now hasty_request = 10" "rq_finish hasty_request = 20" by (simp_all add: hasty_request_def)
  obtain finished response body w where run: "serve example_environment hasty_request example_world = ((finished, response, body), w)"
    by (metis surj_pair)
  have "due hasty_request = 15" using budget times by (simp add: due_def admitted_def)
  with served_within_layers [OF run] run budget times show ?thesis by (auto simp: admitted_def)
qed


section \<open>Capacities\<close>

text \<open>What happens to the server: requests, the steps of the workers, the end of a stream, a restart.\<close>

datatype server_input =
    Request environment http_request
  | BeginWork call_env nat
  | FinishWork call_env nat "gemini_error + json"
  | EndStream
  | RestartServer

definition server_new :: "app_state \<Rightarrow> (grc_tables \<times> bool) option \<Rightarrow> server_world" where
  "server_new st tables = \<lparr>wd_service = service_new st, wd_sockets = WEBSOCKET_MAX_CONNECTIONS, wd_streams = 0, wd_tables = tables\<rparr>"

fun server_step :: "server_world \<Rightarrow> server_input \<Rightarrow> server_world" where
  "server_step w (Request env rq) = snd (serve env rq w)"
| "server_step w (BeginWork env i) = set_app w (app_step (wd_app w) (InBegin env i))"
| "server_step w (FinishWork env i result) = set_app w (app_step (wd_app w) (InFinish env i result))"
| "server_step w EndStream = (if wd_streams w = 0 then w else w\<lparr>wd_streams := wd_streams w - 1, wd_sockets := wd_sockets w + 1\<rparr>)"
| "server_step w RestartServer = server_new (restarted (wd_app w)) (wd_tables w)"

definition capacities_ok :: "server_world \<Rightarrow> bool" where
  "capacities_ok w \<longleftrightarrow>
     permits_ok (wd_app w) \<and> wd_sockets w + wd_streams w = WEBSOCKET_MAX_CONNECTIONS \<and>
     length (sv_assessments (wd_service w)) \<le> READINESS_ASSESSMENT_CAPACITY"

lemma capacities_set_app: "capacities_ok w \<Longrightarrow> permits_ok st \<Longrightarrow> capacities_ok (set_app w st)"
  by (simp add: capacities_ok_def set_app_def)

lemma capacities_assessment:
  assumes "capacities_ok w"
  shows "capacities_ok (w\<lparr>wd_service := snd (create_assessment_handler env headers payload (wd_service w))\<rparr>)"
    and "capacities_ok (w\<lparr>wd_service := create_assessment_cut env headers payload (wd_service w)\<rparr>)"
proof -
  have windows: "permits_ok (sv_app (set_windows sv ws)) = permits_ok (sv_app sv)" "sv_assessments (set_windows sv ws) = sv_assessments sv" for sv ws
    by (simp_all add: set_windows_def permits_ok_def)
  have publish: "permits_ok (sv_app (publish_assessment_event sv ev)) = permits_ok (sv_app sv)"
    "sv_assessments (publish_assessment_event sv ev) = sv_assessments sv" for sv ev
    by (simp_all add: publish_assessment_event_def)
  have store: "permits_ok (sv_app (store_assessment sv r j)) = permits_ok (sv_app sv)" 
    "length (sv_assessments sv) \<le> READINESS_ASSESSMENT_CAPACITY \<Longrightarrow> length (sv_assessments (store_assessment sv r j)) \<le> READINESS_ASSESSMENT_CAPACITY"
    for sv r j
    by (auto simp: store_assessment_def permits_ok_def Let_def split: list.split)
  show "capacities_ok (w\<lparr>wd_service := snd (create_assessment_handler env headers payload (wd_service w))\<rparr>)"
    using assms by (auto simp: capacities_ok_def create_assessment_handler_def windows publish store split: sum.splits prod.splits)
  show "capacities_ok (w\<lparr>wd_service := create_assessment_cut env headers payload (wd_service w)\<rparr>)"
    using assms by (auto simp: capacities_ok_def create_assessment_cut_def windows split: sum.splits prod.splits)
qed

lemma capacities_events:
  assumes "quote_events env headers q (wd_app w) (wd_sockets w) = (r, st, sockets)" and "capacities_ok w"
  shows "capacities_ok ((set_app w st)\<lparr>wd_sockets := sockets, wd_streams := wd_streams w + (if isl r then 0 else 1)\<rparr>)"
proof -
  have find: "slots st' = slots (wd_app w)" if "find_quote env (wd_app w) q su = (x, st')" for su x st'
    using that by (rule slots_find_quote)
  have same: "slots st = slots (wd_app w)"
    using assms(1) by (auto simp: quote_events_def split: sum.splits prod.splits option.splits dest!: find)
  moreover have "if isl r then sockets = wd_sockets w else Suc sockets = wd_sockets w"
    using assms(1) by (auto simp: quote_events_def reserve_websocket_def split: sum.splits prod.splits option.splits if_splits)
  moreover have "permits_ok st = permits_ok (wd_app w)" by (rule permits_pieces) (rule same)
  ultimately show ?thesis using assms(2) by (simp add: capacities_ok_def set_app_def split: if_splits)
qed

lemma capacities_dispatch:
  assumes "capacities_ok w"
  shows "capacities_ok (snd (route_request env rq h w))" and "capacities_ok (route_cut env rq h w)"
proof -
  have ok: "permits_ok (wd_app w)" using assms by (simp add: capacities_ok_def)
  have reads: "permits_ok (snd (list_quotes_handler e headers l c (wd_app w)))" "permits_ok (snd (get_quote_handler e headers q (wd_app w)))"
    for e headers l c q
    using ok permits_pieces [OF list_handler_slots] permits_pieces [OF get_handler_slots] by simp_all
  note steps = capacities_set_app [OF assms] create_handler_permits [OF ok] retry_handler_permits [OF ok] cut_permits [OF ok]
    capacities_assessment [OF assms] assms
  show "capacities_ok (snd (route_request env rq h w))"
  proof (cases h)
    case (QuoteEvents s)
    have "capacities_ok (snd (let (r, st, sockets) = quote_events (en_call env) (rq_headers rq) q (wd_app w) (wd_sockets w)
       in (answered f r, (set_app w st)\<lparr>wd_sockets := sockets, wd_streams := wd_streams w + (if isl r then 0 else 1)\<rparr>)))" for q f
      by (cases "quote_events (en_call env) (rq_headers rq) q (wd_app w) (wd_sockets w)") (simp only: Let_def prod.case snd_conv capacities_events [OF _ assms])
    then show ?thesis using QuoteEvents assms by (simp only: route_request.simps) (simp add: extracted_def with_uuid_def split: sum.split option.split)
  qed (auto simp: extracted_def with_uuid_def steps reads case_prod_beta split: sum.split option.split)
  have found: "capacities_ok (set_app w (snd (find_quote e (wd_app w) q su)))" for e q su
    using permits_pieces [OF slots_find_quote [OF prod.collapse [symmetric]]] ok by (intro capacities_set_app [OF assms]) simp
  show "capacities_ok (route_cut env rq h w)"
    by (cases h) (auto simp: steps found split: sum.split option.split cut_point.split)
qed

interpretation capacities: machine server_step capacities_ok
proof
  fix w i assume ok: "capacities_ok w"
  then have permits: "permits_ok (wd_app w)" by (simp add: capacities_ok_def)
  show "capacities_ok (server_step w i)"
  proof (cases i)
    case (Request env rq)
    obtain finished response body w' where run: "serve env rq w = ((finished, response, body), w')" by (metis surj_pair)
    have cut: "capacities_ok (inner_cut env rq w)"
      using ok capacities_dispatch(2) [OF ok] by (simp add: inner_cut_def split: route_answer.split)
    have "capacities_ok w'"
      using run
    proof (cases rule: serve_parts)
      case (completed ready d)
      then have "w' = snd (inner env rq w)" by simp
      then show ?thesis using ok capacities_dispatch(1) [OF ok] by (simp add: inner_def Let_def case_prod_beta split: route_answer.split)
    qed (use ok cut in simp_all)
    with run Request show ?thesis by simp
  next
    case RestartServer
    then show ?thesis by (simp add: capacities_ok_def server_new_def service_new_def restarted_def app_state_new_def permits_ok_def)
  next
    case EndStream
    then show ?thesis using ok by (auto simp: capacities_ok_def)
  qed (use capacities_set_app [OF ok permits.inv_step [OF permits]] in \<open>simp_all only: server_step.simps\<close>)
qed

text \<open>C3: no capacity is exceeded or leaked: after any sequence of requests - answered, refused, or cut at their deadline - of
  worker steps, ends of streams and restarts, in either storage mode and under any database failures, free analysis
  permits and workers add up to 4, free websocket permits and open streams to 1024, and at most 1024 assessments are
  kept.\<close>

theorem capacities_conserved:
  "let w = run server_step (server_new (app_state_new auth model database gemini webhook) tables) inputs
   in ap_permits (wd_app w) + length (ap_workers (wd_app w)) = 4 \<and> wd_sockets w + wd_streams w = 1024 \<and>
      length (sv_assessments (wd_service w)) \<le> 1024"
proof -
  have "capacities_ok (server_new (app_state_new auth model database gemini webhook) tables)"
    by (simp add: capacities_ok_def server_new_def service_new_def app_state_new_def permits_ok_def)
  from capacities.inv_run [OF this, of inputs] show ?thesis by (simp add: capacities_ok_def permits_ok_def)
qed

end
