(* ===== verification/Redaction.thy ===== *)
theory Redaction
  imports Startup Pre_Interest
begin

text \<open>
  What the process prints of its configuration and its records: the hand-written \<open>Debug\<close> instances of \<open>src/lib.rs\<close>,
  \<open>src/gemini.rs\<close>, \<open>src/webhook.rs\<close>, \<open>src/pre_interest.rs\<close> and \<open>src/readiness_observation_ingest.rs\<close>, and the texts of
  the errors. A value is described by the calls its formatter makes; the layout is the formatter's. The property is that no
  secret has any influence on what is printed, beyond its presence where the code prints that.
\<close>

section \<open>Descriptions\<close>

datatype debug =
    DText string | DRaw string | DBool bool | DNat nat | DNone | DSome debug | DList "debug list"
  | DStruct string "(string \<times> debug) list" | DOpen string "(string \<times> debug) list"

fun debug_option :: "('a \<Rightarrow> debug) \<Rightarrow> 'a option \<Rightarrow> debug" where
  "debug_option f None = DNone"
| "debug_option f (Some x) = DSome (f x)"

abbreviation redacted :: debug where
  "redacted \<equiv> DText ''[redacted]''"

definition config_debug :: "config \<Rightarrow> debug" where
  "config_debug c = DStruct ''Config''
     [(''bind_address'', DText (bind_address c)),
      (''database_url'', debug_option (\<lambda>_. redacted) (database_url c)),
      (''gemini_api_key'', debug_option (\<lambda>_. redacted) (gemini_api_key c)),
      (''gemini_model'', DText (config_gemini_model c)),
      (''internal_auth_token'', redacted),
      (''shared_auth_audience'', DText (shared_auth_audience c)),
      (''shared_auth_configured'', DBool (shared_auth_base c \<noteq> None)),
      (''shared_auth_introspect_secret'', debug_option (\<lambda>_. redacted) (shared_auth_introspect_secret c)),
      (''webhook_configured'', DBool (webhook_endpoint c \<noteq> None)),
      (''webhook_secret'', debug_option (\<lambda>_. redacted) (webhook_secret c))]"

record gemini_client =
  gc_api_key :: string
  gc_model :: string

definition gemini_client_debug :: "gemini_client \<Rightarrow> debug" where
  "gemini_client_debug g = DOpen ''GeminiClient'' [(''api_key'', redacted), (''model'', DText (gc_model g))]"

text \<open>\<open>origin().ascii_serialization()\<close> belongs to the \<open>url\<close> crate.\<close>

definition webhook_debug :: "(url \<Rightarrow> string) \<Rightarrow> webhook_dispatcher \<Rightarrow> debug" where
  "webhook_debug ascii_origin d = DStruct ''WebhookDispatcher''
     [(''endpoint_origin'', DText (ascii_origin (wd_endpoint d))), (''secret'', redacted)]"

definition observation_service_debug :: "observation_service \<Rightarrow> debug" where
  "observation_service_debug os = DStruct ''ObservationService''
     [(''database_configured'', DBool (os_database os \<noteq> None)), (''configured_sources'', DNat (length (os_keys os))),
      (''allow_memory'', DBool (os_allow_memory os))]"

text \<open>The derived \<open>Debug\<close> of an enumeration prints its variant.\<close>

fun party_debug :: "party_type \<Rightarrow> debug" where
  "party_debug Individual = DRaw ''Individual''"
| "party_debug Organization = DRaw ''Organization''"

fun interest_debug :: "interest_area \<Rightarrow> debug" where
  "interest_debug ReadinessAssessment = DRaw ''ReadinessAssessment''"
| "interest_debug Soc2 = DRaw ''Soc2''"
| "interest_debug Iso27001 = DRaw ''Iso27001''"
| "interest_debug Hipaa = DRaw ''Hipaa''"
| "interest_debug PciDss4 = DRaw ''PciDss4''"
| "interest_debug Fedramp = DRaw ''Fedramp''"
| "interest_debug Nist = DRaw ''Nist''"
| "interest_debug Gdpr = DRaw ''Gdpr''"
| "interest_debug Cmmc = DRaw ''Cmmc''"

fun host_debug :: "registration_host \<Rightarrow> debug" where
  "host_debug UserHost = DRaw ''User''"
| "host_debug OrganizationHost = DRaw ''Organization''"

definition sensitive_debug :: "string \<Rightarrow> debug" where
  "sensitive_debug t = DRaw ''[redacted]''"

definition digest_debug :: "string \<Rightarrow> debug" where
  "digest_debug bytes = DRaw ''[opaque-digest]''"

definition registration_debug :: "(uuid \<Rightarrow> string) \<Rightarrow> validated_registration \<Rightarrow> debug" where
  "registration_debug uuid_str v = DStruct ''ValidatedPreInterestRegistration''
     [(''request_id'', DRaw (uuid_str (vr_request_id v))), (''email'', redacted), (''party_type'', party_debug (vr_party_type v)),
      (''organization_name_present'', DBool (vr_organization_name v \<noteq> None)),
      (''interest_areas'', DList (map interest_debug (vr_interest_areas v))),
      (''consent_revision'', DText (vr_consent_revision v)), (''consented_at'', DText (vr_consented_at v)),
      (''source_host'', host_debug (vr_source_host v)), (''locale'', debug_option DText (vr_locale v)),
      (''referral_code_present'', DBool (vr_referral_code v \<noteq> None)),
      (''display_name_present'', DBool (vr_display_name v \<noteq> None)),
      (''website_url_present'', DBool (vr_website_url v \<noteq> None)),
      (''registration_consent'', DBool (vr_registration_consent v)), (''marketing_consent'', DBool (vr_marketing_consent v)),
      (''marketing_consent_revision_present'', DBool (vr_marketing_consent_revision v \<noteq> None))]"


section \<open>Error texts\<close>

fun gemini_error_text :: "gemini_error \<Rightarrow> string" where
  "gemini_error_text CircuitOpen = ''Gemini circuit breaker is open''"
| "gemini_error_text InvalidAnalysis = ''Gemini returned an invalid compliance analysis''"
| "gemini_error_text InvalidResponse = ''Gemini returned an invalid response envelope''"
| "gemini_error_text PromptTooLarge = ''the assembled Gemini prompt exceeds the configured safety bound''"
| "gemini_error_text (Rejected status) = ''Gemini rejected the request with HTTP '' @ nat_to_string status"
| "gemini_error_text ResponseTooLarge = ''Gemini returned an unexpectedly large response''"
| "gemini_error_text Transport = ''Gemini transport failed''"

fun webhook_build_error_text :: "webhook_build_error \<Rightarrow> string" where
  "webhook_build_error_text Client = ''webhook HTTP client could not be initialized''"
| "webhook_build_error_text InsecureUrl = ''webhook URL must use HTTPS, except for an HTTP loopback target''"
| "webhook_build_error_text InvalidUrl = ''webhook URL is invalid''"
| "webhook_build_error_text UnsafeUrl = ''webhook URL must not contain credentials, query parameters, or a fragment''"
| "webhook_build_error_text WeakSecret = ''webhook secret must contain at least 32 non-whitespace bytes''"

fun status_debug :: "nat option \<Rightarrow> string" where
  "status_debug None = ''None''"
| "status_debug (Some n) = ''Some('' @ nat_to_string n @ '')''"

fun delivery_error_text :: "delivery_error \<Rightarrow> string" where
  "delivery_error_text (RejectedBy status) = ''webhook endpoint rejected the event with HTTP '' @ nat_to_string status"
| "delivery_error_text Serialize = ''webhook event could not be serialized''"
| "delivery_error_text (Unavailable status) =
     ''webhook endpoint remained unavailable after bounded retries (last status: '' @ status_debug status @ '')''"

fun store_error_text :: "store_error \<Rightarrow> string" where
  "store_error_text ContextNotFound = ''canonical context was not found''"
| "store_error_text Database = ''database operation failed''"
| "store_error_text IdempotencyKeyReused = ''idempotency key was already used for another operation or payload''"
| "store_error_text (InvalidRecord label) = ''stored record is invalid: '' @ label"
| "store_error_text InvalidTransition = ''quote transition is not allowed''"
| "store_error_text QuoteNotFound = ''quote was not found''"

fun store_error_code :: "store_error \<Rightarrow> string" where
  "store_error_code ContextNotFound = ''context_not_found''"
| "store_error_code Database = ''database_error''"
| "store_error_code IdempotencyKeyReused = ''idempotency_key_reused''"
| "store_error_code (InvalidRecord _) = ''invalid_stored_record''"
| "store_error_code InvalidTransition = ''invalid_transition''"
| "store_error_code QuoteNotFound = ''quote_not_found''"

fun build_error_text :: "build_error \<Rightarrow> string" where
  "build_error_text InvalidKeyDocument = ''readiness key document is invalid''"
| "build_error_text InvalidSecret = ''readiness webhook secret is invalid''"
| "build_error_text NonUnicodeKeyDocument = ''readiness key document is not valid UTF-8''"
| "build_error_text TooManyKeys = ''readiness key document contains too many keys''"

fun ingest_error_text :: "ingest_error \<Rightarrow> string" where
  "ingest_error_text InvalidRequest = ''readiness observation request is invalid''"
| "ingest_error_text BodyTooLarge = ''readiness observation body is too large''"
| "ingest_error_text InvalidSignature = ''webhook authentication failed''"
| "ingest_error_text StaleSignature = ''webhook timestamp is outside the replay window''"
| "ingest_error_text EventConflict = ''event id was reused with different content''"
| "ingest_error_text SequenceConflict = ''source sequence must be the next contiguous value''"
| "ingest_error_text StorageUnavailable = ''readiness observation storage is unavailable''"
| "ingest_error_text Internal = ''internal readiness ingest error''"
| "ingest_error_text DatabaseFailure = ''readiness observation database is unavailable''"

definition api_error_text :: "api_error \<Rightarrow> string" where
  "api_error_text e = err_code e"

definition derivation_key_error_text :: "derivation_key_error \<Rightarrow> string" where
  "derivation_key_error_text e = ''derivation key must contain at least 32 bytes''"


section \<open>Secrets have no influence\<close>

lemma debug_option_map [simp]: "debug_option (\<lambda>_. d) (map_option f x) = debug_option (\<lambda>_. d) x"
  by (cases x) simp_all

text \<open>Whatever the credentials, keys, stored records and personal data are replaced by - options staying present or absent,
  the key ring keeping its number of sources - everything printed stays the same.\<close>

theorem debug_redacts:
  "config_debug (c\<lparr>database_url := map_option f1 (database_url c), gemini_api_key := map_option f2 (gemini_api_key c),
       config_internal_auth_token := t, shared_auth_base := map_option f3 (shared_auth_base c),
       shared_auth_introspect_secret := map_option f4 (shared_auth_introspect_secret c),
       webhook_endpoint := map_option f5 (webhook_endpoint c), webhook_secret := map_option f6 (webhook_secret c)\<rparr>) = config_debug c"
  "gemini_client_debug (g\<lparr>gc_api_key := k\<rparr>) = gemini_client_debug g"
  "webhook_debug ascii_origin (d\<lparr>wd_secret := k\<rparr>) = webhook_debug ascii_origin d"
  "observation_service_debug (os\<lparr>os_database := map_option f7 (os_database os), os_keys := map f8 (os_keys os), os_memory := m\<rparr>) =
     observation_service_debug os"
  "registration_debug uuid_str (v\<lparr>vr_email := e, vr_organization_name := map_option f9 (vr_organization_name v),
       vr_referral_code := map_option f10 (vr_referral_code v), vr_display_name := map_option f11 (vr_display_name v),
       vr_website_url := map_option f12 (vr_website_url v),
       vr_marketing_consent_revision := map_option f13 (vr_marketing_consent_revision v)\<rparr>) = registration_debug uuid_str v"
  "sensitive_debug x = sensitive_debug y" "digest_debug x = digest_debug y"
  by (simp_all add: config_debug_def gemini_client_debug_def webhook_debug_def observation_service_debug_def registration_debug_def
      sensitive_debug_def digest_debug_def)

text \<open>The codes that are logged for the failures of a store identify them.\<close>

lemma store_error_code_inject:
  "store_error_code e = store_error_code e' \<longleftrightarrow> e = e' \<or> (\<exists>f f'. e = InvalidRecord f \<and> e' = InvalidRecord f')"
  by (cases e; cases e') simp_all

end
