(* ===== verification/Rpc_Operations.thy ===== *)
theory Rpc_Operations
  imports Users
begin

text \<open>
  The declarations of the RPC operations (\<open>OperationSpec\<close> and \<open>ores_operation\<close> in \<open>src/rpc_routes/user/handlers.rs\<close> and
  \<open>src/rpc_routes/version/handlers.rs\<close>) and the generated dispatchers: the one of \<open>src/rpc_routes/rpc.rs\<close> picks a folder
  by the operation's key, the macro of the folder (\<open>user/rpc.rs\<close>, \<open>version/rpc.rs\<close>) the operation. \<open>None\<close> is a
  panic: \<open>unreachable!\<close> in either.
\<close>

section \<open>Declarations\<close>

datatype section_type = NoSection | Section string

record operation_spec =
  sp_key :: string
  sp_path :: section_type
  sp_query :: section_type
  sp_request_headers :: section_type
  sp_request_body :: section_type
  sp_response_body :: section_type
  sp_response_headers :: section_type
  sp_response_trailers :: section_type
  sp_error :: section_type
  sp_codecs :: "string list"
  sp_default_codec :: string
  sp_audiences :: "string list"
  sp_scope :: string

definition VersionOperation :: operation_spec where
  "VersionOperation =
     \<lparr>sp_key = ''canonical_cloud.version.get_version'', sp_path = NoSection, sp_query = NoSection,
      sp_request_headers = NoSection, sp_request_body = NoSection,
      sp_response_body = Section ''VersionResponse'',
      sp_response_headers = NoSection, sp_response_trailers = NoSection, sp_error = Section ''VersionError'', sp_codecs = [''json''],
      sp_default_codec = ''json'', sp_audiences = [''browser'', ''server''], sp_scope = ''regular''\<rparr>"

definition FindUsersOperation :: operation_spec where
  "FindUsersOperation =
     \<lparr>sp_key = ''canonical_cloud.user.find_users'', sp_path = NoSection, sp_query = NoSection,
      sp_request_headers = Section ''UserLookupHeaders'',
      sp_request_body = Section ''FindUsersRequest'', sp_response_body = Section ''FindUsersResponse'',
      sp_response_headers = NoSection, sp_response_trailers = NoSection, sp_error = Section ''UserLookupError'', sp_codecs = [''json''], sp_default_codec = ''json'',
      sp_audiences = [''browser'', ''server''], sp_scope = ''regular''\<rparr>"

definition FindUserByIdOperation :: operation_spec where
  "FindUserByIdOperation =
     \<lparr>sp_key = ''canonical_cloud.user.find_user_by_id'', sp_path = NoSection, sp_query = NoSection,
      sp_request_headers = Section ''UserLookupHeaders'',
      sp_request_body = Section ''FindUserByIdRequest'', sp_response_body = Section ''FindUserByIdResponse'',
      sp_response_headers = NoSection, sp_response_trailers = NoSection, sp_error = Section ''UserLookupError'', sp_codecs = [''json''], sp_default_codec = ''json'',
      sp_audiences = [''browser'', ''server''], sp_scope = ''regular''\<rparr>"


section \<open>Dispatch\<close>

definition version_dispatch :: "string \<Rightarrow> rpc_operation option" where
  "version_dispatch key = (if key = ''canonical_cloud.version.get_version'' then Some GetVersion else None)"

definition user_dispatch :: "string \<Rightarrow> rpc_operation option" where
  "user_dispatch key =
     (if key = ''canonical_cloud.user.find_users'' then Some FindUsers
      else if key = ''canonical_cloud.user.find_user_by_id'' then Some FindUserById
      else None)"

definition folder_dispatch :: "string \<Rightarrow> rpc_operation option" where
  "folder_dispatch key =
     (if key = ''canonical_cloud.version.get_version'' then version_dispatch key
      else if key = ''canonical_cloud.user.find_users'' \<or> key = ''canonical_cloud.user.find_user_by_id'' then user_dispatch key
      else None)"

definition operation_of :: "rpc_operation \<Rightarrow> operation_spec" where
  "operation_of op = (case op of GetVersion \<Rightarrow> VersionOperation | FindUsers \<Rightarrow> FindUsersOperation | FindUserById \<Rightarrow> FindUserByIdOperation)"

lemma folder_dispatch_eq: "folder_dispatch = rpc_dispatch"
  by (auto simp: fun_eq_iff folder_dispatch_def version_dispatch_def user_dispatch_def rpc_dispatch_def VERSION_KEY_def
      FIND_USERS_KEY_def FIND_USER_BY_ID_KEY_def)

text \<open>The two levels fit: a key reaches an operation exactly if the operation declares it, so neither dispatcher panics on a
  key of the route map; every key the map admits is dispatched, no two alike.\<close>

theorem dispatch_matches_declarations:
  "folder_dispatch key = Some op \<longleftrightarrow> key = sp_key (operation_of op)"
  "list_all (\<lambda>(_, _, _, key, _). folder_dispatch key \<noteq> None) route_map"
  "set (map (\<lambda>(_, _, _, key, _). key) route_map) = sp_key ` {VersionOperation, FindUsersOperation, FindUserByIdOperation}"
proof -
  show "folder_dispatch key = Some op \<longleftrightarrow> key = sp_key (operation_of op)"
    by (cases op) (auto simp: folder_dispatch_def version_dispatch_def user_dispatch_def operation_of_def VersionOperation_def
        FindUsersOperation_def FindUserByIdOperation_def)
  show "list_all (\<lambda>(_, _, _, key, _). folder_dispatch key \<noteq> None) route_map"
    using route_map_dispatched by (simp add: folder_dispatch_eq)
  show "set (map (\<lambda>(_, _, _, key, _). key) route_map) = sp_key ` {VersionOperation, FindUsersOperation, FindUserByIdOperation}"
    by (simp add: route_map_def VersionOperation_def FindUsersOperation_def FindUserByIdOperation_def)
qed

text \<open>The keys the handlers log under are the ones they declare.\<close>

lemma logged_keys:
  "FIND_USERS_KEY = sp_key FindUsersOperation" "FIND_USER_BY_ID_KEY = sp_key FindUserByIdOperation" "VERSION_KEY = sp_key VersionOperation"
  by (simp_all add: FIND_USERS_KEY_def FIND_USER_BY_ID_KEY_def VERSION_KEY_def FindUsersOperation_def FindUserByIdOperation_def VersionOperation_def)

end
