(* ===== verification/Web_Api_Plane.thy ===== *)
theory Web_Api_Plane
  imports Prelude
begin

text \<open>
  The binding of the web data plane (\<open>src/web_api_plane.rs\<close>) to the package \<open>k8s_web_api_data_plane\<close>. The constructors and
  validators of the package are a record of functions; what the binding fixes - the identity, the port, the order in which the
  four policies are validated - is modelled. \<open>None\<close> is the panic of \<open>expect\<close>.
\<close>

record ('id, 'caps, 'db, 'http, 'tcp, 'nats, 'e) plane_package =
  pk_identity :: "string \<Rightarrow> string \<Rightarrow> string \<Rightarrow> 'e + 'id"
  pk_capabilities :: "'id \<Rightarrow> 'caps"
  pk_database :: "'id \<Rightarrow> 'db"
  pk_http :: "'id \<Rightarrow> 'http"
  pk_tcp :: "'id \<Rightarrow> nat \<Rightarrow> 'tcp"
  pk_nats :: "'id \<Rightarrow> 'nats"
  pk_validate_database :: "'db \<Rightarrow> 'id \<Rightarrow> 'e + unit"
  pk_validate_http :: "'http \<Rightarrow> 'e + unit"
  pk_validate_tcp :: "'tcp \<Rightarrow> 'e + unit"
  pk_validate_nats :: "'nats \<Rightarrow> 'e + unit"

definition GITHUB_ORG :: string where "GITHUB_ORG = ''canonical-cloud''"
definition ORG_SLUG :: string where "ORG_SLUG = ''canonical-cloud''"
definition DNS_ZONE :: string where "DNS_ZONE = ''canonical.cloud''"

definition identity :: "('id, 'caps, 'db, 'http, 'tcp, 'nats, 'e) plane_package \<Rightarrow> 'id option" where
  "identity pk = (case pk_identity pk GITHUB_ORG ORG_SLUG DNS_ZONE of Inl _ \<Rightarrow> None | Inr i \<Rightarrow> Some i)"

definition capabilities :: "('id, 'caps, 'db, 'http, 'tcp, 'nats, 'e) plane_package \<Rightarrow> 'caps option" where
  "capabilities pk = map_option (pk_capabilities pk) (identity pk)"

definition policies :: "('id, 'caps, 'db, 'http, 'tcp, 'nats, 'e) plane_package \<Rightarrow> ('db \<times> 'http \<times> 'tcp \<times> 'nats) option" where
  "policies pk = map_option (\<lambda>i. (pk_database pk i, pk_http pk i, pk_tcp pk i 7443, pk_nats pk i)) (identity pk)"

definition validate_four_avenues :: "('id, 'caps, 'db, 'http, 'tcp, 'nats, 'e) plane_package \<Rightarrow> ('e + unit) option" where
  "validate_four_avenues pk =
     Option.bind (identity pk) (\<lambda>i.
     map_option (\<lambda>(db, http, tcp, nats).
       result_bind (pk_validate_database pk db i) (\<lambda>_.
       result_bind (pk_validate_http pk http) (\<lambda>_.
       result_bind (pk_validate_tcp pk tcp) (\<lambda>_.
       pk_validate_nats pk nats)))) (policies pk))"

text \<open>Once the package accepts the identity nothing here panics, and the four policies are valid exactly if the
  package accepts each of them, the TCP one on port 7443.\<close>

theorem four_avenues:
  assumes "pk_identity pk GITHUB_ORG ORG_SLUG DNS_ZONE = Inr i"
  shows "capabilities pk = Some (pk_capabilities pk i)"
    and "\<exists>r. validate_four_avenues pk = Some r \<and>
      (r = Inr () \<longleftrightarrow> pk_validate_database pk (pk_database pk i) i = Inr () \<and> pk_validate_http pk (pk_http pk i) = Inr () \<and>
         pk_validate_tcp pk (pk_tcp pk i 7443) = Inr () \<and> pk_validate_nats pk (pk_nats pk i) = Inr ())"
  using assms
  by (simp_all add: capabilities_def validate_four_avenues_def policies_def identity_def result_bind_Inr_iff)

end
