(* ===== verification/Overlap.thy ===== *)
theory Overlap
  imports Assessments Quote_Memory
begin

text \<open>
  Requests that overlap (\<open>src/lib.rs\<close>, without a database). The handlers await the locks of the shared maps one by one,
  and so does the analysis worker: between two of these awaits anything else may run, and a request may be dropped.
  Here a request or a worker is a \<open>task\<close> waiting for its next lock (or for the model), and one step is the code from
  there to the following await, under the lock it waited for. The atomic handlers of \<open>Quotes\<close> are the runs of a task
  that nothing else comes in between of (\<open>create_uninterrupted\<close>, \<open>retry_uninterrupted\<close>). What holds under every
  overlap (\<open>Overlap_Invariant\<close>, \<open>Overlap_Keys\<close>) is weaker than what holds for requests one after another, and the
  difference is the code's. Each definition here is the branch of the code without a database.
\<close>

section \<open>Tasks\<close>

text \<open>A submission past its admission: its subject, its key, and either the request of \<open>create_quote\<close> with its JSON or
  the quote \<open>retry_quote\<close> is for.\<close>

record submission =
  sm_subject :: string
  sm_key :: string
  sm_request :: "(accepted_quote_request \<times> json) + uuid"

text \<open>What a task waits for: the read guard of the keys; the read guard of the quotes, whether its key was found;
  the write guard of the keys; the write guard of the quotes; for an assessment the write guard of the keys; for a
  worker the write guard of the quotes, and whether it goes on to the model; the model.\<close>

datatype task =
    KeyRead submission
  | QuoteRead submission uuid bool
  | KeyWrite submission memory_operation decision
  | CacheWrite submission decision
  | AssessWrite string string assessment_submission
  | Storing worker quote_record quote_event_record bool
  | Asking worker

datatype progress = Goes task | Accepted quote_record | Refused api_error | Received assessment_record | Over

definition refuse :: "app_state \<Rightarrow> api_error \<Rightarrow> progress \<times> app_state" where
  "refuse st e = (Refused e, release_permit st)"

definition replay_of :: "quote_record \<Rightarrow> decision" where
  "replay_of r = \<lparr>dc_record = r, dc_context = None, dc_event = None, dc_analyze = False\<rparr>"

definition analysis_of :: "quote_record \<Rightarrow> quote_event_record \<Rightarrow> decision" where
  "analysis_of r event = \<lparr>dc_record = r, dc_context = Some request_only, dc_event = Some event, dc_analyze = True\<rparr>"


section \<open>The segments of the submitting handlers\<close>

text \<open>Up to the first lock.\<close>

definition arrive_create :: "call_env \<Rightarrow> header_map \<Rightarrow> json \<Rightarrow> app_state \<Rightarrow> progress \<times> app_state" where
  "arrive_create env headers payload st =
     (case authenticate (ce_introspect env) headers (ap_auth st) [''quotes:write''] of
        Inl e \<Rightarrow> (Refused e, st)
      | Inr subject \<Rightarrow>
        (case required_idempotency_key headers of
           Inl e \<Rightarrow> (Refused e, st)
         | Inr key \<Rightarrow>
           (case parse_quote_request (ce_from_value env) (ce_is_accepted env) (ce_markdown env) payload of
              Inl e \<Rightarrow> (Refused e, st)
            | Inr req \<Rightarrow>
              (case admit env st subject of
                 (Inl e, st1) \<Rightarrow> (Refused e, st1)
               | (Inr _, st1) \<Rightarrow>
                 (case ce_to_value env (wire req) of
                    None \<Rightarrow> refuse st1 (bad_request ''invalid_request'' ''quote request could not be normalized'')
                  | Some j \<Rightarrow> (Goes (KeyRead \<lparr>sm_subject = subject, sm_key = key, sm_request = Inl (req, j)\<rparr>), st1))))))"

definition arrive_retry :: "call_env \<Rightarrow> header_map \<Rightarrow> uuid \<Rightarrow> app_state \<Rightarrow> progress \<times> app_state" where
  "arrive_retry env headers qid st =
     (case authenticate (ce_introspect env) headers (ap_auth st) [''quotes:write''] of
        Inl e \<Rightarrow> (Refused e, st)
      | Inr subject \<Rightarrow>
        (case required_idempotency_key headers of
           Inl e \<Rightarrow> (Refused e, st)
         | Inr key \<Rightarrow>
           (case admit env st subject of
              (Inl e, st1) \<Rightarrow> (Refused e, st1)
            | (Inr _, st1) \<Rightarrow> (Goes (KeyRead \<lparr>sm_subject = subject, sm_key = key, sm_request = Inr qid\<rparr>), st1))))"

text \<open>Under the read guard of the keys. A new submission of \<open>create_quote\<close> makes its record and event right after it.\<close>

definition key_read :: "call_env \<Rightarrow> app_state \<Rightarrow> submission \<Rightarrow> progress \<times> app_state" where
  "key_read env st sm =
     (case map_of (ap_idempotency st) (sm_subject sm, sm_key sm) of
        Some (MCreate qid existing) \<Rightarrow>
          (case sm_request sm of
             Inl (req, j) \<Rightarrow> if existing = j then (Goes (QuoteRead sm qid True), st) else refuse st idempotency_reused
           | Inr _ \<Rightarrow> refuse st idempotency_reused)
      | Some (MRetry existing) \<Rightarrow>
          (case sm_request sm of
             Inl _ \<Rightarrow> refuse st idempotency_reused
           | Inr qid \<Rightarrow> if existing = qid then (Goes (QuoteRead sm qid True), st) else refuse st idempotency_reused)
      | Some (MAssessment _ _) \<Rightarrow> refuse st idempotency_reused
      | None \<Rightarrow>
          (case sm_request sm of
             Inl (req, j) \<Rightarrow>
               (case now_rfc3339 env of
                  Inl e \<Rightarrow> refuse st e
                | Inr timestamp \<Rightarrow>
                    let record = new_record st (ce_new_uuid env) (sm_subject sm) (wire req) timestamp;
                        (event, st1) = memory_event st record
                    in (Goes (KeyWrite sm (MCreate (quote_id record) j) (analysis_of record event)), st1))
           | Inr qid \<Rightarrow> (Goes (QuoteRead sm qid False), st)))"

text \<open>Under the read guard of the quotes: the record of a replay, or the failed one of a new retry.\<close>

definition quote_read_segment :: "call_env \<Rightarrow> app_state \<Rightarrow> submission \<Rightarrow> uuid \<Rightarrow> bool \<Rightarrow> progress \<times> app_state" where
  "quote_read_segment env st sm qid replay =
     (case sm_request sm of
        Inl _ \<Rightarrow>
          (case map_of (ap_quotes st) qid of
             Some record \<Rightarrow> (Goes (CacheWrite sm (replay_of record)), st)
           | None \<Rightarrow> refuse st storage_unavailable)
      | Inr _ \<Rightarrow>
          (case find_quote env st qid (sm_subject sm) of
             (Inl e, st1) \<Rightarrow> refuse st1 e
           | (Inr record, st1) \<Rightarrow>
               if replay then (Goes (CacheWrite sm (replay_of record)), st1)
               else if qstatus record \<noteq> ''failed''
               then refuse st1 (conflict ''conflict'' ''only a failed quote may be retried'')
               else (case now_rfc3339 env of
                       Inl e \<Rightarrow> refuse st1 e
                     | Inr timestamp \<Rightarrow>
                         let record = record\<lparr>qstatus := ''queued'', analysis := None, error_code := None, updated_at := timestamp\<rparr>;
                             (event, st2) = memory_event st1 record
                         in (Goes (KeyWrite sm (MRetry qid) (analysis_of record event)), st2))))"

definition key_write :: "app_state \<Rightarrow> submission \<Rightarrow> memory_operation \<Rightarrow> decision \<Rightarrow> progress \<times> app_state" where
  "key_write st sm p dc =
     (Goes (CacheWrite sm dc), st\<lparr>ap_idempotency := AList.update (sm_subject sm, sm_key sm) p (ap_idempotency st)\<rparr>)"

text \<open>Under the write guard of the quotes, and on to the end of the handler: publishing and spawning do not wait.\<close>

definition cache_write :: "call_env \<Rightarrow> app_state \<Rightarrow> submission \<Rightarrow> decision \<Rightarrow> progress \<times> app_state" where
  "cache_write env st sm dc =
     (let finish = (\<lambda>req. case submit_finish st dc req of
                       (Inl e, st1) \<Rightarrow> (Refused e, st1) | (Inr _, st1) \<Rightarrow> (Accepted (dc_record dc), st1))
      in case sm_request sm of
           Inl (req, _) \<Rightarrow> finish req
         | Inr _ \<Rightarrow>
             let application = trim (ce_markdown env);
                 unavailable = dc_analyze dc \<and> (application = [] \<or> MAX_MARKDOWN_CONTEXT_BYTES < length application)
             in if unavailable
                then refuse (let st1 = cache_quote st (dc_record dc)
                       in case dc_event dc of None \<Rightarrow> st1 | Some event \<Rightarrow> publish_event st1 event)
                       (service_unavailable ''context_unavailable'' ''quote analysis context is unavailable'')
                else finish \<lparr>application_markdown = application, wire = request (dc_record dc)\<rparr>)"


section \<open>The segments of the worker\<close>

text \<open>\<open>update_quote_state\<close> up to its lock: the record with its new timestamp, and the event.\<close>

definition update_begin ::
    "call_env \<Rightarrow> app_state \<Rightarrow> quote_record \<Rightarrow> (quote_record \<times> quote_event_record) option \<times> app_state" where
  "update_begin env st record =
     (case ce_timestamp env of
        None \<Rightarrow> (None, st)
      | Some timestamp \<Rightarrow>
          let record = record\<lparr>updated_at := timestamp\<rparr>; (event, st1) = memory_event st record
          in (Some (record, event), st1))"

definition update_or_end :: "call_env \<Rightarrow> app_state \<Rightarrow> worker \<Rightarrow> quote_record \<Rightarrow> bool \<Rightarrow> progress \<times> app_state" where
  "update_or_end env st w record on =
     (case update_begin env st record of
        (None, st1) \<Rightarrow> (Over, release_permit st1)
      | (Some (record, event), st1) \<Rightarrow> (Goes (Storing w record event on), st1))"

definition worker_spawned :: "call_env \<Rightarrow> app_state \<Rightarrow> worker \<Rightarrow> progress \<times> app_state" where
  "worker_spawned env st w =
     update_or_end env st w ((wk_record w)\<lparr>qstatus := ''analyzing'', error_code := None, analysis := None\<rparr>) True"

text \<open>The second half of \<open>update_quote_state\<close>, and on to the next await.\<close>

definition worker_stores ::
    "call_env \<Rightarrow> app_state \<Rightarrow> worker \<Rightarrow> quote_record \<Rightarrow> quote_event_record \<Rightarrow> bool \<Rightarrow> progress \<times> app_state" where
  "worker_stores env st w record event on =
     (let st1 = publish_event (cache_quote st record) event
      in if \<not> on then (Over, release_permit st1)
         else if ap_gemini st1 then (Goes (Asking (w\<lparr>wk_record := record, wk_started := True\<rparr>)), st1)
         else update_or_end env st1 w (record\<lparr>qstatus := ''failed'', error_code := Some ''gemini_not_configured''\<rparr>) False)"

definition worker_told :: "call_env \<Rightarrow> app_state \<Rightarrow> worker \<Rightarrow> gemini_error + json \<Rightarrow> progress \<times> app_state" where
  "worker_told env st w result = update_or_end env st w (analyzed_record (wk_record w) result) False"


section \<open>The segments of an intake\<close>

definition arrive_assessment :: "call_env \<Rightarrow> header_map \<Rightarrow> json \<Rightarrow> service \<Rightarrow> progress \<times> service" where
  "arrive_assessment env headers payload sv =
     (case authenticate (ce_introspect env) headers (ap_auth (sv_app sv)) [] of
        Inl e \<Rightarrow> (Refused e, sv)
      | Inr subject \<Rightarrow>
        (case required_idempotency_key headers of
           Inl e \<Rightarrow> (Refused e, sv)
         | Inr key \<Rightarrow>
           (case parse_assessment_request payload of
              Inl e \<Rightarrow> (Refused e, sv)
            | Inr sb \<Rightarrow>
              (case check_submission (ap_windows (sv_app sv)) (ce_instant env, subject) of
                 (Inl retry_after, w) \<Rightarrow> (Refused (rate_limited retry_after), set_windows sv w)
               | (Inr _, w) \<Rightarrow> (Goes (AssessWrite subject key sb), set_windows sv w)))))"

definition assess_write :: "call_env \<Rightarrow> service \<Rightarrow> string \<Rightarrow> string \<Rightarrow> assessment_submission \<Rightarrow> progress \<times> service" where
  "assess_write env sv subject key sb =
     (case assessment_decide env sv subject key sb of
        Inl e \<Rightarrow> (Refused e, sv)
      | Inr (new, r) \<Rightarrow>
          if \<not> new then (Received r, sv)
          else (Received r, publish_assessment_event (store_assessment sv r (submission_json sb))
                  \<lparr>ae_assessment_id = as_id r, ae_framework_ids = framework_ids r, ae_occurred_at = received_at r,
                   ae_status = as_status r\<rparr>))"


section \<open>The service under overlapping requests\<close>

text \<open>Spawned workers that have not run yet are those of \<open>ap_workers\<close>.\<close>

record overlap =
  ov_service :: service
  ov_tasks :: "task list"

definition overlap_new :: "auth_state \<Rightarrow> string \<Rightarrow> bool \<Rightarrow> bool \<Rightarrow> overlap" where
  "overlap_new auth model gemini webhook =
     \<lparr>ov_service = service_new (app_state_new auth model None gemini webhook), ov_tasks = []\<rparr>"

abbreviation ov_app :: "overlap \<Rightarrow> app_state" where
  "ov_app ov \<equiv> sv_app (ov_service ov)"

definition on_app :: "service \<Rightarrow> progress \<times> app_state \<Rightarrow> progress \<times> service" where
  "on_app sv x = (fst x, sv\<lparr>sv_app := snd x\<rparr>)"

fun advance :: "call_env \<Rightarrow> gemini_error + json \<Rightarrow> service \<Rightarrow> task \<Rightarrow> progress \<times> service" where
  "advance env result sv (KeyRead sm) = on_app sv (key_read env (sv_app sv) sm)"
| "advance env result sv (QuoteRead sm qid replay) = on_app sv (quote_read_segment env (sv_app sv) sm qid replay)"
| "advance env result sv (KeyWrite sm p dc) = on_app sv (key_write (sv_app sv) sm p dc)"
| "advance env result sv (CacheWrite sm dc) = on_app sv (cache_write env (sv_app sv) sm dc)"
| "advance env result sv (AssessWrite subject key sb) = assess_write env sv subject key sb"
| "advance env result sv (Storing w record event on) = on_app sv (worker_stores env (sv_app sv) w record event on)"
| "advance env result sv (Asking w) = on_app sv (worker_told env (sv_app sv) w result)"

text \<open>Spawned workers run to their end; everything else runs as part of a request and can be dropped with it. A submission
  owns its permit.\<close>

fun of_request :: "task \<Rightarrow> bool" where
  "of_request (Storing w record event on) = False"
| "of_request (Asking w) = False"
| "of_request t = True"

fun owns_permit :: "task \<Rightarrow> bool" where
  "owns_permit (AssessWrite subject key sb) = False"
| "owns_permit t = True"

definition task_dropped :: "task \<Rightarrow> service \<Rightarrow> service" where
  "task_dropped t sv = (if owns_permit t then sv\<lparr>sv_app := release_permit (sv_app sv)\<rparr> else sv)"

datatype overlap_input =
    ArriveCreate call_env header_map json
  | ArriveRetry call_env header_map uuid
  | ArriveAssessment call_env header_map json
  | Poll call_env nat
  | Advance call_env nat "gemini_error + json"
  | Drop nat

definition joined :: "overlap \<Rightarrow> progress \<times> service \<Rightarrow> overlap" where
  "joined ov x = \<lparr>ov_service = snd x, ov_tasks = ov_tasks ov @ (case fst x of Goes t \<Rightarrow> [t] | _ \<Rightarrow> [])\<rparr>"

definition resumed :: "overlap \<Rightarrow> nat \<Rightarrow> progress \<times> service \<Rightarrow> overlap" where
  "resumed ov i x =
     \<lparr>ov_service = snd x, ov_tasks = (case fst x of Goes t \<Rightarrow> (ov_tasks ov)[i := t] | _ \<Rightarrow> remove_nth i (ov_tasks ov))\<rparr>"

fun overlap_step :: "overlap \<Rightarrow> overlap_input \<Rightarrow> overlap" where
  "overlap_step ov (ArriveCreate env headers payload) =
     joined ov (on_app (ov_service ov) (arrive_create env headers payload (ov_app ov)))"
| "overlap_step ov (ArriveRetry env headers qid) =
     joined ov (on_app (ov_service ov) (arrive_retry env headers qid (ov_app ov)))"
| "overlap_step ov (ArriveAssessment env headers payload) =
     joined ov (arrive_assessment env headers payload (ov_service ov))"
| "overlap_step ov (Poll env i) =
     (if i < length (ap_workers (ov_app ov))
      then joined ov (on_app (ov_service ov)
             (worker_spawned env ((ov_app ov)\<lparr>ap_workers := remove_nth i (ap_workers (ov_app ov))\<rparr>) (ap_workers (ov_app ov) ! i)))
      else ov)"
| "overlap_step ov (Advance env i result) =
     (if i < length (ov_tasks ov) then resumed ov i (advance env result (ov_service ov) (ov_tasks ov ! i)) else ov)"
| "overlap_step ov (Drop i) =
     (if i < length (ov_tasks ov) \<and> of_request (ov_tasks ov ! i)
      then \<lparr>ov_service = task_dropped (ov_tasks ov ! i) (ov_service ov), ov_tasks = remove_nth i (ov_tasks ov)\<rparr> else ov)"

text \<open>The identifiers in use anywhere; a step that draws a random one draws none of these.\<close>

fun operation_ids :: "memory_operation \<Rightarrow> uuid list" where
  "operation_ids (MCreate q j) = [q]"
| "operation_ids (MRetry q) = [q]"
| "operation_ids (MAssessment a j) = [a]"

fun task_ids :: "task \<Rightarrow> uuid list" where
  "task_ids (QuoteRead sm qid replay) = [qid]"
| "task_ids (KeyWrite sm p dc) = quote_id (dc_record dc) # operation_ids p"
| "task_ids (CacheWrite sm dc) = [quote_id (dc_record dc)]"
| "task_ids (Storing w record event on) = [wk_id w]"
| "task_ids (Asking w) = [wk_id w]"
| "task_ids t = []"

definition used_ids :: "overlap \<Rightarrow> uuid list" where
  "used_ids ov =
     map fst (ap_quotes (ov_app ov)) @ map wk_id (ap_workers (ov_app ov)) @ concat (map task_ids (ov_tasks ov)) @
     concat (map (operation_ids \<circ> snd) (ap_idempotency (ov_app ov))) @ map as_id (sv_assessments (ov_service ov))"

fun may_draw :: "task \<Rightarrow> bool" where
  "may_draw (KeyRead sm) = True"
| "may_draw (AssessWrite subject key sb) = True"
| "may_draw t = False"

fun draws_unused :: "overlap \<Rightarrow> overlap_input \<Rightarrow> bool" where
  "draws_unused ov (Advance env i result) =
     (i < length (ov_tasks ov) \<and> may_draw (ov_tasks ov ! i) \<longrightarrow> ce_new_uuid env \<notin> set (used_ids ov))"
| "draws_unused ov i = True"

inductive overlaps :: "overlap \<Rightarrow> overlap \<Rightarrow> bool" where
  stays: "overlaps ov ov"
| steps: "overlaps ov ov' \<Longrightarrow> draws_unused ov' i \<Longrightarrow> overlaps ov (overlap_step ov' i)"


section \<open>Without overlap\<close>

fun alone :: "call_env \<Rightarrow> gemini_error + json \<Rightarrow> nat \<Rightarrow> progress \<times> service \<Rightarrow> progress \<times> service" where
  "alone env result (Suc n) (Goes t, sv) = alone env result n (advance env result sv t)"
| "alone env result n x = x"

lemma alone_ends [simp]:
  "alone env result n (Accepted r, sv) = (Accepted r, sv)" "alone env result n (Refused e, sv) = (Refused e, sv)"
  "alone env result n (Received a, sv) = (Received a, sv)" "alone env result n (Over, sv) = (Over, sv)"
  by (cases n; simp)+

lemma on_app_pair [simp]: "on_app sv (p, st) = (p, sv\<lparr>sv_app := st\<rparr>)"
  by (simp add: on_app_def)

definition handler_answer :: "(quote_record \<Rightarrow> 'a) \<Rightarrow> progress \<Rightarrow> (api_error + nat \<times> 'a) option" where
  "handler_answer f p = (case p of Accepted r \<Rightarrow> Some (Inr (202, f r)) | Refused e \<Rightarrow> Some (Inl e) | _ \<Rightarrow> None)"

lemma handler_answer_simps [simp]:
  "handler_answer f (Accepted r) = Some (Inr (202, f r))" "handler_answer f (Refused e) = Some (Inl e)"
  by (simp_all add: handler_answer_def)

lemma admit_database: "admit env st subject = (x, st') \<Longrightarrow> ap_database st' = ap_database st"
  by (auto simp: admit_def split: if_splits prod.splits sum.splits)

lemma create_segments:
  assumes "ap_database st = None"
  shows "alone env result 4 (Goes (KeyRead \<lparr>sm_subject = subject, sm_key = key, sm_request = Inl (req, j)\<rparr>), sv\<lparr>sv_app := st\<rparr>) =
    (case create_decide env st subject key req j of
       (Inl e, st1) \<Rightarrow> (Refused e, sv\<lparr>sv_app := release_permit st1\<rparr>)
     | (Inr dc, st1) \<Rightarrow>
         (case submit_finish st1 dc req of
            (Inl e, st2) \<Rightarrow> (Refused e, sv\<lparr>sv_app := st2\<rparr>)
          | (Inr _, st2) \<Rightarrow> (Accepted (dc_record dc), sv\<lparr>sv_app := st2\<rparr>)))"
  using assms
  by (simp add: eval_nat_numeral key_read_def create_decide_def quote_read_segment_def key_write_def cache_write_def refuse_def
      replay_of_def analysis_of_def memory_event_def Let_def split: option.split memory_operation.split sum.split prod.split)

lemma retry_segments:
  assumes "ap_database st = None"
  shows "alone env result 4 (Goes (KeyRead \<lparr>sm_subject = subject, sm_key = key, sm_request = Inr qid\<rparr>), sv\<lparr>sv_app := st\<rparr>) =
    (case retry_decide env st subject key qid of
       (Inl e, st1) \<Rightarrow> (Refused e, sv\<lparr>sv_app := release_permit st1\<rparr>)
     | (Inr dc, st1) \<Rightarrow> on_app sv (cache_write env st1 \<lparr>sm_subject = subject, sm_key = key, sm_request = Inr qid\<rparr> dc))"
proof -
  obtain x st1 where f: "find_quote env st qid subject = (x, st1)" by fastforce
  then have "st1 = st" using find_quote_memory [OF assms] by blast
  with f show ?thesis
    by (simp add: eval_nat_numeral key_read_def retry_decide_def assms quote_read_segment_def key_write_def refuse_def replay_of_def
        analysis_of_def memory_event_def Let_def on_app_def split: option.split memory_operation.split sum.split)
      (auto simp: cache_write_def refuse_def Let_def submit_finish_def split: option.split prod.split sum.split)
qed

lemma create_uninterrupted:
  assumes "ap_database (sv_app sv) = None"
  shows "let (p, sv') = alone env result 4 (on_app sv (arrive_create env headers payload (sv_app sv)));
             (answer, st') = create_quote_handler env headers payload (sv_app sv)
         in handler_answer (quote_submission_response (ce_uuid_str env)) p = Some answer \<and> sv' = sv\<lparr>sv_app := st'\<rparr>"
  using assms
  by (auto simp: arrive_create_def create_quote_handler_def refuse_def create_segments Let_def admit_database
      split: sum.split prod.split option.split)


lemma retry_uninterrupted:
  assumes "ap_database (sv_app sv) = None"
  shows "let (p, sv') = alone env result 4 (on_app sv (arrive_retry env headers qid (sv_app sv)));
             (answer, st') = retry_quote_handler env headers qid (sv_app sv)
         in handler_answer (quote_retry_response (ce_uuid_str env)) p = Some answer \<and> sv' = sv\<lparr>sv_app := st'\<rparr>"
  using assms
  by (auto simp: arrive_retry_def retry_quote_handler_def retry_segments cache_write_def refuse_def Let_def admit_database
      split: sum.split prod.split)

lemma intake_uninterrupted:
  "let (p, sv') = alone env result 1 (arrive_assessment env headers payload sv);
       (answer, sv'') = create_assessment_handler env headers payload sv
   in (case p of Received r \<Rightarrow> answer = Inr (201, r) | Refused e \<Rightarrow> answer = Inl e | _ \<Rightarrow> False) \<and> sv' = sv''"
  by (auto simp: arrive_assessment_def create_assessment_handler_def assess_write_def Let_def split: sum.split prod.split)


lemma worker_uninterrupted:
  assumes "ap_database st = None"
  shows "alone env result (if ap_gemini st then 1 else 2) (on_app sv (worker_spawned env st w)) =
      (case worker_begin env st w of
         (Some w', st1) \<Rightarrow> (Goes (Asking w'), sv\<lparr>sv_app := st1\<rparr>) | (None, st1) \<Rightarrow> (Over, sv\<lparr>sv_app := st1\<rparr>))"
    and "alone env result 1 (on_app sv (worker_told env st w result)) = (Over, sv\<lparr>sv_app := worker_finish env st w result\<rparr>)"
  using assms
  by (simp_all add: eval_nat_numeral worker_spawned_def worker_told_def worker_begin_def worker_finish_def update_or_end_def
      update_begin_def update_quote_state_def worker_stores_def memory_event_def publish_event_def cache_quote_def
      Let_def split: option.split)


section \<open>Handlers as runs without overlap\<close>

lemma advance_draws: "advance env result sv t = (Goes t', sv') \<Longrightarrow> \<not> may_draw t'"
  by (cases t) (auto simp: on_app_def key_read_def quote_read_segment_def key_write_def cache_write_def refuse_def assess_write_def
      worker_stores_def worker_told_def update_or_end_def Let_def
      split: option.splits memory_operation.splits sum.splits prod.splits if_splits)


lemma alone_overlaps:
  assumes "alone env result n (Goes t, sv) = (x, sv')" and "\<And>t'. x \<noteq> Goes t'"
    and "overlaps ov \<lparr>ov_service = sv, ov_tasks = [t]\<rparr>"
    and "may_draw t \<Longrightarrow> ce_new_uuid env \<notin> set (used_ids \<lparr>ov_service = sv, ov_tasks = [t]\<rparr>)"
  shows "overlaps ov \<lparr>ov_service = sv', ov_tasks = []\<rparr>"
  using assms
proof (induction n arbitrary: t sv)
  case (Suc n)
  let ?ov = "\<lparr>ov_service = sv, ov_tasks = [t]\<rparr>"
  obtain y sv1 where a: "advance env result sv t = (y, sv1)" by fastforce
  have "overlaps ov (overlap_step ?ov (Advance env 0 result))"
    using Suc.prems(3,4) by (intro overlaps.steps) auto
  then have one: "overlaps ov (resumed ?ov 0 (y, sv1))" by (simp add: a)
  show ?case
  proof (cases "\<exists>t'. y = Goes t'")
    case True
    then obtain t' where t': "y = Goes t'" by blast
    have "overlaps ov \<lparr>ov_service = sv1, ov_tasks = [t']\<rparr>" using one t' by (simp add: resumed_def)
    moreover have "\<not> may_draw t'" using advance_draws a t' by blast
    ultimately show ?thesis using Suc.IH [of t' sv1] Suc.prems(1,2) a t' by simp
  next
    case False
    then have "alone env result n (y, sv1) = (y, sv1)" by (cases y; cases n) auto
    then have "sv' = sv1" using Suc.prems(1) a by simp
    then show ?thesis using one False by (cases y) (auto simp: resumed_def remove_nth_def)
  qed
qed auto

lemma arrival_overlaps:
  assumes ov: "overlaps ov \<lparr>ov_service = sv, ov_tasks = []\<rparr>"
    and step: "overlap_step \<lparr>ov_service = sv, ov_tasks = []\<rparr> i = joined \<lparr>ov_service = sv, ov_tasks = []\<rparr> (x, sv1)"
    and arrival: "draws_unused \<lparr>ov_service = sv, ov_tasks = []\<rparr> i"
    and used: "\<And>t. x = Goes t \<Longrightarrow> may_draw t \<Longrightarrow> ce_new_uuid env \<notin> set (used_ids \<lparr>ov_service = sv1, ov_tasks = [t]\<rparr>)"
    and all: "alone env result n (x, sv1) = (y, sv')" and ended: "\<And>t. y \<noteq> Goes t"
  shows "overlaps ov \<lparr>ov_service = sv', ov_tasks = []\<rparr>"
proof -
  have one: "overlaps ov (joined \<lparr>ov_service = sv, ov_tasks = []\<rparr> (x, sv1))"
    using overlaps.steps [OF ov arrival] step by simp
  show ?thesis
  proof (cases "\<exists>t. x = Goes t")
    case True
    then obtain t where t: "x = Goes t" by blast
    have "overlaps ov \<lparr>ov_service = sv1, ov_tasks = [t]\<rparr>" using one t by (simp add: joined_def)
    from alone_overlaps [OF all [unfolded t] ended this] used t show ?thesis by blast
  next
    case False
    then have "alone env result n (x, sv1) = (x, sv1)" by (cases x; cases n) auto
    then show ?thesis using one False all by (cases x) (auto simp: joined_def)
  qed
qed

text \<open>A handled request, as in \<open>Quotes\<close> and \<open>Assessments\<close>, is one way tasks can go.\<close>

lemma admit_fields:
  "admit env st subject = (x, st') \<Longrightarrow>
     ap_quotes st' = ap_quotes st \<and> ap_idempotency st' = ap_idempotency st \<and> ap_events st' = ap_events st \<and>
     ap_workers st' = ap_workers st \<and> ap_database st' = ap_database st \<and> ap_gemini st' = ap_gemini st"
  by (auto simp: admit_def split: if_splits prod.splits sum.splits)

lemma create_overlaps:
  assumes ov: "overlaps ov \<lparr>ov_service = sv, ov_tasks = []\<rparr>" and mem: "ap_database (sv_app sv) = None"
    and u: "ce_new_uuid env \<notin> set (used_ids \<lparr>ov_service = sv, ov_tasks = []\<rparr>)"
  shows "overlaps ov \<lparr>ov_service = sv\<lparr>sv_app := snd (create_quote_handler env headers payload (sv_app sv))\<rparr>, ov_tasks = []\<rparr>"
proof -
  obtain x st where a: "arrive_create env headers payload (sv_app sv) = (x, st)" by fastforce
  obtain y sv' where y: "alone env result 4 (x, sv\<lparr>sv_app := st\<rparr>) = (y, sv')" by fastforce
  have all: "handler_answer (quote_submission_response (ce_uuid_str env)) y = Some (fst (create_quote_handler env headers payload (sv_app sv)))"
    "sv' = sv\<lparr>sv_app := snd (create_quote_handler env headers payload (sv_app sv))\<rparr>"
    using create_uninterrupted [OF mem, of env result headers payload] y by (simp_all add: a Let_def split: prod.splits)
  then have "y \<noteq> Goes t" for t by (auto simp: handler_answer_def)
  moreover have "ap_quotes st = ap_quotes (sv_app sv)" "ap_workers st = ap_workers (sv_app sv)"
    "ap_idempotency st = ap_idempotency (sv_app sv)" "x = Goes t \<Longrightarrow> task_ids t = []" for t
    using a by (auto simp: arrive_create_def refuse_def release_permit_def split: sum.splits prod.splits option.splits dest!: admit_fields)
  then have "ce_new_uuid env \<notin> set (used_ids \<lparr>ov_service = sv\<lparr>sv_app := st\<rparr>, ov_tasks = [t]\<rparr>)" if "x = Goes t" for t
    using u that by (simp add: used_ids_def)
  ultimately show ?thesis
    unfolding all(2) [symmetric]
    by (intro arrival_overlaps [OF ov _ _ _ y, where i = "ArriveCreate env headers payload"]) (simp_all add: a)
qed

lemma intake_overlaps:
  assumes ov: "overlaps ov \<lparr>ov_service = sv, ov_tasks = []\<rparr>"
    and u: "ce_new_uuid env \<notin> set (used_ids \<lparr>ov_service = sv, ov_tasks = []\<rparr>)"
  shows "overlaps ov \<lparr>ov_service = snd (create_assessment_handler env headers payload sv), ov_tasks = []\<rparr>"
proof -
  obtain x sv1 where a: "arrive_assessment env headers payload sv = (x, sv1)" by fastforce
  obtain y sv' where y: "alone env result 1 (x, sv1) = (y, sv')" by fastforce
  have all: "\<And>t. y \<noteq> Goes t" "sv' = snd (create_assessment_handler env headers payload sv)"
    using intake_uninterrupted [of env result headers payload sv] y by (auto simp: a Let_def split: prod.splits progress.splits)
  have "\<exists>w. sv1 = set_windows sv w \<or> sv1 = sv" "x = Goes t \<Longrightarrow> task_ids t = []" for t
    using a by (auto simp: arrive_assessment_def split: sum.splits prod.splits)
  then have "ce_new_uuid env \<notin> set (used_ids \<lparr>ov_service = sv1, ov_tasks = [t]\<rparr>)" if "x = Goes t" for t
    using u that by (auto simp: used_ids_def set_windows_def)
  then show ?thesis
    unfolding all(2) [symmetric] using all(1)
    by (intro arrival_overlaps [OF ov _ _ _ y, where i = "ArriveAssessment env headers payload"]) (simp_all add: a)
qed

end
