(* ===== verification/Overlap_Invariant.thy ===== *)
theory Overlap_Invariant
  imports Overlap
begin

text \<open>
  What overlapping requests keep (\<open>src/lib.rs\<close>, without a database): the quotes and their owners, the keys of quote
  requests, the published events, the workers and the permits. The invariant says of every quote in play - stored, in a
  task, with a worker - which submission it is of (\<open>play_ok\<close>); each segment adds only what fits (\<open>fits\<close>).
\<close>

section \<open>Whose quote a record is of\<close>

text \<open>The part of a record no step changes.\<close>

definition core :: "quote_record \<Rightarrow> quote_record" where
  "core r = r\<lparr>qstatus := [], analysis := None, error_code := None, updated_at := []\<rparr>"

abbreviation STATUSES :: "string set" where
  "STATUSES \<equiv> {''queued'', ''analyzing'', ''completed'', ''failed''}"

lemma core_updates [simp]:
  "core (r\<lparr>qstatus := s\<rparr>) = core r" "core (r\<lparr>analysis := a\<rparr>) = core r" "core (r\<lparr>error_code := c\<rparr>) = core r"
  "core (r\<lparr>updated_at := t\<rparr>) = core r" "core (analyzed_record r result) = core r"
  by (simp_all add: core_def analyzed_record_def split: sum.split)

lemma core_D: "core r = core r' \<Longrightarrow> quote_id r = quote_id r' \<and> owner_subject r = owner_subject r'"
  by (metis (mono_tags) core_def quote_record.select_convs(5,7) quote_record.surjective quote_record.update_convs(1,3,9,11))

lemma core_fields [simp]: "quote_id (core r) = quote_id r" "owner_subject (core r) = owner_subject r"
  by (simp_all add: core_def)

text \<open>\<open>G\<close> says what each quote in play is; \<open>D\<close> holds the identifiers of the stored ones.\<close>

type_synonym quote_cores = "uuid \<rightharpoonup> quote_record"

definition known :: "quote_cores \<Rightarrow> quote_record \<Rightarrow> bool" where
  "known G r \<longleftrightarrow> G (quote_id r) = Some (core r)"

definition owned :: "quote_cores \<Rightarrow> string \<Rightarrow> uuid \<Rightarrow> bool" where
  "owned G subject q \<longleftrightarrow> (\<exists>c. G q = Some c \<and> owner_subject c = subject)"

definition tells :: "quote_event_record \<Rightarrow> quote_record \<Rightarrow> bool" where
  "tells e r \<longleftrightarrow> ev_quote_id e = quote_id r \<and> ev_owner_subject e = owner_subject r \<and> ev_status e = qstatus r"

fun operation_ok :: "quote_cores \<Rightarrow> uuid set \<Rightarrow> string \<Rightarrow> memory_operation \<Rightarrow> bool" where
  "operation_ok G D subject (MCreate q j) = owned G subject q"
| "operation_ok G D subject (MRetry q) = (owned G subject q \<and> q \<in> D)"
| "operation_ok G D subject (MAssessment a j) = True"

definition decision_ok :: "quote_cores \<Rightarrow> string \<Rightarrow> decision \<Rightarrow> bool" where
  "decision_ok G subject dc \<longleftrightarrow>
     known G (dc_record dc) \<and> owner_subject (dc_record dc) = subject \<and> qstatus (dc_record dc) \<in> STATUSES \<and>
     (\<forall>e. dc_event dc = Some e \<longrightarrow> tells e (dc_record dc))"

fun quote_operation :: "memory_operation \<Rightarrow> bool" where
  "quote_operation (MAssessment a j) = False"
| "quote_operation p = True"

fun task_ok :: "quote_cores \<Rightarrow> uuid set \<Rightarrow> task \<Rightarrow> bool" where
  "task_ok G D (KeyRead sm) = True"
| "task_ok G D (QuoteRead sm q replay) = (isl (sm_request sm) \<longrightarrow> owned G (sm_subject sm) q)"
| "task_ok G D (KeyWrite sm p dc) =
     (decision_ok G (sm_subject sm) dc \<and> operation_ok G D (sm_subject sm) p \<and> quote_operation p)"
| "task_ok G D (CacheWrite sm dc) = decision_ok G (sm_subject sm) dc"
| "task_ok G D (AssessWrite subject key sb) = True"
| "task_ok G D (Storing w r e on) =
     (known G (wk_record w) \<and> core r = core (wk_record w) \<and> wk_id w \<in> D \<and> qstatus r \<in> STATUSES \<and> tells e r)"
| "task_ok G D (Asking w) = (known G (wk_record w) \<and> wk_id w \<in> D)"

text \<open>What a step changes: quotes, keys, spawned workers, published events, tasks.\<close>

record play =
  py_quotes :: "uuid \<rightharpoonup> quote_record"
  py_keys :: "string \<times> string \<rightharpoonup> memory_operation"
  py_workers :: "worker set"
  py_events :: "quote_event_record set"
  py_tasks :: "task set"

definition play_of :: "overlap \<Rightarrow> play" where
  "play_of ov =
     \<lparr>py_quotes = map_of (ap_quotes (ov_app ov)), py_keys = map_of (ap_idempotency (ov_app ov)),
      py_workers = set (ap_workers (ov_app ov)), py_events = set (ap_events (ov_app ov)), py_tasks = set (ov_tasks ov)\<rparr>"

definition quote_ok :: "quote_cores \<Rightarrow> uuid \<Rightarrow> quote_record \<Rightarrow> bool" where
  "quote_ok G q r \<longleftrightarrow> quote_id r = q \<and> qstatus r \<in> STATUSES \<and> known G r"

definition worker_ok :: "quote_cores \<Rightarrow> uuid set \<Rightarrow> worker \<Rightarrow> bool" where
  "worker_ok G D w \<longleftrightarrow> known G (wk_record w) \<and> wk_id w \<in> D"

definition event_ok :: "quote_cores \<Rightarrow> uuid set \<Rightarrow> quote_event_record \<Rightarrow> bool" where
  "event_ok G D e \<longleftrightarrow> owned G (ev_owner_subject e) (ev_quote_id e) \<and> ev_quote_id e \<in> D \<and> ev_status e \<in> STATUSES"

definition play_ok :: "quote_cores \<Rightarrow> play \<Rightarrow> bool" where
  "play_ok G p \<longleftrightarrow>
     (\<forall>q r. py_quotes p q = Some r \<longrightarrow> quote_ok G q r) \<and>
     (\<forall>k x. py_keys p k = Some x \<longrightarrow> operation_ok G (dom (py_quotes p)) (fst k) x) \<and>
     (\<forall>w \<in> py_workers p. worker_ok G (dom (py_quotes p)) w) \<and>
     (\<forall>e \<in> py_events p. event_ok G (dom (py_quotes p)) e) \<and>
     (\<forall>t \<in> py_tasks p. task_ok G (dom (py_quotes p)) t)"

lemma operation_more: "operation_ok G D s x \<Longrightarrow> D \<subseteq> D' \<Longrightarrow> operation_ok G D' s x"
  by (cases x) auto

lemma more_stored:
  assumes "D \<subseteq> D'"
  shows "worker_ok G D w \<Longrightarrow> worker_ok G D' w" "event_ok G D e \<Longrightarrow> event_ok G D' e" "task_ok G D t \<Longrightarrow> task_ok G D' t"
  subgoal using assms by (auto simp: worker_ok_def)
  subgoal using assms by (auto simp: event_ok_def)
  subgoal using assms by (cases t) (auto intro: operation_more)
  done

lemma play_ok_D:
  assumes "play_ok G p"
  shows "py_quotes p q = Some r \<Longrightarrow> quote_ok G q r"
    and "py_keys p k = Some x \<Longrightarrow> operation_ok G (dom (py_quotes p)) (fst k) x"
    and "w \<in> py_workers p \<Longrightarrow> worker_ok G (dom (py_quotes p)) w"
    and "e \<in> py_events p \<Longrightarrow> event_ok G (dom (py_quotes p)) e"
    and "t \<in> py_tasks p \<Longrightarrow> task_ok G (dom (py_quotes p)) t"
  using assms unfolding play_ok_def by blast+

text \<open>A segment fits: it adds only what the invariant allows.\<close>

abbreviation stored_ids :: "app_state \<Rightarrow> uuid set" where
  "stored_ids st \<equiv> dom (map_of (ap_quotes st))"

definition fits :: "quote_cores \<Rightarrow> app_state \<Rightarrow> progress \<times> app_state \<Rightarrow> bool" where
  "fits G st x \<longleftrightarrow>
     stored_ids st \<subseteq> stored_ids (snd x) \<and>
     (\<forall>q r. map_of (ap_quotes (snd x)) q = Some r \<longrightarrow> map_of (ap_quotes st) q = Some r \<or> quote_ok G q r) \<and>
     (\<forall>k y. map_of (ap_idempotency (snd x)) k = Some y \<longrightarrow>
        map_of (ap_idempotency st) k = Some y \<or> operation_ok G (stored_ids (snd x)) (fst k) y) \<and>
     (\<forall>w \<in> set (ap_workers (snd x)). w \<in> set (ap_workers st) \<or> worker_ok G (stored_ids (snd x)) w) \<and>
     (\<forall>e \<in> set (ap_events (snd x)). e \<in> set (ap_events st) \<or> event_ok G (stored_ids (snd x)) e) \<and>
     (\<forall>t. fst x = Goes t \<longrightarrow> task_ok G (stored_ids (snd x)) t)"

lemma fits_D:
  assumes "fits G st (x, st')"
  shows "stored_ids st \<subseteq> stored_ids st'"
    and "map_of (ap_quotes st') q = Some r \<Longrightarrow> map_of (ap_quotes st) q = Some r \<or> quote_ok G q r"
    and "map_of (ap_idempotency st') k = Some y \<Longrightarrow>
      map_of (ap_idempotency st) k = Some y \<or> operation_ok G (stored_ids st') (fst k) y"
    and "w \<in> set (ap_workers st') \<Longrightarrow> w \<in> set (ap_workers st) \<or> worker_ok G (stored_ids st') w"
    and "e \<in> set (ap_events st') \<Longrightarrow> e \<in> set (ap_events st) \<or> event_ok G (stored_ids st') e"
    and "x = Goes t \<Longrightarrow> task_ok G (stored_ids st') t"
  using assms unfolding fits_def fst_conv snd_conv by blast+

lemma fits_play:
  assumes ok: "play_ok G (play_of ov)" and f: "fits G (ov_app ov) (x, st)"
    and app: "ov_app ov' = st"
    and tasks: "\<And>t. t \<in> set (ov_tasks ov') \<Longrightarrow> t \<in> set (ov_tasks ov) \<or> x = Goes t"
  shows "play_ok G (play_of ov')"
  unfolding play_ok_def
proof (intro conjI allI impI ballI)
  let ?D = "stored_ids (ov_app ov)" and ?D' = "stored_ids st"
  note more = more_stored [OF fits_D(1) [OF f]] operation_more [OF _ fits_D(1) [OF f]]
  note old = play_ok_D [OF ok, unfolded play_of_def play.simps]
  show "quote_ok G q r" if "py_quotes (play_of ov') q = Some r" for q r
    using fits_D(2) [OF f, of q r] old(1) [of q r] that app by (auto simp: play_of_def)
  show "operation_ok G (dom (py_quotes (play_of ov'))) (fst k) y" if "py_keys (play_of ov') k = Some y" for k y
    using fits_D(3) [OF f, of k y] old(2) [of k y] more(4) that app by (auto simp: play_of_def)
  show "worker_ok G (dom (py_quotes (play_of ov'))) w" if "w \<in> py_workers (play_of ov')" for w
    using fits_D(4) [OF f, of w] old(3) [of w] more(1) that app by (auto simp: play_of_def)
  show "event_ok G (dom (py_quotes (play_of ov'))) e" if "e \<in> py_events (play_of ov')" for e
    using fits_D(5) [OF f, of e] old(4) [of e] more(2) that app by (auto simp: play_of_def)
  show "task_ok G (dom (py_quotes (play_of ov'))) t" if "t \<in> py_tasks (play_of ov')" for t
    using fits_D(6) [OF f, of t] tasks [of t] old(5) [of t] more(3) that app by (auto simp: play_of_def)
qed


section \<open>Every segment fits\<close>

lemma fits_unchanged:
  assumes "ap_quotes st' = ap_quotes st" "ap_idempotency st' = ap_idempotency st" "ap_events st' = ap_events st"
    and "set (ap_workers st') \<subseteq> set (ap_workers st)" and "\<And>t. x = Goes t \<Longrightarrow> task_ok G (stored_ids st) t"
  shows "fits G st (x, st')"
  using assms by (auto simp: fits_def)

lemma fits_refuse [intro!]: "fits G st (refuse st e)" "fits G st (x, release_permit st)" if "\<And>t. x \<noteq> Goes t"
  using that by (auto simp: refuse_def release_permit_def intro!: fits_unchanged)

lemma fits_arrivals:
  "fits G st (arrive_create env headers payload st)" "fits G st (arrive_retry env headers qid st)"
  by (auto simp: arrive_create_def arrive_retry_def refuse_def release_permit_def
      split: sum.split prod.split option.split dest!: admit_fields intro!: fits_unchanged)

text \<open>Caching a record in play and publishing its event.\<close>

lemma fits_cache:
  assumes r: "quote_ok G (quote_id r) r" and "ap_quotes st' = AList.update (quote_id r) r (ap_quotes st)"
    and "ap_idempotency st' = ap_idempotency st"
    and "\<And>e. e \<in> set (ap_events st') \<Longrightarrow> e \<in> set (ap_events st) \<or> tells e r"
    and "\<And>w. w \<in> set (ap_workers st') \<Longrightarrow> w \<in> set (ap_workers st) \<or> wk_record w = r"
    and "\<And>t. x = Goes t \<Longrightarrow> task_ok G (insert (quote_id r) (stored_ids st)) t"
  shows "fits G st (x, st')"
proof -
  have ev: "event_ok G (insert (quote_id r) D) e" if "tells e r" for e D
    using r that by (simp add: event_ok_def tells_def owned_def quote_ok_def known_def)
  have wk: "worker_ok G (insert (quote_id r) D) w" if "wk_record w = r" for w D
    using r that by (simp add: worker_ok_def quote_ok_def)
  have D: "stored_ids st' = insert (quote_id r) (stored_ids st)" unfolding assms(2) update_conv' by simp
  have Q: "map_of (ap_quotes st') q = Some r' \<longrightarrow> map_of (ap_quotes st) q = Some r' \<or> quote_ok G q r'" for q r'
    unfolding assms(2) update_conv' using r by auto
  show ?thesis
    unfolding fits_def fst_conv snd_conv D assms(3) using Q ev wk assms(4-6) by blast
qed


lemma decision_quote_ok: "decision_ok G subject dc \<Longrightarrow> quote_ok G (quote_id (dc_record dc)) (dc_record dc)"
  by (simp add: decision_ok_def quote_ok_def)

lemma tells_memory_event [simp]: "tells (fst (memory_event st r)) r"
  by (simp add: memory_event_def tells_def)

lemma fits_submit_finish:
  assumes ok: "decision_ok G subject dc" and x: "\<And>t. x \<noteq> Goes t"
  shows "fits G st (x, snd (submit_finish st dc req))"
    and "fits G st (x, release_permit (case dc_event dc of None \<Rightarrow> cache_quote st (dc_record dc)
           | Some event \<Rightarrow> publish_event (cache_quote st (dc_record dc)) event))"
proof -
  have ev: "tells e (dc_record dc)" if "dc_event dc = Some e" for e using ok that by (simp add: decision_ok_def)
  note cache = fits_cache [OF decision_quote_ok [OF ok]]
  show "fits G st (x, snd (submit_finish st dc req))"
    by (rule cache) (auto simp: submit_finish_def release_permit_def cache_quote_def publish_event_def Let_def x ev
        split: option.splits if_splits)
  show "fits G st (x, release_permit (case dc_event dc of None \<Rightarrow> cache_quote st (dc_record dc)
           | Some event \<Rightarrow> publish_event (cache_quote st (dc_record dc)) event))"
    by (rule cache) (auto simp: release_permit_def cache_quote_def publish_event_def x ev split: option.splits)
qed

lemma fits_cache_write:
  assumes "decision_ok G (sm_subject sm) dc"
  shows "fits G st (cache_write env st sm dc)"
proof -
  note fin = fits_submit_finish [OF assms]
  have ended: "fits G st (case submit_finish st dc req of (Inl e, st1) \<Rightarrow> (Refused e, st1) | (Inr _, st1) \<Rightarrow> (Accepted r, st1))" for req r
  proof -
    obtain x st1 where f: "submit_finish st dc req = (x, st1)" by fastforce
    then have "fits G st (y, st1)" if "\<And>t. y \<noteq> Goes t" for y using fin(1) [of y st req] that by simp
    then show ?thesis using f by (cases x) auto
  qed
  show ?thesis
    unfolding cache_write_def Let_def refuse_def using ended fin(2) by (auto split: sum.split)
qed

lemma fits_key_write:
  assumes "decision_ok G (sm_subject sm) dc" and "operation_ok G (stored_ids st) (sm_subject sm) p"
  shows "fits G st (key_write st sm p dc)"
  using assms by (auto simp: key_write_def fits_def update_conv' split: if_splits)

lemma fits_quote_read:
  assumes mem: "ap_database st = None" and quotes: "\<And>q r. map_of (ap_quotes st) q = Some r \<Longrightarrow> quote_ok G q r"
    and own: "isl (sm_request sm) \<Longrightarrow> owned G (sm_subject sm) qid"
  shows "fits G st (quote_read_segment env st sm qid replay)"
proof (cases "sm_request sm")
  case (Inl rj)
  show ?thesis
  proof (cases "map_of (ap_quotes st) qid")
    case (Some r)
    then have "decision_ok G (sm_subject sm) (replay_of r)"
      using quotes [OF Some] own Inl by (auto simp: quote_ok_def owned_def known_def decision_ok_def replay_of_def)
    then show ?thesis using Inl Some by (auto simp: quote_read_segment_def intro: fits_unchanged)
  qed (use Inl in \<open>auto simp: quote_read_segment_def intro: fits_refuse\<close>)
next
  case (Inr q)
  obtain x st1 where f: "find_quote env st qid (sm_subject sm) = (x, st1)" by fastforce
  note m = find_quote_memory [OF mem f]
  show ?thesis
  proof (cases x)
    case (Inl e)
    then show ?thesis using Inr f m by (auto simp: quote_read_segment_def intro: fits_refuse)
  next
    case (Inr r)
    then have r: "map_of (ap_quotes st) qid = Some r" "owner_subject r = sm_subject sm" "st1 = st" using m by auto
    have ok: "quote_ok G qid r" using quotes [OF r(1)] .
    have replayed: "decision_ok G (sm_subject sm) (replay_of r)"
      using ok r(2) by (auto simp: quote_ok_def decision_ok_def replay_of_def)
    let ?r = "\<lambda>t. r\<lparr>qstatus := ''queued'', analysis := None, error_code := None, updated_at := t\<rparr>"
    have again: "decision_ok G (sm_subject sm) (analysis_of (?r t) (fst (memory_event st (?r t))))" for t
      using ok r(2) by (auto simp: quote_ok_def decision_ok_def analysis_of_def known_def)
    have mine: "operation_ok G (stored_ids st) (sm_subject sm) (MRetry qid)"
      using ok r by (auto simp: quote_ok_def owned_def known_def)
    show ?thesis
      using \<open>sm_request sm = Inr q\<close> Inr f r(3) replayed again mine
      by (auto simp: quote_read_segment_def Let_def memory_event_def split: sum.split
          intro!: fits_refuse fits_unchanged)
  qed
qed

text \<open>A new submission's identifier is its own; the others are as they were.\<close>

lemma fits_key_read:
  assumes keys: "\<And>k x. map_of (ap_idempotency st) k = Some x \<Longrightarrow> operation_ok G D (fst k) x"
    and new: "\<And>req j timestamp. sm_request sm = Inl (req, j) \<Longrightarrow> map_of (ap_idempotency st) (sm_subject sm, sm_key sm) = None \<Longrightarrow>
      now_rfc3339 env = Inr timestamp \<Longrightarrow> known G (new_record st (ce_new_uuid env) (sm_subject sm) (wire req) timestamp)"
  shows "fits G st (key_read env st sm)"
proof -
  have own: "owned G (sm_subject sm) q" if "map_of (ap_idempotency st) (sm_subject sm, sm_key sm) = Some (MCreate q j)" for q j
    using keys [OF that] by simp
  have made: "decision_ok G (sm_subject sm) (analysis_of r (fst (memory_event st r)))"
    "operation_ok G (stored_ids st) (sm_subject sm) (MCreate (quote_id r) j)"
    if "sm_request sm = Inl (req, j)" "map_of (ap_idempotency st) (sm_subject sm, sm_key sm) = None"
      "now_rfc3339 env = Inr timestamp" and r: "r = new_record st (ce_new_uuid env) (sm_subject sm) (wire req) timestamp" for r req j timestamp
    using new [OF that(1-3)] unfolding r
    by (auto simp: decision_ok_def analysis_of_def new_record_def known_def owned_def)
  show ?thesis
    using own made
    by (auto simp: key_read_def Let_def memory_event_def split: option.split memory_operation.split sum.split
        intro!: fits_refuse fits_unchanged)
qed

lemma fits_update_or_end:
  assumes "known G (wk_record w)" and "core r = core (wk_record w)" and "wk_id w \<in> stored_ids st" and "qstatus r \<in> STATUSES"
    and "fits G st0 (Over, st)"
  shows "fits G st0 (update_or_end env st w r on)"
  using assms
  by (auto simp: update_or_end_def update_begin_def memory_event_def Let_def release_permit_def fits_def tells_def
      split: option.split)


lemma fits_worker:
  assumes "task_ok G (stored_ids st) (Storing w r e on)"
  shows "fits G st (worker_stores env st w r e on)"
proof -
  let ?st = "publish_event (cache_quote st r) e"
  have id: "quote_id r = wk_id w" "owner_subject r = owner_subject (wk_record w)"
    using assms core_D [of r "wk_record w"] by simp_all
  then have ok: "quote_ok G (quote_id r) r" using assms by (simp add: quote_ok_def known_def)
  have mine: "wk_id w \<in> stored_ids ?st" using id by (simp add: publish_event_def cache_quote_def update_conv')
  have cached: "fits G st (x, st')"
    if "st' = ?st \<or> st' = release_permit ?st" "\<And>t. x = Goes t \<Longrightarrow> task_ok G (insert (quote_id r) (stored_ids st)) t" for x st'
    using that assms by (intro fits_cache [OF ok]) (auto simp: publish_event_def cache_quote_def release_permit_def)
  have "fits G st (Over, ?st)" by (rule cached) simp_all
  then have failed: "fits G st (update_or_end env ?st w (r\<lparr>qstatus := ''failed'', error_code := c\<rparr>) False)" for c
    using assms mine by (intro fits_update_or_end) simp_all
  have asked: "task_ok G (insert (quote_id r) (stored_ids st)) (Asking (w\<lparr>wk_record := r, wk_started := True\<rparr>))"
    using assms id by (simp add: known_def)
  have "fits G st (Goes (Asking (w\<lparr>wk_record := r, wk_started := True\<rparr>)), ?st)"
    by (rule cached) (use asked in auto)
  moreover have "fits G st (Over, release_permit ?st)" by (rule cached) simp_all
  ultimately show ?thesis using failed by (simp add: worker_stores_def Let_def)
qed

lemma fits_worker_told: "task_ok G (stored_ids st) (Asking w) \<Longrightarrow> fits G st (worker_told env st w result)"
  unfolding worker_told_def
  by (rule fits_update_or_end) (auto simp: analyzed_record_def intro: fits_unchanged split: sum.split)

lemma fits_worker_spawned:
  assumes "worker_ok G (stored_ids st) w" and "st' = st\<lparr>ap_workers := W\<rparr>" and "set W \<subseteq> set (ap_workers st)"
  shows "fits G st (worker_spawned env st' w)"
proof -
  have "fits G st (Over, st')" unfolding assms(2) by (rule fits_unchanged) (use assms(3) in simp_all)
  then show ?thesis unfolding worker_spawned_def using assms(1,2) by (intro fits_update_or_end) (simp_all add: worker_ok_def)
qed


section \<open>Every step keeps the invariant\<close>

text \<open>A fresh identifier can be given to a new quote: nothing in play speaks of it.\<close>

lemma unused_notin:
  assumes "u \<notin> set (used_ids ov)"
  shows "map_of (ap_quotes (ov_app ov)) q = Some r \<Longrightarrow> u \<noteq> q"
    and "map_of (ap_idempotency (ov_app ov)) k = Some p \<Longrightarrow> u \<notin> set (operation_ids p)"
    and "w \<in> set (ap_workers (ov_app ov)) \<Longrightarrow> u \<noteq> wk_id w"
    and "t \<in> set (ov_tasks ov) \<Longrightarrow> u \<notin> set (task_ids t)"
    and "a \<in> set (sv_assessments (ov_service ov)) \<Longrightarrow> u \<noteq> as_id a"
proof -
  have u: "u \<notin> set (map fst (ap_quotes (ov_app ov)))" "u \<notin> set (map wk_id (ap_workers (ov_app ov)))"
    "u \<notin> set (concat (map task_ids (ov_tasks ov)))" "u \<notin> set (map as_id (sv_assessments (ov_service ov)))"
    "u \<notin> set (concat (map (operation_ids \<circ> snd) (ap_idempotency (ov_app ov))))"
    using assms unfolding used_ids_def set_append by blast+
  show "u \<noteq> q" if "map_of (ap_quotes (ov_app ov)) q = Some r"
    using u(1) map_of_SomeD [OF that] by force
  show "u \<notin> set (operation_ids p)" if "map_of (ap_idempotency (ov_app ov)) k = Some p"
    using u(5) map_of_SomeD [OF that] by force
  show "u \<noteq> wk_id w" if "w \<in> set (ap_workers (ov_app ov))" using u(2) that by force
  show "u \<notin> set (task_ids t)" if "t \<in> set (ov_tasks ov)" using u(3) that by force
  show "u \<noteq> as_id a" if "a \<in> set (sv_assessments (ov_service ov))" using u(4) that by force
qed

lemma decision_extend: "decision_ok G s dc \<Longrightarrow> u \<noteq> quote_id (dc_record dc) \<Longrightarrow> decision_ok (G(u \<mapsto> c)) s dc"
  by (simp add: decision_ok_def known_def)

lemma operation_extend: "operation_ok G D s x \<Longrightarrow> u \<notin> set (operation_ids x) \<Longrightarrow> operation_ok (G(u \<mapsto> c)) D s x"
  by (cases x) (auto simp: owned_def)

lemma task_extend:
  assumes "task_ok G D t" and "u \<notin> set (task_ids t)"
  shows "task_ok (G(u \<mapsto> c)) D t"
  using assms by (cases t) (simp_all add: decision_extend operation_extend owned_def known_def)


lemma play_extend:
  assumes ok: "play_ok G (play_of ov)" and u: "u \<notin> set (used_ids ov)"
  shows "play_ok (G(u \<mapsto> c)) (play_of ov)"
  unfolding play_ok_def
proof (intro conjI allI impI ballI)
  let ?G = "G(u \<mapsto> c)" and ?D = "dom (py_quotes (play_of ov))"
  note old = play_ok_D [OF ok] and new = unused_notin [OF u]
  have stored: "q \<noteq> u" if "q \<in> ?D" for q using that new(1) by (auto simp: play_of_def)
  show "quote_ok ?G q r" if "py_quotes (play_of ov) q = Some r" for q r
    using old(1) [OF that] stored [of q] that by (auto simp: quote_ok_def known_def)
  show "operation_ok ?G ?D (fst k) x" if "py_keys (play_of ov) k = Some x" for k x
    using old(2) [OF that] new(2) [of k x] that by (intro operation_extend) (simp_all add: play_of_def)
  show "worker_ok ?G ?D w" if "w \<in> py_workers (play_of ov)" for w
    using old(3) [OF that] stored [of "wk_id w"] by (simp add: worker_ok_def known_def)
  show "event_ok ?G ?D e" if "e \<in> py_events (play_of ov)" for e
    using old(4) [OF that] stored [of "ev_quote_id e"] by (simp add: event_ok_def owned_def)
  show "task_ok ?G ?D t" if "t \<in> py_tasks (play_of ov)" for t
    using old(5) [OF that] new(4) [of t] that by (intro task_extend) (simp_all add: play_of_def)
qed

lemma fits_assess_write: "fits G (sv_app sv) (fst (assess_write env sv subject key sb), sv_app (snd (assess_write env sv subject key sb)))"
proof -
  have keys: "map_of (ap_idempotency (sv_app (store_assessment sv r j))) k = Some y \<Longrightarrow>
      map_of (ap_idempotency (sv_app sv)) k = Some y \<or> operation_ok G D (fst k) y" for r j k y D
    by (auto simp: store_assessment_def Let_def update_conv' delete_conv' restrict_map_def
        split: list.splits option.splits memory_operation.splits if_splits)
  have rest': "ap_quotes (sv_app (store_assessment sv r j)) = ap_quotes (sv_app sv)"
    "ap_workers (sv_app (store_assessment sv r j)) = ap_workers (sv_app sv)"
    "ap_events (sv_app (store_assessment sv r j)) = ap_events (sv_app sv)" for r j
    by (simp_all add: store_assessment_def Let_def split: list.split prod.split)
  have pub: "sv_app (publish_assessment_event sv' e) = sv_app sv'" for sv' e
    by (simp add: publish_assessment_event_def)
  have stored: "fits G (sv_app sv) (Received a, sv_app (publish_assessment_event (store_assessment sv r j) e))" for a r j e
    unfolding fits_def fst_conv snd_conv pub rest' using keys by blast
  have same: "fits G (sv_app sv) (Refused e, sv_app sv)" "fits G (sv_app sv) (Received a, sv_app sv)" for e a
    by (simp_all add: fits_def)
  show ?thesis using stored same by (auto simp: assess_write_def split: sum.split prod.split)
qed

lemma database_segments:
  assumes "ap_database st = None"
  shows "ap_database (snd (arrive_create env headers payload st)) = None" "ap_database (snd (arrive_retry env headers qid st)) = None"
    "ap_database (snd (key_read env st sm)) = None" "ap_database (snd (quote_read_segment env st sm qid replay)) = None"
    "ap_database (snd (key_write st sm p dc)) = None" "ap_database (snd (cache_write env st sm dc)) = None"
    "ap_database (snd (update_or_end env st w r on)) = None"
  using assms
  by (auto simp: arrive_create_def arrive_retry_def key_read_def quote_read_segment_def key_write_def cache_write_def refuse_def
      update_or_end_def update_begin_def release_permit_def memory_event_def find_quote_def submit_finish_def
      cache_quote_def publish_event_def Let_def
      split: sum.split prod.split option.split memory_operation.split dest!: admit_fields)

lemma database_advance:
  "ap_database (sv_app sv) = None \<Longrightarrow> ap_database (sv_app (snd (advance env result sv t))) = None"
  by (cases t) (auto simp: on_app_def database_segments worker_stores_def worker_told_def assess_write_def publish_assessment_event_def
      store_assessment_def publish_event_def cache_quote_def release_permit_def Let_def split: sum.split prod.split list.split)


lemma fits_advance:
  assumes ok: "play_ok G (play_of ov)" and mem: "ap_database (ov_app ov) = None" and t: "t \<in> set (ov_tasks ov)"
    and new: "\<And>sm req j timestamp. t = KeyRead sm \<Longrightarrow> sm_request sm = Inl (req, j) \<Longrightarrow>
      map_of (ap_idempotency (ov_app ov)) (sm_subject sm, sm_key sm) = None \<Longrightarrow> now_rfc3339 env = Inr timestamp \<Longrightarrow>
      known G (new_record (ov_app ov) (ce_new_uuid env) (sm_subject sm) (wire req) timestamp)"
    and x: "advance env result (ov_service ov) t = (x, sv)"
  shows "fits G (ov_app ov) (x, sv_app sv)"
proof -
  note old = play_ok_D [OF ok, unfolded play_of_def play.simps]
  have task: "task_ok G (stored_ids (ov_app ov)) t" using old(5) [OF t] .
  have "fits G (ov_app ov) (fst (advance env result (ov_service ov) t), sv_app (snd (advance env result (ov_service ov) t)))"
  proof (cases t)
    case (KeyRead sm)
    have "fits G (ov_app ov) (key_read env (ov_app ov) sm)"
      using old(2) new [OF KeyRead] by (rule fits_key_read)
    then show ?thesis by (simp add: KeyRead on_app_def)
  next
    case (QuoteRead sm q b)
    then have "isl (sm_request sm) \<Longrightarrow> owned G (sm_subject sm) q" using task by simp
    with mem old(1) have "fits G (ov_app ov) (quote_read_segment env (ov_app ov) sm q b)" by (rule fits_quote_read)
    then show ?thesis by (simp add: QuoteRead on_app_def)
  next
    case (KeyWrite sm p dc)
    then show ?thesis using fits_key_write [of G sm dc "ov_app ov" p] task by (simp add: on_app_def)
  next
    case (CacheWrite sm dc)
    then show ?thesis using fits_cache_write task by (simp add: on_app_def)
  next
    case (AssessWrite su k sb)
    then show ?thesis using fits_assess_write by simp
  next
    case (Storing w r e on)
    then show ?thesis using fits_worker task by (simp add: on_app_def)
  next
    case (Asking w)
    then show ?thesis using fits_worker_told task by (simp add: on_app_def)
  qed
  then show ?thesis using x by simp
qed

lemma advance_step:
  assumes ok: "play_ok G (play_of ov)" and mem: "ap_database (ov_app ov) = None" and u: "may_draw t \<Longrightarrow> ce_new_uuid env \<notin> set (used_ids ov)"
    and t: "t \<in> set (ov_tasks ov)" and x: "advance env result (ov_service ov) t = (x, sv)"
  obtains G' where "play_ok G' (play_of ov)" "fits G' (ov_app ov) (x, sv_app sv)"
proof (cases "\<exists>sm req j timestamp. t = KeyRead sm \<and> sm_request sm = Inl (req, j) \<and> now_rfc3339 env = Inr timestamp")
  case True
  then obtain sm req j timestamp where sm: "t = KeyRead sm" "sm_request sm = Inl (req, j)" "now_rfc3339 env = Inr timestamp"
    by blast
  let ?r = "new_record (ov_app ov) (ce_new_uuid env) (sm_subject sm) (wire req) timestamp"
  let ?G = "G(ce_new_uuid env \<mapsto> core ?r)"
  have G: "play_ok ?G (play_of ov)" using ok u sm(1) by (intro play_extend) simp_all
  have "known ?G ?r" by (simp add: known_def new_record_def)
  then have "fits ?G (ov_app ov) (x, sv_app sv)" using sm by (intro fits_advance [OF G mem t _ x]) auto
  with G show ?thesis by (rule that)
next
  case False
  then have "fits G (ov_app ov) (x, sv_app sv)" by (intro fits_advance [OF ok mem t _ x]) auto
  with ok show ?thesis by (rule that)
qed

text \<open>The quotes stored before a step are stored after it, and are the same submissions.\<close>

definition in_order :: "quote_cores \<Rightarrow> overlap \<Rightarrow> overlap \<Rightarrow> bool" where
  "in_order G ov ov' \<longleftrightarrow> play_ok G (play_of ov) \<and> play_ok G (play_of ov') \<and>
     stored_ids (ov_app ov) \<subseteq> stored_ids (ov_app ov') \<and> ap_database (ov_app ov') = None"

lemma fits_in_order:
  assumes "play_ok G (play_of ov)" and "fits G (ov_app ov) (x, ov_app ov')" and "ap_database (ov_app ov') = None"
    and "\<And>t. t \<in> set (ov_tasks ov') \<Longrightarrow> t \<in> set (ov_tasks ov) \<or> x = Goes t"
  shows "in_order G ov ov'"
  unfolding in_order_def using assms fits_play [OF assms(1,2) refl assms(4)] fits_D(1) [OF assms(2)] by blast

lemma joined_tasks: "t \<in> set (ov_tasks (joined ov (x, sv))) \<Longrightarrow> t \<in> set (ov_tasks ov) \<or> x = Goes t"
  by (auto simp: joined_def split: progress.splits)

lemma resumed_tasks: "t \<in> set (ov_tasks (resumed ov i (x, sv))) \<Longrightarrow> t \<in> set (ov_tasks ov) \<or> x = Goes t"
  using set_remove_nth [of i "ov_tasks ov"] set_update_subset_insert [of "ov_tasks ov" i]
  by (auto simp: resumed_def split: progress.splits)

lemma step_in_order:
  assumes ok: "play_ok G (play_of ov)" and mem: "ap_database (ov_app ov) = None" and fresh: "draws_unused ov i"
  shows "\<exists>G'. in_order G' ov (overlap_step ov i)"
proof (cases i)
  case (ArriveCreate env headers payload)
  obtain x st where a: "arrive_create env headers payload (ov_app ov) = (x, st)" by fastforce
  have "in_order G ov (joined ov (x, (ov_service ov)\<lparr>sv_app := st\<rparr>))"
    using fits_arrivals(1) [of G "ov_app ov" env headers payload] database_segments(1) [OF mem, of env headers payload]
    by (intro fits_in_order [OF ok, of x] joined_tasks) (simp_all add: a joined_def)
  then show ?thesis using ArriveCreate a by auto
next
  case (ArriveRetry env headers q)
  obtain x st where a: "arrive_retry env headers q (ov_app ov) = (x, st)" by fastforce
  have "in_order G ov (joined ov (x, (ov_service ov)\<lparr>sv_app := st\<rparr>))"
    using fits_arrivals(2) [of G "ov_app ov" env headers q] database_segments(2) [OF mem, of env headers q]
    by (intro fits_in_order [OF ok, of x] joined_tasks) (simp_all add: a joined_def)
  then show ?thesis using ArriveRetry a by auto
next
  case (ArriveAssessment env headers payload)
  obtain x sv where a: "arrive_assessment env headers payload (ov_service ov) = (x, sv)" by fastforce
  then have "fits G (ov_app ov) (x, sv_app sv) \<and> ap_database (sv_app sv) = None"
    using mem by (auto simp: arrive_assessment_def set_windows_def split: sum.splits prod.splits intro!: fits_unchanged)
  then have "in_order G ov (joined ov (x, sv))"
    by (intro fits_in_order [OF ok, of x] joined_tasks) (simp_all add: joined_def)
  then show ?thesis using ArriveAssessment a by auto
next
  case (Poll env i)
  show ?thesis
  proof (cases "i < length (ap_workers (ov_app ov))")
    case True
    let ?w = "ap_workers (ov_app ov) ! i" and ?W = "remove_nth i (ap_workers (ov_app ov))"
    obtain x st where a: "worker_spawned env ((ov_app ov)\<lparr>ap_workers := ?W\<rparr>) ?w = (x, st)" by fastforce
    have "worker_ok G (stored_ids (ov_app ov)) ?w" using play_ok_D(3) [OF ok, of ?w] True by (simp add: play_of_def)
    then have f: "fits G (ov_app ov) (x, st)" unfolding a [symmetric] by (rule fits_worker_spawned [OF _ refl set_remove_nth])
    have "ap_database st = None"
      using database_segments(7) [of "(ov_app ov)\<lparr>ap_workers := ?W\<rparr>" env ?w _ True] mem a by (metis (no_types, lifting)
        app_state.select_convs(2) app_state.surjective app_state.update_convs(13) snd_conv worker_spawned_def)
    with f have "in_order G ov (joined ov (x, (ov_service ov)\<lparr>sv_app := st\<rparr>))"
      by (intro fits_in_order [OF ok, of x] joined_tasks) (simp_all add: joined_def)
    then show ?thesis using Poll True a by auto
  qed (use Poll ok mem in \<open>auto simp: in_order_def\<close>)
next
  case (Advance env i result)
  show ?thesis
  proof (cases "i < length (ov_tasks ov)")
    case True
    obtain x sv where a: "advance env result (ov_service ov) (ov_tasks ov ! i) = (x, sv)" by fastforce
    obtain G' where G': "play_ok G' (play_of ov)" "fits G' (ov_app ov) (x, sv_app sv)"
      using advance_step [OF ok mem _ _ a] fresh Advance True by auto
    have "ap_database (sv_app sv) = None" using database_advance [OF mem, of env result "ov_tasks ov ! i"] a by simp
    then have "in_order G' ov (resumed ov i (x, sv))"
      using G'(2) by (intro fits_in_order [OF G'(1), of x] resumed_tasks) (simp_all add: resumed_def)
    then show ?thesis using Advance True a by auto
  qed (use Advance ok mem in \<open>auto simp: in_order_def\<close>)
next
  case (Drop i)
  let ?sv = "task_dropped (ov_tasks ov ! i) (ov_service ov)"
  have f: "fits G (ov_app ov) (Over, sv_app ?sv)" and db: "ap_database (sv_app ?sv) = None"
    using mem by (auto simp: task_dropped_def release_permit_def intro!: fits_unchanged)
  have "in_order G ov \<lparr>ov_service = ?sv, ov_tasks = remove_nth i (ov_tasks ov)\<rparr>"
    by (rule fits_in_order [OF ok, of Over]) (use f db set_remove_nth [of i "ov_tasks ov"] in auto)
  then show ?thesis using Drop ok mem by (auto simp: in_order_def)
qed



section \<open>Permits\<close>

definition permit_of :: "progress \<Rightarrow> nat" where
  "permit_of x = (case x of Goes t \<Rightarrow> if owns_permit t then 1 else 0 | _ \<Rightarrow> 0)"

lemma permit_of_simps [simp]:
  "permit_of (Goes t) = (if owns_permit t then 1 else 0)" "permit_of (Accepted r) = 0" "permit_of (Refused e) = 0"
  "permit_of (Received a) = 0" "permit_of Over = 0"
  by (simp_all add: permit_of_def)

text \<open>Free permits, spawned workers and the task's own permit.\<close>

definition in_all :: "progress \<times> app_state \<Rightarrow> nat" where
  "in_all x = permit_of (fst x) + ap_permits (snd x) + length (ap_workers (snd x))"

definition free_or_spawned :: "app_state \<Rightarrow> nat" where
  "free_or_spawned st = ap_permits st + length (ap_workers st)"

lemma admit_held: "admit env st subject = (x, st') \<Longrightarrow> free_or_spawned st' + (if isl x then 0 else 1) = free_or_spawned st"
  by (auto simp: admit_def free_or_spawned_def split: if_splits prod.splits sum.splits)

lemma free_pieces [simp]:
  "free_or_spawned (publish_event st e) = free_or_spawned st"
  "free_or_spawned (cache_quote st r) = free_or_spawned st"
  "free_or_spawned (snd (memory_event st r)) = free_or_spawned st"
  "free_or_spawned (release_permit st) = Suc (free_or_spawned st)"
  "free_or_spawned (st\<lparr>ap_idempotency := ops\<rparr>) = free_or_spawned st"
  "free_or_spawned (st\<lparr>ap_sequence := n\<rparr>) = free_or_spawned st"
  "free_or_spawned (st\<lparr>ap_windows := w\<rparr>) = free_or_spawned st"
  by (simp_all add: free_or_spawned_def publish_event_def cache_quote_def memory_event_def release_permit_def)

lemma submit_finish_held: "free_or_spawned (snd (submit_finish st dc req)) = Suc (free_or_spawned st)"
proof -
  have "free_or_spawned (st'\<lparr>ap_workers := ap_workers st' @ [w]\<rparr>) = Suc (free_or_spawned st')" for st' w
    by (simp add: free_or_spawned_def)
  then show ?thesis by (simp add: submit_finish_def Let_def split: option.split)
qed

lemma in_all_eq: "in_all (x, st) = permit_of x + free_or_spawned st"
  by (simp add: in_all_def free_or_spawned_def)

lemma arrivals_held:
  "in_all (arrive_create env headers payload st) = free_or_spawned st"
  "in_all (arrive_retry env headers qid st) = free_or_spawned st"
  by (auto simp: arrive_create_def arrive_retry_def refuse_def in_all_eq split: sum.split prod.split option.split dest!: admit_held)

lemma segments_held:
  "in_all (key_read env st sm) = Suc (free_or_spawned st)"
  "ap_database st = None \<Longrightarrow> in_all (quote_read_segment env st sm qid replay) = Suc (free_or_spawned st)"
  "in_all (key_write st sm p dc) = Suc (free_or_spawned st)"
  "in_all (cache_write env st sm dc) = Suc (free_or_spawned st)"
  "in_all (update_or_end env st w r on) = Suc (free_or_spawned st)"
proof -
  show "in_all (key_read env st sm) = Suc (free_or_spawned st)"
    by (auto simp: key_read_def refuse_def in_all_eq memory_event_def Let_def split: sum.split option.split memory_operation.split)
  show "ap_database st = None \<Longrightarrow> in_all (quote_read_segment env st sm qid replay) = Suc (free_or_spawned st)"
    by (auto simp: quote_read_segment_def refuse_def in_all_eq memory_event_def Let_def
        split: sum.split option.split prod.split dest: find_quote_memory)
  show "in_all (key_write st sm p dc) = Suc (free_or_spawned st)" by (simp add: key_write_def in_all_eq)
  have fin: "in_all (case submit_finish st dc req of (Inl e, st1) \<Rightarrow> (Refused e, st1) | (Inr _, st1) \<Rightarrow> (Accepted r, st1)) =
      Suc (free_or_spawned st)" for req r
    using submit_finish_held [of st dc req] by (auto simp: in_all_eq split: prod.split sum.split)
  show "in_all (cache_write env st sm dc) = Suc (free_or_spawned st)"
    unfolding cache_write_def Let_def using fin by (auto simp: refuse_def in_all_eq split: sum.split option.split)
  show "in_all (update_or_end env st w r on) = Suc (free_or_spawned st)"
    by (auto simp: update_or_end_def update_begin_def in_all_eq memory_event_def Let_def split: option.split)
qed

lemma advance_held:
  assumes "ap_database (sv_app sv) = None" and "advance env result sv t = (x, sv')"
  shows "permit_of x + free_or_spawned (sv_app sv') = permit_of (Goes t) + free_or_spawned (sv_app sv)"
proof -
  have app: "permit_of (fst (on_app sv y)) + free_or_spawned (sv_app (snd (on_app sv y))) = in_all y" for y
    by (cases y) (simp add: in_all_eq)
  have worker: "in_all (worker_stores env st w r e on) = Suc (free_or_spawned st)" for st w r e on
    by (auto simp: worker_stores_def Let_def segments_held in_all_eq)
  have assess: "permit_of (fst (assess_write env sv su k sb)) + free_or_spawned (sv_app (snd (assess_write env sv su k sb))) =
      free_or_spawned (sv_app sv)" for su k sb
    by (auto simp: assess_write_def store_assessment_def publish_assessment_event_def Let_def split: sum.split prod.split list.split)
  have "permit_of (fst (advance env result sv t)) + free_or_spawned (sv_app (snd (advance env result sv t))) =
      permit_of (Goes t) + free_or_spawned (sv_app sv)"
    using assms(1) by (cases t) (simp_all add: app segments_held worker assess worker_told_def)
  then show ?thesis using assms(2) by simp
qed

definition permits_shared :: "overlap \<Rightarrow> bool" where
  "permits_shared ov \<longleftrightarrow>
     free_or_spawned (ov_app ov) + length (filter owns_permit (ov_tasks ov)) = QUOTE_ANALYSIS_MAX_CONCURRENCY"

lemma owners_resumed:
  assumes "i < length ts"
  shows "length (filter owns_permit (ts[i := t])) + permit_of (Goes (ts ! i)) = length (filter owns_permit ts) + permit_of (Goes t)"
    and "length (filter owns_permit (remove_nth i ts)) + permit_of (Goes (ts ! i)) = length (filter owns_permit ts)"
proof -
  have ts: "ts = take i ts @ ts ! i # drop (Suc i) ts" using assms by (rule id_take_nth_drop)
  have "length (filter owns_permit ts) = length (filter owns_permit (take i ts @ ts ! i # drop (Suc i) ts))" using ts by simp
  then show "length (filter owns_permit (ts[i := t])) + permit_of (Goes (ts ! i)) = length (filter owns_permit ts) + permit_of (Goes t)"
    "length (filter owns_permit (remove_nth i ts)) + permit_of (Goes (ts ! i)) = length (filter owns_permit ts)"
    using assms by (simp_all add: upd_conv_take_nth_drop remove_nth_def)
qed

lemma permits_joined:
  assumes "permits_shared ov" and "permit_of x + free_or_spawned (sv_app sv) = free_or_spawned (ov_app ov)"
  shows "permits_shared (joined ov (x, sv))"
  using assms by (cases x) (auto simp: permits_shared_def joined_def)

lemma permits_resumed:
  assumes ok: "permits_shared ov" and i: "i < length (ov_tasks ov)"
    and "permit_of x + free_or_spawned (sv_app sv) = permit_of (Goes (ov_tasks ov ! i)) + free_or_spawned (ov_app ov)"
  shows "permits_shared (resumed ov i (x, sv))"
  using ok assms(3) owners_resumed(1) [OF i, of "case x of Goes t \<Rightarrow> t"] owners_resumed(2) [OF i]
  by (cases x) (auto simp: permits_shared_def resumed_def)

lemma permits_step:
  assumes ok: "permits_shared ov" and mem: "ap_database (ov_app ov) = None"
  shows "permits_shared (overlap_step ov i)"
proof (cases i)
  case (ArriveCreate env headers payload)
  then show ?thesis using arrivals_held(1) [of env headers payload "ov_app ov"]
    by (auto simp: on_app_def in_all_def free_or_spawned_def intro!: permits_joined [OF ok])
next
  case (ArriveRetry env headers q)
  then show ?thesis using arrivals_held(2) [of env headers q "ov_app ov"]
    by (auto simp: on_app_def in_all_def free_or_spawned_def intro!: permits_joined [OF ok])
next
  case (ArriveAssessment env headers payload)
  obtain x sv where a: "arrive_assessment env headers payload (ov_service ov) = (x, sv)" by fastforce
  then have "permit_of x + free_or_spawned (sv_app sv) = free_or_spawned (ov_app ov)"
    by (auto simp: arrive_assessment_def set_windows_def split: sum.splits prod.splits)
  then show ?thesis using ArriveAssessment a permits_joined [OF ok] by simp
next
  case (Poll env i)
  let ?W = "remove_nth i (ap_workers (ov_app ov))"
  have "in_all (worker_spawned env ((ov_app ov)\<lparr>ap_workers := ?W\<rparr>) w) = free_or_spawned (ov_app ov)"
    if "i < length (ap_workers (ov_app ov))" for w
    using length_remove_nth [OF that] by (simp add: worker_spawned_def segments_held free_or_spawned_def)
  then show ?thesis using Poll ok
    by (auto simp: on_app_def in_all_def free_or_spawned_def add.assoc intro!: permits_joined [OF ok])
next
  case (Advance env i result)
  obtain x sv where a: "advance env result (ov_service ov) (ov_tasks ov ! i) = (x, sv)" by fastforce
  show ?thesis using Advance a ok permits_resumed [OF ok _ advance_held [OF mem a]] by simp
next
  case (Drop i)
  then show ?thesis using ok owners_resumed(2) [of i "ov_tasks ov"]
    by (auto simp: permits_shared_def task_dropped_def)
qed



section \<open>Overlapping submissions keep what they are\<close>

definition sound :: "overlap \<Rightarrow> bool" where
  "sound ov \<longleftrightarrow> ap_database (ov_app ov) = None \<and> (\<exists>G. play_ok G (play_of ov)) \<and> permits_shared ov"

definition kept_quotes :: "overlap \<Rightarrow> overlap \<Rightarrow> bool" where
  "kept_quotes ov ov' \<longleftrightarrow> (\<forall>q r. map_of (ap_quotes (ov_app ov)) q = Some r \<longrightarrow>
     (\<exists>r'. map_of (ap_quotes (ov_app ov')) q = Some r' \<and> core r' = core r))"

lemma kept_quotes_trans: "kept_quotes ov ov' \<Longrightarrow> kept_quotes ov' ov'' \<Longrightarrow> kept_quotes ov ov''"
  unfolding kept_quotes_def by metis

lemma in_order_kept:
  assumes "in_order G ov ov'"
  shows "kept_quotes ov ov'"
  unfolding kept_quotes_def
proof (intro allI impI)
  fix q r assume r: "map_of (ap_quotes (ov_app ov)) q = Some r"
  then obtain r' where r': "map_of (ap_quotes (ov_app ov')) q = Some r'"
    using assms by (auto simp: in_order_def)
  have "quote_ok G q r" "quote_ok G q r'"
    using assms r r' play_ok_D(1) by (auto simp: in_order_def play_of_def)
  then show "\<exists>r'. map_of (ap_quotes (ov_app ov')) q = Some r' \<and> core r' = core r"
    using r' by (auto simp: quote_ok_def known_def)
qed

lemma overlaps_sound:
  assumes "overlaps ov ov'" and "sound ov"
  shows "sound ov' \<and> kept_quotes ov ov'"
  using assms
proof induction
  case (steps ov ov' i)
  then obtain G where "in_order G ov' (overlap_step ov' i)" using step_in_order unfolding sound_def by blast
  moreover have "permits_shared (overlap_step ov' i)" using permits_step steps unfolding sound_def by blast
  ultimately show ?case using steps in_order_kept kept_quotes_trans unfolding sound_def in_order_def by blast
qed (simp add: kept_quotes_def)

lemma sound_new: "sound (overlap_new auth model gemini webhook)"
  by (auto simp: sound_def overlap_new_def service_new_def app_state_new_def permits_shared_def free_or_spawned_def play_ok_def
      play_of_def)

text \<open>The records the spawned and running workers are about.\<close>

fun task_work :: "task \<Rightarrow> quote_record list" where
  "task_work (Storing w record event on) = [wk_record w]"
| "task_work (Asking w) = [wk_record w]"
| "task_work t = []"

definition at_work :: "overlap \<Rightarrow> quote_record list" where
  "at_work ov = map wk_record (ap_workers (ov_app ov)) @ concat (map task_work (ov_tasks ov))"

lemma at_work_known:
  assumes ok: "play_ok G (play_of ov)" and "r \<in> set (at_work ov)"
  shows "known G r \<and> quote_id r \<in> stored_ids (ov_app ov)"
proof -
  have "known G r \<and> quote_id r \<in> D" if "task_ok G D t" "r \<in> set (task_work t)" for D t using that by (cases t) auto
  then show ?thesis
    using assms(2) play_ok_D(3,5) [OF ok] unfolding at_work_def play_of_def worker_ok_def by fastforce
qed

text \<open>C4: without a database, however requests and workers overlap - at every lock they await - and wherever requests are
  dropped: a stored quote is under its identifier with one of the four statuses, is never lost, and never changes its
  owner, its request or its creation time; a recorded key of a quote that is stored belongs to that quote's owner;
  every published event is of a stored quote and names its owner; every worker, spawned or running, works on a stored
  quote's own submission; and free analysis permits, workers and submissions in progress add up to 4. New quotes draw
  identifiers not in use. (That a quote has one worker at most, and a status that matches it, does not survive overlap:
  two retries can both be accepted, and a replay can write back a stale record.)\<close>

theorem overlaps_keep_submissions:
  assumes "overlaps (overlap_new auth model gemini webhook) ov" and "overlaps ov ov'"
  shows "(\<forall>q r. map_of (ap_quotes (ov_app ov)) q = Some r \<longrightarrow>
            quote_id r = q \<and> qstatus r \<in> {''queued'', ''analyzing'', ''completed'', ''failed''} \<and>
            (\<exists>r'. map_of (ap_quotes (ov_app ov')) q = Some r' \<and> core r' = core r)) \<and>
    (\<forall>s k q j r. map_of (ap_idempotency (ov_app ov)) (s, k) \<in> {Some (MCreate q j), Some (MRetry q)} \<and>
            map_of (ap_quotes (ov_app ov)) q = Some r \<longrightarrow> owner_subject r = s) \<and>
    (\<forall>e \<in> set (ap_events (ov_app ov)). \<exists>r. map_of (ap_quotes (ov_app ov)) (ev_quote_id e) = Some r \<and>
            owner_subject r = ev_owner_subject e) \<and>
    (\<forall>r \<in> set (at_work ov). \<exists>r'. map_of (ap_quotes (ov_app ov)) (quote_id r) = Some r' \<and> core r' = core r) \<and>
    ap_permits (ov_app ov) + length (ap_workers (ov_app ov)) + length (filter owns_permit (ov_tasks ov)) =
      QUOTE_ANALYSIS_MAX_CONCURRENCY"
proof -
  have s: "sound ov" "kept_quotes ov ov'" using overlaps_sound [OF assms(1) sound_new] overlaps_sound [OF assms(2)] by blast+
  then obtain G where G: "play_ok G (play_of ov)" by (auto simp: sound_def)
  have q: "quote_ok G q r" if "map_of (ap_quotes (ov_app ov)) q = Some r" for q r
    using play_ok_D(1) [OF G] that by (simp add: play_of_def)
  have one: "core r' = core r" if "map_of (ap_quotes (ov_app ov)) (quote_id r) = Some r'" "known G r" for r r'
    using q [OF that(1)] that(2) by (auto simp: quote_ok_def known_def)
  have key: "owner_subject r = s"
    if "map_of (ap_idempotency (ov_app ov)) (s, k) \<in> {Some (MCreate q' j), Some (MRetry q')}" "map_of (ap_quotes (ov_app ov)) q' = Some r"
    for s k q' j r
    using play_ok_D(2) [OF G, of "(s, k)"] that(1) q [OF that(2)] by (auto simp: play_of_def owned_def quote_ok_def known_def)
  have event: "\<exists>r. map_of (ap_quotes (ov_app ov)) (ev_quote_id e) = Some r \<and> owner_subject r = ev_owner_subject e"
    if "e \<in> set (ap_events (ov_app ov))" for e
  proof -
    have "owned G (ev_owner_subject e) (ev_quote_id e)" "ev_quote_id e \<in> stored_ids (ov_app ov)"
      using play_ok_D(4) [OF G, of e] that by (simp_all add: play_of_def event_ok_def)
    then obtain r where "map_of (ap_quotes (ov_app ov)) (ev_quote_id e) = Some r" by blast
    then show ?thesis
      using q [of "ev_quote_id e" r] \<open>owned G (ev_owner_subject e) (ev_quote_id e)\<close> by (auto simp: owned_def quote_ok_def known_def)
  qed
  have work: "\<exists>r'. map_of (ap_quotes (ov_app ov)) (quote_id r) = Some r' \<and> core r' = core r" if "r \<in> set (at_work ov)" for r
    using at_work_known [OF G that] one [of r] by auto
  have permits: "ap_permits (ov_app ov) + length (ap_workers (ov_app ov)) + length (filter owns_permit (ov_tasks ov)) =
      QUOTE_ANALYSIS_MAX_CONCURRENCY"
    using s(1) by (simp add: sound_def permits_shared_def free_or_spawned_def)
  have stored: "quote_id r = q \<and> qstatus r \<in> {''queued'', ''analyzing'', ''completed'', ''failed''} \<and>
      (\<exists>r'. map_of (ap_quotes (ov_app ov')) q = Some r' \<and> core r' = core r)" if "map_of (ap_quotes (ov_app ov)) q = Some r" for q r
    using q [OF that] s(2) that unfolding kept_quotes_def quote_ok_def by blast
  from stored key event work permits show ?thesis by blast
qed

end
