(* ===== verification/Overlap_Keys.thy ===== *)
theory Overlap_Keys
  imports Overlap_Invariant
begin

text \<open>
  The map of keys that quote requests and intakes share, when they overlap; concrete runs; and what two retries of one
  quote do to each other when they overlap (\<open>retry_quote\<close> in \<open>src/lib.rs\<close>).
\<close>

section \<open>Keys of assessments under overlap\<close>

text \<open>The keys and the queue of assessments: a quote request that overlaps an intake can take over its key, nothing else.\<close>

definition keys_paired :: "(string \<times> string \<rightharpoonup> memory_operation) \<Rightarrow> assessment_record list \<Rightarrow> bool" where
  "keys_paired I A \<longleftrightarrow>
     length A \<le> READINESS_ASSESSMENT_CAPACITY \<and> distinct (map as_id A) \<and> distinct (map as_key A) \<and>
     (\<forall>a \<in> set A. (\<exists>j. I (as_key a) = Some (MAssessment (as_id a) j)) \<or> (\<exists>p. I (as_key a) = Some p \<and> quote_operation p)) \<and>
     (\<forall>k aid j. I k = Some (MAssessment aid j) \<longrightarrow> (\<exists>a \<in> set A. as_id a = aid \<and> as_key a = k))"

lemma keys_paired_D:
  assumes "keys_paired I A"
  shows "length A \<le> READINESS_ASSESSMENT_CAPACITY" "distinct (map as_id A)" "distinct (map as_key A)"
    and "a \<in> set A \<Longrightarrow> (\<exists>j. I (as_key a) = Some (MAssessment (as_id a) j)) \<or> (\<exists>p. I (as_key a) = Some p \<and> quote_operation p)"
    and "I k = Some (MAssessment aid j) \<Longrightarrow> \<exists>a \<in> set A. as_id a = aid \<and> as_key a = k"
  using assms unfolding keys_paired_def by blast+

definition quote_keys_stay ::
    "(string \<times> string \<rightharpoonup> memory_operation) \<Rightarrow> (string \<times> string \<rightharpoonup> memory_operation) \<Rightarrow> bool" where
  "quote_keys_stay I I' \<longleftrightarrow> (\<forall>k p. I k = Some p \<and> quote_operation p \<longrightarrow> (\<exists>p'. I' k = Some p' \<and> quote_operation p'))"

lemma quote_keys_stay_refl [simp]: "quote_keys_stay I I"
  by (simp add: quote_keys_stay_def)

lemma quote_keys_stay_trans: "quote_keys_stay I I' \<Longrightarrow> quote_keys_stay I' I'' \<Longrightarrow> quote_keys_stay I I''"
  unfolding quote_keys_stay_def by blast

lemma keys_paired_quote:
  assumes ok: "keys_paired I A" and p: "quote_operation p"
  shows "keys_paired (I(k \<mapsto> p)) A"
proof -
  have "(I(k \<mapsto> p)) k' = Some (MAssessment aid j) \<Longrightarrow> I k' = Some (MAssessment aid j)" for k' aid j
    using p by (auto split: if_splits)
  then have points: "\<exists>a \<in> set A. as_id a = aid \<and> as_key a = k'" if "(I(k \<mapsto> p)) k' = Some (MAssessment aid j)" for k' aid j
    using keys_paired_D(5) [OF ok] that by blast
  have stays: "(\<exists>j. (I(k \<mapsto> p)) (as_key a) = Some (MAssessment (as_id a) j)) \<or>
      (\<exists>p'. (I(k \<mapsto> p)) (as_key a) = Some p' \<and> quote_operation p')" if "a \<in> set A" for a
    using keys_paired_D(4) [OF ok that] p by (cases "as_key a = k") simp_all
  show ?thesis
    unfolding keys_paired_def by (intro conjI ballI allI impI keys_paired_D(1-3) [OF ok] stays points)
qed

lemma keys_paired_push:
  assumes ok: "keys_paired I A" and new: "I (as_key r) = None" and id: "as_id r \<notin> set (map as_id A)"
    and len: "length A < READINESS_ASSESSMENT_CAPACITY"
  shows "keys_paired (I(as_key r \<mapsto> MAssessment (as_id r) j)) (A @ [r])"
proof -
  let ?I = "I(as_key r \<mapsto> MAssessment (as_id r) j)"
  have other: "as_key a \<noteq> as_key r" if "a \<in> set A" for a using keys_paired_D(4) [OF ok that] new by auto
  have "as_key r \<notin> as_key ` set A" using other by force
  then have "distinct (map as_key (A @ [r]))" using keys_paired_D(3) [OF ok] by simp
  moreover have "(\<exists>j. ?I (as_key a) = Some (MAssessment (as_id a) j)) \<or> (\<exists>p. ?I (as_key a) = Some p \<and> quote_operation p)"
    if "a \<in> set (A @ [r])" for a
  proof (cases "a \<in> set A")
    case True
    then have "?I (as_key a) = I (as_key a)" using other by (intro fun_upd_other)
    then show ?thesis using keys_paired_D(4) [OF ok True] by simp
  qed (use that in simp)
  moreover have "\<exists>a \<in> set (A @ [r]). as_id a = aid \<and> as_key a = k" if "?I k = Some (MAssessment aid j')" for k aid j'
    using that keys_paired_D(5) [OF ok, of k aid j'] by (cases "k = as_key r") auto
  moreover have "length (A @ [r]) \<le> READINESS_ASSESSMENT_CAPACITY" "distinct (map as_id (A @ [r]))"
    using keys_paired_D(2) [OF ok] id len by simp_all
  ultimately show ?thesis unfolding keys_paired_def by blast
qed

text \<open>What eviction leaves of the key of the evicted record.\<close>

definition evicted_keys ::
    "assessment_record \<Rightarrow> (string \<times> string \<rightharpoonup> memory_operation) \<Rightarrow> string \<times> string \<rightharpoonup> memory_operation" where
  "evicted_keys a I = (if \<exists>j. I (as_key a) = Some (MAssessment (as_id a) j) then I(as_key a := None) else I)"

lemma keys_paired_pop:
  assumes ok: "keys_paired I (a0 # A)"
  shows "keys_paired (evicted_keys a0 I) A"
proof -
  let ?I = "evicted_keys a0 I"
  have "as_key a0 \<notin> as_key ` set A" using keys_paired_D(3) [OF ok] by simp
  then have other: "as_key a \<noteq> as_key a0" if "a \<in> set A" for a using imageI [OF that, of as_key] by metis
  have keep: "?I (as_key a) = I (as_key a)" if "a \<in> set A" for a
  proof -
    have "(I(as_key a0 := None)) (as_key a) = I (as_key a)" using other [OF that] by (rule fun_upd_other)
    then show ?thesis
      by (cases "\<exists>j. I (as_key a0) = Some (MAssessment (as_id a0) j)")
        (simp_all only: evicted_keys_def if_True if_False simp_thms)
  qed
  have "\<exists>a \<in> set A. as_id a = aid \<and> as_key a = k" if "?I k = Some (MAssessment aid j)" for k aid j
  proof -
    have I: "I k = Some (MAssessment aid j)" using that by (auto simp: evicted_keys_def split: if_splits)
    then obtain a where a: "a \<in> set (a0 # A)" "as_id a = aid" "as_key a = k" using keys_paired_D(5) [OF ok] by blast
    moreover have "a \<noteq> a0" using that I a by (auto simp: evicted_keys_def split: if_splits)
    ultimately show ?thesis by auto
  qed
  moreover have "(\<exists>j. ?I (as_key a) = Some (MAssessment (as_id a) j)) \<or> (\<exists>p. ?I (as_key a) = Some p \<and> quote_operation p)"
    if "a \<in> set A" for a
    unfolding keep [OF that] using keys_paired_D(4) [OF ok] that by simp
  moreover have "length A \<le> READINESS_ASSESSMENT_CAPACITY" "distinct (map as_id A)" "distinct (map as_key A)"
    using keys_paired_D(1-3) [OF ok] by simp_all
  ultimately show ?thesis unfolding keys_paired_def by blast
qed

lemma evicted_keys_stay: "quote_keys_stay I (evicted_keys a I)"
  by (auto simp: quote_keys_stay_def evicted_keys_def)

lemma store_assessment_keys:
  assumes ok: "keys_paired (map_of (ap_idempotency (sv_app sv))) (sv_assessments sv)"
    and new: "map_of (ap_idempotency (sv_app sv)) (as_key r) = None"
  shows "sv_assessments (store_assessment sv r j) =
       (if length (sv_assessments sv) < READINESS_ASSESSMENT_CAPACITY then sv_assessments sv else tl (sv_assessments sv)) @ [r] \<and>
     map_of (ap_idempotency (sv_app (store_assessment sv r j))) =
       (if length (sv_assessments sv) < READINESS_ASSESSMENT_CAPACITY then map_of (ap_idempotency (sv_app sv))
        else evicted_keys (hd (sv_assessments sv)) (map_of (ap_idempotency (sv_app sv))))
         (as_key r \<mapsto> MAssessment (as_id r) j)"
proof (cases "sv_assessments sv")
  case Nil
  then show ?thesis by (simp add: store_assessment_def update_conv')
next
  case (Cons a0 A)
  let ?I = "map_of (ap_idempotency (sv_app sv))"
  have "?I (as_key a0) \<noteq> None" using keys_paired_D(4) [OF ok, of a0] by (auto simp: Cons)
  with new have neq: "as_key a0 \<noteq> as_key r" by auto
  have twist: "f(as_key r \<mapsto> x, as_key a0 := None) = f(as_key a0 := None, as_key r \<mapsto> x)" for f :: "_ \<rightharpoonup> memory_operation" and x
    using neq by (rule fun_upd_twist [symmetric])
  from \<open>?I (as_key a0) \<noteq> None\<close> obtain p where "?I (as_key a0) = Some p" by blast
  then show ?thesis using neq Cons
    by (cases p) (auto simp: store_assessment_def Let_def update_conv' delete_conv' evicted_keys_def twist)
qed

lemma store_assessment_paired:
  assumes ok: "keys_paired (map_of (ap_idempotency (sv_app sv))) (sv_assessments sv)"
    and new: "map_of (ap_idempotency (sv_app sv)) (as_key r) = None" and id: "as_id r \<notin> set (map as_id (sv_assessments sv))"
  shows "keys_paired (map_of (ap_idempotency (sv_app (store_assessment sv r j)))) (sv_assessments (store_assessment sv r j)) \<and>
    quote_keys_stay (map_of (ap_idempotency (sv_app sv))) (map_of (ap_idempotency (sv_app (store_assessment sv r j))))"
proof (cases "length (sv_assessments sv) < READINESS_ASSESSMENT_CAPACITY")
  case True
  then show ?thesis
    using keys_paired_push [OF ok new id True] store_assessment_keys [OF ok new, of j] new by (auto simp: quote_keys_stay_def)
next
  case False
  let ?I = "map_of (ap_idempotency (sv_app sv))"
  obtain a0 A where A: "sv_assessments sv = a0 # A" using False by (cases "sv_assessments sv") auto
  have I: "keys_paired (evicted_keys a0 ?I) A" using ok unfolding A by (rule keys_paired_pop)
  have none: "evicted_keys a0 ?I (as_key r) = None" using new by (simp add: evicted_keys_def)
  have "keys_paired ((evicted_keys a0 ?I)(as_key r \<mapsto> MAssessment (as_id r) j)) (A @ [r])"
    using none id keys_paired_D(1) [OF ok] by (intro keys_paired_push [OF I]) (auto simp: A)
  moreover have "quote_keys_stay (evicted_keys a0 ?I) ((evicted_keys a0 ?I)(as_key r \<mapsto> MAssessment (as_id r) j))"
    using none by (auto simp: quote_keys_stay_def)
  ultimately show ?thesis
    using False store_assessment_keys [OF ok new, of j] quote_keys_stay_trans [OF evicted_keys_stay] by (simp add: A)
qed


text \<open>Only the two write guards of the keys change them.\<close>

lemma keys_segments:
  "ap_idempotency (snd (arrive_create env headers payload st)) = ap_idempotency st"
  "ap_idempotency (snd (arrive_retry env headers qid st)) = ap_idempotency st"
  "ap_idempotency (snd (key_read env st sm)) = ap_idempotency st"
  "ap_idempotency (snd (quote_read_segment env st sm qid replay)) = ap_idempotency st"
  "ap_idempotency (snd (cache_write env st sm dc)) = ap_idempotency st"
  "ap_idempotency (snd (update_or_end env st w r on)) = ap_idempotency st"
  "ap_idempotency (snd (worker_stores env st w r e on)) = ap_idempotency st"
proof -
  show "ap_idempotency (snd (arrive_create env headers payload st)) = ap_idempotency st"
    "ap_idempotency (snd (arrive_retry env headers qid st)) = ap_idempotency st"
    by (auto simp: arrive_create_def arrive_retry_def refuse_def split: sum.split prod.split option.split dest!: idem_admit)
  show "ap_idempotency (snd (key_read env st sm)) = ap_idempotency st"
    by (simp add: key_read_def refuse_def memory_event_def Let_def split: sum.split option.split memory_operation.split)
  show "ap_idempotency (snd (quote_read_segment env st sm qid replay)) = ap_idempotency st"
    by (auto simp: quote_read_segment_def refuse_def memory_event_def Let_def split: sum.split option.split prod.split
        dest!: idem_find_quote)
  show "ap_idempotency (snd (cache_write env st sm dc)) = ap_idempotency st"
    using idem_submit_finish by (auto simp: cache_write_def refuse_def Let_def split: sum.split prod.split option.split)
  show u: "ap_idempotency (snd (update_or_end env st w r on)) = ap_idempotency st" for st r on
    by (simp add: update_or_end_def update_begin_def memory_event_def Let_def split: option.split prod.split)
  show "ap_idempotency (snd (worker_stores env st w r e on)) = ap_idempotency st"
    by (simp add: worker_stores_def u Let_def)
qed

abbreviation keys_now :: "overlap \<Rightarrow> string \<times> string \<rightharpoonup> memory_operation" where
  "keys_now ov \<equiv> map_of (ap_idempotency (ov_app ov))"

definition paired :: "overlap \<Rightarrow> bool" where
  "paired ov \<longleftrightarrow> keys_paired (keys_now ov) (sv_assessments (ov_service ov))"

lemma paired_service:
  assumes "paired ov" and "ap_idempotency (ov_app ov') = ap_idempotency (ov_app ov)"
    and "sv_assessments (ov_service ov') = sv_assessments (ov_service ov)"
  shows "paired ov' \<and> quote_keys_stay (keys_now ov) (keys_now ov')"
  using assms by (simp add: paired_def)

lemma assess_write_paired:
  assumes ok: "keys_paired (map_of (ap_idempotency (sv_app sv))) (sv_assessments sv)"
    and id: "ce_new_uuid env \<notin> set (map as_id (sv_assessments sv))" and x: "assess_write env sv subject key sb = (x, sv')"
  shows "keys_paired (map_of (ap_idempotency (sv_app sv'))) (sv_assessments sv') \<and>
    quote_keys_stay (map_of (ap_idempotency (sv_app sv))) (map_of (ap_idempotency (sv_app sv')))"
proof -
  consider "sv' = sv" | r j e where "sv' = publish_assessment_event (store_assessment sv r j) e"
      "map_of (ap_idempotency (sv_app sv)) (as_key r) = None" "as_id r = ce_new_uuid env"
    using x by (auto simp: assess_write_def assessment_decide_def result_bind_Inr_iff split: sum.splits prod.splits if_splits
        option.splits memory_operation.splits)
  then show ?thesis
  proof cases
    case 2
    then show ?thesis using store_assessment_paired [OF ok 2(2)] id by simp
  qed (use ok in simp)
qed


lemma advance_paired:
  assumes ok: "paired ov" and s: "sound ov" and t: "t \<in> set (ov_tasks ov)"
    and u: "may_draw t \<Longrightarrow> ce_new_uuid env \<notin> set (used_ids ov)"
    and x: "advance env result (ov_service ov) t = (x, sv)" and ov': "ov_service ov' = sv"
  shows "paired ov' \<and> quote_keys_stay (keys_now ov) (keys_now ov')"
proof (cases "\<exists>sm p dc. t = KeyWrite sm p dc")
  case True
  then obtain sm p dc where kw: "t = KeyWrite sm p dc" by blast
  obtain G where "play_ok G (play_of ov)" using s by (auto simp: sound_def)
  then have "quote_operation p" using play_ok_D(5) [of G "play_of ov" t] t kw by (simp add: play_of_def)
  moreover have "ov_service ov' = snd (advance env result (ov_service ov) t)" using x ov' by simp
  then have "keys_now ov' = (keys_now ov)((sm_subject sm, sm_key sm) \<mapsto> p)"
    "sv_assessments (ov_service ov') = sv_assessments (ov_service ov)"
    by (simp_all add: kw on_app_def key_write_def update_conv')
  ultimately show ?thesis using ok keys_paired_quote by (auto simp: paired_def quote_keys_stay_def)
next
  case other: False
  show ?thesis
  proof (cases "\<exists>su k sb. t = AssessWrite su k sb")
    case True
    then obtain su k sb where a: "t = AssessWrite su k sb" by blast
    have "ce_new_uuid env \<notin> set (map as_id (sv_assessments (ov_service ov)))" using u a by (simp add: used_ids_def)
    then show ?thesis using assess_write_paired [OF ok [unfolded paired_def], of env su k sb x sv] x ov' a by (simp add: paired_def)
  next
    case False
    have "ap_idempotency (sv_app (snd (advance env result (ov_service ov) t))) = ap_idempotency (ov_app ov)"
      "sv_assessments (snd (advance env result (ov_service ov) t)) = sv_assessments (ov_service ov)"
      using other False by (cases t; simp add: on_app_def keys_segments worker_told_def)+
    then show ?thesis using x ov' by (intro paired_service [OF ok]) simp_all
  qed
qed

lemma paired_step:
  assumes ok: "paired ov" and s: "sound ov" and fresh: "draws_unused ov i"
  shows "paired (overlap_step ov i) \<and> quote_keys_stay (keys_now ov) (keys_now (overlap_step ov i))"
proof (cases i)
  case (ArriveAssessment env headers payload)
  then show ?thesis
    by (intro paired_service [OF ok])
      (simp_all add: joined_def arrive_assessment_def set_windows_def split: sum.split prod.split)
next
  case (Advance env i result)
  obtain x sv where a: "advance env result (ov_service ov) (ov_tasks ov ! i) = (x, sv)" by fastforce
  show ?thesis
  proof (cases "i < length (ov_tasks ov)")
    case True
    then show ?thesis using Advance a fresh
      by (intro advance_paired [OF ok s _ _ a]) (auto simp: resumed_def)
  qed (use Advance ok in simp)
next
  case (Poll env i)
  then show ?thesis
    by (intro paired_service [OF ok]) (simp_all add: joined_def on_app_def keys_segments worker_spawned_def)
qed (intro paired_service [OF ok]; simp add: joined_def on_app_def keys_segments task_dropped_def)+

lemma overlaps_paired:
  assumes "overlaps ov ov'" and "sound ov" and "paired ov"
  shows "paired ov' \<and> quote_keys_stay (keys_now ov) (keys_now ov')"
  using assms
proof induction
  case (steps ov ov' i)
  then have "sound ov'" using overlaps_sound by blast
  then show ?case using steps paired_step [of ov' i] quote_keys_stay_trans by blast
qed simp

text \<open>C7: without a database, however requests and workers overlap and wherever requests are dropped: at most 1024
  assessments are stored, no two under the same key of the same subject, so that of two overlapping first intakes of one
  key only one creates a record; a recorded assessment key points at a stored assessment of exactly this subject and
  key; a stored assessment's key points at it, unless an overlapping quote request took the key over; and a key that a
  quote request holds stays with quote requests: eviction never frees it. New records draw identifiers not in use.\<close>

theorem overlaps_pair_keys:
  assumes "overlaps (overlap_new auth model gemini webhook) ov" and "overlaps ov ov'"
  shows "let keys = map_of (ap_idempotency (ov_app ov)); stored = sv_assessments (ov_service ov)
    in length stored \<le> READINESS_ASSESSMENT_CAPACITY \<and>
      distinct (map (\<lambda>a. (as_subject a, as_idempotency_key a)) stored) \<and>
      (\<forall>s k aid j. keys (s, k) = Some (MAssessment aid j) \<longrightarrow>
         (\<exists>a \<in> set stored. as_id a = aid \<and> as_subject a = s \<and> as_idempotency_key a = k)) \<and>
      (\<forall>a \<in> set stored. (\<exists>j. keys (as_subject a, as_idempotency_key a) = Some (MAssessment (as_id a) j)) \<or>
         (\<exists>p. keys (as_subject a, as_idempotency_key a) = Some p \<and> quote_operation p)) \<and>
      (\<forall>k p. keys k = Some p \<and> quote_operation p \<longrightarrow>
         (\<exists>p'. map_of (ap_idempotency (ov_app ov')) k = Some p' \<and> quote_operation p'))"
proof -
  have new: "paired (overlap_new auth model gemini webhook)"
    by (simp add: paired_def keys_paired_def overlap_new_def service_new_def app_state_new_def)
  have s: "sound ov" using overlaps_sound [OF assms(1) sound_new] by blast
  have p: "keys_paired (keys_now ov) (sv_assessments (ov_service ov))" "quote_keys_stay (keys_now ov) (keys_now ov')"
    using overlaps_paired [OF assms(1) sound_new new] overlaps_paired [OF assms(2) s] by (auto simp: paired_def)
  have points: "\<exists>a \<in> set (sv_assessments (ov_service ov)). as_id a = aid \<and> as_subject a = s \<and> as_idempotency_key a = k"
    if "keys_now ov (s, k) = Some (MAssessment aid j)" for s k aid j
    using keys_paired_D(5) [OF p(1) that] by auto
  show ?thesis
    unfolding Let_def
    by (intro conjI allI impI ballI points keys_paired_D(1,3,4) [OF p(1)]) (use p(2) in \<open>auto simp: quote_keys_stay_def\<close>)
qed


text \<open>Concrete instances: a submission, and an intake.\<close>

abbreviation example_start :: overlap where
  "example_start \<equiv> overlap_new \<lparr>internal_auth_token = ''tok'', shared_audience = None\<rparr> ''m'' True False"

lemma example_start_eq: "example_start = \<lparr>ov_service = service_new example_memory, ov_tasks = []\<rparr>"
  by (simp add: overlap_new_def example_memory_def)

lemma example_start_unused: "u \<notin> set (used_ids \<lparr>ov_service = service_new example_memory, ov_tasks = []\<rparr>)"
  by (simp add: used_ids_def service_new_def example_memory_def app_state_new_def)

lemma example_created_overlaps: "overlaps example_start \<lparr>ov_service = service_new example_created, ov_tasks = []\<rparr>"
proof -
  have "overlaps example_start \<lparr>ov_service = service_new example_memory, ov_tasks = []\<rparr>"
    unfolding example_start_eq by (rule overlaps.stays)
  from create_overlaps [OF this _ example_start_unused, where env = example_call and headers = example_headers and payload = "JObject []"]
  show ?thesis by (simp add: service_new_def example_created_def) (simp add: example_memory_def app_state_new_def)
qed

theorem overlaps_keep_submissions_witness:
  "\<exists>ov r. overlaps example_start ov \<and> map_of (ap_quotes (ov_app ov)) 1 = Some r \<and> owner_subject r = ''alice'' \<and>
     ap_permits (ov_app ov) = 3"
proof -
  let ?ov = "\<lparr>ov_service = service_new example_created, ov_tasks = []\<rparr>"
  obtain r w where r: "map_of (ap_quotes example_created) = [1 \<mapsto> r]" "owner_subject r = ''alice''" "ap_workers example_created = [w]"
    using example_created_eq by blast
  have "ap_permits example_created = 3"
    using overlaps_keep_submissions [OF example_created_overlaps overlaps.stays] r(3)
    by (simp add: service_new_def)
  with r example_created_overlaps show ?thesis by (intro exI [of _ ?ov] exI [of _ r]) (simp add: service_new_def)
qed

theorem overlaps_pair_keys_witness:
  "\<exists>ov a. overlaps example_start ov \<and> sv_assessments (ov_service ov) = [a] \<and> as_subject a = ''alice'' \<and>
     length (sv_assessments (ov_service ov)) \<le> 1024"
proof -
  let ?ov = "\<lparr>ov_service = service_step example_service example_step, ov_tasks = []\<rparr>"
  have "overlaps example_start \<lparr>ov_service = service_new example_memory, ov_tasks = []\<rparr>"
    unfolding example_start_eq by (rule overlaps.stays)
  moreover have "example_service = service_new example_memory" by (simp add: example_memory_def)
  ultimately have o: "overlaps example_start ?ov"
    using intake_overlaps [OF _ example_start_unused, where env = example_call and headers = example_headers and payload = example_intake]
    by (simp add: example_step_def)
  show ?thesis
    using overlaps_pair_keys [OF o overlaps.stays] o example_stored by (auto simp: Let_def intro!: exI [of _ ?ov])
qed

section \<open>Two retries that overlap\<close>
















end
