(* ===== verification/Spec2Isabelle.thy ===== *)
theory Spec2Isabelle
  imports Shutdown Data_Plane Envelope Quote_Memory Assessments Quote_Stream Webhook Pre_Interest Observation_Stores
    Startup Telemetry Work_Queue Capabilities Users Readiness Analysis_Schema Interruption Isolation Server Redaction
    Rpc_Operations Web_Api_Plane Overlap_Keys
begin

text \<open>
  A verification development for the Canonical API server, the Rust service under \<open>src/\<close>: an HTTP server that takes
  certification quote requests, has a model analyse them, streams their status, takes readiness assessments and signed
  readiness observations, and serves compliance work queues to tenants.

  \<^bold>\<open>The program.\<close> \<open>src/main.rs\<close> resolves settings (\<open>src/flags.rs\<close>), validates them (\<open>Config\<close> in \<open>src/lib.rs\<close>), opens
  storage, builds the clients and serves five merged routers until \<open>src/shutdown.rs\<close> says stop. \<open>src/lib.rs\<close> holds the
  request envelope, authentication, admission, and the quote and assessment handlers; they use \<open>src/contract.rs\<close> (the wire
  contract), \<open>src/persistence.rs\<close> (PostgreSQL), \<open>src/gemini.rs\<close> (the model client), \<open>src/webhook.rs\<close> (signed events) and
  \<open>src/frameworks.rs\<close> (the catalogue). \<open>src/readiness_observation_ingest.rs\<close>, \<open>src/grc_work_queue.rs\<close>, \<open>src/grc.rs\<close>,
  \<open>src/readiness.rs\<close> and \<open>src/rpc_routes\<close> are routers of their own; \<open>src/web_data_plane.rs\<close>, \<open>src/web_api_plane.rs\<close> and \<open>src/pre_interest.rs\<close>
  are libraries of policies; \<open>src/telemetry.rs\<close> is the shared logger.

  \<^bold>\<open>Theories.\<close> Each follows one part of the source, with its names.
  \<^item> \<open>Prelude\<close>: \<open>Result\<close>, strings as UTF-8 bytes, number parsing and printing. \<open>Wire\<close>: JSON values, headers, URLs,
    problem responses. \<open>Machine\<close>: runs of a step function and the locales \<open>machine\<close> (an invariant kept by every step) and
    \<open>refinement\<close> (a simulation of an abstract machine), interpreted on each stateful component.
  \<^item> \<open>Shutdown\<close>: the reducer, the serve loop with its local state, and the processes around it (signals, timer, watcher,
    server task) as a step relation: what is forced is justified and forced at most once; and where processes act before
    time goes on, a drain ends by its deadline, which the deadline task alone brings about.
  \<^item> \<open>Flags\<close>, \<open>Startup\<close>: the layering of settings, the configuration and the order of \<open>main\<close>: precedence, redaction of refused
    arguments, and what a server that started guarantees.
  \<^item> \<open>Envelope\<close>: deadline, header budget, encoding check, security headers, routes. \<open>Auth\<close>: the proxy headers, bearer tokens,
    subjects, tenants and idempotency keys.
  \<^item> \<open>Admission\<close>: the sliding submission windows and the analysis permits: refinement of the log of accepted submissions, the
    limits, the sufficiency of \<open>Retry-After\<close>, and the unreachable eviction branch.
  \<^item> \<open>Records\<close>, \<open>Contract\<close>, \<open>Gemini\<close>: records and errors; request parsing and all projections; prompt, validation, bounded
    retries and the circuit breaker. \<open>Analysis_Schema\<close>: the response schema against the validation.
  \<^item> \<open>Persistence\<close>: every store operation as a transaction over the tables, with a failure possible at each statement and a
    commit whose outcome is unknown: the invariant of the tables, idempotent creation, ownership of what is read.
  \<^item> \<open>Quotes\<close>, \<open>Quote_Memory\<close>, \<open>Quote_Stream\<close>, \<open>Assessments\<close>, \<open>Frameworks\<close>: the handlers and the analysis worker in both
    storage modes, the event stream as turns of its select, and the bounded assessment store with its key map:
    conservation of permits, consistency of the maps, replays. A handler is one step here.
  \<^item> \<open>Overlap\<close>, \<open>Overlap_Invariant\<close>, \<open>Overlap_Keys\<close>: the same handlers and the worker, without a database, taken apart at
    every lock they await, as tasks that run in any order and may be dropped; that a handler is the uninterrupted run of
    its task; what every overlap keeps of quotes, owners, keys, events, workers and permits, and what it does not.
  \<^item> \<open>Interruption\<close>: submissions and retries cut at one of their awaits, and restarts: permits survive, a cut submission is
    never analysed. \<open>Isolation\<close>: what a caller can learn of others, by noninterference over the subject's view.
    Both handle requests one after another. \<open>Server\<close>: a request through the layers of \<open>build_router\<close> to its handler and back:
    authentication on each of its routes, the bounds of the layers, the conservation of all capacities.
  \<^item> \<open>Webhook\<close>: endpoint policy, identifiers, signature and bounded delivery. \<open>Observations\<close>, \<open>Observation_Transport\<close>,
    \<open>Observation_Ledger\<close>, \<open>Observation_Stores\<close>: the ingest, its exact signature check (what \<open>Webhook\<close> signs verifies), the
    gap-free hash-chained ledger under failures, and the agreement of the database with the memory store through one
    abstract log.
  \<^item> \<open>Work_Queue\<close>, \<open>Capabilities\<close>: the compliance queue's query, select by select, with tenant isolation and an exact page; the
    capability catalogue against the tables and the routes. \<open>Users\<close>, \<open>Rpc_Operations\<close>: the RPC handlers, their
    logs, declarations and dispatchers. \<open>Readiness\<close>: the probe's
    catalog query, what 200 implies and what it does not.
  \<^item> \<open>Telemetry\<close>: the restartable logger as a step relation of threads over a read/write lock and a mutex: no write to a closed
    logger, one logger per lifetime, no deadlock and no infinite run; the records' fields and the bridge to tracing.
  \<^item> \<open>Data_Plane\<close>, \<open>Web_Api_Plane\<close>, \<open>Pre_Interest\<close>: the policies, receipts and frames; validation, normalisation and the keyed
    digests. \<open>Redaction\<close>: what the process prints of its configuration and records, and the texts of the errors.
  \<^item> This theory: idempotency keys between the service and the schema.

  \<^bold>\<open>Correspondence.\<close> A struct is a record, an enum a datatype, a fallible function returns \<open>error + value\<close>. A handler is a function of
  the state and of a record of everything it asks the outside (clock, fresh identifiers, parsers, failing statements), and
  returns its answer and the new state. The logger, the shutdown and, in memory mode, the quote and assessment handlers with
  the worker are modelled at the granularity of their awaits and locks, as step relations or tasks; everywhere else a
  handler is one step, as if nothing else ran while it waits: in database mode the transactions of two handlers come in
  any order, but the rest of them does not overlap. A handler that is dropped at its deadline stops at one of its awaits
  (\<open>cut_point\<close>) and releases what it owns. Maps are association lists where their order or
  size matters and functions otherwise. Integers that can wrap or overflow are words or carry the bound explicitly.

  \<^bold>\<open>Bounds.\<close> No definition of the code uses fuel: loops are structural recursions over the requests, rows or attempts they run
  through, or have a termination proof (\<open>chars\<close>, the printers). Only \<open>alone\<close>, which runs one task by itself, counts its
  steps; four are enough for every handler (\<open>create_uninterrupted\<close>, \<open>retry_uninterrupted\<close>). The constants (windows, limits, sizes) are those of the source.

  \<^bold>\<open>Parameters.\<close> Code outside the repository is an argument: the packages \<open>canonical_lib\<close>, \<open>url\<close>, \<open>uuid\<close>, \<open>time\<close>, \<open>serde_json\<close>,
  \<open>flags2env\<close>, \<open>toml\<close>, the shared authority's client, SHA-256 and HMAC-SHA-256, PostgreSQL's \<open>to_char\<close> and collation, HTTP
  exchanges. What a property needs of them is a named hypothesis (\<open>library_ok\<close>, \<open>unique_names\<close>, \<open>visible_headers\<close>), with a witness.
  Injectivity of a hash is never assumed: \<open>chain_binds_history\<close> exhibits a collision instead.

  \<^bold>\<open>Not modelled.\<close> The tracing calls of the routers and the installation of the tracing subscriber; the construction of HTTP
  clients; the extractors (their results are part of a request), request identifiers, body limits and tracing layers of the
  frameworks; row-level security beyond the
  owner and tenant conditions the statements carry; what \<open>k8s_web_api_data_plane\<close> makes of the policies; the vendored
  runtime under \<open>scripts/vendor\<close>. The remaining lines of \<open>src/\<close> are imports, attributes, accessors and unit tests.
\<close>

section \<open>Keys the service accepts and the schema refuses\<close>

lemma schema_key_check_iff:
  assumes "valid_idempotency_key k"
  shows "schema_key_check k \<longleftrightarrow> CHR ''/'' \<notin> set k"
proof -
  have "\<not> is_ascii_alphanumeric (CHR ''/'')" by (simp add: ascii_defs)
  then show ?thesis using assms unfolding valid_idempotency_key_def schema_key_check_def by (auto simp: list_all_iff)
qed

lemma required_key_valid: "required_idempotency_key headers = Inr k \<Longrightarrow> valid_idempotency_key k"
  by (auto simp: required_idempotency_key_def ok_or_iff Let_def split: option.splits if_splits)

lemma create_quote_refused_key:
  assumes "\<not> schema_key_check key" and "list_all (\<lambda>r. schema_key_check (op_key r)) (operations s)"
  shows "\<exists>e. create_quote d env subject key req record s = (Inl e, s)"
proof -
  have none: "find_operation s subject key = None"
    using assms by (auto simp: find_operation_def find_None_iff list_all_iff)
  have "insert_operation d s' subject key op q j = Inl Database" for s' op q j
    using assms(1) by (simp add: insert_operation_def exec_def)
  then have "isl (create_quote_body d env subject key req record s)"
    using none by (auto simp: create_quote_body_def create_quote_new_def exec_def result_bind_def Let_def split: sum.splits)
  then show ?thesis by (auto simp: create_quote_def transact_def split: sum.splits)
qed

text \<open>C38: the service and the database disagree on keys: an idempotency key the service accepts satisfies the schema's
  check exactly when it contains no slash; with a key that does, every submission in database mode fails,
  whatever else it carries, and leaves the store as it was.\<close>

theorem slash_key_refused:
  assumes "required_idempotency_key headers = Inr key" and "ap_database st = Some s"
    and "list_all (\<lambda>r. schema_key_check (op_key r)) (operations s)"
  shows "(schema_key_check key \<longleftrightarrow> CHR ''/'' \<notin> set key) \<and>
     (CHR ''/'' \<in> set key \<longrightarrow>
       (\<exists>e st'. create_quote_handler env headers payload st = (Inl e, st') \<and> ap_database st' = Some s))"
proof -
  have iff: "schema_key_check key \<longleftrightarrow> CHR ''/'' \<notin> set key"
    using required_key_valid [OF assms(1)] by (rule schema_key_check_iff)
  have refused: "\<exists>e. create_quote d senv subject key req rec s = (Inl e, s)" if "CHR ''/'' \<in> set key" for d senv subject req rec
    using create_quote_refused_key [OF _ assms(3)] iff that by blast
  have db: "admit env st subject = (r, st1) \<Longrightarrow> ap_database st1 = Some s" for r subject st1
    using assms(2) by (auto simp: admit_def split: if_splits prod.splits sum.splits)
  have decide: "\<exists>e st2. create_decide env st1 subject key req j = (Inl e, st2) \<and> ap_database st2 = Some s"
    if slash: "CHR ''/'' \<in> set key" and st1: "ap_database st1 = Some s" for st1 subject req j
  proof (cases "now_rfc3339 env")
    case (Inl e)
    then show ?thesis using st1 by (simp add: create_decide_def)
  next
    case (Inr t)
    obtain e where "create_quote (ce_faults env) (ce_store_env env) subject key req
        (new_record st1 (ce_new_uuid env) subject (wire req) t) s = (Inl e, s)"
      using refused [OF slash] by blast
    then show ?thesis using st1 Inr by (simp add: create_decide_def)
  qed
  have decided: "isl r \<and> ap_database st2 = Some s"
    if "CHR ''/'' \<in> set key" and "create_decide env st1 subject key req j = (r, st2)" and "ap_database st1 = Some s"
    for st1 subject req j r st2
    using decide [OF that(1,3), of subject req j] that(2) by auto
  show ?thesis
  proof (intro conjI impI iff)
    assume slash: "CHR ''/'' \<in> set key"
    show "\<exists>e st'. create_quote_handler env headers payload st = (Inl e, st') \<and> ap_database st' = Some s"
      using assms(1,2) unfolding create_quote_handler_def
      by (auto split: sum.splits prod.splits option.splits dest!: db decided [OF slash] simp: release_permit_def)
  qed
qed

text \<open>An authenticated submission with a slash in its key, against a healthy database.\<close>

definition slash_headers :: header_map where
  "slash_headers = [ascii_header ''x-canonical-internal-token'' ''tok'', ascii_header ''x-canonical-subject'' ''alice'',
     ascii_header ''idempotency-key'' ''orders/1'']"

definition slash_state :: app_state where
  "slash_state = app_state_new \<lparr>internal_auth_token = ''tok'', shared_audience = None\<rparr> ''m'' (Some example_store) False False"

theorem slash_key_refused_witness:
  "authenticate (ce_introspect example_call) slash_headers (ap_auth slash_state) [''quotes:write''] = Inr ''alice'' \<and>
   required_idempotency_key slash_headers = Inr ''orders/1'' \<and>
   (\<exists>e st'. create_quote_handler example_call slash_headers JNull slash_state = (Inl e, st') \<and> ap_database st' = Some example_store)"
proof (intro conjI)
  have t: "trim ''alice'' = ''alice''" "trim ''orders/1'' = ''orders/1''" by (rule trim_graphic; simp add: is_ascii_graphic_def)+
  show "authenticate (ce_introspect example_call) slash_headers (ap_auth slash_state) [''quotes:write''] = Inr ''alice''"
    by (simp add: authenticate_def slash_headers_def slash_state_def app_state_new_def header_str_def header_get_def
        ascii_header_def valid_subject_def t ascii_defs)
  show key: "required_idempotency_key slash_headers = Inr ''orders/1''"
    by (simp add: required_idempotency_key_def slash_headers_def header_str_def header_get_def ascii_header_def t
        valid_idempotency_key_def ascii_defs)
  show "\<exists>e st'. create_quote_handler example_call slash_headers JNull slash_state = (Inl e, st') \<and> ap_database st' = Some example_store"
    using slash_key_refused [OF key, of slash_state example_store example_call JNull]
    by (simp add: slash_state_def app_state_new_def example_store_def empty_store_def)
qed

end
